(* ===== verification/Prelude.thy ===== *)
theory Prelude
  imports Main "HOL-Library.Word" "HOL-Library.AList" "HOL-Library.Monad_Syntax"
    "HOL-Library.List_Lexorder" "HOL-Library.Code_Target_Numeral"
begin

text \<open>
  What every component of the development shares: the machine integer types of the Go code,
  the error values, the early-return plumbing, Go slices with their bounds checks, Go maps
  as association lists, big-endian encoding and hexadecimal strings.

  Conventions.
  \<^item> \<open>uint8\<close>, \<open>uint32\<close>, \<open>uint64\<close> and \<open>uint\<close> are words of their width; \<open>int32\<close>, \<open>int64\<close> and
    \<open>int\<close> are mathematical integers, with the truncation written out (\<open>int32\<close>) wherever the
    code converts to a narrower signed type or computes in it.
  \<^item> A function of the Go code that returns an error has a result of type \<open>'a res\<close>; a run-time
    panic (index out of range, slice out of range, nil map) is the error value \<open>Panic\<close>.
    A decoder whose only failure is a panic returns \<open>'a option\<close>, with \<open>None\<close> for the panic.
  \<^item> A slice is a list whose capacity is its length: the decoders work on buffers owned by
    the database, which have no spare capacity.
  \<^item> A Go map is an association list with distinct keys, written with \<open>AList.update\<close> and
    read with \<open>map_of\<close>. Its order is the insertion order; the Go iteration order is not
    specified, and no property depends on the order.
\<close>

unbundle bit_operations_syntax

named_theorems res_simps \<open>rewriting of the result monad\<close>

type_synonym byte = "8 word"
type_synonym bytes = "byte list"
type_synonym uint32 = "32 word"
type_synonym uint64 = "64 word"

section \<open>Errors and results\<close>

datatype error =
    ErrTxidMissing
  | ErrAddressMissing
  | ErrBlockNotFound
  | ErrHex
  | ErrDb
  | StopIteration
  | ErrMsg string
  | Panic

type_synonym 'a res = "error + 'a"

definition bindR :: "'a res \<Rightarrow> ('a \<Rightarrow> 'b res) \<Rightarrow> 'b res" where
  "bindR r f = (case r of Inl e \<Rightarrow> Inl e | Inr x \<Rightarrow> f x)"

definition of_panic :: "'a option \<Rightarrow> 'a res" where
  "of_panic x = (case x of None \<Rightarrow> Inl Panic | Some v \<Rightarrow> Inr v)"

text \<open>A loop over a slice whose body may return early with an error.\<close>

fun foldR :: "('a \<Rightarrow> 's \<Rightarrow> 's res) \<Rightarrow> 'a list \<Rightarrow> 's \<Rightarrow> 's res" where
  "foldR f [] s = Inr s"
| "foldR f (x # xs) s = bindR (f x s) (foldR f xs)"

fun mapR :: "('a \<Rightarrow> 'b res) \<Rightarrow> 'a list \<Rightarrow> 'b list res" where
  "mapR f [] = Inr []"
| "mapR f (x # xs) = bindR (f x) (\<lambda>y. bindR (mapR f xs) (\<lambda>ys. Inr (y # ys)))"

section \<open>Signed integers of 32 bits\<close>

definition int32 :: "int \<Rightarrow> int" where
  "int32 i = signed_take_bit 31 i"

definition is_int32 :: "int \<Rightarrow> bool" where
  "is_int32 i \<longleftrightarrow> - (2 ^ 31) \<le> i \<and> i < 2 ^ 31"

section \<open>Slices\<close>

text \<open>\<open>buf[i:]\<close>, \<open>buf[i:j]\<close> and \<open>buf[i]\<close>.\<close>

definition slice_from :: "'a list \<Rightarrow> int \<Rightarrow> 'a list option" where
  "slice_from xs i = (if 0 \<le> i \<and> i \<le> int (length xs) then Some (drop (nat i) xs) else None)"

definition slice :: "'a list \<Rightarrow> int \<Rightarrow> int \<Rightarrow> 'a list option" where
  "slice xs i j =
     (if 0 \<le> i \<and> i \<le> j \<and> j \<le> int (length xs) then Some (take (nat (j - i)) (drop (nat i) xs))
      else None)"

definition index :: "'a list \<Rightarrow> int \<Rightarrow> 'a option" where
  "index xs i = (if 0 \<le> i \<and> i < int (length xs) then Some (xs ! nat i) else None)"

section \<open>Big-endian encoding\<close>

text \<open>
  The loop \<open>for i := n; i > 0; i-- { buf[i] = byte(w); w >>= 8 }\<close>: the low \<open>n\<close> bytes of \<open>w\<close>, the
  most significant one first.
\<close>

fun put_be :: "nat \<Rightarrow> 'w::len word \<Rightarrow> bytes" where
  "put_be 0 w = []"
| "put_be (Suc n) w = put_be n (drop_bit 8 w) @ [ucast w]"

definition be_nat :: "bytes \<Rightarrow> nat" where
  "be_nat bs = foldl (\<lambda>a b. a * 256 + unat b) 0 bs"

section \<open>Hexadecimal strings\<close>

definition hex_digit :: "nat \<Rightarrow> char" where
  "hex_digit n = ''0123456789abcdef'' ! n"

definition hex_val :: "char \<Rightarrow> nat option" where
  "hex_val c =
     (let n = of_char c :: nat in
      if 48 \<le> n \<and> n \<le> 57 then Some (n - 48)
      else if 97 \<le> n \<and> n \<le> 102 then Some (n - 87)
      else if 65 \<le> n \<and> n \<le> 70 then Some (n - 55)
      else None)"

fun hex_encode :: "bytes \<Rightarrow> string" where
  "hex_encode [] = []"
| "hex_encode (b # bs) = hex_digit (unat b div 16) # hex_digit (unat b mod 16) # hex_encode bs"

fun hex_decode :: "string \<Rightarrow> bytes res" where
  "hex_decode [] = Inr []"
| "hex_decode [c] = Inl ErrHex"
| "hex_decode (c # d # cs) =
     (case (hex_val c, hex_val d) of
        (Some h, Some l) \<Rightarrow> bindR (hex_decode cs) (\<lambda>bs. Inr (of_nat (h * 16 + l) # bs))
      | _ \<Rightarrow> Inl ErrHex)"

text \<open>\<open>hex.DecodeString\<close> with its error ignored: the bytes decoded before the error.\<close>

fun hex_decode_prefix :: "string \<Rightarrow> bytes" where
  "hex_decode_prefix (c # d # cs) =
     (case (hex_val c, hex_val d) of
        (Some h, Some l) \<Rightarrow> of_nat (h * 16 + l) # hex_decode_prefix cs
      | _ \<Rightarrow> [])"
| "hex_decode_prefix cs = []"

section \<open>Lemmas on results\<close>

lemma bindR_simps [simp, res_simps]:
  "bindR (Inl e) f = Inl e" "bindR (Inr x) f = f x"
  by (simp_all add: bindR_def)

lemma of_panic_simps [simp, res_simps]:
  "of_panic None = Inl Panic" "of_panic (Some v) = Inr v"
  by (simp_all add: of_panic_def)

lemma bindR_eq_Inr [res_simps]: "bindR r f = Inr y \<longleftrightarrow> (\<exists>x. r = Inr x \<and> f x = Inr y)"
  by (cases r) auto

lemma bindR_Inr_right [simp]: "bindR r Inr = r"
  by (cases r) simp_all

lemma bindR_assoc: "bindR (bindR r f) g = bindR r (\<lambda>x. bindR (f x) g)"
  by (cases r) simp_all

lemma foldR_append: "foldR f (xs @ ys) s = bindR (foldR f xs s) (foldR f ys)"
proof (induction xs arbitrary: s)
  case (Cons x xs)
  show ?case by (cases "f x s") (simp_all add: Cons.IH)
qed simp

text \<open>An invariant of the loop body is an invariant of the loop.\<close>

lemma foldR_invariant:
  assumes "foldR f xs s = Inr t" and "I s"
    and "\<And>x s t. x \<in> set xs \<Longrightarrow> I s \<Longrightarrow> f x s = Inr t \<Longrightarrow> I t"
  shows "I t"
  using assms
proof (induction xs arbitrary: s)
  case (Cons x xs)
  from Cons.prems(1) obtain u where u: "f x s = Inr u" and rest: "foldR f xs u = Inr t"
    by (auto simp: bindR_eq_Inr)
  have "I u" by (rule Cons.prems(3) [OF _ Cons.prems(2) u]) simp
  then show ?case
    by (rule Cons.IH [OF rest]) (auto intro: Cons.prems(3))
qed simp

lemma mapR_length: "mapR f xs = Inr ys \<Longrightarrow> length ys = length xs"
  by (induction xs arbitrary: ys) (auto simp: bindR_eq_Inr)

lemma mapR_eq_map: "(\<And>x. x \<in> set xs \<Longrightarrow> f x = Inr (g x)) \<Longrightarrow> mapR f xs = Inr (map g xs)"
  by (induction xs) auto

section \<open>Lemmas on slices\<close>

lemma slice_from_append [simp]:
  "slice_from (xs @ ys) (int (length xs)) = Some ys"
  by (simp add: slice_from_def)

lemma slice_from_append_gen: "n = int (length xs) \<Longrightarrow> slice_from (xs @ ys) n = Some ys"
  by simp

lemma slice_from_0 [simp]: "slice_from xs 0 = Some xs"
  by (simp add: slice_from_def)

lemma slice_from_Cons_1 [simp]: "slice_from (x # xs) 1 = Some xs"
  by (simp add: slice_from_def)

lemma slice_from_eq_Some:
  "slice_from xs i = Some ys \<longleftrightarrow> 0 \<le> i \<and> i \<le> int (length xs) \<and> ys = drop (nat i) xs"
  by (auto simp: slice_from_def)

lemma slice_middle: "slice (xs @ ys @ zs) (int (length xs)) (int (length xs) + int (length ys)) = Some ys"
  by (simp add: slice_def)

lemma slice_prefix [simp]: "slice (xs @ ys) 0 (int (length xs)) = Some xs"
  by (simp add: slice_def)

lemma slice_eq_Some:
  "slice xs i j = Some ys \<longleftrightarrow>
     0 \<le> i \<and> i \<le> j \<and> j \<le> int (length xs) \<and> ys = take (nat (j - i)) (drop (nat i) xs)"
  by (auto simp: slice_def)

lemma index_eq_Some: "index xs i = Some x \<longleftrightarrow> 0 \<le> i \<and> i < int (length xs) \<and> x = xs ! nat i"
  by (auto simp: index_def)

lemma index_Cons_0 [simp]: "index (x # xs) 0 = Some x"
  by (simp add: index_def)

lemma index_Nil [simp]: "index [] i = None"
  by (simp add: index_def)

section \<open>Lemmas on integers\<close>

lemma int32_id: "is_int32 i \<Longrightarrow> int32 i = i"
  by (simp add: int32_def is_int32_def signed_take_bit_int_eq_self)

lemma is_int32_int32 [simp]: "is_int32 (int32 i)"
  using signed_take_bit_int_less_exp [of 31 i] signed_take_bit_int_greater_eq_minus_exp [of 31 i]
  by (simp add: int32_def is_int32_def)

lemma length_put_be [simp]: "length (put_be n w) = n"
  by (induction n arbitrary: w) simp_all

lemma be_nat_Nil [simp]: "be_nat [] = 0"
  by (simp add: be_nat_def)

lemma be_nat_snoc [simp]: "be_nat (bs @ [b]) = be_nat bs * 256 + unat b"
  by (simp add: be_nat_def)

lemma be_nat_append: "be_nat (bs @ cs) = be_nat bs * 256 ^ length cs + be_nat cs"
proof (induction cs rule: rev_induct)
  case (snoc c cs)
  have "be_nat (bs @ cs @ [c]) = be_nat (bs @ cs) * 256 + unat c"
    using be_nat_snoc [of "bs @ cs" c] by simp
  with snoc show ?case by (simp add: algebra_simps)
qed simp

lemma be_nat_Cons: "be_nat (b # bs) = unat b * 256 ^ length bs + be_nat bs"
  using be_nat_append [of "[b]" bs] be_nat_snoc [of "[]" b] by simp

lemma be_nat_less: "be_nat bs < 256 ^ length bs"
proof (induction bs rule: rev_induct)
  case (snoc b bs)
  have "unat b < 256" using unsigned_less [of b] by simp
  with snoc have "be_nat bs * 256 + unat b < 256 * 256 ^ length bs" by linarith
  then show ?case by simp
qed simp

lemma unat_ucast_byte: "unat (ucast (w :: 'w::len word) :: byte) = unat w mod 256"
  by (simp add: unsigned_ucast_eq take_bit_eq_mod)

lemma be_nat_put_be: "be_nat (put_be n (w :: 'w::len word)) = unat w mod 256 ^ n"
proof (induction n arbitrary: w)
  case (Suc n)
  have "unat (drop_bit 8 w) = unat w div 256"
    by (simp only: unat_drop_bit_eq) (simp add: drop_bit_eq_div)
  then have "be_nat (put_be (Suc n) w) = (unat w div 256) mod 256 ^ n * 256 + unat w mod 256"
    by (simp add: Suc unat_ucast_byte)
  also have "\<dots> = unat w mod (256 * 256 ^ n)"
    by (simp add: mod_mult2_eq mult.commute)
  finally show ?case by simp
qed simp

text \<open>Big-endian encodings of one length compare like the numbers they encode.\<close>

lemma be_nat_less_iff:
  "length xs = length ys \<Longrightarrow> (xs :: bytes) < ys \<longleftrightarrow> be_nat xs < be_nat ys"
proof (induction xs ys rule: list_induct2)
  case (Cons x xs y ys)
  show ?case
  proof (cases x y rule: linorder_cases)
    case less
    then have "(unat x + 1) * 256 ^ length ys \<le> unat y * 256 ^ length ys"
      by (intro mult_right_mono) (simp_all add: word_less_nat_alt)
    with less be_nat_less [of xs] Cons.hyps show ?thesis
      by (simp add: be_nat_Cons)
  next
    case equal
    with Cons show ?thesis by (simp add: be_nat_Cons)
  next
    case greater
    then have "(unat y + 1) * 256 ^ length ys \<le> unat x * 256 ^ length ys"
      by (intro mult_right_mono) (simp_all add: word_less_nat_alt)
    with greater be_nat_less [of ys] Cons.hyps show ?thesis
      by (auto simp: be_nat_Cons)
  qed
qed simp

lemma append_less_append_iff: "(zs @ xs :: bytes) < zs @ ys \<longleftrightarrow> xs < ys"
  by (induction zs) simp_all

section \<open>Lemmas on hexadecimal strings\<close>

lemma hex_val_digit: "n < 16 \<Longrightarrow> hex_val (hex_digit n) = Some n"
proof -
  assume "n < 16"
  then have "n \<in> set [0..<16]" by simp
  moreover have "\<forall>n \<in> set [0..<16]. hex_val (hex_digit n) = Some n"
    by code_simp
  ultimately show ?thesis by blast
qed

lemma hex_decode_encode [simp]: "hex_decode (hex_encode bs) = Inr bs"
proof (induction bs)
  case (Cons b bs)
  have "unat b < 256" using unsigned_less [of b] by simp
  then have "hex_val (hex_digit (unat b div 16)) = Some (unat b div 16)"
    and "hex_val (hex_digit (unat b mod 16)) = Some (unat b mod 16)"
    by (simp_all add: hex_val_digit)
  moreover have "of_nat (unat b div 16 * 16 + unat b mod 16) = b"
    by (simp only: div_mult_mod_eq) simp
  ultimately show ?case by (simp add: Cons.IH)
qed simp

lemma hex_encode_eq_Nil [simp]: "hex_encode bs = [] \<longleftrightarrow> bs = []"
  by (cases bs) simp_all

section \<open>Lemmas on maps\<close>

lemma map_of_update [simp]: "map_of (AList.update k v m) = (map_of m)(k \<mapsto> v)"
  by (rule update_conv')

lemma distinct_update [simp]:
  "distinct (map fst m) \<Longrightarrow> distinct (map fst (AList.update k v m))"
  by (rule distinct_update)

end
