(* ===== verification/Codec.thy ===== *)
theory Codec
  imports Prelude
begin

text \<open>
  The packing helpers at the end of \<open>src/db/rocksdb.go\<close>, on which every row format of the
  database is built, and the interface the row formats are verified against.

  The variable-length integers come from the package \<open>go-vlq\<close>, whose source is not part of the
  repository. It is a parameter: a record of its four functions, with \<open>vlq_ok\<close> stating what the
  package documents (decoding returns the number encoded and the number of bytes it takes, whatever
  follows them). A function of the code that packs into a scratch buffer and returns the number of
  bytes written is the function that returns the bytes written.

  The locale \<open>codec\<close> is the contract of a pair of pack and unpack functions; its instances below
  are the helpers, and the row formats of the other theories are further instances.
\<close>

section \<open>The library of variable-length integers\<close>

record vlq_lib =
  vlq_PutUint :: "uint64 \<Rightarrow> bytes"
  vlq_Uint :: "bytes \<Rightarrow> uint64 \<times> int"
  vlq_PutInt :: "int \<Rightarrow> bytes"
  vlq_Int :: "bytes \<Rightarrow> int \<times> int"

definition vlq_ok :: "vlq_lib \<Rightarrow> bool" where
  "vlq_ok v \<longleftrightarrow>
     (\<forall>x rest. vlq_Uint v (vlq_PutUint v x @ rest) = (x, int (length (vlq_PutUint v x)))) \<and>
     (\<forall>i rest. is_int32 i \<longrightarrow>
        vlq_Int v (vlq_PutInt v i @ rest) = (i, int (length (vlq_PutInt v i)))) \<and>
     (\<forall>x. vlq_PutUint v x \<noteq> []) \<and> (\<forall>i. vlq_PutInt v i \<noteq> [])"

section \<open>Integers\<close>

definition packUint :: "uint32 \<Rightarrow> bytes" where
  "packUint i = put_be 4 i"

text \<open>\<open>binary.BigEndian.Uint32\<close> reads the first four bytes and panics on a shorter buffer.\<close>

definition unpackUint :: "bytes \<Rightarrow> uint32 option" where
  "unpackUint buf = (if 4 \<le> length buf then Some (of_nat (be_nat (take 4 buf))) else None)"

definition packVarint32 :: "vlq_lib \<Rightarrow> int \<Rightarrow> bytes" where
  "packVarint32 v i = vlq_PutInt v i"

definition packVarint :: "vlq_lib \<Rightarrow> int \<Rightarrow> bytes" where
  "packVarint v i = vlq_PutInt v i"

definition packVaruint :: "vlq_lib \<Rightarrow> uint64 \<Rightarrow> bytes" where
  "packVaruint v i = vlq_PutUint v i"

definition packVaruint64 :: "vlq_lib \<Rightarrow> uint64 \<Rightarrow> bytes" where
  "packVaruint64 v i = vlq_PutUint v i"

definition unpackVarint32 :: "vlq_lib \<Rightarrow> bytes \<Rightarrow> int \<times> int" where
  "unpackVarint32 v buf = (let (i, ofs) = vlq_Int v buf in (int32 i, ofs))"

definition unpackVarint :: "vlq_lib \<Rightarrow> bytes \<Rightarrow> int \<times> int" where
  "unpackVarint v buf = vlq_Int v buf"

definition unpackVaruint :: "vlq_lib \<Rightarrow> bytes \<Rightarrow> uint64 \<times> int" where
  "unpackVaruint v buf = vlq_Uint v buf"

definition unpackVaruint64 :: "vlq_lib \<Rightarrow> bytes \<Rightarrow> uint64 \<times> int" where
  "unpackVaruint64 v buf = vlq_Uint v buf"

section \<open>Keys of the column addresses\<close>

definition packedHeightBytes :: nat where
  "packedHeightBytes = 4"

definition packAddressKey :: "bytes \<Rightarrow> uint32 \<Rightarrow> bytes" where
  "packAddressKey addrDesc height = addrDesc @ put_be 4 (NOT height)"

definition unpackAddressKey :: "bytes \<Rightarrow> (bytes \<times> uint32) res" where
  "unpackAddressKey key =
     (let i = int (length key) - int packedHeightBytes in
      if i \<le> 0 then Inl (ErrMsg ''Invalid address key'')
      else of_panic (do {
        a \<leftarrow> slice key 0 i;
        hb \<leftarrow> slice key i (i + int packedHeightBytes);
        h \<leftarrow> unpackUint hb;
        Some (a, NOT h)
      }))"

section \<open>Byte strings\<close>

definition packVarBytes :: "vlq_lib \<Rightarrow> bytes \<Rightarrow> bytes" where
  "packVarBytes v value = packVaruint v (of_nat (length value)) @ value"

definition unpackVarBytes :: "vlq_lib \<Rightarrow> bytes \<Rightarrow> (bytes \<times> int) option" where
  "unpackVarBytes v buf =
     (let (l, ll) = unpackVaruint v buf in do {
        s \<leftarrow> slice buf ll (ll + sint l);
        Some (s, ll + sint l)
      })"

definition packString :: "vlq_lib \<Rightarrow> bytes \<Rightarrow> bytes" where
  "packString v s = packVaruint v (of_nat (length s)) @ s"

definition unpackStringBytes :: "vlq_lib \<Rightarrow> bytes \<Rightarrow> (bytes \<times> int) option" where
  "unpackStringBytes v buf =
     (let (sl, l) = unpackVaruint v buf; so = l + sint sl in do {
        s \<leftarrow> slice buf l so;
        Some (s, so)
      })"

definition unpackString :: "vlq_lib \<Rightarrow> bytes \<Rightarrow> (bytes \<times> int) option" where
  "unpackString v buf = unpackStringBytes v buf"

section \<open>Big integers\<close>

text \<open>\<open>big.Int.Bits\<close>: the words of the absolute value, least significant first, with no zero
  word at the end.\<close>

fun nat_words :: "nat \<Rightarrow> uint64 list" where
  "nat_words n = (if n = 0 then [] else of_nat n # nat_words (n div 2 ^ 64))"

declare nat_words.simps [simp del]

definition big_bits :: "int \<Rightarrow> uint64 list" where
  "big_bits x = nat_words (nat \<bar>x\<bar>)"

definition maxPackedBigintWords :: nat where
  "maxPackedBigintWords = (256 - 8) div 8"

text \<open>
  The loop \<open>for w0&mask == 0 { fb--; mask >>= 8 }\<close>. It ends for every word but zero, and the most
  significant word of a number is not zero; the counter \<open>fb\<close> is the recursion argument.
\<close>

fun skip_zeros :: "uint64 \<Rightarrow> uint64 \<Rightarrow> nat \<Rightarrow> nat" where
  "skip_zeros w0 msk 0 = 0"
| "skip_zeros w0 msk (Suc fb) =
     (if w0 AND msk = 0 then skip_zeros w0 (drop_bit 8 msk) fb else Suc fb)"

definition packBigint :: "int \<Rightarrow> bytes" where
  "packBigint bi =
     (let w = big_bits bi; lw = length w in
      if lw = 0 then [0]
      else
        let w0 = w ! (lw - 1);
            fb = skip_zeros w0 (push_bit (64 - 8) 0xff) 8;
            s = (if lw > maxPackedBigintWords then lw - maxPackedBigintWords else 0);
            ds = rev (drop s (take (lw - 1) w))
        in of_nat (fb + 8 * length ds) # put_be fb w0 @ concat (map (put_be 8) ds))"

definition packedBigintLen :: "bytes \<Rightarrow> int option" where
  "packedBigintLen buf = do { b \<leftarrow> index buf 0; Some (int (unat b) + 1) }"

definition unpackBigint :: "bytes \<Rightarrow> (int \<times> int) option" where
  "unpackBigint buf = do {
     b \<leftarrow> index buf 0;
     let l = int (unat b) + 1;
     s \<leftarrow> slice buf 1 l;
     Some (int (be_nat s), l)
   }"

section \<open>Asset information of an input or output\<close>

record AssetInfo =
  ai_AssetGuid :: uint64
  ai_ValueSat :: "int option"

definition appendAssetInfo :: "vlq_lib \<Rightarrow> AssetInfo option \<Rightarrow> bytes" where
  "appendAssetInfo v assetInfo =
     (case assetInfo of
        None \<Rightarrow> packVaruint v 0
      | Some a \<Rightarrow>
          packVaruint v 1 @ packVaruint64 v (ai_AssetGuid a) @
          packBigint (case ai_ValueSat a of None \<Rightarrow> 0 | Some x \<Rightarrow> x))"

definition unpackAssetInfo :: "vlq_lib \<Rightarrow> bytes \<Rightarrow> (AssetInfo option \<times> int) option" where
  "unpackAssetInfo v buf =
     (let (flag, l) = unpackVaruint v buf in
      if flag = 0 then Some (None, l)
      else do {
        b \<leftarrow> slice_from buf l;
        let (assetGuid, ll) = unpackVaruint64 v b;
        let l = l + ll;
        b \<leftarrow> slice_from buf l;
        (valueSat, ll) \<leftarrow> unpackBigint b;
        let l = l + ll;
        Some (Some \<lparr>ai_AssetGuid = assetGuid, ai_ValueSat = Some valueSat\<rparr>, l)
      })"

definition packedAssetInfoLen :: "vlq_lib \<Rightarrow> bytes \<Rightarrow> int option" where
  "packedAssetInfoLen v buf =
     (let (flag, pos) = unpackVaruint v buf in
      if flag \<noteq> 0 then do {
        b \<leftarrow> slice_from buf pos;
        let (_, n) = unpackVaruint64 v b;
        let pos = pos + n;
        b \<leftarrow> index buf pos;
        Some (pos + (int (unat b) + 1))
      }
      else Some pos)"

section \<open>Loops over packed elements\<close>

text \<open>
  The loop \<open>for i := 0; i < n; i++ { x, ll := unpack(buf[l:]); l += ll; xs = append(xs, x) }\<close>, and
  the loop that only skips the elements.
\<close>

fun unpack_n :: "(bytes \<Rightarrow> ('a \<times> int) option) \<Rightarrow> nat \<Rightarrow> bytes \<Rightarrow> int \<Rightarrow> ('a list \<times> int) option" where
  "unpack_n u 0 buf l = Some ([], l)"
| "unpack_n u (Suc n) buf l = do {
     b \<leftarrow> slice_from buf l;
     (x, ll) \<leftarrow> u b;
     (xs, l') \<leftarrow> unpack_n u n buf (l + ll);
     Some (x # xs, l')
   }"

fun skip_n :: "(bytes \<Rightarrow> int option) \<Rightarrow> nat \<Rightarrow> bytes \<Rightarrow> int \<Rightarrow> int option" where
  "skip_n k 0 buf l = Some l"
| "skip_n k (Suc n) buf l = do {
     b \<leftarrow> slice_from buf l;
     ll \<leftarrow> k b;
     skip_n k n buf (l + ll)
   }"

section \<open>The contract of a pair of pack and unpack functions\<close>

text \<open>
  \<open>unpack\<close> at the front of a buffer returns the value packed there, in the canonical form in which
  the row format stores it, and the number of bytes it takes, whatever bytes follow.
\<close>

locale codec =
  fixes pack :: "'a \<Rightarrow> bytes"
    and unpack :: "bytes \<Rightarrow> ('a \<times> int) option"
    and valid :: "'a \<Rightarrow> bool"
    and canon :: "'a \<Rightarrow> 'a"
  assumes unpack_pack:
    "valid x \<Longrightarrow> unpack (pack x @ rest) = Some (canon x, int (length (pack x)))"
begin

lemma unpack_n_pack:
  "(\<And>x. x \<in> set xs \<Longrightarrow> valid x) \<Longrightarrow>
   unpack_n unpack (length xs) (pre @ concat (map pack xs) @ rest) (int (length pre)) =
     Some (map canon xs, int (length pre) + int (length (concat (map pack xs))))"
proof (induction xs arbitrary: pre)
  case (Cons x xs)
  have "unpack_n unpack (length xs) ((pre @ pack x) @ concat (map pack xs) @ rest)
          (int (length (pre @ pack x))) =
        Some (map canon xs, int (length (pre @ pack x)) + int (length (concat (map pack xs))))"
    by (rule Cons.IH) (simp add: Cons.prems)
  with Cons.prems show ?case by (simp add: unpack_pack)
qed simp

lemma pack_append_canon:
  "valid x \<Longrightarrow> valid y \<Longrightarrow> pack x @ r = pack y @ s \<Longrightarrow> canon x = canon y \<and> r = s"
  using unpack_pack [of x r] unpack_pack [of y s] by (auto simp: append_eq_append_conv)

end

text \<open>A format that stores every valid value as it is: no value is a prefix of another.\<close>

locale exact_codec = codec +
  assumes canon_id: "valid x \<Longrightarrow> canon x = x"
begin

lemma prefix_free: "valid x \<Longrightarrow> valid y \<Longrightarrow> pack x @ r = pack y @ s \<Longrightarrow> x = y \<and> r = s"
  using pack_append_canon [of x y r s] by (simp add: canon_id)

lemma pack_inj: "valid x \<Longrightarrow> valid y \<Longrightarrow> pack x = pack y \<Longrightarrow> x = y"
  using prefix_free [of x y "[]" "[]"] by simp

end

text \<open>A format with a function that skips a packed value without decoding it.\<close>

locale skipping_codec = codec +
  fixes packed_len :: "bytes \<Rightarrow> int option"
  assumes packed_len_pack: "valid x \<Longrightarrow> packed_len (pack x @ rest) = Some (int (length (pack x)))"
begin

lemma skip_n_pack:
  "(\<And>x. x \<in> set xs \<Longrightarrow> valid x) \<Longrightarrow>
   skip_n packed_len (length xs) (pre @ concat (map pack xs) @ rest) (int (length pre)) =
     Some (int (length pre) + int (length (concat (map pack xs))))"
proof (induction xs arbitrary: pre)
  case (Cons x xs)
  have "skip_n packed_len (length xs) ((pre @ pack x) @ concat (map pack xs) @ rest)
          (int (length (pre @ pack x))) =
        Some (int (length (pre @ pack x)) + int (length (concat (map pack xs))))"
    by (rule Cons.IH) (simp add: Cons.prems)
  with Cons.prems show ?case by (simp add: packed_len_pack)
qed simp

end

end
