(* ===== verification/Bchain.thy ===== *)
theory Bchain
  imports Codec
begin

text \<open>
  The data that a block chain back end delivers (\<open>src/bchain/types.go\<close>), the interface of a coin's
  parser as the index uses it, and the part of that interface that the base parser implements
  (\<open>src/bchain/baseparser.go\<close>).

  A coin's parser is a Go interface value: here a record of functions. Methods that a coin
  implements with third-party script and address libraries stay functions of the record; the
  methods of \<open>BaseParser\<close> are definitions. A method that returns a value and an error has the result
  type \<open>res\<close>; where the code ignores the error, the value of a failing method is the zero value, as
  in every implementation of the repository.
\<close>

section \<open>Blocks and transactions\<close>

record Vin =
  vin_Coinbase :: string
  vin_Txid :: string
  vin_Vout :: uint32
  vin_ScriptSigHex :: string
  vin_Sequence :: uint32
  vin_Addresses :: "string list"
  vin_Witness :: "bytes list"

record Vout =
  vout_ValueSat :: int
  vout_JsonValue :: string
  vout_N :: uint32
  vout_ScriptPubKeyHex :: string
  vout_ScriptPubKeyAddresses :: "string list"
  vout_AssetInfo :: "AssetInfo option"

record Tx =
  tx_Hex :: string
  tx_Txid :: string
  tx_Version :: int
  tx_LockTime :: uint32
  tx_VSize :: int
  tx_Vin :: "Vin list"
  tx_Vout :: "Vout list"
  tx_BlockHeight :: uint32
  tx_Confirmations :: uint32
  tx_Time :: int
  tx_Blocktime :: int
  tx_Memo :: bytes

record Block =
  block_Hash :: string
  block_Prev :: string
  block_Next :: string
  block_Height :: uint32
  block_Confirmations :: int
  block_Size :: int
  block_Time :: int
  block_Txs :: "Tx list"

record Outpoint =
  op_Txid :: string
  op_Vout :: int

section \<open>Syscoin platform tokens\<close>

text \<open>The fields of the wire type of an asset that the index reads or writes.\<close>

record AssetType =
  at_Contract :: bytes
  at_Symbol :: bytes
  at_Precision :: byte
  at_TotalSupply :: int
  at_MaxSupply :: int

record Asset =
  asset_Transactions :: uint32
  asset_AssetObj :: AssetType
  asset_MetaData :: bytes

record AssetBalance =
  ab_Transfers :: uint32
  ab_AssetBalanceSat :: int
  ab_AssetSentSat :: int

record TxAssetIndex =
  tai_Type :: uint32
  tai_BtxID :: bytes

record TxAsset =
  ta_AssetHeight :: uint32
  ta_AssetTxs :: "TxAssetIndex list"

record TxAssetAddressIndex =
  taa_AddrDesc :: bytes
  taa_BtxID :: bytes

section \<open>The interface of a parser\<close>

datatype ChainType = ChainBitcoinType | ChainEthereumType

record syscoinAssetParser =
  sp_PackAssetKey :: "uint64 \<Rightarrow> uint32 \<Rightarrow> bytes"
  sp_UnpackAssetKey :: "bytes \<Rightarrow> (uint64 \<times> uint32) option"
  sp_PackAssetTxIndex :: "TxAsset \<Rightarrow> bytes"
  sp_UnpackAssetTxIndex :: "bytes \<Rightarrow> TxAssetIndex list option"
  sp_PackAsset :: "Asset \<Rightarrow> bytes res"
  sp_UnpackAsset :: "bytes \<Rightarrow> Asset res"
  sp_GetAssetsMaskFromVersion :: "int \<Rightarrow> uint32"

record BlockChainParser =
  p_GetChainType :: ChainType
  p_KeepBlockAddresses :: int
  p_UseAddressAliases :: bool
  p_GetAddrDescFromVout :: "Vout \<Rightarrow> bytes res"
  p_GetAddrDescFromAddress :: "string \<Rightarrow> bytes res"
  p_GetAddressesFromAddrDesc :: "bytes \<Rightarrow> (string list \<times> bool) res"
  p_IsAddrDescIndexable :: "bytes \<Rightarrow> bool"
  p_PackedTxidLen :: int
  p_PackTxid :: "string \<Rightarrow> bytes res"
  p_UnpackTxid :: "bytes \<Rightarrow> string res"
  p_PackTx :: "Tx \<Rightarrow> uint32 \<Rightarrow> int \<Rightarrow> bytes res"
  p_UnpackTx :: "bytes \<Rightarrow> (Tx \<times> uint32) res"
  p_GetAddrDescForUnknownInput :: "Tx \<Rightarrow> int \<Rightarrow> bytes"
  p_PackBlockHash :: "string \<Rightarrow> bytes res"
  p_UnpackBlockHash :: "bytes \<Rightarrow> string res"
  p_FormatAddressAlias :: "string \<Rightarrow> string \<Rightarrow> string"
  p_syscoinAssetsSupport :: "bool option"
  p_syscoinAssetParser :: "syscoinAssetParser option"

section \<open>The base parser\<close>

record BaseParser =
  bp_BlockAddressesToKeep :: int
  bp_AmountDecimalPoint :: int
  bp_AddressAliases :: bool

definition BaseParser_PackedTxidLen :: int where
  "BaseParser_PackedTxidLen = 32"

definition BaseParser_KeepBlockAddresses :: "BaseParser \<Rightarrow> int" where
  "BaseParser_KeepBlockAddresses p = bp_BlockAddressesToKeep p"

definition BaseParser_UseAddressAliases :: "BaseParser \<Rightarrow> bool" where
  "BaseParser_UseAddressAliases p = bp_AddressAliases p"

definition BaseParser_GetAddrDescForUnknownInput :: "Tx \<Rightarrow> int \<Rightarrow> bytes" where
  "BaseParser_GetAddrDescForUnknownInput tx input = []"

definition BaseParser_PackTxid :: "string \<Rightarrow> bytes res" where
  "BaseParser_PackTxid txid = (if txid = [] then Inl ErrTxidMissing else hex_decode txid)"

definition BaseParser_UnpackTxid :: "bytes \<Rightarrow> string res" where
  "BaseParser_UnpackTxid buf = Inr (hex_encode buf)"

definition BaseParser_PackBlockHash :: "string \<Rightarrow> bytes res" where
  "BaseParser_PackBlockHash hash = hex_decode hash"

definition BaseParser_UnpackBlockHash :: "bytes \<Rightarrow> string res" where
  "BaseParser_UnpackBlockHash buf = Inr (hex_encode buf)"

definition BaseParser_GetChainType :: ChainType where
  "BaseParser_GetChainType = ChainBitcoinType"

definition BaseParser_IsAddrDescIndexable :: "bytes \<Rightarrow> bool" where
  "BaseParser_IsAddrDescIndexable addrDesc = True"

section \<open>The handle of the database\<close>

text \<open>
  The back end (\<open>d.chain\<close>): absent, without access to the metadata of tokens, or with it. The metadata
  come from a remote service whose answer may change from call to call, so the function has the
  number of the call as its first argument.
\<close>

datatype chain_handle =
    NilChain
  | PlainChain
  | NevmChain "nat \<Rightarrow> uint64 \<Rightarrow> Asset res"

text \<open>
  The package \<open>gcs\<close> that builds Golomb-coded sets is a parameter: the construction of a set from the
  parameters \<open>p\<close> and \<open>m\<close>, the key and the elements, and its serialization.
\<close>

record gcs_lib =
  gcs_BuildGCSFilter :: "byte \<Rightarrow> uint64 \<Rightarrow> bytes \<Rightarrow> bytes list \<Rightarrow> bytes res"
  gcs_NBytes :: "bytes \<Rightarrow> bytes res"

text \<open>
  The fields of \<open>RocksDB\<close> that the content of the index depends on, with the configuration of the
  block filter in the internal state, and the libraries it is linked with.
\<close>

record RocksDB =
  d_vlq :: vlq_lib
  d_gcs :: gcs_lib
  d_chainParser :: BlockChainParser
  d_extendedIndex :: bool
  d_chain :: chain_handle
  d_BlockGolombFilterP :: byte
  d_BlockFilterScripts :: string
  d_BlockFilterUseZeroedKey :: bool

text \<open>The type assertion on the interface \<open>syscoinAssetsSupport\<close>: \<open>None\<close> where the parser has no
  method \<open>SupportsSyscoinAssets\<close>.\<close>

definition supportsSyscoinAssets :: "BlockChainParser \<Rightarrow> bool" where
  "supportsSyscoinAssets parser =
     (case p_syscoinAssetsSupport parser of None \<Rightarrow> False | Some b \<Rightarrow> b)"

end
