(* ===== verification/CodecLaws.thy ===== *)
theory CodecLaws
  imports Codec
begin

text \<open>
  The packing helpers meet the contract \<open>codec\<close>: variable-length integers under the documented
  behaviour of the library, byte strings and strings shorter than \<open>2 ^ 63\<close> bytes, big integers for every
  value (in the truncated, sign-less form \<open>canonBigint\<close>), asset information. The keys of the column
  addresses decode to what was packed and sort the blocks of an address from the newest to the
  oldest.
\<close>

section \<open>Variable-length integers\<close>

named_theorems codec_simps \<open>what an unpack function returns on what the pack function wrote\<close>

lemma unpackVaruint_pack [codec_simps]:
  "vlq_ok v \<Longrightarrow> unpackVaruint v (packVaruint v x @ rest) = (x, int (length (packVaruint v x)))"
  by (simp add: vlq_ok_def unpackVaruint_def packVaruint_def)

lemma unpackVaruint64_pack [codec_simps]:
  "vlq_ok v \<Longrightarrow> unpackVaruint64 v (packVaruint64 v x @ rest) = (x, int (length (packVaruint64 v x)))"
  by (simp add: vlq_ok_def unpackVaruint64_def packVaruint64_def)

lemma unpackVarint32_pack [codec_simps]:
  "vlq_ok v \<Longrightarrow> is_int32 i \<Longrightarrow>
   unpackVarint32 v (packVarint32 v i @ rest) = (i, int (length (packVarint32 v i)))"
  by (simp add: vlq_ok_def unpackVarint32_def packVarint32_def int32_id)

lemma unpackVarint_pack [codec_simps]:
  "vlq_ok v \<Longrightarrow> is_int32 i \<Longrightarrow>
   unpackVarint v (packVarint v i @ rest) = (i, int (length (packVarint v i)))"
  by (simp add: vlq_ok_def unpackVarint_def packVarint_def)

lemma packVaruint_not_Nil [simp]: "vlq_ok v \<Longrightarrow> packVaruint v x \<noteq> []"
  by (simp add: vlq_ok_def packVaruint_def)

lemma packVarint_not_Nil [simp]: "vlq_ok v \<Longrightarrow> packVarint v x \<noteq> []"
  by (simp add: vlq_ok_def packVarint_def)

lemma packVarint32_not_Nil [simp]: "vlq_ok v \<Longrightarrow> packVarint32 v x \<noteq> []"
  by (simp add: vlq_ok_def packVarint32_def)

lemma unpackUint_pack [codec_simps]: "unpackUint (packUint i @ rest) = Some i"
proof -
  have "unat i < 4294967296" using unsigned_less [of i] by simp
  then show ?thesis by (simp add: unpackUint_def packUint_def be_nat_put_be)
qed

lemma unpackUint_pack' [codec_simps]: "unpackUint (packUint i) = Some i"
  using unpackUint_pack [of i "[]"] by simp

lemma length_packUint [simp]: "length (packUint i) = 4"
  by (simp add: packUint_def)

interpretation varuint: exact_codec "packVaruint v" "Some \<circ> unpackVaruint v" "\<lambda>_. vlq_ok v" id for v
  by unfold_locales (simp_all add: unpackVaruint_pack)

interpretation varuint64: exact_codec "packVaruint64 v" "Some \<circ> unpackVaruint64 v" "\<lambda>_. vlq_ok v" id
  for v
  by unfold_locales (simp_all add: unpackVaruint64_pack)

interpretation varint32:
  exact_codec "packVarint32 v" "Some \<circ> unpackVarint32 v" "\<lambda>i. vlq_ok v \<and> is_int32 i" id for v
  by unfold_locales (simp_all add: unpackVarint32_pack)

section \<open>Byte strings\<close>

lemma sint_of_nat: "n < 2 ^ 63 \<Longrightarrow> sint (of_nat n :: uint64) = int n"
  by (simp add: signed_of_nat signed_take_bit_int_eq_self)

lemma unpackVarBytes_pack [codec_simps]:
  "vlq_ok v \<Longrightarrow> length x < 2 ^ 63 \<Longrightarrow>
   unpackVarBytes v (packVarBytes v x @ rest) = Some (x, int (length (packVarBytes v x)))"
  by (simp add: unpackVarBytes_def packVarBytes_def unpackVaruint_pack sint_of_nat slice_middle)

lemma unpackStringBytes_pack [codec_simps]:
  "vlq_ok v \<Longrightarrow> length x < 2 ^ 63 \<Longrightarrow>
   unpackStringBytes v (packString v x @ rest) = Some (x, int (length (packString v x)))"
  by (simp add: unpackStringBytes_def packString_def unpackVaruint_pack sint_of_nat slice_middle)

interpretation varbytes:
  exact_codec "packVarBytes v" "unpackVarBytes v" "\<lambda>x. vlq_ok v \<and> length x < 2 ^ 63" id for v
  by unfold_locales (simp_all add: unpackVarBytes_pack)

interpretation str:
  exact_codec "packString v" "unpackString v" "\<lambda>x. vlq_ok v \<and> length x < 2 ^ 63" id for v
  by unfold_locales (simp_all add: unpackString_def unpackStringBytes_pack)

section \<open>Big integers\<close>

definition words_nat :: "uint64 list \<Rightarrow> nat" where
  "words_nat ws = foldr (\<lambda>w a. unat w + 2 ^ 64 * a) ws 0"

text \<open>What the format keeps of a number: the absolute value without the words that do not fit.\<close>

definition canonBigint :: "int \<Rightarrow> int" where
  "canonBigint x = int (nat \<bar>x\<bar> div 2 ^ (64 * (length (big_bits x) - maxPackedBigintWords)))"

lemma words_nat_simps [simp]:
  "words_nat [] = 0" "words_nat (w # ws) = unat w + 2 ^ 64 * words_nat ws"
  by (simp_all add: words_nat_def)

lemma words_nat_nat_words: "words_nat (nat_words n) = n"
proof (induction n rule: nat_words.induct)
  case (1 n)
  have "unat (of_nat n :: uint64) = n mod 2 ^ 64"
    by (simp add: unsigned_of_nat take_bit_eq_mod)
  with 1 show ?case
    by (cases "n = 0") (simp_all add: nat_words.simps)
qed

lemma nat_words_eq_Nil [simp]: "nat_words n = [] \<longleftrightarrow> n = 0"
  by (simp add: nat_words.simps [of n])

lemma last_nat_words: "n \<noteq> 0 \<Longrightarrow> last (nat_words n) \<noteq> 0"
proof (induction n rule: nat_words.induct)
  case (1 n)
  show ?case
  proof (cases "n div 2 ^ 64 = 0")
    case True
    then have "n < 2 ^ 64" by (simp add: div_eq_0_iff)
    with 1 True show ?thesis
      by (simp add: nat_words.simps [of n] word_of_nat_eq_0_iff nat_dvd_not_less)
  next
    case False
    with 1 show ?thesis by (simp add: nat_words.simps [of n])
  qed
qed

lemma length_nat_words: "n < 2 ^ (64 * k) \<Longrightarrow> length (nat_words n) \<le> k"
proof (induction k arbitrary: n)
  case (Suc k)
  from Suc.prems have "n div 2 ^ 64 < 2 ^ (64 * k)"
    by (simp add: div_less_iff_less_mult power_add mult.commute)
  from Suc.IH [OF this] show ?case by (simp add: nat_words.simps [of n])
qed (simp add: nat_words.simps)

lemma words_nat_drop: "words_nat (drop s ws) = words_nat ws div 2 ^ (64 * s)"
proof (induction s arbitrary: ws)
  case (Suc s)
  show ?case
  proof (cases ws)
    case (Cons w ws')
    have "unat w < 2 ^ 64" using unsigned_less [of w] by simp
    then have "words_nat ws div 2 ^ 64 = words_nat ws'" by (simp add: Cons)
    moreover have "words_nat ws div 2 ^ (64 * Suc s) = words_nat ws div 2 ^ 64 div 2 ^ (64 * s)"
      by (simp only: div_mult2_eq [symmetric] power_add [symmetric]) simp
    ultimately show ?thesis
      using Suc [of ws'] by (simp add: Cons)
  qed simp
qed simp

lemma be_nat_words: "be_nat (concat (map (put_be 8) (rev ws))) = words_nat ws"
proof (induction ws)
  case (Cons w ws)
  have "unat w < 18446744073709551616" using unsigned_less [of w] by simp
  with Cons show ?case by (simp add: be_nat_append be_nat_put_be)
qed simp

lemma length_concat_put_be [simp]: "length (concat (map (put_be k) ws)) = k * length ws"
  by (induction ws) simp_all

lemma take_bit_eq_self_unat: "take_bit k (w :: 'w::len word) = w \<longleftrightarrow> unat w < 2 ^ k"
proof -
  have "take_bit k w = w \<longleftrightarrow> unat (take_bit k w) = unat w"
    by (simp add: word_unat_eq_iff)
  also have "\<dots> \<longleftrightarrow> take_bit k (unat w) = unat w"
    by (simp add: unsigned_take_bit_eq)
  finally show ?thesis by (simp add: take_bit_nat_eq_self_iff)
qed

text \<open>The test of the loop: the byte under the mask is zero exactly when the byte can be skipped.\<close>

lemma and_byte_mask:
  assumes "unat (w :: uint64) < 2 ^ (8 * Suc n)"
  shows "w AND push_bit (8 * n) 0xff = 0 \<longleftrightarrow> unat w < 2 ^ (8 * n)"
proof -
  have w: "take_bit (8 * Suc n) w = w" using assms by (simp only: take_bit_eq_self_unat)
  have ff: "(0xff :: uint64) = mask 8" by (simp add: mask_eq_exp_minus_1)
  have "w AND push_bit (8 * n) 0xff = push_bit (8 * n) (drop_bit (8 * n) w)"
    unfolding ff
    by (subst (1 2) w [symmetric]) (rule bit_eqI, auto simp: bit_simps)
  moreover have "push_bit (8 * n) (drop_bit (8 * n) w) = w - take_bit (8 * n) w"
    using bits_ident [of "8 * n" w] by (simp add: algebra_simps)
  ultimately show ?thesis by (auto simp flip: take_bit_eq_self_unat)
qed

lemma drop_byte_mask:
  assumes "n < 7"
  shows "drop_bit 8 (push_bit (8 * Suc n) (0xff :: uint64)) = push_bit (8 * n) 0xff"
proof -
  have "n \<in> {0, 1, 2, 3, 4, 5, 6}" using assms by auto
  then show ?thesis by auto
qed

lemma skip_zeros_bounds:
  assumes "w \<noteq> 0" and "fb \<le> 8" and "unat w < 2 ^ (8 * fb)"
  shows "skip_zeros w (push_bit (8 * (fb - 1)) 0xff) fb \<in> {1..fb} \<and>
    2 ^ (8 * (skip_zeros w (push_bit (8 * (fb - 1)) 0xff) fb - 1)) \<le> unat w \<and>
    unat w < 2 ^ (8 * skip_zeros w (push_bit (8 * (fb - 1)) 0xff) fb)"
  using assms
proof (induction fb)
  case (Suc n)
  show ?case
  proof (cases "unat w < 2 ^ (8 * n)")
    case True
    with Suc.prems have n: "0 < n" by (cases n) (auto simp: unat_eq_0)
    then have "drop_bit 8 (push_bit (8 * n) 0xff) = push_bit (8 * (n - 1)) (0xff :: uint64)"
      using drop_byte_mask [of "n - 1"] Suc.prems by simp
    with True Suc n show ?thesis by (auto simp: and_byte_mask)
  next
    case False
    with Suc.prems show ?thesis by (simp add: and_byte_mask)
  qed
qed (simp add: unat_eq_0)

lemma pack_top_word:
  assumes "w \<noteq> 0" and "fb = skip_zeros w (push_bit 56 0xff) 8"
  obtains b hs where "put_be fb w = b # hs" and "b \<noteq> 0" and "be_nat (b # hs) = unat w"
    and "fb = length (b # hs)" and "length (b # hs) \<le> 8"
proof -
  have "unat w < 2 ^ (8 * 8)" using unsigned_less [of w, where ?'a = nat] by simp
  with assms have fb: "1 \<le> fb" "fb \<le> 8" "2 ^ (8 * (fb - 1)) \<le> unat w" "unat w < 2 ^ (8 * fb)"
    using skip_zeros_bounds [of w 8] by simp_all
  have 256: "(256 :: nat) ^ j = 2 ^ (8 * j)" for j by (simp add: power_mult)
  have v: "be_nat (put_be fb w) = unat w"
    using fb(4) by (simp add: be_nat_put_be 256)
  obtain b hs where b: "put_be fb w = b # hs" using fb(1) length_put_be [of fb w]
    by (cases "put_be fb w") auto
  then have l: "fb = Suc (length hs)" using length_put_be [of fb w] by simp
  have "b \<noteq> 0"
  proof
    assume "b = 0"
    then have "unat w < 2 ^ (8 * length hs)"
      using v be_nat_less [of hs] by (simp add: b be_nat_Cons 256)
    with fb(3) l show False by simp
  qed
  then show thesis using that b v l fb(2) by simp
qed

lemma packBigint_Cons:
  assumes "x \<noteq> 0"
  obtains b bs where "packBigint x = of_nat (length (b # bs)) # b # bs"
    and "length (b # bs) \<le> 248" and "b \<noteq> 0" and "int (be_nat (b # bs)) = canonBigint x"
proof -
  define w where "w = big_bits x"
  define k where "k = length w - maxPackedBigintWords"
  define ds where "ds = rev (drop k (butlast w))"
  define fb where "fb = skip_zeros (last w) (push_bit 56 0xff) 8"
  have w: "w \<noteq> []" using assms by (simp add: w_def big_bits_def)
  have "last w \<noteq> 0" using last_nat_words assms by (simp add: w_def big_bits_def)
  then obtain b hs where b: "put_be fb (last w) = b # hs" "b \<noteq> 0" "be_nat (b # hs) = unat (last w)"
      "fb = length (b # hs)" "length (b # hs) \<le> 8"
    using pack_top_word fb_def by blast
  have k: "k < length w" using w by (auto simp: k_def maxPackedBigintWords_def)
  have ds: "length ds \<le> 30" by (auto simp: ds_def k_def maxPackedBigintWords_def)
  have "k = (if length w > maxPackedBigintWords then length w - maxPackedBigintWords else 0)"
    by (simp add: k_def)
  then have p: "packBigint x = of_nat (fb + 8 * length ds) # (b # hs) @ concat (map (put_be 8) ds)"
    using w by (simp add: packBigint_def Let_def fb_def ds_def last_conv_nth butlast_conv_take
        flip: w_def b(1))
  have "drop k w = drop k (butlast w) @ [last w]"
    using k w drop_append [of k "butlast w" "[last w]"] by simp
  moreover have "unat (last w) < 18446744073709551616"
    using unsigned_less [of "last w", where ?'a = nat] by simp
  ultimately have "words_nat (drop k w) = be_nat ((b # hs) @ concat (map (put_be 8) ds))"
    using be_nat_words [of "drop k w"]
    by (simp add: ds_def be_nat_append be_nat_put_be b(3) del: append_Cons)
  then have "int (be_nat (b # hs @ concat (map (put_be 8) ds))) = canonBigint x"
    by (simp add: words_nat_drop canonBigint_def k_def w_def words_nat_nat_words big_bits_def)
  then show thesis
    using that [of b "hs @ concat (map (put_be 8) ds)"] p b ds by simp
qed

lemma packBigint_0: "packBigint 0 = [0]"
  by (simp add: packBigint_def big_bits_def nat_words.simps)

lemma canonBigint_0: "canonBigint 0 = 0"
  by (simp add: canonBigint_def)

lemma unat_of_nat_byte: "n < 256 \<Longrightarrow> unat (of_nat n :: byte) = n"
  by (simp add: unsigned_of_nat take_bit_nat_eq_self)

lemma unpackBigint_Cons:
  assumes "length bs < 256"
  shows "unpackBigint (of_nat (length bs) # bs @ rest) = Some (int (be_nat bs), int (length bs) + 1)"
proof -
  have "int (unat (of_nat (length bs) :: byte)) = int (length bs)"
    using assms by (simp only: unat_of_nat_byte)
  then have "uint (of_nat (length bs) :: byte) = int (length bs)" by simp
  moreover have "slice (c # bs @ rest) 1 (int (length bs) + 1) = Some bs" for c
    using slice_middle [of "[c]" bs rest] by (simp add: add.commute)
  ultimately show ?thesis by (simp add: unpackBigint_def)
qed

lemma unpackBigint_pack [codec_simps]:
  "unpackBigint (packBigint x @ rest) = Some (canonBigint x, int (length (packBigint x)))"
proof (cases "x = 0")
  case True
  then show ?thesis by (simp add: packBigint_0 canonBigint_0 unpackBigint_def slice_def)
next
  case False
  then obtain b bs where b: "packBigint x = of_nat (length (b # bs)) # b # bs"
    "length (b # bs) \<le> 248" "int (be_nat (b # bs)) = canonBigint x"
    by (rule packBigint_Cons)
  show ?thesis
    using unpackBigint_Cons [of "b # bs" rest] b(2) unfolding b(1) b(3) by simp
qed

lemma packedBigintLen_pack [codec_simps]:
  "packedBigintLen (packBigint x @ rest) = Some (int (length (packBigint x)))"
  using unpackBigint_pack [of x rest]
  by (auto simp: packedBigintLen_def unpackBigint_def Let_def split: bind_splits)

lemma canonBigint_id: "0 \<le> x \<Longrightarrow> x < 2 ^ 1984 \<Longrightarrow> canonBigint x = x"
proof -
  assume x: "0 \<le> x" "x < 2 ^ 1984"
  then have "nat x < nat (2 ^ 1984)" by (subst nat_mono_iff) simp_all
  then have "nat x < 2 ^ (64 * 31)" by (simp add: nat_power_eq)
  from length_nat_words [OF this] x(1) show ?thesis
    by (simp add: canonBigint_def big_bits_def maxPackedBigintWords_def)
qed

lemma length_packBigint: "length (packBigint x) \<le> 249"
  by (cases "x = 0") (auto simp: packBigint_0 elim: packBigint_Cons)

interpretation bigint: skipping_codec packBigint unpackBigint "\<lambda>_. True" canonBigint packedBigintLen
  by unfold_locales (simp_all add: codec_simps)

text \<open>The amounts the index stores: not negative and of at most 248 bytes.\<close>

definition amount :: "int \<Rightarrow> bool" where
  "amount x \<longleftrightarrow> 0 \<le> x \<and> x < 2 ^ 1984"

lemma canonBigint_amount [simp]: "amount x \<Longrightarrow> canonBigint x = x"
  by (simp add: amount_def canonBigint_id)

interpretation amounts: exact_codec packBigint unpackBigint amount canonBigint
  by unfold_locales (simp_all add: codec_simps)

section \<open>Asset information\<close>

text \<open>A missing value is stored as zero.\<close>

definition canonAssetInfo :: "AssetInfo \<Rightarrow> AssetInfo" where
  "canonAssetInfo a = a\<lparr>ai_ValueSat := Some (case ai_ValueSat a of None \<Rightarrow> 0 | Some x \<Rightarrow> canonBigint x)\<rparr>"

lemma slice_from_append_plus:
  "0 \<le> k \<Longrightarrow> slice_from (xs @ ys) (int (length xs) + k) = slice_from ys k"
  by (auto simp: slice_from_def nat_add_distrib)

lemma index_append_plus: "0 \<le> k \<Longrightarrow> index (xs @ ys) (int (length xs) + k) = index ys k"
  by (auto simp: index_def nat_add_distrib nth_append)

lemma slice_append_plus:
  "0 \<le> i \<Longrightarrow> slice (xs @ ys) (int (length xs) + i) (int (length xs) + j) = slice ys i j"
  by (auto simp: slice_def nat_add_distrib)

lemma index_packBigint: "index (packBigint x @ rest) 0 = Some (of_nat (length (packBigint x) - 1))"
proof (cases "x = 0")
  case False
  then show ?thesis by (auto elim: packBigint_Cons)
qed (simp add: packBigint_0)

lemma unat_packBigint_length: "unat (of_nat (length (packBigint x) - 1) :: byte) = length (packBigint x) - 1"
  using length_packBigint [of x] by (intro unat_of_nat_byte) simp

lemma packBigint_not_Nil [simp]: "packBigint x \<noteq> []"
  by (simp add: packBigint_def Let_def)

lemma unpackAssetInfo_append [codec_simps]:
  "vlq_ok v \<Longrightarrow> unpackAssetInfo v (appendAssetInfo v a @ rest) =
     Some (map_option canonAssetInfo a, int (length (appendAssetInfo v a)))"
  by (cases a)
    (auto simp: unpackAssetInfo_def appendAssetInfo_def codec_simps Let_def slice_from_append_plus
      add.assoc canonAssetInfo_def canonBigint_0 split: option.splits)

lemma packedAssetInfoLen_append [codec_simps]:
  "vlq_ok v \<Longrightarrow> packedAssetInfoLen v (appendAssetInfo v a @ rest) =
     Some (int (length (appendAssetInfo v a)))"
proof -
  assume v: "vlq_ok v"
  have "int (unat (of_nat (length (packBigint x) - 1) :: byte)) + 1 = int (length (packBigint x))" for x
    unfolding unat_packBigint_length using packBigint_not_Nil [of x]
    by (simp add: Suc_leI of_nat_diff del: packBigint_not_Nil)
  then have l: "uint (of_nat (length (packBigint x) - Suc 0) :: byte) + 1 = int (length (packBigint x))" for x
    by simp
  have i: "index (xs @ ys @ packBigint x @ rest) (int (length xs) + int (length ys)) =
      Some (of_nat (length (packBigint x) - 1))" for xs ys x
    using index_append_plus [of 0 "xs @ ys" "packBigint x @ rest"] index_packBigint [of x rest] by simp
  from v show ?thesis
    by (cases a) (simp_all add: packedAssetInfoLen_def appendAssetInfo_def codec_simps Let_def i l)
qed

interpretation assetinfo:
  skipping_codec "appendAssetInfo v" "unpackAssetInfo v" "\<lambda>_. vlq_ok v" "map_option canonAssetInfo"
    "packedAssetInfoLen v" for v
  by unfold_locales (simp_all add: codec_simps)

section \<open>Keys of the column addresses\<close>

lemma uint_NOT: "uint (NOT (h :: uint32)) = 2 ^ 32 - 1 - uint h"
proof -
  have h: "0 \<le> uint h" "uint h < 2 ^ 32" using unsigned_less [of h, where ?'a = int] by simp_all
  have "(- uint h - 1) mod 2 ^ 32 = (- uint h - 1 + 2 ^ 32) mod 2 ^ 32"
    by (simp only: mod_add_self2)
  also have "\<dots> = 2 ^ 32 - 1 - uint h"
    by (subst mod_pos_pos_trivial) (use h in linarith)+
  finally have "(- uint h - 1) mod 2 ^ 32 = 2 ^ 32 - 1 - uint h" .
  then show ?thesis unfolding unsigned_not_eq take_bit_eq_mod by (simp add: not_eq_complement)
qed

lemma be_nat_put_be_word: "be_nat (put_be 4 (h :: uint32)) = unat h"
  using unsigned_less [of h, where ?'a = nat] by (simp add: be_nat_put_be)

lemma put_be_less_iff: "put_be 4 (NOT g) < put_be 4 (NOT h :: uint32) \<longleftrightarrow> h < g"
proof -
  have "put_be 4 (NOT g) < put_be 4 (NOT h) \<longleftrightarrow> unat (NOT g) < unat (NOT h)"
    by (simp add: be_nat_less_iff be_nat_put_be_word del: unsigned_not_eq)
  also have "\<dots> \<longleftrightarrow> uint (NOT g) < uint (NOT h)"
    by (simp only: word_less_def [symmetric] word_less_nat_alt [symmetric])
  also have "\<dots> \<longleftrightarrow> h < g"
    by (simp only: uint_NOT word_less_def) arith
  finally show ?thesis .
qed

lemma unpackAddressKey_pack:
  "unpackAddressKey (packAddressKey a h) =
     (if a = [] then Inl (ErrMsg ''Invalid address key'') else Inr (a, h))"
proof (cases "a = []")
  case False
  have "slice (packAddressKey a h) 0 (int (length a)) = Some a"
    by (simp add: packAddressKey_def)
  moreover have "slice (packAddressKey a h) (int (length a)) (int (length a) + 4) = Some (packUint (NOT h))"
    using slice_middle [of a "packUint (NOT h)" "[]"] by (simp add: packAddressKey_def packUint_def)
  moreover have "int (length (packAddressKey a h)) - 4 = int (length a)"
    by (simp add: packAddressKey_def)
  ultimately show ?thesis
    using False by (simp add: unpackAddressKey_def packedHeightBytes_def Let_def codec_simps)
qed (simp add: unpackAddressKey_def packAddressKey_def packedHeightBytes_def)

section \<open>A library that has the documented behaviour\<close>

text \<open>Base 128 with a continuation bit, and the zigzag mapping of signed numbers: an instance of
  the parameter on which the hypotheses of the properties are discharged.\<close>

fun leb_put :: "nat \<Rightarrow> bytes" where
  "leb_put n = (if n < 128 then [of_nat n] else of_nat (128 + n mod 128) # leb_put (n div 128))"

declare leb_put.simps [simp del]

fun leb_get :: "bytes \<Rightarrow> nat \<times> nat" where
  "leb_get [] = (0, 0)"
| "leb_get (b # bs) =
     (if unat b < 128 then (unat b, 1)
      else let (x, l) = leb_get bs in (unat b - 128 + 128 * x, Suc l))"

definition leb_vlq :: vlq_lib where
  "leb_vlq =
     \<lparr>vlq_PutUint = (\<lambda>x. leb_put (unat x)),
      vlq_Uint = (\<lambda>buf. let (x, l) = leb_get buf in (of_nat x, int l)),
      vlq_PutInt = (\<lambda>i. leb_put (nat (if 0 \<le> i then 2 * i else - 2 * i - 1))),
      vlq_Int = (\<lambda>buf. let (x, l) = leb_get buf in
        (if even x then int (x div 2) else - int (x div 2) - 1, int l))\<rparr>"

lemma leb_get_put: "leb_get (leb_put n @ rest) = (n, length (leb_put n))"
proof (induction n rule: leb_put.induct)
  case (1 n)
  show ?case
  proof (cases "n < 128")
    case True
    then have "unat (of_nat n :: byte) = n" by (intro unat_of_nat_byte) simp
    with True show ?thesis by (simp add: leb_put.simps [of n])
  next
    case False
    have "unat (of_nat (128 + n mod 128) :: byte) = 128 + n mod 128"
      by (rule unat_of_nat_byte) (simp add: less_imp_add_positive)
    with False 1 show ?thesis by (simp add: leb_put.simps [of n] del: of_nat_add)
  qed
qed

lemma leb_put_not_Nil: "leb_put n \<noteq> []"
  by (simp add: leb_put.simps [of n])

lemma vlq_ok_leb: "vlq_ok leb_vlq"
proof -
  have "nat (2 * i) div 2 = nat i" for i
    by (cases "0 \<le> i") (simp_all add: nat_mult_distrib)
  moreover have "nat (- (2 * i) - 1) div 2 = nat (- i - 1)" for i by linarith
  moreover have "even (nat (2 * i))" for i by (cases "0 \<le> i") (simp_all add: even_nat_iff)
  moreover have "i < 0 \<Longrightarrow> odd (nat (- (2 * i) - 1))" for i by (simp add: even_nat_iff)
  ultimately show ?thesis
    by (auto simp: vlq_ok_def leb_vlq_def leb_get_put leb_put_not_Nil)
qed

lemma length_leb_put: "n < 128 ^ Suc k \<Longrightarrow> length (leb_put n) \<le> Suc k"
proof (induction k arbitrary: n)
  case (Suc k)
  from Suc.prems have "n div 128 < 128 ^ Suc k" by (simp add: div_less_iff_less_mult mult.commute)
  from Suc.IH [OF this] show ?case by (simp add: leb_put.simps [of n])
qed (simp add: leb_put.simps)

lemma length_leb_vlq:
  "length (packVaruint leb_vlq x) \<le> 10" "length (packVaruint64 leb_vlq x) \<le> 10"
  "is_int32 i \<Longrightarrow> length (packVarint leb_vlq i) \<le> 10" "is_int32 i \<Longrightarrow> length (packVarint32 leb_vlq i) \<le> 10"
proof -
  have u: "length (leb_put (unat x)) \<le> 10" for x :: uint64
    using length_leb_put [of "unat x" 9] unsigned_less [of x, where ?'a = nat] by simp
  show "length (packVaruint leb_vlq x) \<le> 10" "length (packVaruint64 leb_vlq x) \<le> 10"
    using u by (simp_all add: packVaruint_def packVaruint64_def leb_vlq_def)
  have "is_int32 i \<Longrightarrow> length (vlq_PutInt leb_vlq i) \<le> 10"
    using length_leb_put [of "nat (if 0 \<le> i then 2 * i else - 2 * i - 1)" 9]
    by (auto simp: leb_vlq_def is_int32_def)
  then show "is_int32 i \<Longrightarrow> length (packVarint leb_vlq i) \<le> 10" "is_int32 i \<Longrightarrow> length (packVarint32 leb_vlq i) \<le> 10"
    by (simp_all add: packVarint_def packVarint32_def)
qed

lemma length_appendAssetInfo_leb: "length (appendAssetInfo leb_vlq a) \<le> 269"
  using length_leb_vlq(1) [of 0] length_leb_vlq(1) [of 1] length_leb_vlq(2) [of "ai_AssetGuid (the a)"]
    length_packBigint [of "case ai_ValueSat (the a) of None \<Rightarrow> 0 | Some x \<Rightarrow> x"]
  by (cases a) (simp_all add: appendAssetInfo_def)

section \<open>Properties\<close>

text \<open>C20: Packed big integers: the word-level routine writes at most 249 bytes with no leading zero byte, and
  unpacking returns the absolute value (exactly for every amount below \<open>2 ^ 1984\<close>, without the
  least significant words above that) and the number of bytes it took, whatever follows.\<close>

theorem bigint_roundtrip:
  "unpackBigint (packBigint x @ rest) = Some (canonBigint x, int (length (packBigint x))) \<and>
   packedBigintLen (packBigint x @ rest) = Some (int (length (packBigint x))) \<and>
   length (packBigint x) \<le> 249 \<and>
   (x \<noteq> 0 \<longrightarrow> packBigint x ! 1 \<noteq> 0) \<and>
   (0 \<le> x \<and> x < 2 ^ 1984 \<longrightarrow> canonBigint x = x)"
  using length_packBigint [of x] canonBigint_id [of x]
  by (auto simp: codec_simps elim: packBigint_Cons)

theorem bigint_roundtrip_witness:
  "unpackBigint (packBigint 1000 @ [7]) = Some (1000, 3) \<and> packBigint 1000 ! 1 \<noteq> 0"
proof -
  have "packBigint 1000 = [2, 3, 232]" by code_simp
  then show ?thesis using bigint_roundtrip [of 1000 "[7]"] by simp
qed

text \<open>C21: The keys of the column addresses: a key decodes to the descriptor and height it was packed from
  (an empty descriptor is refused), and the keys of one descriptor sort the blocks from the newest to
  the oldest in the order in which the store iterates.\<close>

theorem address_key_order:
  "unpackAddressKey (packAddressKey a h) =
     (if a = [] then Inl (ErrMsg ''Invalid address key'') else Inr (a, h)) \<and>
   (packAddressKey a g < packAddressKey a h) = (h < g)"
  by (simp add: unpackAddressKey_pack) (simp add: packAddressKey_def append_less_append_iff put_be_less_iff)

end
