(* ===== verification/Store.thy ===== *)
theory Store
  imports Prelude
begin

text \<open>
  The key-value store under the index. RocksDB and its Go binding are not part of the repository, so
  the store is a parameter: a record of the operations the code calls, over an arbitrary type of
  database states, with \<open>store_ok\<close> stating their documented behaviour (a write batch is applied in
  order and atomically, an iterator delivers the rows of a column in the order of the keys). The
  functions of the index that only read take the read view \<open>get\<close>; those that write append to a
  write batch.
\<close>

section \<open>Columns and write batches\<close>

datatype cf =
    cfDefault | cfHeight | cfAddresses | cfBlockTxs | cfTransactions | cfFiatRates
  | cfAddressBalance | cfTxAddresses | cfBlockFilter
  | cfAssets | cfTxAssets
  | cfAddressContracts | cfInternalData | cfContracts | cfFunctionSignatures
  | cfBlockInternalDataErrors | cfAddressAliases | cfErcProtocols

datatype wop = PutCF cf bytes bytes | DeleteCF cf bytes

type_synonym wbatch = "wop list"
type_synonym view = "cf \<Rightarrow> bytes \<Rightarrow> bytes option res"

text \<open>The effect of a batch on one key: \<open>None\<close> where the batch does not mention the key.\<close>

fun wop_effect :: "cf \<Rightarrow> bytes \<Rightarrow> wop \<Rightarrow> bytes option option" where
  "wop_effect c k (PutCF c' k' v) = (if c = c' \<and> k = k' then Some (Some v) else None)"
| "wop_effect c k (DeleteCF c' k') = (if c = c' \<and> k = k' then Some None else None)"

fun batch_effect :: "cf \<Rightarrow> bytes \<Rightarrow> wbatch \<Rightarrow> bytes option option" where
  "batch_effect c k [] = None"
| "batch_effect c k (w # wb) =
     (case batch_effect c k wb of None \<Rightarrow> wop_effect c k w | Some r \<Rightarrow> Some r)"

definition after :: "view \<Rightarrow> wbatch \<Rightarrow> view" where
  "after get wb c k = (case batch_effect c k wb of None \<Rightarrow> get c k | Some r \<Rightarrow> Inr r)"

section \<open>The store\<close>

record 'db store =
  s_GetCF :: "'db \<Rightarrow> view"
  s_Write :: "'db \<Rightarrow> wbatch \<Rightarrow> 'db res"
  s_Rows :: "'db \<Rightarrow> cf \<Rightarrow> (bytes \<times> bytes) list"

definition store_ok :: "'db store \<Rightarrow> bool" where
  "store_ok st \<longleftrightarrow>
     (\<forall>db wb db' c k. s_Write st db wb = Inr db' \<longrightarrow>
        s_GetCF st db' c k = after (s_GetCF st db) wb c k) \<and>
     (\<forall>db c. sorted_wrt (<) (map fst (s_Rows st db c))) \<and>
     (\<forall>db c k v. s_GetCF st db c k = Inr v \<longrightarrow> map_of (s_Rows st db c) k = v)"

text \<open>\<open>it.Seek(key)\<close> and \<open>it.Next\<close>: the rows from the first key that is not below \<open>key\<close>.\<close>

definition seek :: "bytes \<Rightarrow> (bytes \<times> bytes) list \<Rightarrow> (bytes \<times> bytes) list" where
  "seek key rows = dropWhile (\<lambda>(k, v). k < key) rows"

section \<open>Laws of write batches\<close>

lemma batch_effect_append [simp]:
  "batch_effect c k (wb1 @ wb2) =
     (case batch_effect c k wb2 of None \<Rightarrow> batch_effect c k wb1 | Some r \<Rightarrow> Some r)"
  by (induction wb1) (auto split: option.splits)

lemma after_Nil [simp]: "after get [] = get"
  by (auto simp: after_def fun_eq_iff)

lemma after_append: "after get (wb1 @ wb2) = after (after get wb1) wb2"
  by (auto simp: after_def fun_eq_iff split: option.splits)

lemma batch_effect_other:
  "(\<And>w. w \<in> set wb \<Longrightarrow> wop_effect c k w = None) \<Longrightarrow> batch_effect c k wb = None"
  by (induction wb) auto

text \<open>A batch with one write per key of a map, and a batch on other columns only.\<close>

lemma batch_effect_keyed:
  assumes "distinct (map fst kvs)"
    and "\<And>a x. wop_effect c k (f a x) = (if a = k then Some (g x) else None)"
  shows "batch_effect c k (map (\<lambda>(a, x). f a x) kvs) = map_option g (map_of kvs k)"
  using assms(1)
proof (induction kvs)
  case (Cons kv kvs)
  obtain a x where kv: "kv = (a, x)" by fastforce
  from Cons have IH: "batch_effect c k (map (\<lambda>(a, x). f a x) kvs) = map_option g (map_of kvs k)" by simp
  show ?case
  proof (cases "a = k")
    case True
    with Cons.prems kv have "map_of kvs k = None" by (simp add: map_of_eq_None_iff)
    with IH True show ?thesis by (simp add: kv assms(2))
  next
    case False
    with IH show ?thesis by (cases "map_of kvs k") (simp_all add: kv assms(2))
  qed
qed simp

fun wop_cf :: "wop \<Rightarrow> cf" where
  "wop_cf (PutCF c k v) = c"
| "wop_cf (DeleteCF c k) = c"

lemma batch_effect_cf_other: "c \<notin> wop_cf ` set wb \<Longrightarrow> batch_effect c k wb = None"
proof (rule batch_effect_other)
  fix w assume "c \<notin> wop_cf ` set wb" "w \<in> set wb"
  then have "wop_cf w \<noteq> c" by auto
  then show "wop_effect c k w = None" by (cases w) auto
qed

section \<open>A store in memory\<close>

text \<open>An instance of the parameter: the list of the writes, the newest first.\<close>

type_synonym memdb = "((cf \<times> bytes) \<times> bytes option) list"

fun mem_row :: "wop \<Rightarrow> (cf \<times> bytes) \<times> bytes option" where
  "mem_row (PutCF c k v) = ((c, k), Some v)"
| "mem_row (DeleteCF c k) = ((c, k), None)"

definition mem_get :: "memdb \<Rightarrow> cf \<Rightarrow> bytes \<Rightarrow> bytes option" where
  "mem_get db c k = (case map_of db (c, k) of None \<Rightarrow> None | Some r \<Rightarrow> r)"

definition mem_store :: "memdb store" where
  "mem_store =
     \<lparr>s_GetCF = (\<lambda>db c k. Inr (mem_get db c k)),
      s_Write = (\<lambda>db wb. Inr (rev (map mem_row wb) @ db)),
      s_Rows = (\<lambda>db c.
        map (\<lambda>k. (k, the (mem_get db c k)))
          (filter (\<lambda>k. mem_get db c k \<noteq> None)
            (sort (remdups (map (snd \<circ> fst) (filter (\<lambda>r. fst (fst r) = c) db))))))\<rparr>"

lemma map_of_mem_rows: "map_of (rev (map mem_row wb)) (c, k) = batch_effect c k wb"
proof (induction wb)
  case (Cons w wb)
  have "map_of [mem_row w] (c, k) = wop_effect c k w" by (cases w) auto
  with Cons show ?case by (simp add: map_add_def split: option.splits)
qed simp

lemma mem_rows_lookup:
  "map_of (map (\<lambda>k. (k, the (mem_get db c k))) (filter (\<lambda>k. mem_get db c k \<noteq> None) ks)) k =
     (if k \<in> set ks then mem_get db c k else None)"
  by (induction ks) auto

lemma mem_get_other:
  assumes "k \<notin> (snd \<circ> fst) ` {r \<in> set db. fst (fst r) = c}"
  shows "mem_get db c k = None"
proof -
  have "map_of db (c, k) = None"
    using assms by (force simp: map_of_eq_None_iff)
  then show ?thesis by (simp add: mem_get_def)
qed

lemma mem_store_rows:
  "sorted_wrt (<) (map fst (s_Rows mem_store db c))"
  "map_of (s_Rows mem_store db c) k = mem_get db c k"
proof -
  let ?ks = "sort (remdups (map (snd \<circ> fst) (filter (\<lambda>r. fst (fst r) = c) db)))"
  have r: "s_Rows mem_store db c = map (\<lambda>k. (k, the (mem_get db c k))) (filter (\<lambda>k. mem_get db c k \<noteq> None) ?ks)"
    by (simp add: mem_store_def)
  have "sorted_wrt (<) ?ks" by (simp add: strict_sorted_iff)
  moreover have "map fst (s_Rows mem_store db c) = filter (\<lambda>k. mem_get db c k \<noteq> None) ?ks"
    unfolding r map_map comp_def by simp
  ultimately show "sorted_wrt (<) (map fst (s_Rows mem_store db c))"
    by (simp only: sorted_wrt_filter)
  show "map_of (s_Rows mem_store db c) k = mem_get db c k"
    unfolding r mem_rows_lookup using mem_get_other [of k db c] by auto
qed

lemma mem_store_write:
  assumes "s_Write mem_store db wb = Inr db'"
  shows "s_GetCF mem_store db' c k = after (s_GetCF mem_store db) wb c k"
proof -
  have "db' = rev (map mem_row wb) @ db" using assms by (simp add: mem_store_def)
  then have "map_of db' (c, k) = (case batch_effect c k wb of None \<Rightarrow> map_of db (c, k) | Some r \<Rightarrow> Some r)"
    by (simp only: map_of_append map_add_def map_of_mem_rows)
  then show ?thesis
    by (simp add: mem_store_def mem_get_def after_def split: option.splits)
qed

lemma store_ok_mem: "store_ok mem_store"
  unfolding store_ok_def using mem_store_rows mem_store_write
  by (simp add: mem_store_def)

end
