(* ===== verification/TxAddresses.thy ===== *)
theory TxAddresses
  imports Bchain CodecLaws Store
begin

text \<open>
  The rows of the column txAddresses (\<open>src/db/rocksdb.go\<close>): the inputs and outputs of a transaction
  with their address descriptors, amounts and asset information, and, with the extended index, the
  links between spending and spent transactions.
\<close>

section \<open>Data\<close>

record TxInput =
  ti_AddrDesc :: bytes
  ti_ValueSat :: int
  ti_AssetInfo :: "AssetInfo option"
  ti_Txid :: string
  ti_Vout :: uint32

record TxOutput =
  to_AddrDesc :: bytes
  to_Spent :: bool
  to_ValueSat :: int
  to_AssetInfo :: "AssetInfo option"
  to_SpentTxid :: string
  to_SpentIndex :: uint32
  to_SpentHeight :: uint32

record TxAddresses =
  ta_Height :: uint32
  ta_Inputs :: "TxInput list"
  ta_Outputs :: "TxOutput list"
  ta_Version :: int
  ta_Memo :: bytes
  ta_VSize :: uint32

definition zeroTxInput :: TxInput where
  "zeroTxInput = \<lparr>ti_AddrDesc = [], ti_ValueSat = 0, ti_AssetInfo = None, ti_Txid = [], ti_Vout = 0\<rparr>"

definition zeroTxOutput :: TxOutput where
  "zeroTxOutput = \<lparr>to_AddrDesc = [], to_Spent = False, to_ValueSat = 0, to_AssetInfo = None,
     to_SpentTxid = [], to_SpentIndex = 0, to_SpentHeight = 0\<rparr>"

definition zeroTxAddresses :: TxAddresses where
  "zeroTxAddresses = \<lparr>ta_Height = 0, ta_Inputs = [], ta_Outputs = [], ta_Version = 0, ta_Memo = [],
     ta_VSize = 0\<rparr>"

section \<open>Packing\<close>

text \<open>\<open>PackTxid\<close> with the fallback of the code: a packed transaction id of zeros.\<close>

definition packTxidOrZero :: "RocksDB \<Rightarrow> string \<Rightarrow> bytes" where
  "packTxidOrZero d txid =
     (case p_PackTxid (d_chainParser d) txid of
        Inl err \<Rightarrow> replicate (nat (p_PackedTxidLen (d_chainParser d))) 0
      | Inr btxID \<Rightarrow> btxID)"

definition appendTxInput :: "RocksDB \<Rightarrow> TxInput \<Rightarrow> bytes" where
  "appendTxInput d txi =
     (let v = d_vlq d; la = int (length (ti_AddrDesc txi)) in
      (if d_extendedIndex d then
         let la = (if ti_Txid txi = [] then NOT la else la) in
         packVarint v la @ ti_AddrDesc txi @ packBigint (ti_ValueSat txi) @
         (if la \<ge> 0 then packTxidOrZero d (ti_Txid txi) @ packVaruint v (ucast (ti_Vout txi)) else [])
       else packVaruint v (word_of_int la) @ ti_AddrDesc txi @ packBigint (ti_ValueSat txi)) @
      (if supportsSyscoinAssets (d_chainParser d) then appendAssetInfo v (ti_AssetInfo txi) else []))"

definition appendTxOutput :: "RocksDB \<Rightarrow> TxOutput \<Rightarrow> bytes" where
  "appendTxOutput d txo =
     (let v = d_vlq d; la = int (length (to_AddrDesc txo));
          la = (if to_Spent txo then NOT la else la) in
      packVarint v la @ to_AddrDesc txo @ packBigint (to_ValueSat txo) @
      (if d_extendedIndex d \<and> to_Spent txo
       then packTxidOrZero d (to_SpentTxid txo) @ packVaruint v (ucast (to_SpentIndex txo)) @
            packVaruint v (ucast (to_SpentHeight txo))
       else []) @
      (if supportsSyscoinAssets (d_chainParser d) then appendAssetInfo v (to_AssetInfo txo) else []))"

definition packTxAddresses :: "RocksDB \<Rightarrow> TxAddresses \<Rightarrow> bytes" where
  "packTxAddresses d ta =
     (let v = d_vlq d in
      (if supportsSyscoinAssets (d_chainParser d) then packVaruint v (word_of_int (ta_Version ta)) else []) @
      packVaruint v (ucast (ta_Height ta)) @
      (if d_extendedIndex d then packVaruint v (ucast (ta_VSize ta)) else []) @
      packVaruint v (of_nat (length (ta_Inputs ta))) @
      concat (map (appendTxInput d) (ta_Inputs ta)) @
      packVaruint v (of_nat (length (ta_Outputs ta))) @
      concat (map (appendTxOutput d) (ta_Outputs ta)) @
      (if supportsSyscoinAssets (d_chainParser d) then packVarBytes v (ta_Memo ta) else []))"

section \<open>Unpacking\<close>

text \<open>The value of a method whose error the code ignores.\<close>

definition ignore_err :: "string res \<Rightarrow> string" where
  "ignore_err r = (case r of Inl e \<Rightarrow> [] | Inr x \<Rightarrow> x)"

definition unpackTxInput :: "RocksDB \<Rightarrow> bytes \<Rightarrow> (TxInput \<times> int) option" where
  "unpackTxInput d buf =
     (let v = d_vlq d; p = d_chainParser d; ti = zeroTxInput in
      if d_extendedIndex d then
        let (al, l) = unpackVarint v buf; coinbase = al < 0; al = (if coinbase then NOT al else al) in do {
          a \<leftarrow> slice buf l (l + al);
          let ti = ti\<lparr>ti_AddrDesc := a\<rparr>;
          let al = al + l;
          b \<leftarrow> slice_from buf al;
          (val, l) \<leftarrow> unpackBigint b;
          let ti = ti\<lparr>ti_ValueSat := val\<rparr>;
          let al = al + l;
          (ti, al) \<leftarrow> (if \<not> coinbase then do {
              let l = p_PackedTxidLen p;
              tx \<leftarrow> slice buf al (al + l);
              let ti = ti\<lparr>ti_Txid := ignore_err (p_UnpackTxid p tx)\<rparr>;
              let al = al + l;
              b \<leftarrow> slice_from buf al;
              let (i, l) = unpackVaruint v b;
              Some (ti\<lparr>ti_Vout := ucast i\<rparr>, al + l)
            } else Some (ti, al));
          if supportsSyscoinAssets p then do {
            b \<leftarrow> slice_from buf al;
            (ai, assetLen) \<leftarrow> unpackAssetInfo v b;
            Some (ti\<lparr>ti_AssetInfo := ai\<rparr>, al + assetLen)
          } else Some (ti, al)
        }
      else
        let (al, l) = unpackVaruint v buf in do {
          a \<leftarrow> slice buf l (l + sint al);
          let ti = ti\<lparr>ti_AddrDesc := a\<rparr>;
          let al = al + word_of_int l;
          b \<leftarrow> slice_from buf (uint al);
          (val, l) \<leftarrow> unpackBigint b;
          let ti = ti\<lparr>ti_ValueSat := val\<rparr>;
          let al = al + word_of_int l;
          if supportsSyscoinAssets p then do {
            b \<leftarrow> slice_from buf (uint al);
            (ai, assetLen) \<leftarrow> unpackAssetInfo v b;
            let al = al + word_of_int assetLen;
            Some (ti\<lparr>ti_AssetInfo := ai\<rparr>, sint al)
          } else Some (ti, sint al)
        })"

definition unpackTxOutput :: "RocksDB \<Rightarrow> bytes \<Rightarrow> (TxOutput \<times> int) option" where
  "unpackTxOutput d buf =
     (let v = d_vlq d; p = d_chainParser d; (al, l) = unpackVarint v buf;
          to = zeroTxOutput\<lparr>to_Spent := al < 0\<rparr>; al = (if al < 0 then NOT al else al) in do {
        a \<leftarrow> slice buf l (l + al);
        let to = to\<lparr>to_AddrDesc := a\<rparr>;
        let al = al + l;
        b \<leftarrow> slice_from buf al;
        (val, l) \<leftarrow> unpackBigint b;
        let to = to\<lparr>to_ValueSat := val\<rparr>;
        let al = al + l;
        (to, al) \<leftarrow> (if d_extendedIndex d \<and> to_Spent to then do {
            let l = p_PackedTxidLen p;
            tx \<leftarrow> slice buf al (al + l);
            let to = to\<lparr>to_SpentTxid := ignore_err (p_UnpackTxid p tx)\<rparr>;
            let al = al + l;
            b \<leftarrow> slice_from buf al;
            let (i, l) = unpackVaruint v b;
            let al = al + l;
            let to = to\<lparr>to_SpentIndex := ucast i\<rparr>;
            b \<leftarrow> slice_from buf al;
            let (i, l) = unpackVaruint v b;
            Some (to\<lparr>to_SpentHeight := ucast i\<rparr>, al + l)
          } else Some (to, al));
        if supportsSyscoinAssets p then do {
          b \<leftarrow> slice_from buf al;
          (ai, assetLen) \<leftarrow> unpackAssetInfo v b;
          Some (to\<lparr>to_AssetInfo := ai\<rparr>, al + assetLen)
        } else Some (to, al)
      })"

definition unpackTxAddresses :: "RocksDB \<Rightarrow> bytes \<Rightarrow> TxAddresses option" where
  "unpackTxAddresses d buf =
     (let v = d_vlq d; p = d_chainParser d;
          (version, l) = (if supportsSyscoinAssets p then unpackVaruint v buf else (0, 0));
          ta = zeroTxAddresses\<lparr>ta_Version := int32 (uint version)\<rparr> in do {
        b \<leftarrow> slice_from buf l;
        let (height, ll) = unpackVaruint v b;
        let ta = ta\<lparr>ta_Height := ucast height\<rparr>;
        let l = l + ll;
        (ta, l) \<leftarrow> (if d_extendedIndex d then do {
            b \<leftarrow> slice_from buf l;
            let (vsize, ll) = unpackVaruint v b;
            Some (ta\<lparr>ta_VSize := ucast vsize\<rparr>, l + ll)
          } else Some (ta, l));
        b \<leftarrow> slice_from buf l;
        let (inputs, ll) = unpackVaruint v b;
        let l = l + ll;
        (tis, l) \<leftarrow> unpack_n (unpackTxInput d) (unat inputs) buf l;
        b \<leftarrow> slice_from buf l;
        let (outputs, ll) = unpackVaruint v b;
        let l = l + ll;
        (tos, l) \<leftarrow> unpack_n (unpackTxOutput d) (unat outputs) buf l;
        let ta = ta\<lparr>ta_Inputs := tis, ta_Outputs := tos\<rparr>;
        if supportsSyscoinAssets p then do {
          b \<leftarrow> slice_from buf l;
          (memo, _) \<leftarrow> unpackVarBytes v b;
          Some (ta\<lparr>ta_Memo := memo\<rparr>)
        } else Some ta
      })"

section \<open>Skipping\<close>

definition packedTxInputLen :: "RocksDB \<Rightarrow> bytes \<Rightarrow> int option" where
  "packedTxInputLen d buf =
     (let v = d_vlq d; p = d_chainParser d in
      if d_extendedIndex d then
        let (al, pos) = unpackVarint v buf; coinbase = al < 0; al = (if coinbase then NOT al else al);
            pos = pos + al in do {
          b \<leftarrow> index buf pos;
          let pos = pos + (int (unat b) + 1);
          pos \<leftarrow> (if \<not> coinbase then do {
              let pos = pos + p_PackedTxidLen p;
              b \<leftarrow> slice_from buf pos;
              let (_, n) = unpackVaruint v b;
              Some (pos + n)
            } else Some pos);
          if supportsSyscoinAssets p then do {
            b \<leftarrow> slice_from buf pos;
            n \<leftarrow> packedAssetInfoLen v b;
            Some (pos + n)
          } else Some pos
        }
      else
        let (al, pos) = unpackVaruint v buf; pos = pos + sint al in do {
          b \<leftarrow> index buf pos;
          let pos = pos + (int (unat b) + 1);
          if supportsSyscoinAssets p then do {
            b \<leftarrow> slice_from buf pos;
            n \<leftarrow> packedAssetInfoLen v b;
            Some (pos + n)
          } else Some pos
        })"

definition packedTxOutputLen :: "RocksDB \<Rightarrow> bytes \<Rightarrow> int option" where
  "packedTxOutputLen d buf =
     (let v = d_vlq d; p = d_chainParser d; (al, pos) = unpackVarint v buf; spent = al < 0;
          al = (if spent then NOT al else al); pos = pos + al in do {
        b \<leftarrow> index buf pos;
        let pos = pos + (int (unat b) + 1);
        pos \<leftarrow> (if d_extendedIndex d \<and> spent then do {
            let pos = pos + p_PackedTxidLen p;
            b \<leftarrow> slice_from buf pos;
            let (_, n) = unpackVaruint v b;
            let pos = pos + n;
            b \<leftarrow> slice_from buf pos;
            let (_, n) = unpackVaruint v b;
            Some (pos + n)
          } else Some pos);
        if supportsSyscoinAssets p then do {
          b \<leftarrow> slice_from buf pos;
          n \<leftarrow> packedAssetInfoLen v b;
          Some (pos + n)
        } else Some pos
      })"

section \<open>Reading rows\<close>

text \<open>The bytes of a value, with no bytes for a missing row.\<close>

definition val_Data :: "bytes option \<Rightarrow> bytes" where
  "val_Data v = (case v of None \<Rightarrow> [] | Some b \<Rightarrow> b)"

definition getTxAddresses :: "RocksDB \<Rightarrow> view \<Rightarrow> bytes \<Rightarrow> TxAddresses option res" where
  "getTxAddresses d get btxID =
     bindR (get cfTxAddresses btxID) (\<lambda>val.
       let buf = val_Data val in
       if length buf < 3 then Inr None
       else bindR (of_panic (unpackTxAddresses d buf)) (\<lambda>ta. Inr (Some ta)))"

definition GetTxAddresses :: "RocksDB \<Rightarrow> view \<Rightarrow> string \<Rightarrow> TxAddresses option res" where
  "GetTxAddresses d get txid =
     bindR (p_PackTxid (d_chainParser d) txid) (\<lambda>btxID. getTxAddresses d get btxID)"

definition unpackTxAddressesOutput :: "RocksDB \<Rightarrow> bytes \<Rightarrow> uint32 \<Rightarrow> TxOutput option option" where
  "unpackTxAddressesOutput d buf vout =
     (let v = d_vlq d; p = d_chainParser d;
          l = (if supportsSyscoinAssets p then snd (unpackVaruint v buf) else 0) in do {
        b \<leftarrow> slice_from buf l;
        let (_, n) = unpackVaruint v b;
        let l = l + n;
        l \<leftarrow> (if d_extendedIndex d then do {
            b \<leftarrow> slice_from buf l;
            let (_, n) = unpackVaruint v b;
            Some (l + n)
          } else Some l);
        b \<leftarrow> slice_from buf l;
        let (inputs, n) = unpackVaruint v b;
        let l = l + n;
        l \<leftarrow> skip_n (packedTxInputLen d) (unat inputs) buf l;
        b \<leftarrow> slice_from buf l;
        let (outputs, n) = unpackVaruint v b;
        let l = l + n;
        if ucast vout \<ge> outputs then Some None
        else do {
          l \<leftarrow> skip_n (packedTxOutputLen d) (unat vout) buf l;
          b \<leftarrow> slice_from buf l;
          (output, _) \<leftarrow> unpackTxOutput d b;
          Some (Some output)
        }
      })"

definition GetTxAddressesOutput :: "RocksDB \<Rightarrow> view \<Rightarrow> string \<Rightarrow> uint32 \<Rightarrow> TxOutput option res" where
  "GetTxAddressesOutput d get txid vout =
     bindR (p_PackTxid (d_chainParser d) txid) (\<lambda>btxID.
       bindR (get cfTxAddresses btxID) (\<lambda>val.
         let buf = val_Data val in
         if length buf < 3 then Inr None
         else of_panic (unpackTxAddressesOutput d buf vout)))"

definition AddrDescForOutpoint ::
    "RocksDB \<Rightarrow> view \<Rightarrow> Outpoint \<Rightarrow> (bytes \<times> int \<times> AssetInfo option) option res" where
  "AddrDescForOutpoint d get outpoint =
     (case GetTxAddresses d get (op_Txid outpoint) of
        Inl Panic \<Rightarrow> Inl Panic
      | Inl err \<Rightarrow> Inr None
      | Inr None \<Rightarrow> Inr None
      | Inr (Some ta) \<Rightarrow>
          if op_Vout outpoint < 0 then
            let vin = NOT (op_Vout outpoint) in
            if int (length (ta_Inputs ta)) \<le> vin then Inr None
            else bindR (of_panic (index (ta_Inputs ta) vin)) (\<lambda>i.
              Inr (Some (ti_AddrDesc i, ti_ValueSat i, ti_AssetInfo i)))
          else if int (length (ta_Outputs ta)) \<le> op_Vout outpoint then Inr None
          else bindR (of_panic (index (ta_Outputs ta) (op_Vout outpoint))) (\<lambda>o'.
            Inr (Some (to_AddrDesc o', to_ValueSat o', to_AssetInfo o'))))"

end
