(* ===== verification/AddrBalance.thy ===== *)
theory AddrBalance
  imports TxAddresses
begin

text \<open>
  Balances of addresses and their unspent outputs (\<open>src/db/rocksdb.go\<close>): the list of unspent outputs
  with the index that speeds up the search in long lists, and the rows of the column addressBalance.

  The code compares transaction ids by their first eight bytes, read through a pointer to the first
  byte, before it compares them completely; on an empty id the access panics. The pointer read
  is modelled for ids of at least eight bytes, which every packed id has.
\<close>

section \<open>Data\<close>

record Utxo =
  u_BtxID :: bytes
  u_Vout :: int
  u_Height :: uint32
  u_ValueSat :: int
  u_AssetInfo :: "AssetInfo option"

record AddrBalance =
  ab_Txs :: uint32
  ab_SentSat :: int
  ab_BalanceSat :: int
  ab_Utxos :: "Utxo list"
  ab_AssetBalances :: "(uint64 \<times> AssetBalance) list"
  ab_utxosMap :: "(bytes \<times> nat) list"

datatype AddressBalanceDetail =
    AddressBalanceDetailNoUTXO | AddressBalanceDetailUTXO | addressBalanceDetailUTXOIndexed

definition zeroAddrBalance :: AddrBalance where
  "zeroAddrBalance = \<lparr>ab_Txs = 0, ab_SentSat = 0, ab_BalanceSat = 0, ab_Utxos = [],
     ab_AssetBalances = [], ab_utxosMap = []\<rparr>"

definition ReceivedSat :: "AddrBalance \<Rightarrow> int" where
  "ReceivedSat ab = ab_BalanceSat ab + ab_SentSat ab"

section \<open>The list of unspent outputs and its index\<close>

definition sameTxid :: "bytes \<Rightarrow> bytes \<Rightarrow> bool option" where
  "sameTxid a b = (if a = [] \<or> b = [] then None else Some (take 8 a = take 8 b \<and> a = b))"

text \<open>The loop that builds the index: the first position of every transaction id.\<close>

fun buildUtxoMap :: "nat \<Rightarrow> Utxo list \<Rightarrow> (bytes \<times> nat) list \<Rightarrow> (bytes \<times> nat) list" where
  "buildUtxoMap i [] m = m"
| "buildUtxoMap i (u # us) m =
     buildUtxoMap (Suc i) us
       (case map_of m (u_BtxID u) of None \<Rightarrow> AList.update (u_BtxID u) i m | Some _ \<Rightarrow> m)"

definition manageUtxoMap :: "Utxo \<Rightarrow> AddrBalance \<Rightarrow> AddrBalance" where
  "manageUtxoMap u ab =
     (let l = length (ab_Utxos ab) in
      if l \<ge> 16 then
        if ab_utxosMap ab = [] then ab\<lparr>ab_utxosMap := buildUtxoMap 0 (ab_Utxos ab) []\<rparr>
        else
          (case map_of (ab_utxosMap ab) (u_BtxID u) of
             None \<Rightarrow> ab\<lparr>ab_utxosMap := AList.update (u_BtxID u) (l - 1) (ab_utxosMap ab)\<rparr>
           | Some _ \<Rightarrow> ab)
      else ab)"

definition addUtxo :: "Utxo \<Rightarrow> AddrBalance \<Rightarrow> AddrBalance" where
  "addUtxo u ab = manageUtxoMap u (ab\<lparr>ab_Utxos := ab_Utxos ab @ [u]\<rparr>)"

text \<open>The position of the first output of the same transaction, by linear search.\<close>

fun findTxLinear :: "bytes \<Rightarrow> nat \<Rightarrow> Utxo list \<Rightarrow> nat option option" where
  "findTxLinear b i [] = Some None"
| "findTxLinear b i (u # us) = do {
     same \<leftarrow> sameTxid (u_BtxID u) b;
     if same then Some (Some i) else findTxLinear b (Suc i) us
   }"

text \<open>The position from \<open>insert\<close> on at which the output has to be inserted, if any.\<close>

fun findInsert :: "Utxo \<Rightarrow> nat \<Rightarrow> Utxo list \<Rightarrow> nat option option" where
  "findInsert u i [] = Some None"
| "findInsert u i (x # us) = do {
     here \<leftarrow> (if u_Vout x > u_Vout u then Some True
              else do { same \<leftarrow> sameTxid (u_BtxID x) (u_BtxID u); Some (\<not> same) });
     if here then Some (Some i) else findInsert u (Suc i) us
   }"

definition addUtxoInDisconnect :: "Utxo \<Rightarrow> AddrBalance \<Rightarrow> AddrBalance option" where
  "addUtxoInDisconnect u ab = do {
     insert \<leftarrow> (if ab_utxosMap ab \<noteq> [] then Some (map_of (ab_utxosMap ab) (u_BtxID u))
               else findTxLinear (u_BtxID u) 0 (ab_Utxos ab));
     pos \<leftarrow> (case insert of None \<Rightarrow> Some None | Some i \<Rightarrow> findInsert u i (drop i (ab_Utxos ab)));
     (case pos of
        Some i \<Rightarrow> Some (ab\<lparr>ab_Utxos := take i (ab_Utxos ab) @ u # drop i (ab_Utxos ab), ab_utxosMap := []\<rparr>)
      | None \<Rightarrow> Some (manageUtxoMap u (ab\<lparr>ab_Utxos := ab_Utxos ab @ [u]\<rparr>)))
   }"

text \<open>The two searches of \<open>markUtxoAsSpent\<close>: over the whole list, and from an indexed position.\<close>

fun markLinear :: "bytes \<Rightarrow> int \<Rightarrow> Utxo list \<Rightarrow> Utxo list option" where
  "markLinear b vout [] = Some []"
| "markLinear b vout (u # us) = do {
     hit \<leftarrow> (if u_Vout u = vout then sameTxid (u_BtxID u) b else Some False);
     if hit then Some (u\<lparr>u_Vout := - 1\<rparr> # us)
     else do { us' \<leftarrow> markLinear b vout us; Some (u # us') }
   }"

fun markIndexed :: "bytes \<Rightarrow> int \<Rightarrow> Utxo list \<Rightarrow> Utxo list" where
  "markIndexed b vout [] = []"
| "markIndexed b vout (u # us) =
     (if u_Vout u = vout then
        (if u_BtxID u = b then u\<lparr>u_Vout := - 1\<rparr> # us else u # us)
      else u # markIndexed b vout us)"

definition markUtxoAsSpent :: "bytes \<Rightarrow> int \<Rightarrow> AddrBalance \<Rightarrow> AddrBalance option" where
  "markUtxoAsSpent b vout ab =
     (if ab_utxosMap ab = [] then do {
        us \<leftarrow> markLinear b vout (ab_Utxos ab);
        Some (ab\<lparr>ab_Utxos := us\<rparr>)
      }
      else
        (case map_of (ab_utxosMap ab) b of
           Some i \<Rightarrow> Some (ab\<lparr>ab_Utxos :=
             take i (ab_Utxos ab) @ markIndexed b vout (drop i (ab_Utxos ab))\<rparr>)
         | None \<Rightarrow> Some ab))"

section \<open>Rows of the column addressBalance\<close>

definition appendUtxo :: "RocksDB \<Rightarrow> bool \<Rightarrow> Utxo \<Rightarrow> bytes" where
  "appendUtxo d assets utxo =
     (if u_Vout utxo \<ge> 0 then
        u_BtxID utxo @ packVaruint (d_vlq d) (word_of_int (u_Vout utxo)) @
        packVaruint (d_vlq d) (ucast (u_Height utxo)) @ packBigint (u_ValueSat utxo) @
        (if assets then appendAssetInfo (d_vlq d) (u_AssetInfo utxo) else [])
      else [])"

definition packAddrBalance_base :: "RocksDB \<Rightarrow> AddrBalance \<Rightarrow> bytes" where
  "packAddrBalance_base d ab =
     packVaruint (d_vlq d) (ucast (ab_Txs ab)) @ packBigint (ab_SentSat ab) @ packBigint (ab_BalanceSat ab) @
     concat (map (appendUtxo d False) (ab_Utxos ab))"

definition appendAssetBalance :: "RocksDB \<Rightarrow> uint64 \<times> AssetBalance \<Rightarrow> bytes" where
  "appendAssetBalance d gb =
     (case gb of (guid, balance) \<Rightarrow>
        packVaruint64 (d_vlq d) guid @ packBigint (ab_AssetBalanceSat balance) @
        packBigint (ab_AssetSentSat balance) @ packVaruint (d_vlq d) (ucast (ab_Transfers balance)))"

definition packAddrBalance :: "RocksDB \<Rightarrow> AddrBalance \<Rightarrow> bytes" where
  "packAddrBalance d ab =
     (if \<not> supportsSyscoinAssets (d_chainParser d) then packAddrBalance_base d ab
      else
        packVaruint (d_vlq d) (ucast (ab_Txs ab)) @ packBigint (ab_SentSat ab) @ packBigint (ab_BalanceSat ab) @
        packVaruint (d_vlq d) (of_nat (length (ab_AssetBalances ab))) @
        concat (map (appendAssetBalance d) (ab_AssetBalances ab)) @
        concat (map (appendUtxo d True) (ab_Utxos ab)))"

definition unpackAssetBalance :: "RocksDB \<Rightarrow> bytes \<Rightarrow> ((uint64 \<times> AssetBalance) \<times> int) option" where
  "unpackAssetBalance d buf =
     (let (assetGuid, l) = unpackVaruint64 (d_vlq d) buf in do {
        b \<leftarrow> slice_from buf l;
        (balanceValue, ll) \<leftarrow> unpackBigint b;
        let l = l + ll;
        b \<leftarrow> slice_from buf l;
        (sentValue, ll) \<leftarrow> unpackBigint b;
        let l = l + ll;
        b \<leftarrow> slice_from buf l;
        let (transfers, ll) = unpackVaruint (d_vlq d) b;
        Some ((assetGuid, \<lparr>ab_Transfers = ucast transfers, ab_AssetBalanceSat = balanceValue,
           ab_AssetSentSat = sentValue\<rparr>), l + ll)
      })"

definition unpackUtxo :: "RocksDB \<Rightarrow> int \<Rightarrow> bytes \<Rightarrow> (Utxo \<times> int) option" where
  "unpackUtxo d txidUnpackedLen buf = do {
     btxID \<leftarrow> slice buf 0 txidUnpackedLen;
     let l = txidUnpackedLen;
     b \<leftarrow> slice_from buf l;
     let (vout, ll) = unpackVaruint (d_vlq d) b;
     let l = l + ll;
     b \<leftarrow> slice_from buf l;
     let (height, ll) = unpackVaruint (d_vlq d) b;
     let l = l + ll;
     b \<leftarrow> slice_from buf l;
     (valueSat, ll) \<leftarrow> unpackBigint b;
     let l = l + ll;
     let u = \<lparr>u_BtxID = btxID, u_Vout = int32 (uint vout), u_Height = ucast height,
              u_ValueSat = valueSat, u_AssetInfo = None\<rparr>;
     if supportsSyscoinAssets (d_chainParser d) then do {
       b \<leftarrow> slice_from buf l;
       (ai, assetLen) \<leftarrow> unpackAssetInfo (d_vlq d) b;
       Some (u\<lparr>u_AssetInfo := ai\<rparr>, l + assetLen)
     } else Some (u, l)
   }"

text \<open>
  The loop over the unspent outputs ends when fewer than \<open>txidUnpackedLen + 3\<close> bytes are left. Every
  round consumes at least the bytes of the transaction id; the first argument bounds the number of
  rounds, and \<open>unpackAddrBalance\<close> passes the length of the buffer. The division by
  \<open>txidUnpackedLen\<close> in the estimate of the number of outputs panics on zero.
\<close>

fun unpackUtxos ::
    "nat \<Rightarrow> RocksDB \<Rightarrow> int \<Rightarrow> AddressBalanceDetail \<Rightarrow> bytes \<Rightarrow> int \<Rightarrow> AddrBalance \<Rightarrow> AddrBalance option" where
  "unpackUtxos fuel d txidUnpackedLen detail buf l ab = do {
     b \<leftarrow> slice_from buf l;
     if int (length b) \<ge> txidUnpackedLen + 3 then
       (case fuel of
          0 \<Rightarrow> None
        | Suc fuel \<Rightarrow> do {
            (u, ll) \<leftarrow> unpackUtxo d txidUnpackedLen b;
            unpackUtxos fuel d txidUnpackedLen detail buf (l + ll)
              (if detail = AddressBalanceDetailUTXO then ab\<lparr>ab_Utxos := ab_Utxos ab @ [u]\<rparr> else addUtxo u ab)
          })
     else Some ab
   }"

declare unpackUtxos.simps [simp del]

definition unpackAddrBalance :: "RocksDB \<Rightarrow> bytes \<Rightarrow> int \<Rightarrow> AddressBalanceDetail \<Rightarrow> AddrBalance option" where
  "unpackAddrBalance d buf txidUnpackedLen detail =
     (let (txs, l) = unpackVaruint (d_vlq d) buf in do {
        b \<leftarrow> slice_from buf l;
        (sentSat, sl) \<leftarrow> unpackBigint b;
        b \<leftarrow> slice_from buf (l + sl);
        (balanceSat, bl) \<leftarrow> unpackBigint b;
        let l = l + sl + bl;
        let ab = zeroAddrBalance\<lparr>ab_Txs := ucast txs, ab_SentSat := sentSat, ab_BalanceSat := balanceSat\<rparr>;
        (ab, l) \<leftarrow> (if supportsSyscoinAssets (d_chainParser d) then do {
            b \<leftarrow> slice_from buf l;
            let (numAssetBalances, ll) = unpackVaruint (d_vlq d) b;
            (balances, l) \<leftarrow> unpack_n (unpackAssetBalance d) (unat numAssetBalances) buf (l + ll);
            Some (ab\<lparr>ab_AssetBalances := foldl (\<lambda>m (g, a). AList.update g a m) [] balances\<rparr>, l)
          } else Some (ab, l));
        if detail \<noteq> AddressBalanceDetailNoUTXO then
          if txidUnpackedLen = 0 then None
          else unpackUtxos (length buf) d txidUnpackedLen detail buf l ab
        else Some ab
      })"

definition GetAddrDescBalance ::
    "RocksDB \<Rightarrow> view \<Rightarrow> bytes \<Rightarrow> AddressBalanceDetail \<Rightarrow> AddrBalance option res" where
  "GetAddrDescBalance d get addrDesc detail =
     bindR (get cfAddressBalance addrDesc) (\<lambda>val.
       let buf = val_Data val in
       if length buf < 3 then Inr None
       else bindR (of_panic (unpackAddrBalance d buf (p_PackedTxidLen (d_chainParser d)) detail))
         (\<lambda>ab. Inr (Some ab)))"

definition GetAddressBalance ::
    "RocksDB \<Rightarrow> view \<Rightarrow> string \<Rightarrow> AddressBalanceDetail \<Rightarrow> AddrBalance option res" where
  "GetAddressBalance d get address detail =
     bindR (p_GetAddrDescFromAddress (d_chainParser d) address) (\<lambda>addrDesc.
       GetAddrDescBalance d get addrDesc detail)"

definition storeBalances :: "RocksDB \<Rightarrow> (bytes \<times> AddrBalance option) list \<Rightarrow> wbatch" where
  "storeBalances d abm =
     map (\<lambda>(addrDesc, b).
       case b of
         None \<Rightarrow> DeleteCF cfAddressBalance addrDesc
       | Some ab \<Rightarrow>
           if ab_Txs ab \<le> 0 then DeleteCF cfAddressBalance addrDesc
           else PutCF cfAddressBalance addrDesc (packAddrBalance d ab)) abm"

end
