(* ===== verification/Blocks.thy ===== *)
theory Blocks
  imports AddrBalance
begin

text \<open>
  The rows that describe blocks (\<open>src/db/rocksdb.go\<close>): the transactions of an address in a block
  (column addresses) and the iteration over them, the spent outpoints of a block that are kept for
  rollbacks (column blockTxs), and the block headers (column height).
\<close>

section \<open>Transactions of an address in a block\<close>

record txIndexes =
  btxID :: bytes
  indexes :: "int list"

text \<open>\<open>addressesMap\<close> maps the descriptor of an address to its transactions in the block.\<close>

type_synonym addressesMap = "(bytes \<times> txIndexes list) list"

fun appendIndex :: "bytes \<Rightarrow> int \<Rightarrow> txIndexes list \<Rightarrow> txIndexes list option" where
  "appendIndex b i [] = None"
| "appendIndex b i (t # at) =
     (if b = btxID t then Some (t\<lparr>indexes := indexes t @ [i]\<rparr> # at)
      else map_option ((#) t) (appendIndex b i at))"

definition addToAddressesMap :: "addressesMap \<Rightarrow> bytes \<Rightarrow> bytes \<Rightarrow> int \<Rightarrow> addressesMap \<times> bool" where
  "addToAddressesMap addresses strAddrDesc b i =
     (let at = (case map_of addresses strAddrDesc of None \<Rightarrow> [] | Some at \<Rightarrow> at) in
      case appendIndex b i at of
        Some at' \<Rightarrow> (AList.update strAddrDesc at' addresses, True)
      | None \<Rightarrow> (AList.update strAddrDesc (at @ [\<lparr>btxID = b, indexes = [i]\<rparr>]) addresses, False))"

text \<open>The loop over the indexes of one transaction: shifted by one bit, the last one with the
  lowest bit set. The arithmetic is that of \<open>int32\<close>.\<close>

fun packIndexes :: "vlq_lib \<Rightarrow> int list \<Rightarrow> bytes" where
  "packIndexes v [] = []"
| "packIndexes v [i] = packVarint32 v (int32 (push_bit 1 i) OR 1)"
| "packIndexes v (i # j # is) = packVarint32 v (int32 (push_bit 1 i)) @ packIndexes v (j # is)"

definition packTxIndexes :: "RocksDB \<Rightarrow> txIndexes list \<Rightarrow> bytes" where
  "packTxIndexes d txi = concat (map (\<lambda>t. btxID t @ packIndexes (d_vlq d) (indexes t)) (rev txi))"

text \<open>
  The inner loop reads indexes until one has the lowest bit set. It has no other end, so on a damaged
  row it panics or does not return; the counter, started with the number of bytes left, bounds
  the number of rounds, and \<open>None\<close> stands for both.
\<close>

fun unpackIndexes :: "nat \<Rightarrow> vlq_lib \<Rightarrow> bytes \<Rightarrow> int list \<Rightarrow> (int list \<times> bytes) option" where
  "unpackIndexes 0 v buf acc = None"
| "unpackIndexes (Suc fuel) v buf acc =
     (let (index, l) = unpackVarint32 v buf; acc = acc @ [drop_bit 1 index] in do {
        buf \<leftarrow> slice_from buf l;
        if index AND 1 = 1 then Some (acc, buf) else unpackIndexes fuel v buf acc
      })"

fun unpackTxIndexesLoop :: "nat \<Rightarrow> RocksDB \<Rightarrow> bytes \<Rightarrow> txIndexes list option" where
  "unpackTxIndexesLoop fuel d buf =
     (let n = p_PackedTxidLen (d_chainParser d) in
      if int (length buf) > n then
        (case fuel of
           0 \<Rightarrow> None
         | Suc fuel \<Rightarrow> do {
             b \<leftarrow> slice buf 0 n;
             buf \<leftarrow> slice_from buf n;
             (is, buf) \<leftarrow> unpackIndexes (length buf) (d_vlq d) buf [];
             rest \<leftarrow> unpackTxIndexesLoop fuel d buf;
             Some (\<lparr>btxID = b, indexes = is\<rparr> # rest)
           })
      else Some [])"

declare unpackTxIndexesLoop.simps [simp del]

definition unpackTxIndexes :: "RocksDB \<Rightarrow> bytes \<Rightarrow> txIndexes list option" where
  "unpackTxIndexes d buf = do { retval \<leftarrow> unpackTxIndexesLoop (length buf) d buf; Some (rev retval) }"

definition getTxIndexesForAddressAndBlock :: "RocksDB \<Rightarrow> view \<Rightarrow> bytes \<Rightarrow> uint32 \<Rightarrow> txIndexes list res" where
  "getTxIndexesForAddressAndBlock d get addrDesc height =
     bindR (get cfAddresses (packAddressKey addrDesc height)) (\<lambda>val.
       case val of
         None \<Rightarrow> Inr []
       | Some buf \<Rightarrow> of_panic (unpackTxIndexes d buf))"

definition storeAddresses :: "RocksDB \<Rightarrow> uint32 \<Rightarrow> addressesMap \<Rightarrow> wbatch" where
  "storeAddresses d height addresses =
     map (\<lambda>(addrDesc, txi). PutCF cfAddresses (packAddressKey addrDesc height) (packTxIndexes d txi)) addresses"

section \<open>Iteration over the transactions of an address\<close>

definition maxAddrDescScanNonMatching :: nat where
  "maxAddrDescScanNonMatching = 1000"

type_synonym 's callback = "string \<Rightarrow> uint32 \<Rightarrow> int list \<Rightarrow> 's \<Rightarrow> 's \<times> error option"

fun readIndexes :: "nat \<Rightarrow> vlq_lib \<Rightarrow> bytes \<Rightarrow> int list \<Rightarrow> (int list \<times> bytes) option" where
  "readIndexes 0 v val acc = None"
| "readIndexes (Suc fuel) v val acc =
     (let (index, l) = unpackVarint32 v val; acc = acc @ [drop_bit 1 index] in do {
        val \<leftarrow> slice_from val l;
        if index AND 1 = 1 then Some (acc, val)
        else if val = [] then Some (acc, val)
        else readIndexes fuel v val acc
      })"

fun visitRow :: "nat \<Rightarrow> RocksDB \<Rightarrow> 's callback \<Rightarrow> uint32 \<Rightarrow> bytes \<Rightarrow> 's \<Rightarrow> 's \<times> error option" where
  "visitRow fuel d fn height val s =
     (let n = p_PackedTxidLen (d_chainParser d) in
      if int (length val) > n then
        (case fuel of
           0 \<Rightarrow> (s, Some Panic)
         | Suc fuel \<Rightarrow>
             (case slice val 0 n of
                None \<Rightarrow> (s, Some Panic)
              | Some b \<Rightarrow>
                  (case p_UnpackTxid (d_chainParser d) b of
                     Inl err \<Rightarrow> (s, Some err)
                   | Inr tx \<Rightarrow>
                       (case readIndexes (length (drop (nat n) val)) (d_vlq d) (drop (nat n) val) [] of
                          None \<Rightarrow> (s, Some Panic)
                        | Some (is, val) \<Rightarrow>
                            (case fn tx height is s of
                               (s, Some err) \<Rightarrow> (s, Some err)
                             | (s, None) \<Rightarrow> visitRow fuel d fn height val s)))))
      else (s, None))"

declare visitRow.simps [simp del]

fun visitRows ::
    "RocksDB \<Rightarrow> 's callback \<Rightarrow> bytes \<Rightarrow> nat \<Rightarrow> nat \<Rightarrow> (bytes \<times> bytes) list \<Rightarrow> 's \<Rightarrow> 's \<times> error option" where
  "visitRows d fn stopKey addrDescLen nonMatching [] s = (s, None)"
| "visitRows d fn stopKey addrDescLen nonMatching ((key, val) # rows) s =
     (if key > stopKey then (s, None)
      else if length key \<noteq> addrDescLen + packedHeightBytes then
        if nonMatching + 1 > maxAddrDescScanNonMatching
        then (s, Some (ErrMsg ''address transaction scan limit exceeded''))
        else visitRows d fn stopKey addrDescLen (nonMatching + 1) rows s
      else
        (case unpackAddressKey key of
           Inl err \<Rightarrow> (s, Some err)
         | Inr (_, height) \<Rightarrow>
             (case visitRow (length val) d fn height val s of
                (s, Some StopIteration) \<Rightarrow> (s, None)
              | (s, Some err) \<Rightarrow> (s, Some err)
              | (s, None) \<Rightarrow> visitRows d fn stopKey addrDescLen nonMatching rows s)))"

definition GetAddrDescTransactions ::
    "RocksDB \<Rightarrow> (bytes \<times> bytes) list \<Rightarrow> bytes \<Rightarrow> uint32 \<Rightarrow> uint32 \<Rightarrow> 's callback \<Rightarrow> 's \<Rightarrow> 's \<times> error option" where
  "GetAddrDescTransactions d rows addrDesc lower higher fn s =
     (let startKey = packAddressKey addrDesc higher; stopKey = packAddressKey addrDesc lower in
      visitRows d fn stopKey (length addrDesc) 0 (seek startKey rows) s)"

definition GetTransactions ::
    "RocksDB \<Rightarrow> (bytes \<times> bytes) list \<Rightarrow> string \<Rightarrow> uint32 \<Rightarrow> uint32 \<Rightarrow> 's callback \<Rightarrow> 's \<Rightarrow> 's \<times> error option" where
  "GetTransactions d rows address lower higher fn s =
     (case p_GetAddrDescFromAddress (d_chainParser d) address of
        Inl err \<Rightarrow> (s, Some err)
      | Inr addrDesc \<Rightarrow> GetAddrDescTransactions d rows addrDesc lower higher fn s)"

section \<open>Spent outpoints of a block\<close>

record outpoint =
  o_btxID :: bytes
  o_index :: int

record blockTxs =
  bt_btxID :: bytes
  bt_inputs :: "outpoint list"

definition packOutpoints :: "RocksDB \<Rightarrow> outpoint list \<Rightarrow> bytes" where
  "packOutpoints d outpoints = concat (map (\<lambda>o'. o_btxID o' @ packVarint32 (d_vlq d) (o_index o')) outpoints)"

fun unpackOutpoints :: "nat \<Rightarrow> RocksDB \<Rightarrow> bytes \<Rightarrow> int \<Rightarrow> (outpoint list \<times> int) res" where
  "unpackOutpoints 0 d buf p = Inr ([], p)"
| "unpackOutpoints (Suc n) d buf p =
     (let txidUnpackedLen = p_PackedTxidLen (d_chainParser d) in
      if p + txidUnpackedLen \<ge> int (length buf)
      then Inl (ErrMsg ''Inconsistent data in unpackNOutpoints'')
      else
        bindR (of_panic (slice buf p (p + txidUnpackedLen))) (\<lambda>b.
        bindR (of_panic (slice_from buf (p + txidUnpackedLen))) (\<lambda>rest.
          let (vout, voutLen) = unpackVarint32 (d_vlq d) rest in
          bindR (unpackOutpoints n d buf (p + txidUnpackedLen + voutLen)) (\<lambda>(os, p).
            Inr (\<lparr>o_btxID = b, o_index = vout\<rparr> # os, p)))))"

definition unpackNOutpoints :: "RocksDB \<Rightarrow> bytes \<Rightarrow> (outpoint list \<times> int) res" where
  "unpackNOutpoints d buf =
     (let (n, p) = unpackVaruint (d_vlq d) buf in unpackOutpoints (unat n) d buf p)"

text \<open>
  The loop over the transactions of a row. Every round consumes the bytes of a transaction id; the
  counter, started with the length of the row, bounds the number of rounds.
\<close>

fun getBlockTxsLoop :: "nat \<Rightarrow> RocksDB \<Rightarrow> bytes \<Rightarrow> int \<Rightarrow> blockTxs list res" where
  "getBlockTxsLoop fuel d buf i =
     (let pl = p_PackedTxidLen (d_chainParser d) in
      if i < int (length buf) then
        if int (length buf) - i < pl then Inl (ErrMsg ''Inconsistent data in blockTxs'')
        else
          (case fuel of
             0 \<Rightarrow> Inl Panic
           | Suc fuel \<Rightarrow>
               bindR (of_panic (slice buf i (i + pl))) (\<lambda>txid.
               bindR (of_panic (slice_from buf (i + pl))) (\<lambda>b.
                 (case unpackNOutpoints d b of
                    Inl Panic \<Rightarrow> Inl Panic
                  | Inl err \<Rightarrow> Inl (ErrMsg ''Inconsistent data in blockTxs'')
                  | Inr (os, ol) \<Rightarrow>
                      bindR (getBlockTxsLoop fuel d buf (i + pl + ol)) (\<lambda>bt.
                        Inr (\<lparr>bt_btxID = txid, bt_inputs = os\<rparr> # bt))))))
      else Inr [])"

declare getBlockTxsLoop.simps [simp del]

definition getBlockTxs :: "RocksDB \<Rightarrow> view \<Rightarrow> uint32 \<Rightarrow> blockTxs list res" where
  "getBlockTxs d get height =
     bindR (get cfBlockTxs (packUint height)) (\<lambda>val.
       let buf = val_Data val in getBlockTxsLoop (length buf) d buf 0)"

text \<open>Deletion of the rows of old blocks, downwards from \<open>rh\<close> to the first missing row.\<close>

fun cleanupBlockTxsFrom :: "view \<Rightarrow> nat \<Rightarrow> wbatch res" where
  "cleanupBlockTxsFrom get 0 = Inr []"
| "cleanupBlockTxsFrom get (Suc rh) =
     (let key = packUint (of_nat (Suc rh)) in
      bindR (get cfBlockTxs key) (\<lambda>val.
        case val of
          None \<Rightarrow> Inr []
        | Some _ \<Rightarrow> bindR (cleanupBlockTxsFrom get rh) (\<lambda>wb. Inr (DeleteCF cfBlockTxs key # wb))))"

definition cleanupBlockTxs :: "RocksDB \<Rightarrow> view \<Rightarrow> Block \<Rightarrow> wbatch res" where
  "cleanupBlockTxs d get block =
     (let keep = word_of_int (p_KeepBlockAddresses (d_chainParser d)) :: uint32 in
      if block_Height block > keep then cleanupBlockTxsFrom get (unat (block_Height block - keep))
      else Inr [])"

definition packVinOutpoint :: "RocksDB \<Rightarrow> Vin \<Rightarrow> outpoint res" where
  "packVinOutpoint d vin =
     (let p = d_chainParser d; i = sint (vin_Vout vin) in
      case p_PackTxid p (vin_Txid vin) of
        Inr b \<Rightarrow> Inr \<lparr>o_btxID = b, o_index = i\<rparr>
      | Inl ErrTxidMissing \<Rightarrow> Inr \<lparr>o_btxID = replicate (nat (p_PackedTxidLen p)) 0, o_index = i\<rparr>
      | Inl err \<Rightarrow> Inl err)"

definition packBlockTx :: "RocksDB \<Rightarrow> Tx \<Rightarrow> bytes res" where
  "packBlockTx d tx =
     bindR (mapR (packVinOutpoint d) (tx_Vin tx)) (\<lambda>os.
     bindR (p_PackTxid (d_chainParser d) (tx_Txid tx)) (\<lambda>b.
       Inr (b @ packVaruint (d_vlq d) (of_nat (length os)) @ packOutpoints d os)))"

definition storeAndCleanupBlockTxs :: "RocksDB \<Rightarrow> view \<Rightarrow> Block \<Rightarrow> wbatch res" where
  "storeAndCleanupBlockTxs d get block =
     bindR (mapR (packBlockTx d) (block_Txs block)) (\<lambda>bufs.
     bindR (cleanupBlockTxs d get block) (\<lambda>wb.
       Inr (PutCF cfBlockTxs (packUint (block_Height block)) (concat bufs) # wb)))"

section \<open>Block headers\<close>

record BlockInfo =
  bi_Hash :: string
  bi_Time :: int
  bi_Txs :: uint32
  bi_Size :: uint32
  bi_Height :: uint32

definition packBlockInfo :: "RocksDB \<Rightarrow> BlockInfo \<Rightarrow> bytes res" where
  "packBlockInfo d block =
     bindR (p_PackBlockHash (d_chainParser d) (bi_Hash block)) (\<lambda>b.
       let pl = nat (p_PackedTxidLen (d_chainParser d));
           b = (if length b \<noteq> pl then
                  if length b > pl then take pl b else b @ replicate (pl - length b) 0
                else b)
       in Inr (b @ packUint (word_of_int (bi_Time block)) @ packVaruint (d_vlq d) (ucast (bi_Txs block)) @
          packVaruint (d_vlq d) (ucast (bi_Size block))))"

definition unpackBlockInfo :: "RocksDB \<Rightarrow> bytes \<Rightarrow> BlockInfo option res" where
  "unpackBlockInfo d buf =
     (let pl = p_PackedTxidLen (d_chainParser d) in
      if int (length buf) < pl + 4 + 2 then Inr None
      else
        bindR (of_panic (slice buf 0 pl)) (\<lambda>h.
        bindR (p_UnpackBlockHash (d_chainParser d) h) (\<lambda>txid.
          of_panic (do {
            b \<leftarrow> slice_from buf pl;
            t \<leftarrow> unpackUint b;
            b \<leftarrow> slice_from buf (pl + 4);
            let (txs, l) = unpackVaruint (d_vlq d) b;
            b \<leftarrow> slice_from buf (pl + 4 + l);
            let (size, _) = unpackVaruint (d_vlq d) b;
            Some (Some \<lparr>bi_Hash = txid, bi_Time = uint t, bi_Txs = ucast txs, bi_Size = ucast size,
               bi_Height = 0\<rparr>)
          }))))"

definition GetBestBlock :: "RocksDB \<Rightarrow> (bytes \<times> bytes) list \<Rightarrow> (uint32 \<times> string) res" where
  "GetBestBlock d rows =
     (if rows = [] then Inr (0, [])
      else
        bindR (of_panic (unpackUint (fst (last rows)))) (\<lambda>bestHeight.
          case unpackBlockInfo d (snd (last rows)) of
            Inl Panic \<Rightarrow> Inl Panic
          | Inl err \<Rightarrow> Inr (0, [])
          | Inr None \<Rightarrow> Inr (0, [])
          | Inr (Some info) \<Rightarrow> Inr (bestHeight, bi_Hash info)))"

definition GetBlockHash :: "RocksDB \<Rightarrow> view \<Rightarrow> uint32 \<Rightarrow> string res" where
  "GetBlockHash d get height =
     bindR (get cfHeight (packUint height)) (\<lambda>val.
     bindR (unpackBlockInfo d (val_Data val)) (\<lambda>info.
       case info of None \<Rightarrow> Inr [] | Some info \<Rightarrow> Inr (bi_Hash info)))"

definition GetBlockInfo :: "RocksDB \<Rightarrow> view \<Rightarrow> uint32 \<Rightarrow> BlockInfo option res" where
  "GetBlockInfo d get height =
     bindR (get cfHeight (packUint height)) (\<lambda>val.
     bindR (unpackBlockInfo d (val_Data val)) (\<lambda>bi.
       case bi of None \<Rightarrow> Inr None | Some bi \<Rightarrow> Inr (Some (bi\<lparr>bi_Height := height\<rparr>))))"

datatype heightOp = opInsert | opDelete

text \<open>\<open>writeHeight\<close> returns the batch and the new best height of the internal state.\<close>

definition writeHeight :: "RocksDB \<Rightarrow> uint32 \<Rightarrow> BlockInfo \<Rightarrow> heightOp \<Rightarrow> (wbatch \<times> uint32) res" where
  "writeHeight d height bi op =
     (let key = packUint height in
      case op of
        opInsert \<Rightarrow> bindR (packBlockInfo d bi) (\<lambda>val. Inr ([PutCF cfHeight key val], height))
      | opDelete \<Rightarrow> Inr ([DeleteCF cfHeight key], height - 1))"

definition writeHeightFromBlock :: "RocksDB \<Rightarrow> Block \<Rightarrow> heightOp \<Rightarrow> (wbatch \<times> uint32) res" where
  "writeHeightFromBlock d block op =
     writeHeight d (block_Height block)
       \<lparr>bi_Hash = block_Hash block, bi_Time = block_Time block, bi_Txs = of_nat (length (block_Txs block)),
        bi_Size = word_of_int (block_Size block), bi_Height = block_Height block\<rparr> op"

end
