(* ===== verification/Instances.thy ===== *)
theory Instances
  imports Bchain CodecLaws Store
begin

text \<open>
  Concrete values for the parameters of the model, on which the hypotheses of the properties are
  discharged: a coin's parser built from the base parser, whose address descriptor is the output
  script, and handles of a database with and without the extended index and Syscoin assets.
\<close>

definition demoAssetParser :: syscoinAssetParser where
  "demoAssetParser =
     \<lparr>sp_PackAssetKey = (\<lambda>guid height. packVaruint64 leb_vlq guid @ packUint (NOT height)),
      sp_UnpackAssetKey = (\<lambda>key. None),
      sp_PackAssetTxIndex = (\<lambda>t. concat (map tai_BtxID (ta_AssetTxs t))),
      sp_UnpackAssetTxIndex = (\<lambda>buf. None),
      sp_PackAsset = (\<lambda>a. Inr (at_Symbol (asset_AssetObj a))),
      sp_UnpackAsset = (\<lambda>buf. Inr \<lparr>asset_Transactions = 0,
         asset_AssetObj = \<lparr>at_Contract = [], at_Symbol = buf, at_Precision = 8, at_TotalSupply = 0,
           at_MaxSupply = 0\<rparr>, asset_MetaData = []\<rparr>),
      sp_GetAssetsMaskFromVersion = (\<lambda>version. 1)\<rparr>"

definition demoParser :: "bool \<Rightarrow> BlockChainParser" where
  "demoParser assets =
     \<lparr>p_GetChainType = BaseParser_GetChainType,
      p_KeepBlockAddresses = 2,
      p_UseAddressAliases = False,
      p_GetAddrDescFromVout = (\<lambda>out. hex_decode (vout_ScriptPubKeyHex out)),
      p_GetAddrDescFromAddress = (\<lambda>a. hex_decode a),
      p_GetAddressesFromAddrDesc = (\<lambda>a. Inr ([hex_encode a], True)),
      p_IsAddrDescIndexable = BaseParser_IsAddrDescIndexable,
      p_PackedTxidLen = BaseParser_PackedTxidLen,
      p_PackTxid = BaseParser_PackTxid,
      p_UnpackTxid = BaseParser_UnpackTxid,
      p_PackTx = (\<lambda>tx height blockTime. hex_decode (tx_Hex tx)),
      p_UnpackTx = (\<lambda>buf. Inl Panic),
      p_GetAddrDescForUnknownInput = BaseParser_GetAddrDescForUnknownInput,
      p_PackBlockHash = BaseParser_PackBlockHash,
      p_UnpackBlockHash = BaseParser_UnpackBlockHash,
      p_FormatAddressAlias = (\<lambda>address name. name),
      p_syscoinAssetsSupport = (if assets then Some True else None),
      p_syscoinAssetParser = (if assets then Some demoAssetParser else None)\<rparr>"

definition demoGcs :: gcs_lib where
  "demoGcs = \<lparr>gcs_BuildGCSFilter = (\<lambda>p m key data. Inr (key @ concat data)), gcs_NBytes = Inr\<rparr>"

definition demoDB :: "bool \<Rightarrow> bool \<Rightarrow> RocksDB" where
  "demoDB assets extended =
     \<lparr>d_vlq = leb_vlq, d_gcs = demoGcs, d_chainParser = demoParser assets, d_extendedIndex = extended,
      d_chain = NilChain, d_BlockGolombFilterP = 0, d_BlockFilterScripts = [],
      d_BlockFilterUseZeroedKey = False\<rparr>"

lemma demoDB_simps [simp]:
  "d_vlq (demoDB a e) = leb_vlq" "d_chainParser (demoDB a e) = demoParser a"
  "d_extendedIndex (demoDB a e) = e"
  by (simp_all add: demoDB_def)

lemma demoParser_simps [simp]:
  "supportsSyscoinAssets (demoParser a) = a"
  "p_PackedTxidLen (demoParser a) = 32"
  "p_PackTxid (demoParser a) = BaseParser_PackTxid"
  "p_UnpackTxid (demoParser a) = BaseParser_UnpackTxid"
  by (simp_all add: demoParser_def supportsSyscoinAssets_def BaseParser_PackedTxidLen_def)

definition demoVin :: "string \<Rightarrow> uint32 \<Rightarrow> Vin" where
  "demoVin txid n =
     \<lparr>vin_Coinbase = [], vin_Txid = txid, vin_Vout = n, vin_ScriptSigHex = [], vin_Sequence = 0,
      vin_Addresses = [], vin_Witness = []\<rparr>"

definition demoVout :: "int \<Rightarrow> bytes \<Rightarrow> Vout" where
  "demoVout value script =
     \<lparr>vout_ValueSat = value, vout_JsonValue = [], vout_N = 0, vout_ScriptPubKeyHex = hex_encode script,
      vout_ScriptPubKeyAddresses = [], vout_AssetInfo = None\<rparr>"

definition demoTx :: "byte \<Rightarrow> Vin list \<Rightarrow> Vout list \<Rightarrow> Tx" where
  "demoTx b vin vout =
     \<lparr>tx_Hex = [], tx_Txid = hex_encode (replicate 32 b), tx_Version = 1, tx_LockTime = 0, tx_VSize = 0,
      tx_Vin = vin, tx_Vout = vout, tx_BlockHeight = 0, tx_Confirmations = 0, tx_Time = 0, tx_Blocktime = 0,
      tx_Memo = []\<rparr>"

definition demoBlock :: "uint32 \<Rightarrow> Tx list \<Rightarrow> Block" where
  "demoBlock height txs =
     \<lparr>block_Hash = hex_encode (replicate 32 (ucast height)), block_Prev = [], block_Next = [],
      block_Height = height, block_Confirmations = 0, block_Size = 300, block_Time = 1600000000,
      block_Txs = txs\<rparr>"

lemma packTxid_hex [simp]: "BaseParser_PackTxid (hex_encode (replicate 32 b)) = Inr (replicate 32 b)"
  by (simp add: BaseParser_PackTxid_def)

lemma packTxid_Nil [simp]: "BaseParser_PackTxid [] = Inl ErrTxidMissing"
  by (simp add: BaseParser_PackTxid_def)

end
