(* ===== verification/TxAddressesLaws.thy ===== *)
theory TxAddressesLaws
  imports TxAddresses Instances
begin

text \<open>
  The formats of inputs and outputs meet the contract \<open>skipping_codec\<close>; from it follow the round trip
  of a whole row and that the routine that reads a single output agrees with the full decoding.
\<close>

section \<open>What a row keeps\<close>

definition canonTxid :: "RocksDB \<Rightarrow> string \<Rightarrow> string" where
  "canonTxid d t = ignore_err (p_UnpackTxid (d_chainParser d) (packTxidOrZero d t))"

definition canonAsset :: "RocksDB \<Rightarrow> AssetInfo option \<Rightarrow> AssetInfo option" where
  "canonAsset d a = (if supportsSyscoinAssets (d_chainParser d) then map_option canonAssetInfo a else None)"

definition canonTxInput :: "RocksDB \<Rightarrow> TxInput \<Rightarrow> TxInput" where
  "canonTxInput d t =
     (let linked = d_extendedIndex d \<and> ti_Txid t \<noteq> [] in
      \<lparr>ti_AddrDesc = ti_AddrDesc t, ti_ValueSat = canonBigint (ti_ValueSat t),
       ti_AssetInfo = canonAsset d (ti_AssetInfo t),
       ti_Txid = (if linked then canonTxid d (ti_Txid t) else []),
       ti_Vout = (if linked then ti_Vout t else 0)\<rparr>)"

definition canonTxOutput :: "RocksDB \<Rightarrow> TxOutput \<Rightarrow> TxOutput" where
  "canonTxOutput d t =
     (let linked = d_extendedIndex d \<and> to_Spent t in
      \<lparr>to_AddrDesc = to_AddrDesc t, to_Spent = to_Spent t, to_ValueSat = canonBigint (to_ValueSat t),
       to_AssetInfo = canonAsset d (to_AssetInfo t),
       to_SpentTxid = (if linked then canonTxid d (to_SpentTxid t) else []),
       to_SpentIndex = (if linked then to_SpentIndex t else 0),
       to_SpentHeight = (if linked then to_SpentHeight t else 0)\<rparr>)"

definition txidLenOk :: "RocksDB \<Rightarrow> string \<Rightarrow> bool" where
  "txidLenOk d t \<longleftrightarrow> int (length (packTxidOrZero d t)) = p_PackedTxidLen (d_chainParser d)"

definition validTxInput :: "RocksDB \<Rightarrow> TxInput \<Rightarrow> bool" where
  "validTxInput d t \<longleftrightarrow> vlq_ok (d_vlq d) \<and> length (ti_AddrDesc t) < 2 ^ 31 \<and>
     (d_extendedIndex d \<and> ti_Txid t \<noteq> [] \<longrightarrow> txidLenOk d (ti_Txid t)) \<and>
     length (appendTxInput d t) < 2 ^ 63"

definition validTxOutput :: "RocksDB \<Rightarrow> TxOutput \<Rightarrow> bool" where
  "validTxOutput d t \<longleftrightarrow> vlq_ok (d_vlq d) \<and> length (to_AddrDesc t) < 2 ^ 31 \<and>
     (d_extendedIndex d \<and> to_Spent t \<longrightarrow> txidLenOk d (to_SpentTxid t))"

section \<open>Positions in a buffer\<close>

lemmas pos_simps = slice_from_def slice_def nat_add_distrib

lemma ucast_uint32_uint64 [simp]: "(ucast (ucast (x :: uint32) :: uint64) :: uint32) = x"
  by (rule bit_word_eqI) (auto simp: bit_simps)

lemma is_int32_length:
  "n < 2 ^ 31 \<Longrightarrow> is_int32 (int n)" "n < 2 ^ 31 \<Longrightarrow> is_int32 (NOT (int n))"
  by (auto simp: is_int32_def not_eq_complement)

lemma NOT_int_less_0 [simp]: "NOT (int n) < 0" "\<not> 0 \<le> NOT (int n)"
  by (simp_all add: not_eq_complement)

section \<open>Outputs\<close>

lemma unpackTxOutput_append:
  assumes "validTxOutput d t"
  shows "unpackTxOutput d (appendTxOutput d t @ rest) =
    Some (canonTxOutput d t, int (length (appendTxOutput d t)))"
proof -
  have v: "vlq_ok (d_vlq d)" and a: "length (to_AddrDesc t) < 2 ^ 31"
    and x: "d_extendedIndex d \<and> to_Spent t \<longrightarrow> txidLenOk d (to_SpentTxid t)"
    using assms by (simp_all add: validTxOutput_def)
  show ?thesis
  proof (cases "d_extendedIndex d \<and> to_Spent t")
    case True
    with x have "p_PackedTxidLen (d_chainParser d) = int (length (packTxidOrZero d (to_SpentTxid t)))"
      by (simp add: txidLenOk_def)
    with True v a show ?thesis
      by (simp add: unpackTxOutput_def appendTxOutput_def Let_def codec_simps is_int32_length pos_simps
          canonTxOutput_def canonAsset_def canonTxid_def zeroTxOutput_def)
  next
    case False
    with v a show ?thesis
      by (auto simp: unpackTxOutput_def appendTxOutput_def Let_def codec_simps is_int32_length pos_simps
          canonTxOutput_def canonAsset_def zeroTxOutput_def)
  qed
qed

lemma index_packBigint_at:
  "n = int (length xs) \<Longrightarrow>
   index (xs @ packBigint x @ rest) n = Some (of_nat (length (packBigint x) - Suc 0))"
  using index_append_plus [of 0 xs "packBigint x @ rest"] index_packBigint [of x rest] by simp

lemma uint_packBigint_length: "uint (of_nat (length (packBigint x) - Suc 0) :: byte) = int (length (packBigint x)) - 1"
proof -
  have "uint (of_nat (length (packBigint x) - Suc 0) :: byte) = int (length (packBigint x) - 1)"
    using arg_cong [OF unat_packBigint_length, of int x] by simp
  then show ?thesis using packBigint_not_Nil [of x] by (simp add: of_nat_diff Suc_leI del: packBigint_not_Nil)
qed

lemma packedTxOutputLen_append:
  assumes "validTxOutput d t"
  shows "packedTxOutputLen d (appendTxOutput d t @ rest) = Some (int (length (appendTxOutput d t)))"
proof -
  have v: "vlq_ok (d_vlq d)" and a: "length (to_AddrDesc t) < 2 ^ 31"
    and x: "d_extendedIndex d \<and> to_Spent t \<longrightarrow> txidLenOk d (to_SpentTxid t)"
    using assms by (simp_all add: validTxOutput_def)
  have i: "index (xs @ ys @ packBigint x @ r) (int (length xs) + int (length ys)) =
      Some (of_nat (length (packBigint x) - Suc 0))" for xs ys x r
    using index_packBigint_at [of _ "xs @ ys"] by simp
  show ?thesis
  proof (cases "d_extendedIndex d \<and> to_Spent t")
    case True
    with x have "p_PackedTxidLen (d_chainParser d) = int (length (packTxidOrZero d (to_SpentTxid t)))"
      by (simp add: txidLenOk_def)
    with True v a show ?thesis
      by (simp add: packedTxOutputLen_def appendTxOutput_def Let_def codec_simps is_int32_length pos_simps
          i uint_packBigint_length)
  next
    case False
    with v a show ?thesis
      by (auto simp: packedTxOutputLen_def appendTxOutput_def Let_def codec_simps is_int32_length pos_simps
          i uint_packBigint_length)
  qed
qed

interpretation txoutput:
  skipping_codec "appendTxOutput d" "unpackTxOutput d" "validTxOutput d" "canonTxOutput d"
    "packedTxOutputLen d" for d
  by unfold_locales (simp_all add: unpackTxOutput_append packedTxOutputLen_append)

section \<open>Inputs\<close>

lemma uint_of_nat64: "n < 2 ^ 64 \<Longrightarrow> uint (of_nat n :: uint64) = int n"
  by (simp add: unsigned_of_nat take_bit_nat_eq_self)

lemma word_sums:
  "a + b < 2 ^ 63 \<Longrightarrow> uint (of_nat a + of_nat b :: uint64) = int a + int b"
  "a + b + c < 2 ^ 63 \<Longrightarrow> uint (of_nat a + of_nat b + of_nat c :: uint64) = int a + int b + int c"
  "a + b + c < 2 ^ 63 \<Longrightarrow> sint (of_nat a + of_nat b + of_nat c :: uint64) = int a + int b + int c"
  "a + b + c + e < 2 ^ 63 \<Longrightarrow>
     sint (of_nat a + of_nat b + of_nat c + of_nat e :: uint64) = int a + int b + int c + int e"
  using uint_of_nat64 [of "a + b"] uint_of_nat64 [of "a + b + c"] sint_of_nat [of "a + b + c"]
    sint_of_nat [of "a + b + c + e"]
  by simp_all

lemma unpackTxInput_append_basic:
  assumes "validTxInput d t" and "\<not> d_extendedIndex d"
  shows "unpackTxInput d (appendTxInput d t @ rest) =
    Some (canonTxInput d t, int (length (appendTxInput d t)))"
proof (cases "supportsSyscoinAssets (d_chainParser d)")
  case True
  with assms show ?thesis
    by (simp add: validTxInput_def unpackTxInput_def appendTxInput_def Let_def codec_simps word_sums
        sint_of_nat pos_simps canonTxInput_def canonAsset_def zeroTxInput_def)
next
  case False
  with assms show ?thesis
    by (simp add: validTxInput_def unpackTxInput_def appendTxInput_def Let_def codec_simps word_sums
        sint_of_nat pos_simps canonTxInput_def canonAsset_def zeroTxInput_def)
qed

lemma unpackTxInput_append_extended:
  assumes "validTxInput d t" and "d_extendedIndex d"
  shows "unpackTxInput d (appendTxInput d t @ rest) =
    Some (canonTxInput d t, int (length (appendTxInput d t)))"
proof (cases "ti_Txid t = []")
  case True
  with assms show ?thesis
    by (auto simp: validTxInput_def unpackTxInput_def appendTxInput_def Let_def codec_simps is_int32_length
        pos_simps canonTxInput_def canonAsset_def zeroTxInput_def)
next
  case False
  with assms have "p_PackedTxidLen (d_chainParser d) = int (length (packTxidOrZero d (ti_Txid t)))"
    by (simp add: validTxInput_def txidLenOk_def)
  with False assms show ?thesis
    by (simp add: validTxInput_def unpackTxInput_def appendTxInput_def Let_def codec_simps is_int32_length
        pos_simps canonTxInput_def canonAsset_def canonTxid_def zeroTxInput_def)
qed

lemma packedTxInputLen_append:
  assumes "validTxInput d t"
  shows "packedTxInputLen d (appendTxInput d t @ rest) = Some (int (length (appendTxInput d t)))"
proof -
  have i: "index (xs @ ys @ packBigint x @ r) (int (length xs) + int (length ys)) =
      Some (of_nat (length (packBigint x) - Suc 0))" for xs ys x r
    using index_packBigint_at [of _ "xs @ ys"] by simp
  note defs = validTxInput_def packedTxInputLen_def appendTxInput_def Let_def codec_simps is_int32_length
    pos_simps i uint_packBigint_length sint_of_nat
  consider "\<not> d_extendedIndex d" | "d_extendedIndex d" "ti_Txid t = []"
    | "d_extendedIndex d" "ti_Txid t \<noteq> []" by blast
  then show ?thesis
  proof cases
    case 3
    with assms have "p_PackedTxidLen (d_chainParser d) = int (length (packTxidOrZero d (ti_Txid t)))"
      by (simp add: validTxInput_def txidLenOk_def)
    with 3 assms show ?thesis by (simp add: defs)
  qed (use assms in \<open>simp_all add: defs\<close>)
qed

interpretation txinput:
  skipping_codec "appendTxInput d" "unpackTxInput d" "validTxInput d" "canonTxInput d"
    "packedTxInputLen d" for d
  using unpackTxInput_append_basic [of d] unpackTxInput_append_extended [of d]
  by unfold_locales (simp_all add: packedTxInputLen_append, blast)

section \<open>Rows\<close>

definition canonTxAddresses :: "RocksDB \<Rightarrow> TxAddresses \<Rightarrow> TxAddresses" where
  "canonTxAddresses d t =
     (let assets = supportsSyscoinAssets (d_chainParser d) in
      \<lparr>ta_Height = ta_Height t, ta_Inputs = map (canonTxInput d) (ta_Inputs t),
       ta_Outputs = map (canonTxOutput d) (ta_Outputs t),
       ta_Version = (if assets then ta_Version t else 0),
       ta_Memo = (if assets then ta_Memo t else []),
       ta_VSize = (if d_extendedIndex d then ta_VSize t else 0)\<rparr>)"

definition validTxAddresses :: "RocksDB \<Rightarrow> TxAddresses \<Rightarrow> bool" where
  "validTxAddresses d t \<longleftrightarrow> vlq_ok (d_vlq d) \<and> is_int32 (ta_Version t) \<and>
     list_all (validTxInput d) (ta_Inputs t) \<and> list_all (validTxOutput d) (ta_Outputs t) \<and>
     length (ta_Inputs t) < 2 ^ 63 \<and> length (ta_Outputs t) < 2 ^ 63 \<and> length (ta_Memo t) < 2 ^ 63"

lemma int32_word_of_int: "is_int32 i \<Longrightarrow> int32 (uint (word_of_int i :: uint64)) = i"
  by (simp add: int32_def is_int32_def unsigned_of_int signed_take_bit_take_bit signed_take_bit_int_eq_self)

lemma int32_0 [simp]: "int32 0 = 0"
  by (simp add: int32_def)

lemma unat_of_nat64: "n < 2 ^ 63 \<Longrightarrow> unat (of_nat n :: uint64) = n"
  by (simp add: unsigned_of_nat take_bit_nat_eq_self)

lemma unpack_inputs_at:
  assumes "list_all (validTxInput d) xs" and "n = int (length pre)"
  shows "unpack_n (unpackTxInput d) (length xs) (pre @ concat (map (appendTxInput d) xs) @ rest) n =
    Some (map (canonTxInput d) xs, n + int (length (concat (map (appendTxInput d) xs))))"
  using txinput.unpack_n_pack [of xs d pre rest] assms by (simp add: list_all_iff)

lemma unpack_outputs_at:
  assumes "list_all (validTxOutput d) xs" and "n = int (length pre)"
  shows "unpack_n (unpackTxOutput d) (length xs) (pre @ concat (map (appendTxOutput d) xs) @ rest) n =
    Some (map (canonTxOutput d) xs, n + int (length (concat (map (appendTxOutput d) xs))))"
  using txoutput.unpack_n_pack [of xs d pre rest] assms by (simp add: list_all_iff)

text \<open>The head of a row, up to the inputs.\<close>

definition rowHead :: "RocksDB \<Rightarrow> TxAddresses \<Rightarrow> bytes" where
  "rowHead d t =
     (if supportsSyscoinAssets (d_chainParser d) then packVaruint (d_vlq d) (word_of_int (ta_Version t)) else []) @
     packVaruint (d_vlq d) (ucast (ta_Height t)) @
     (if d_extendedIndex d then packVaruint (d_vlq d) (ucast (ta_VSize t)) else [])"

lemma unpackTxAddresses_pack:
  assumes "validTxAddresses d t"
  shows "unpackTxAddresses d (packTxAddresses d t @ rest) = Some (canonTxAddresses d t)"
proof -
  let ?v = "d_vlq d"
  let ?ins = "concat (map (appendTxInput d) (ta_Inputs t))"
  let ?outs = "concat (map (appendTxOutput d) (ta_Outputs t))"
  let ?p1 = "rowHead d t @ packVaruint ?v (of_nat (length (ta_Inputs t)))"
  let ?p2 = "?p1 @ ?ins @ packVaruint ?v (of_nat (length (ta_Outputs t)))"
  have i: "unpack_n (unpackTxInput d) (length (ta_Inputs t)) (packTxAddresses d t @ rest) (int (length ?p1)) =
      Some (map (canonTxInput d) (ta_Inputs t), int (length ?p1) + int (length ?ins))"
    using unpack_inputs_at [of d "ta_Inputs t" "int (length ?p1)" ?p1] assms
    by (simp add: validTxAddresses_def packTxAddresses_def rowHead_def Let_def)
  have o: "unpack_n (unpackTxOutput d) (length (ta_Outputs t)) (packTxAddresses d t @ rest) (int (length ?p2)) =
      Some (map (canonTxOutput d) (ta_Outputs t), int (length ?p2) + int (length ?outs))"
    using unpack_outputs_at [of d "ta_Outputs t" "int (length ?p2)" ?p2] assms
    by (simp add: validTxAddresses_def packTxAddresses_def rowHead_def Let_def)
  have "length (ta_Inputs t) < 2 ^ 63" "length (ta_Outputs t) < 2 ^ 63"
    using assms by (simp_all add: validTxAddresses_def)
  note n = this [THEN unat_of_nat64]
  note defs = unpackTxAddresses_def packTxAddresses_def rowHead_def Let_def codec_simps pos_simps n
    validTxAddresses_def canonTxAddresses_def zeroTxAddresses_def int32_word_of_int add.assoc
  show ?thesis
    using assms i o
    by (cases "supportsSyscoinAssets (d_chainParser d)"; cases "d_extendedIndex d"; simp add: defs)
qed

section \<open>Reading one output\<close>

lemma skip_inputs_at:
  assumes "list_all (validTxInput d) xs" and "n = int (length pre)"
  shows "skip_n (packedTxInputLen d) (length xs) (pre @ concat (map (appendTxInput d) xs) @ rest) n =
    Some (n + int (length (concat (map (appendTxInput d) xs))))"
  using txinput.skip_n_pack [of xs d pre rest] assms by (simp add: list_all_iff)

lemma skip_outputs_at:
  assumes "list_all (validTxOutput d) xs" and "k \<le> length xs" and "n = int (length pre)"
  shows "skip_n (packedTxOutputLen d) k (pre @ concat (map (appendTxOutput d) xs) @ rest) n =
    Some (n + int (length (concat (map (appendTxOutput d) (take k xs)))))"
proof -
  have xs: "concat (map (appendTxOutput d) xs) =
      concat (map (appendTxOutput d) (take k xs)) @ concat (map (appendTxOutput d) (drop k xs))"
    by (simp flip: concat_append map_append)
  have "list_all (validTxOutput d) (take k xs)"
    using assms(1) by (auto simp: list_all_iff dest: in_set_takeD)
  then show ?thesis
    using txoutput.skip_n_pack [of "take k xs" d pre "concat (map (appendTxOutput d) (drop k xs)) @ rest"] assms(2,3)
    unfolding xs by (simp add: list_all_iff min_absorb2)
qed

lemma unpackTxOutput_nth:
  assumes "list_all (validTxOutput d) xs" and "k < length xs"
  shows "\<exists>b. slice_from (pre @ concat (map (appendTxOutput d) xs) @ rest)
      (int (length pre) + int (length (concat (map (appendTxOutput d) (take k xs))))) = Some b \<and>
    unpackTxOutput d b = Some (canonTxOutput d (xs ! k), int (length (appendTxOutput d (xs ! k))))"
proof -
  let ?f = "\<lambda>ys. concat (map (appendTxOutput d) ys)"
  have "?f xs = ?f (take k xs) @ appendTxOutput d (xs ! k) @ ?f (drop (Suc k) xs)"
    using id_take_nth_drop [OF assms(2)] by (metis concat.simps(2) concat_append list.simps(9) map_append)
  moreover have "validTxOutput d (xs ! k)" using assms by (simp add: list_all_length)
  ultimately show ?thesis
    using slice_from_append [of "pre @ ?f (take k xs)"
        "appendTxOutput d (xs ! k) @ ?f (drop (Suc k) xs) @ rest"]
    by (simp add: unpackTxOutput_append)
qed

lemma unat_ucast64: "unat (ucast (x :: uint32) :: uint64) = unat x"
  using unsigned_less [of x, where ?'a = nat] by (simp add: unsigned_ucast_eq take_bit_nat_eq_self)

lemma unpackTxAddressesOutput_pack:
  assumes "validTxAddresses d t"
  shows "unpackTxAddressesOutput d (packTxAddresses d t @ rest) vout =
    Some (if unat vout < length (ta_Outputs t) then Some (canonTxOutput d (ta_Outputs t ! unat vout)) else None)"
proof -
  let ?v = "d_vlq d" and ?outs = "ta_Outputs t"
  let ?ins = "concat (map (appendTxInput d) (ta_Inputs t))"
  let ?tail = "(if supportsSyscoinAssets (d_chainParser d) then packVarBytes ?v (ta_Memo t) else []) @ rest"
  let ?p1 = "rowHead d t @ packVaruint ?v (of_nat (length (ta_Inputs t)))"
  let ?p2 = "?p1 @ ?ins @ packVaruint ?v (of_nat (length ?outs))"
  have i: "skip_n (packedTxInputLen d) (length (ta_Inputs t)) (packTxAddresses d t @ rest) (int (length ?p1)) =
      Some (int (length ?p1) + int (length ?ins))"
    using skip_inputs_at [of d "ta_Inputs t" "int (length ?p1)" ?p1] assms
    by (simp add: validTxAddresses_def packTxAddresses_def rowHead_def Let_def)
  have len: "length (ta_Inputs t) < 2 ^ 63" "length ?outs < 2 ^ 63"
    using assms by (simp_all add: validTxAddresses_def)
  note n = len [THEN unat_of_nat64]
  have le: "of_nat (length ?outs) \<le> (ucast vout :: uint64) \<longleftrightarrow> length ?outs \<le> unat vout"
    by (simp only: word_le_nat_alt n unat_ucast64)
  note defs = unpackTxAddressesOutput_def packTxAddresses_def rowHead_def Let_def codec_simps pos_simps n
    validTxAddresses_def add.assoc le
  show ?thesis
  proof (cases "unat vout < length ?outs")
    case False
    then show ?thesis
      using assms i
      by (cases "supportsSyscoinAssets (d_chainParser d)"; cases "d_extendedIndex d"; simp add: defs)
  next
    case True
    have s: "skip_n (packedTxOutputLen d) (unat vout) (packTxAddresses d t @ rest) (int (length ?p2)) =
        Some (int (length ?p2) + int (length (concat (map (appendTxOutput d) (take (unat vout) ?outs)))))"
      using skip_outputs_at [of d ?outs "unat vout" "int (length ?p2)" ?p2 ?tail] assms True
      by (simp add: validTxAddresses_def packTxAddresses_def rowHead_def Let_def)
    obtain b where b: "slice_from (packTxAddresses d t @ rest)
        (int (length ?p2) + int (length (concat (map (appendTxOutput d) (take (unat vout) ?outs))))) = Some b"
        "unpackTxOutput d b = Some (canonTxOutput d (?outs ! unat vout), int (length (appendTxOutput d (?outs ! unat vout))))"
      using unpackTxOutput_nth [of d ?outs "unat vout" ?p2 ?tail] assms True
      by (auto simp: validTxAddresses_def packTxAddresses_def rowHead_def Let_def)
    show ?thesis
      using assms i s b True
      by (cases "supportsSyscoinAssets (d_chainParser d)"; cases "d_extendedIndex d"; simp add: defs)
  qed
qed

lemma length_packTxAddresses:
  assumes "validTxAddresses d t"
  shows "3 \<le> length (packTxAddresses d t)"
proof -
  have "packVaruint (d_vlq d) x \<noteq> []" for x
    using assms by (simp add: validTxAddresses_def)
  then have "1 \<le> length (packVaruint (d_vlq d) x)" for x by (simp add: Suc_leI)
  from this [of "ucast (ta_Height t)"] this [of "of_nat (length (ta_Inputs t))"]
    this [of "of_nat (length (ta_Outputs t))"]
  show ?thesis by (simp add: packTxAddresses_def Let_def)
qed

section \<open>Properties\<close>

text \<open>C18: A row of the column txAddresses decodes to the transaction that was packed into it: height, version
  and memo (for Syscoin), virtual size and the links between spending and spent transactions (with the
  extended index), and every input and output with its descriptor, amount and asset information, also
  when other bytes follow the row.\<close>

theorem txAddresses_roundtrip:
  assumes "validTxAddresses d t"
  shows "unpackTxAddresses d (packTxAddresses d t @ rest) = Some (canonTxAddresses d t)"
  using assms by (rule unpackTxAddresses_pack)

definition demoTxid :: string where
  "demoTxid = hex_encode (replicate 32 7)"

definition demoTa :: TxAddresses where
  "demoTa =
     \<lparr>ta_Height = 100,
      ta_Inputs = [\<lparr>ti_AddrDesc = [1, 2], ti_ValueSat = 300, ti_AssetInfo = None, ti_Txid = demoTxid, ti_Vout = 1\<rparr>],
      ta_Outputs =
        [\<lparr>to_AddrDesc = [9], to_Spent = False, to_ValueSat = 100,
          to_AssetInfo = Some \<lparr>ai_AssetGuid = 123456, ai_ValueSat = Some 5\<rparr>,
          to_SpentTxid = [], to_SpentIndex = 0, to_SpentHeight = 0\<rparr>,
         \<lparr>to_AddrDesc = [8, 8], to_Spent = True, to_ValueSat = 200, to_AssetInfo = None,
          to_SpentTxid = demoTxid, to_SpentIndex = 3, to_SpentHeight = 101\<rparr>],
      ta_Version = 142, ta_Memo = [5], ta_VSize = 250\<rparr>"

lemma packTxid_demo: "BaseParser_PackTxid demoTxid = Inr (replicate 32 7)"
  by (simp add: BaseParser_PackTxid_def demoTxid_def)

lemma txidLenOk_demo: "txidLenOk (demoDB True True) demoTxid"
  by (simp add: txidLenOk_def packTxidOrZero_def packTxid_demo)

lemma canonTxAddresses_demo: "canonTxAddresses (demoDB True True) demoTa = demoTa"
proof -
  have "canonTxid (demoDB True True) demoTxid = demoTxid"
    by (simp add: canonTxid_def packTxidOrZero_def packTxid_demo BaseParser_UnpackTxid_def ignore_err_def)
      (simp add: demoTxid_def)
  moreover have "demoTxid \<noteq> []" by (simp add: demoTxid_def)
  moreover have "amount 300" "amount 100" "amount 200" "amount 5" by (simp_all add: amount_def)
  ultimately show ?thesis
    by (simp add: canonTxAddresses_def canonTxInput_def canonTxOutput_def canonAsset_def canonAssetInfo_def
        demoTa_def)
qed

lemma length_appendTxInput_demo: "length (appendTxInput (demoDB True True) (hd (ta_Inputs demoTa))) < 2 ^ 63"
proof -
  have "is_int32 2" by (simp add: is_int32_def)
  moreover have "demoTxid \<noteq> []" by (simp add: demoTxid_def)
  ultimately show ?thesis
    using length_leb_vlq(3) [of 2] length_leb_vlq(1) [of 1] length_packBigint [of 300]
      length_appendAssetInfo_leb [of None]
    by (simp add: appendTxInput_def demoTa_def packTxidOrZero_def packTxid_demo)
qed

lemma validTxAddresses_demo: "validTxAddresses (demoDB True True) demoTa"
  using length_appendTxInput_demo txidLenOk_demo vlq_ok_leb
  by (simp add: validTxAddresses_def validTxInput_def validTxOutput_def demoTa_def is_int32_def)

theorem txAddresses_roundtrip_witness:
  "unpackTxAddresses (demoDB True True) (packTxAddresses (demoDB True True) demoTa @ [0xaa]) = Some demoTa"
  using txAddresses_roundtrip [OF validTxAddresses_demo, of "[0xaa]"] by (simp only: canonTxAddresses_demo)

text \<open>C19: \<open>GetTxAddressesOutput\<close>, which skips the inputs and the preceding outputs of a row without
  decoding them, returns what indexing the fully decoded row returns, for every output number, found
  or not, in every configuration of the index.\<close>

theorem GetTxAddressesOutput_agrees:
  assumes "p_PackTxid (d_chainParser d) txid = Inr btxID"
    and "get cfTxAddresses btxID = Inr row"
    and "\<forall>b. row = Some b \<longrightarrow> (\<exists>t. validTxAddresses d t \<and> b = packTxAddresses d t)"
  shows "GetTxAddressesOutput d get txid vout =
    bindR (GetTxAddresses d get txid) (\<lambda>r. Inr (case r of
        None \<Rightarrow> None
      | Some ta \<Rightarrow> if unat vout < length (ta_Outputs ta) then Some (ta_Outputs ta ! unat vout) else None))"
proof (cases row)
  case None
  with assms(1,2) show ?thesis
    by (simp add: GetTxAddressesOutput_def GetTxAddresses_def getTxAddresses_def val_Data_def)
next
  case (Some b)
  with assms(3) obtain t where t: "validTxAddresses d t" "b = packTxAddresses d t" by blast
  have "unpackTxAddresses d b = Some (canonTxAddresses d t)"
    using unpackTxAddresses_pack [OF t(1), of "[]"] t(2) by simp
  moreover have "unpackTxAddressesOutput d b vout =
      Some (if unat vout < length (ta_Outputs t) then Some (canonTxOutput d (ta_Outputs t ! unat vout)) else None)"
    using unpackTxAddressesOutput_pack [OF t(1), of "[]"] t(2) by simp
  ultimately show ?thesis
    using assms(1,2) Some
    by (simp add: GetTxAddressesOutput_def GetTxAddresses_def getTxAddresses_def val_Data_def Let_def
        canonTxAddresses_def)
qed

definition demoView :: view where
  "demoView c k = Inr (if c = cfTxAddresses then Some (packTxAddresses (demoDB True True) demoTa) else None)"

theorem GetTxAddressesOutput_agrees_witness:
  "GetTxAddressesOutput (demoDB True True) demoView demoTxid 1 = Inr (Some (ta_Outputs demoTa ! 1)) \<and>
   GetTxAddressesOutput (demoDB True True) demoView demoTxid 2 = Inr None"
proof -
  have t: "p_PackTxid (d_chainParser (demoDB True True)) demoTxid = Inr (replicate 32 7)"
    by (simp add: packTxid_demo)
  have "3 \<le> length (packTxAddresses (demoDB True True) demoTa)"
    using length_packTxAddresses [OF validTxAddresses_demo] .
  then have ga: "GetTxAddresses (demoDB True True) demoView demoTxid = Inr (Some demoTa)"
    using unpackTxAddresses_pack [OF validTxAddresses_demo, of "[]"]
    by (simp add: GetTxAddresses_def getTxAddresses_def demoView_def packTxid_demo val_Data_def Let_def
        canonTxAddresses_demo)
  have "\<forall>b. Some (packTxAddresses (demoDB True True) demoTa) = Some b \<longrightarrow>
      (\<exists>t. validTxAddresses (demoDB True True) t \<and> b = packTxAddresses (demoDB True True) t)"
    using validTxAddresses_demo by blast
  note r = GetTxAddressesOutput_agrees [OF t _ this, of demoView, unfolded demoView_def [of cfTxAddresses], simplified]
  show ?thesis
    unfolding r ga by (simp add: demoTa_def)
qed

end
