(* ===== verification/AddrBalanceLaws.thy ===== *)
theory AddrBalanceLaws
  imports AddrBalance TxAddressesLaws
begin

text \<open>
  The list of unspent outputs keeps the outputs of a transaction together, and its index holds the first
  position of every transaction; under this invariant the indexed search of \<open>markUtxoAsSpent\<close> is the
  linear search. Rows of the column addressBalance decode to the balance with its unspent outputs,
  without the outputs marked as spent.
\<close>

section \<open>Groups of equal transaction ids\<close>

definition contiguous :: "'a list \<Rightarrow> bool" where
  "contiguous ids \<longleftrightarrow> distinct (remdups_adj ids)"

definition firstPos :: "'a \<Rightarrow> 'a list \<Rightarrow> nat option" where
  "firstPos b ids = (if b \<in> set ids then Some (length (takeWhile (\<lambda>x. x \<noteq> b) ids)) else None)"

lemma contiguous_Cons: "contiguous (x # xs) \<Longrightarrow> contiguous xs"
  by (cases xs) (auto simp: contiguous_def split: if_splits)

lemma contiguous_group: "contiguous (b # xs) \<Longrightarrow> b \<notin> set (dropWhile (\<lambda>x. x = b) xs)"
proof (induction xs)
  case (Cons y ys)
  show ?case
  proof (cases "y = b")
    case True
    with Cons show ?thesis by (simp add: contiguous_def)
  next
    case False
    with Cons.prems have "b \<notin> set (remdups_adj (y # ys))" by (simp add: contiguous_def)
    with False show ?thesis by simp
  qed
qed simp

lemma contiguous_snoc:
  assumes "contiguous xs" and "x \<notin> set xs \<or> (xs \<noteq> [] \<and> last xs = x)"
  shows "contiguous (xs @ [x])"
proof (cases xs rule: rev_cases)
  case Nil
  then show ?thesis by (simp add: contiguous_def)
next
  case (snoc ys y)
  then have r: "remdups_adj (xs @ [x]) = remdups_adj xs @ (if y = x then [] else [x])"
    using remdups_adj_append_two [of ys y x] by simp
  have "y \<noteq> x \<Longrightarrow> x \<notin> set (remdups_adj xs)"
    using assms(2) snoc by auto
  with assms(1) show ?thesis by (simp add: contiguous_def r)
qed

lemma remdups_adj_insert:
  "(xs \<noteq> [] \<and> last xs = b) \<or> (ys \<noteq> [] \<and> hd ys = b) \<Longrightarrow>
   remdups_adj (xs @ b # ys) = remdups_adj (xs @ ys)"
proof (induction xs rule: remdups_adj.induct)
  case 1
  then show ?case by (cases ys) auto
next
  case (2 x)
  then show ?case by (cases ys) auto
next
  case (3 x y xs)
  then show ?case by auto
qed

lemma contiguous_insert:
  "contiguous (xs @ ys) \<Longrightarrow> (xs \<noteq> [] \<and> last xs = b) \<or> (ys \<noteq> [] \<and> hd ys = b) \<Longrightarrow>
   contiguous (xs @ b # ys)"
  by (simp add: contiguous_def remdups_adj_insert)

lemma firstPos_snoc:
  "firstPos b (xs @ [x]) = (case firstPos b xs of Some j \<Rightarrow> Some j | None \<Rightarrow> if x = b then Some (length xs) else None)"
  by (auto simp: firstPos_def takeWhile_append)

lemma firstPos_Cons:
  "firstPos b (x # xs) = (if x = b then Some 0 else map_option Suc (firstPos b xs))"
  by (auto simp: firstPos_def)

lemma firstPos_less: "firstPos b xs = Some i \<Longrightarrow> i < length xs"
proof (induction xs arbitrary: i)
  case (Cons x xs)
  then show ?case by (auto simp: firstPos_Cons split: if_splits)
qed (simp add: firstPos_def)

lemma firstPos_nth: "firstPos b xs = Some i \<Longrightarrow> xs ! i = b"
proof (induction xs arbitrary: i)
  case (Cons x xs)
  then show ?case by (auto simp: firstPos_Cons split: if_splits)
qed (simp add: firstPos_def)

section \<open>The index\<close>

abbreviation txids :: "Utxo list \<Rightarrow> bytes list" where
  "txids us \<equiv> map u_BtxID us"

text \<open>The invariant of a balance: the outputs of a transaction are together, and a non-empty index
  holds the first position of every transaction.\<close>

definition balance_wf :: "AddrBalance \<Rightarrow> bool" where
  "balance_wf ab \<longleftrightarrow>
     contiguous (txids (ab_Utxos ab)) \<and> [] \<notin> set (txids (ab_Utxos ab)) \<and>
     (ab_utxosMap ab \<noteq> [] \<longrightarrow>
        16 \<le> length (ab_Utxos ab) \<and> map_of (ab_utxosMap ab) = (\<lambda>b. firstPos b (txids (ab_Utxos ab))))"

lemma map_of_buildUtxoMap:
  "map_of (buildUtxoMap i us m) b =
     (case map_of m b of Some j \<Rightarrow> Some j | None \<Rightarrow> map_option ((+) i) (firstPos b (txids us)))"
proof (induction us arbitrary: i m)
  case (Cons u us)
  have "map_option ((+) (Suc i)) x = map_option (\<lambda>n. Suc (i + n)) x" for x by (cases x) simp_all
  with Cons show ?case
    by (auto simp: firstPos_Cons option.map_comp comp_def split: option.splits)
qed (simp add: firstPos_def split: option.splits)

text \<open>Appending an output and maintaining the index keeps the invariant.\<close>

lemma balance_wf_append:
  assumes "balance_wf ab" and "u_BtxID u \<noteq> []"
    and "u_BtxID u \<notin> set (txids (ab_Utxos ab)) \<or>
      (ab_Utxos ab \<noteq> [] \<and> u_BtxID (last (ab_Utxos ab)) = u_BtxID u)"
  shows "balance_wf (manageUtxoMap u (ab\<lparr>ab_Utxos := ab_Utxos ab @ [u]\<rparr>))"
proof -
  let ?us = "ab_Utxos ab @ [u]"
  have c: "contiguous (txids ?us)"
    using assms contiguous_snoc [of "txids (ab_Utxos ab)" "u_BtxID u"]
    by (auto simp: balance_wf_def last_map)
  have b: "map_of (buildUtxoMap 0 ?us []) = (\<lambda>b. firstPos b (txids ?us))"
    unfolding fun_eq_iff map_of_buildUtxoMap by (simp add: option.map_ident_strong)
  have m: "map_of (ab_utxosMap ab) = (\<lambda>b. firstPos b (txids (ab_Utxos ab)))" if "ab_utxosMap ab \<noteq> []"
    using assms(1) that by (simp add: balance_wf_def)
  show ?thesis
    using c b m assms(1,2)
    by (auto simp: balance_wf_def manageUtxoMap_def Let_def firstPos_snoc fun_eq_iff split: option.splits)
qed

section \<open>Marking an output as spent\<close>

lemma sameTxid_eq: "a \<noteq> [] \<Longrightarrow> b \<noteq> [] \<Longrightarrow> sameTxid a b = Some (a = b)"
  by (auto simp: sameTxid_def)

lemma txids_markIndexed [simp]: "txids (markIndexed b v us) = txids us"
  by (induction us) auto

lemma markLinear_absent:
  "b \<notin> set (txids us) \<Longrightarrow> [] \<notin> set (txids us) \<Longrightarrow> b \<noteq> [] \<Longrightarrow> markLinear b v us = Some us"
  by (induction us) (auto simp: sameTxid_eq)

lemma markIndexed_absent: "b \<notin> set (txids us) \<Longrightarrow> markIndexed b v us = us"
  by (induction us) auto

text \<open>Inside the group of a transaction, and behind it, both searches do the same.\<close>

lemma markLinear_group:
  "b \<notin> set (dropWhile (\<lambda>x. x = b) (txids us)) \<Longrightarrow> [] \<notin> set (txids us) \<Longrightarrow> b \<noteq> [] \<Longrightarrow>
   markLinear b v us = Some (markIndexed b v us)"
proof (induction us)
  case (Cons u us)
  show ?case
  proof (cases "u_BtxID u = b")
    case True
    with Cons show ?thesis by (simp add: sameTxid_eq)
  next
    case False
    with Cons.prems have "b \<notin> set (txids (u # us))" by simp
    with Cons.prems show ?thesis
      using markLinear_absent [of b "u # us" v] markIndexed_absent [of b "u # us" v] by simp
  qed
qed simp

lemma markLinear_indexed:
  assumes "contiguous (txids us)" and "[] \<notin> set (txids us)" and "b \<noteq> []"
  shows "markLinear b v us =
    Some (case firstPos b (txids us) of
        None \<Rightarrow> us
      | Some i \<Rightarrow> take i us @ markIndexed b v (drop i us))"
  using assms
proof (induction us)
  case (Cons u us)
  show ?case
  proof (cases "u_BtxID u = b")
    case True
    have "b \<notin> set (dropWhile (\<lambda>x. x = b) (txids (u # us)))"
      using contiguous_group [of b "txids us"] Cons.prems(1) True by simp
    from markLinear_group [OF this Cons.prems(2,3), of v] show ?thesis
      by (simp add: firstPos_Cons True)
  next
    case False
    with Cons contiguous_Cons [of "u_BtxID u" "txids us"] show ?thesis
      by (auto simp: firstPos_Cons sameTxid_eq split: option.splits)
  qed
qed (simp add: firstPos_def)

text \<open>The search through the index is the linear search.\<close>

lemma markUtxoAsSpent_linear:
  assumes "balance_wf ab" and "b \<noteq> []"
  shows "markUtxoAsSpent b v ab = map_option (\<lambda>us. ab\<lparr>ab_Utxos := us\<rparr>) (markLinear b v (ab_Utxos ab))"
proof (cases "ab_utxosMap ab = []")
  case True
  then show ?thesis by (cases "markLinear b v (ab_Utxos ab)") (simp_all add: markUtxoAsSpent_def)
next
  case False
  with assms show ?thesis
    by (auto simp: markUtxoAsSpent_def balance_wf_def markLinear_indexed split: option.splits)
qed

lemma txids_markLinear: "markLinear b v us = Some us' \<Longrightarrow> txids us' = txids us"
  by (induction us arbitrary: us') (auto split: bind_splits if_splits)

lemma markUtxoAsSpent_wf:
  assumes "balance_wf ab" and "b \<noteq> []"
  shows "\<exists>ab'. markUtxoAsSpent b v ab = Some ab' \<and> balance_wf ab'"
proof -
  obtain us where us: "markLinear b v (ab_Utxos ab) = Some us"
    using markLinear_indexed [of "ab_Utxos ab" b v] assms by (auto simp: balance_wf_def)
  then have "txids us = txids (ab_Utxos ab)" by (rule txids_markLinear)
  moreover from this have "length us = length (ab_Utxos ab)" by (metis length_map)
  moreover from calculation(1) have "u_BtxID ` set us = u_BtxID ` set (ab_Utxos ab)" by (metis list.set_map)
  ultimately show ?thesis
    using assms us by (simp add: markUtxoAsSpent_linear balance_wf_def)
qed

section \<open>Inserting an output on disconnect\<close>

lemma findTxLinear_eq:
  "[] \<notin> set (txids us) \<Longrightarrow> b \<noteq> [] \<Longrightarrow>
   findTxLinear b k us = Some (map_option ((+) k) (firstPos b (txids us)))"
proof (induction us arbitrary: k)
  case (Cons u us)
  have "map_option ((+) (Suc k)) x = map_option (\<lambda>n. Suc (k + n)) x" for x by (cases x) simp_all
  with Cons show ?case
    by (auto simp: sameTxid_eq firstPos_Cons option.map_comp comp_def)
qed (simp add: firstPos_def)

text \<open>The insertion point lies inside the group of the transaction or right behind it.\<close>

lemma findInsert_group:
  assumes "[] \<notin> set (txids us)" and "u_BtxID u \<noteq> []"
  shows "\<exists>r. findInsert u k us = Some r \<and>
    (case r of
       None \<Rightarrow> (\<forall>x \<in> set us. u_BtxID x = u_BtxID u)
     | Some i \<Rightarrow> k \<le> i \<and> i - k < length us \<and> (\<forall>x \<in> set (take (i - k) us). u_BtxID x = u_BtxID u))"
  using assms(1)
proof (induction us arbitrary: k)
  case (Cons x us)
  then obtain r where r: "findInsert u (Suc k) us = Some r"
    "case r of None \<Rightarrow> (\<forall>x \<in> set us. u_BtxID x = u_BtxID u)
     | Some i \<Rightarrow> Suc k \<le> i \<and> i - Suc k < length us \<and> (\<forall>x \<in> set (take (i - Suc k) us). u_BtxID x = u_BtxID u)"
    by auto
  show ?case
  proof (cases "u_Vout x > u_Vout u \<or> u_BtxID x \<noteq> u_BtxID u")
    case True
    with Cons.prems assms(2) show ?thesis by (auto simp: sameTxid_eq)
  next
    case False
    moreover have "i - k = Suc (i - Suc k)" if "Suc k \<le> i" for i using that by simp
    ultimately show ?thesis
      using r Cons.prems assms(2) by (auto simp: sameTxid_eq split: option.splits)
  qed
qed simp

lemma notin_drop: "b \<notin> set (txids us) \<Longrightarrow> b \<notin> set (txids (drop i us))"
  by (auto dest: in_set_dropD)

lemma findInsert_contiguous:
  assumes c: "contiguous (txids us)" "[] \<notin> set (txids us)" "u_BtxID u \<noteq> []"
    and i: "firstPos (u_BtxID u) (txids us) = Some i"
    and j: "findInsert u i (drop i us) = Some (Some j)"
  shows "contiguous (txids (take j us @ u # drop j us))"
proof -
  have l: "i < length us" "u_BtxID (us ! i) = u_BtxID u"
    using firstPos_less [OF i] firstPos_nth [OF i] by simp_all
  have r: "i \<le> j" "j < length us" "\<forall>x \<in> set (take (j - i) (drop i us)). u_BtxID x = u_BtxID u"
    using findInsert_group [OF notin_drop [OF c(2)] c(3), of i i] j l(1) by auto
  have "(txids (take j us) \<noteq> [] \<and> last (txids (take j us)) = u_BtxID u) \<or>
      (txids (drop j us) \<noteq> [] \<and> hd (txids (drop j us)) = u_BtxID u)"
  proof (cases "i = j")
    case True
    with l show ?thesis by (simp add: hd_map hd_drop_conv_nth)
  next
    case False
    with r(1,2) have "us ! (j - 1) \<in> set (take (j - i) (drop i us))"
      by (auto simp: in_set_conv_nth intro!: exI [of _ "j - 1 - i"])
    with r(3) have "u_BtxID (us ! (j - 1)) = u_BtxID u" by auto
    moreover have "take j us \<noteq> []" using False r(1,2) by auto
    ultimately show ?thesis using r(2) by (simp add: last_map last_conv_nth)
  qed
  with c(1) have "contiguous (txids (take j us) @ u_BtxID u # txids (drop j us))"
    by (intro contiguous_insert) (simp_all flip: map_append)
  then show ?thesis by simp
qed

lemma addUtxoInDisconnect_wf:
  assumes wf: "balance_wf ab" and u: "u_BtxID u \<noteq> []"
  shows "\<exists>ab'. addUtxoInDisconnect u ab = Some ab' \<and> balance_wf ab'"
proof -
  let ?us = "ab_Utxos ab"
  have c: "contiguous (txids ?us)" "[] \<notin> set (txids ?us)" using wf by (simp_all add: balance_wf_def)
  have start: "(if ab_utxosMap ab \<noteq> [] then Some (map_of (ab_utxosMap ab) (u_BtxID u))
      else findTxLinear (u_BtxID u) 0 ?us) = Some (firstPos (u_BtxID u) (txids ?us))"
    using wf u by (auto simp: balance_wf_def findTxLinear_eq option.map_ident_strong)
  show ?thesis
  proof (cases "firstPos (u_BtxID u) (txids ?us)")
    case None
    then have "u_BtxID u \<notin> set (txids ?us)" by (auto simp: firstPos_def split: if_splits)
    with None start show ?thesis
      using balance_wf_append [OF wf u] by (simp add: addUtxoInDisconnect_def)
  next
    case (Some i)
    have i: "i < length ?us" using firstPos_less [OF Some] by simp
    obtain r where r: "findInsert u i (drop i ?us) = Some r"
      "r = None \<longrightarrow> (\<forall>x \<in> set (drop i ?us). u_BtxID x = u_BtxID u)"
      using findInsert_group [OF notin_drop [OF c(2)] u, of i i] by fastforce
    show ?thesis
    proof (cases r)
      case None
      have "last ?us \<in> set (drop i ?us)" using i last_in_set [of "drop i ?us"] by (simp add: last_drop)
      with None r(2) i have "?us \<noteq> [] \<and> u_BtxID (last ?us) = u_BtxID u" by auto
      with None r(1) start Some show ?thesis
        using balance_wf_append [OF wf u] by (simp add: addUtxoInDisconnect_def)
    next
      case (Some j)
      with r(1) have "contiguous (txids (take j ?us @ u # drop j ?us))"
        using findInsert_contiguous [OF c u \<open>firstPos (u_BtxID u) (txids ?us) = Some i\<close>] by simp
      then show ?thesis
        using start r(1) Some \<open>firstPos (u_BtxID u) (txids ?us) = Some i\<close> c(2) u
        by (auto simp: addUtxoInDisconnect_def balance_wf_def dest: in_set_takeD in_set_dropD)
    qed
  qed
qed

section \<open>Rows\<close>

definition canonUtxo :: "RocksDB \<Rightarrow> Utxo \<Rightarrow> Utxo" where
  "canonUtxo d u = u\<lparr>u_ValueSat := canonBigint (u_ValueSat u), u_AssetInfo := canonAsset d (u_AssetInfo u)\<rparr>"

definition validUtxo :: "RocksDB \<Rightarrow> int \<Rightarrow> Utxo \<Rightarrow> bool" where
  "validUtxo d n u \<longleftrightarrow> vlq_ok (d_vlq d) \<and> int (length (u_BtxID u)) = n \<and> 0 \<le> u_Vout u \<and> is_int32 (u_Vout u)"

lemma unpackUtxo_append:
  assumes "validUtxo d n u"
  shows "unpackUtxo d n (appendUtxo d (supportsSyscoinAssets (d_chainParser d)) u @ rest) =
    Some (canonUtxo d u, int (length (appendUtxo d (supportsSyscoinAssets (d_chainParser d)) u)))"
proof -
  have n: "n = int (length (u_BtxID u))" and v: "vlq_ok (d_vlq d)" "0 \<le> u_Vout u" "is_int32 (u_Vout u)"
    using assms by (simp_all add: validUtxo_def)
  show ?thesis
    unfolding n using v
    by (cases "supportsSyscoinAssets (d_chainParser d)")
      (simp_all add: unpackUtxo_def appendUtxo_def Let_def codec_simps pos_simps int32_word_of_int
        canonUtxo_def canonAsset_def)
qed

interpretation utxo:
  codec "appendUtxo d (supportsSyscoinAssets (d_chainParser d))" "unpackUtxo d n" "validUtxo d n" "canonUtxo d"
  for d n
  by unfold_locales (rule unpackUtxo_append)

lemma length_appendUtxo:
  assumes "validUtxo d n u"
  shows "n + 3 \<le> int (length (appendUtxo d assets u))"
proof -
  have "packVaruint (d_vlq d) x \<noteq> []" for x using assms by (simp add: validUtxo_def)
  then have "1 \<le> length (packVaruint (d_vlq d) x)" for x by (simp add: Suc_leI)
  note this [of "word_of_int (u_Vout u)"] this [of "ucast (u_Height u)"]
  moreover have "0 < length (packBigint (u_ValueSat u))" by simp
  ultimately have "3 \<le> length (packVaruint (d_vlq d) (word_of_int (u_Vout u))) +
      length (packVaruint (d_vlq d) (ucast (u_Height u))) + length (packBigint (u_ValueSat u))"
    by linarith
  then show ?thesis
    using assms by (simp add: appendUtxo_def validUtxo_def)
qed

text \<open>What the decoding loop does with one output.\<close>

definition keepUtxo :: "AddressBalanceDetail \<Rightarrow> AddrBalance \<Rightarrow> Utxo \<Rightarrow> AddrBalance" where
  "keepUtxo detail ab u =
     (if detail = AddressBalanceDetailUTXO then ab\<lparr>ab_Utxos := ab_Utxos ab @ [u]\<rparr> else addUtxo u ab)"

lemma unpackUtxos_pack:
  assumes "\<And>u. u \<in> set us \<Longrightarrow> validUtxo d n u" and "length us \<le> fuel" and "0 \<le> n"
  shows "unpackUtxos fuel d n detail
      (pre @ concat (map (appendUtxo d (supportsSyscoinAssets (d_chainParser d))) us)) (int (length pre)) ab =
    Some (foldl (keepUtxo detail) ab (map (canonUtxo d) us))"
  using assms(1,2)
proof (induction us arbitrary: fuel pre ab)
  case Nil
  with assms(3) show ?case by (subst unpackUtxos.simps) (simp add: slice_from_def)
next
  case (Cons u us)
  let ?a = "appendUtxo d (supportsSyscoinAssets (d_chainParser d))"
  obtain f where f: "fuel = Suc f" "length us \<le> f" using Cons.prems(2) by (cases fuel) auto
  have u: "validUtxo d n u" using Cons.prems(1) by simp
  have "n + 3 \<le> int (length (?a u @ concat (map ?a us)))"
    using length_appendUtxo [OF u, of "supportsSyscoinAssets (d_chainParser d)"] by simp
  moreover have "unpackUtxos f d n detail ((pre @ ?a u) @ concat (map ?a us)) (int (length (pre @ ?a u)))
      (keepUtxo detail ab (canonUtxo d u)) =
    Some (foldl (keepUtxo detail) (keepUtxo detail ab (canonUtxo d u)) (map (canonUtxo d) us))"
    by (rule Cons.IH) (use Cons.prems(1) f in auto)
  ultimately show ?case
    by (subst unpackUtxos.simps) (simp add: f unpackUtxo_append [OF u] keepUtxo_def)
qed

definition canonAssetBalance :: "uint64 \<times> AssetBalance \<Rightarrow> uint64 \<times> AssetBalance" where
  "canonAssetBalance gb =
     (fst gb, (snd gb)\<lparr>ab_AssetBalanceSat := canonBigint (ab_AssetBalanceSat (snd gb)),
        ab_AssetSentSat := canonBigint (ab_AssetSentSat (snd gb))\<rparr>)"

interpretation assetbalance:
  codec "appendAssetBalance d" "unpackAssetBalance d" "\<lambda>_. vlq_ok (d_vlq d)" canonAssetBalance for d
  by unfold_locales
    (auto simp: unpackAssetBalance_def appendAssetBalance_def Let_def codec_simps pos_simps
      canonAssetBalance_def split: prod.splits)

lemma update_fresh: "k \<notin> fst ` set m \<Longrightarrow> AList.update k v m = m @ [(k, v)]"
  by (induction m) auto

lemma foldl_update_distinct:
  "distinct (map fst (m @ xs)) \<Longrightarrow> foldl (\<lambda>m (g, a). AList.update g a m) m xs = m @ xs"
proof (induction xs arbitrary: m)
  case (Cons x xs)
  then have "AList.update (fst x) (snd x) m = m @ [x]" by (simp add: update_fresh)
  with Cons show ?case by (simp add: case_prod_beta)
qed simp

definition canonAddrBalance :: "RocksDB \<Rightarrow> AddressBalanceDetail \<Rightarrow> AddrBalance \<Rightarrow> AddrBalance" where
  "canonAddrBalance d detail ab =
     (let base = \<lparr>ab_Txs = ab_Txs ab, ab_SentSat = canonBigint (ab_SentSat ab),
            ab_BalanceSat = canonBigint (ab_BalanceSat ab), ab_Utxos = [],
            ab_AssetBalances = (if supportsSyscoinAssets (d_chainParser d)
              then map canonAssetBalance (ab_AssetBalances ab) else []),
            ab_utxosMap = []\<rparr>;
          us = map (canonUtxo d) (filter (\<lambda>u. 0 \<le> u_Vout u) (ab_Utxos ab)) in
      if detail = AddressBalanceDetailNoUTXO then base else foldl (keepUtxo detail) base us)"

definition validAddrBalance :: "RocksDB \<Rightarrow> int \<Rightarrow> AddrBalance \<Rightarrow> bool" where
  "validAddrBalance d n ab \<longleftrightarrow> vlq_ok (d_vlq d) \<and> 0 < n \<and>
     list_all (validUtxo d n) (filter (\<lambda>u. 0 \<le> u_Vout u) (ab_Utxos ab)) \<and>
     distinct (map fst (ab_AssetBalances ab)) \<and> length (ab_AssetBalances ab) < 2 ^ 63"

lemma concat_appendUtxo_unspent:
  "concat (map (appendUtxo d assets) us) = concat (map (appendUtxo d assets) (filter (\<lambda>u. 0 \<le> u_Vout u) us))"
  by (induction us) (auto simp: appendUtxo_def)

lemma length_concat_appendUtxo:
  "(\<And>u. u \<in> set us \<Longrightarrow> validUtxo d n u) \<Longrightarrow> 0 \<le> n \<Longrightarrow> length us \<le> length (concat (map (appendUtxo d a) us))"
proof (induction us)
  case (Cons u us)
  then have "n + 3 \<le> int (length (appendUtxo d a u))" by (intro length_appendUtxo) simp
  with Cons show ?case by auto
qed simp

lemma unpackAddrBalance_pack:
  assumes "validAddrBalance d n ab"
  shows "unpackAddrBalance d (packAddrBalance d ab) n detail = Some (canonAddrBalance d detail ab)"
proof -
  let ?assets = "supportsSyscoinAssets (d_chainParser d)"
  let ?us = "filter (\<lambda>u. 0 \<le> u_Vout u) (ab_Utxos ab)"
  let ?head = "packVaruint (d_vlq d) (ucast (ab_Txs ab)) @ packBigint (ab_SentSat ab) @ packBigint (ab_BalanceSat ab)"
  let ?n = "packVaruint (d_vlq d) (of_nat (length (ab_AssetBalances ab)))"
  let ?abs = "concat (map (appendAssetBalance d) (ab_AssetBalances ab))"
  let ?utxos = "concat (map (appendUtxo d ?assets) ?us)"
  have v: "vlq_ok (d_vlq d)" "0 < n" "distinct (map fst (ab_AssetBalances ab))"
    "length (ab_AssetBalances ab) < 2 ^ 63" and us: "\<And>u. u \<in> set ?us \<Longrightarrow> validUtxo d n u"
    using assms by (auto simp: validAddrBalance_def list_all_iff)
  have buf: "packAddrBalance d ab = (if ?assets then (?head @ ?n @ ?abs) @ ?utxos else ?head @ ?utxos)"
    using concat_appendUtxo_unspent [of d _ "ab_Utxos ab"]
    by (simp add: packAddrBalance_def packAddrBalance_base_def)
  have fuel: "length ?us \<le> length (packAddrBalance d ab)"
  proof -
    have "length ?us \<le> length ?utxos" by (rule length_concat_appendUtxo [OF us]) (use v(2) in auto)
    also have "\<dots> \<le> length (packAddrBalance d ab)" unfolding buf by simp
    finally show ?thesis .
  qed
  note loop = unpackUtxos_pack [OF us fuel less_imp_le [OF v(2)], of detail]
  have a: "unpack_n (unpackAssetBalance d) (length (ab_AssetBalances ab)) ((?head @ ?n) @ ?abs @ ?utxos)
      (int (length (?head @ ?n))) = Some (map canonAssetBalance (ab_AssetBalances ab), int (length (?head @ ?n)) + int (length ?abs))"
    by (rule assetbalance.unpack_n_pack) (rule v(1))
  have m: "foldl (\<lambda>m (g, a). AList.update g a m) [] (map canonAssetBalance (ab_AssetBalances ab)) =
      map canonAssetBalance (ab_AssetBalances ab)"
    using foldl_update_distinct [of "[]" "map canonAssetBalance (ab_AssetBalances ab)"] v(3)
    by (simp add: canonAssetBalance_def comp_def)
  show ?thesis
  proof (cases ?assets)
    case True
    show ?thesis
      using v a m loop [of "?head @ ?n @ ?abs"] True
      by (simp add: buf unpackAddrBalance_def Let_def codec_simps pos_simps unat_of_nat64 zeroAddrBalance_def
          canonAddrBalance_def add.assoc)
  next
    case False
    then show ?thesis
      using v loop [of "?head"]
      by (simp add: buf unpackAddrBalance_def Let_def codec_simps pos_simps zeroAddrBalance_def
          canonAddrBalance_def add.assoc)
  qed
qed

section \<open>Decoded balances\<close>

lemma addUtxo_fields [simp]:
  "ab_Utxos (addUtxo u ab) = ab_Utxos ab @ [u]" "ab_Txs (addUtxo u ab) = ab_Txs ab"
  "ab_SentSat (addUtxo u ab) = ab_SentSat ab" "ab_BalanceSat (addUtxo u ab) = ab_BalanceSat ab"
  "ab_AssetBalances (addUtxo u ab) = ab_AssetBalances ab"
  by (simp_all add: addUtxo_def manageUtxoMap_def Let_def split: option.splits)

lemma foldl_keepUtxo_fields:
  "ab_Utxos (foldl (keepUtxo detail) ab us) = ab_Utxos ab @ us"
  "ab_Txs (foldl (keepUtxo detail) ab us) = ab_Txs ab"
  "ab_SentSat (foldl (keepUtxo detail) ab us) = ab_SentSat ab"
  "ab_BalanceSat (foldl (keepUtxo detail) ab us) = ab_BalanceSat ab"
  "ab_AssetBalances (foldl (keepUtxo detail) ab us) = ab_AssetBalances ab"
  by (induction us arbitrary: ab) (simp_all add: keepUtxo_def)

lemma contiguous_append: "contiguous (xs @ ys) \<Longrightarrow> contiguous xs"
proof (induction ys rule: rev_induct)
  case (snoc y ys)
  have "contiguous (zs @ [y]) \<Longrightarrow> contiguous zs" for zs :: "'a list"
    by (cases zs rule: rev_cases) (auto simp: contiguous_def remdups_adj_append_two split: if_splits)
  with snoc show ?case by (metis append_assoc)
qed simp

lemma contiguous_last:
  "contiguous (xs @ [x]) \<Longrightarrow> x \<notin> set xs \<or> (xs \<noteq> [] \<and> last xs = x)"
  by (cases xs rule: rev_cases)
    (auto simp: contiguous_def remdups_adj_append_two split: if_splits)

lemma foldl_addUtxo_wf:
  assumes "balance_wf ab" and "contiguous (txids (ab_Utxos ab @ us))" and "[] \<notin> set (txids us)"
  shows "balance_wf (foldl (\<lambda>ab u. addUtxo u ab) ab us)"
  using assms
proof (induction us arbitrary: ab)
  case (Cons u us)
  have c: "contiguous (txids (ab_Utxos ab) @ [u_BtxID u])"
    using Cons.prems(2) contiguous_append [of "txids (ab_Utxos ab) @ [u_BtxID u]" "txids us"] by simp
  have "balance_wf (addUtxo u ab)"
    unfolding addUtxo_def using contiguous_last [OF c] Cons.prems(1,3)
    by (intro balance_wf_append) (auto simp: last_map)
  with Cons show ?case by simp
qed simp

lemma contiguous_ConsI:
  "contiguous xs \<Longrightarrow> x \<notin> set xs \<or> (xs \<noteq> [] \<and> hd xs = x) \<Longrightarrow> contiguous (x # xs)"
  by (cases xs) (auto simp: contiguous_def)

lemma contiguous_filter_utxos:
  "contiguous (txids us) \<Longrightarrow> contiguous (txids (filter P us))"
proof (induction us)
  case (Cons u us)
  have IH: "contiguous (txids (filter P us))"
    using Cons contiguous_Cons [of "u_BtxID u" "txids us"] by simp
  let ?g = "takeWhile (\<lambda>x. u_BtxID x = u_BtxID u) us" and ?r = "dropWhile (\<lambda>x. u_BtxID x = u_BtxID u) us"
  have "u_BtxID u \<notin> set (txids ?r)"
    using contiguous_group [of "u_BtxID u" "txids us"] Cons.prems by (simp add: dropWhile_map comp_def)
  then have r: "u_BtxID u \<notin> set (txids (filter P ?r))" by auto
  have g: "\<forall>x \<in> set (filter P ?g). u_BtxID x = u_BtxID u" by (auto dest: set_takeWhileD)
  have f: "filter P us = filter P ?g @ filter P ?r" by (simp flip: filter_append)
  have "u_BtxID u \<notin> set (txids (filter P us)) \<or>
      (txids (filter P us) \<noteq> [] \<and> hd (txids (filter P us)) = u_BtxID u)"
  proof (cases "filter P ?g")
    case Nil
    with r show ?thesis unfolding f by simp
  next
    case (Cons y ys)
    with g show ?thesis unfolding f by simp
  qed
  with IH show ?case by (auto intro: contiguous_ConsI)
qed (simp add: contiguous_def)

text \<open>A balance read back for an update satisfies the invariant again.\<close>

lemma canonAddrBalance_wf:
  assumes "contiguous (txids (ab_Utxos ab))" and "[] \<notin> set (txids (ab_Utxos ab))"
  shows "balance_wf (canonAddrBalance d addressBalanceDetailUTXOIndexed ab)"
proof -
  let ?us = "filter (\<lambda>u. 0 \<le> u_Vout u) (ab_Utxos ab)"
  have ids: "txids (map (canonUtxo d) ?us) = txids ?us" by (simp add: canonUtxo_def)
  have k: "keepUtxo addressBalanceDetailUTXOIndexed = (\<lambda>ab u. addUtxo u ab)"
    by (simp add: keepUtxo_def fun_eq_iff)
  have ne: "[] \<notin> set (txids ?us)" using assms(2) by auto
  have "balance_wf (foldl (\<lambda>ab u. addUtxo u ab) base (map (canonUtxo d) ?us))"
    if "ab_Utxos base = []" "ab_utxosMap base = []" for base
  proof (rule foldl_addUtxo_wf)
    show "balance_wf base" using that by (simp add: balance_wf_def contiguous_def)
    show "contiguous (txids (ab_Utxos base @ map (canonUtxo d) ?us))"
      using contiguous_filter_utxos [OF assms(1)] ids that(1) by (metis append_Nil)
    show "[] \<notin> set (txids (map (canonUtxo d) ?us))" unfolding ids by (rule ne)
  qed
  then show ?thesis by (simp add: canonAddrBalance_def Let_def k)
qed

section \<open>Storing and reading balances\<close>

lemma storeBalances_effect:
  assumes "distinct (map fst abm)"
  shows "batch_effect cfAddressBalance a (storeBalances d abm) =
    (case map_of abm a of
       None \<Rightarrow> None
     | Some None \<Rightarrow> Some None
     | Some (Some ab) \<Rightarrow> Some (if ab_Txs ab = 0 then None else Some (packAddrBalance d ab)))"
proof -
  define f where "f k b = (case b of
         None \<Rightarrow> DeleteCF cfAddressBalance k
       | Some ab \<Rightarrow>
           if ab_Txs ab \<le> 0 then DeleteCF cfAddressBalance k
           else PutCF cfAddressBalance k (packAddrBalance d ab))" for k b
  define g where "g b = (case b of None \<Rightarrow> None | Some ab \<Rightarrow> if ab_Txs ab = 0 then None else Some (packAddrBalance d ab))" for b
  have "wop_effect cfAddressBalance a (f k b) = (if k = a then Some (g b) else None)" for k b
    by (cases b) (auto simp: f_def g_def)
  from batch_effect_keyed [OF assms this]
  have "batch_effect cfAddressBalance a (storeBalances d abm) = map_option g (map_of abm a)"
    by (simp only: storeBalances_def f_def)
  then show ?thesis by (simp add: g_def split: option.splits)
qed

lemma length_packAddrBalance:
  assumes "vlq_ok (d_vlq d)"
  shows "3 \<le> length (packAddrBalance d ab)"
proof -
  have "0 < length (packVaruint (d_vlq d) (ucast (ab_Txs ab)))" "0 < length (packBigint (ab_SentSat ab))"
    "0 < length (packBigint (ab_BalanceSat ab))"
    using assms by simp_all
  then show ?thesis
    unfolding packAddrBalance_def packAddrBalance_base_def length_append
    by (simp only: if_distrib [of length] length_append split: if_split) linarith
qed

section \<open>Sums of unspent outputs\<close>

definition unspentSum :: "Utxo list \<Rightarrow> int" where
  "unspentSum us = sum_list (map u_ValueSat (filter (\<lambda>u. 0 \<le> u_Vout u) us))"

lemma unspentSum_simps [simp]:
  "unspentSum [] = 0"
  "unspentSum (u # us) = (if 0 \<le> u_Vout u then u_ValueSat u else 0) + unspentSum us"
  "unspentSum (us @ vs) = unspentSum us + unspentSum vs"
  by (simp_all add: unspentSum_def)

lemma markLinear_sum:
  assumes "markLinear b v us = Some us'" and "0 \<le> v" and "[] \<notin> set (txids us)" and "b \<noteq> []"
  shows "unspentSum us' = unspentSum us -
    (case find (\<lambda>u. u_Vout u = v \<and> u_BtxID u = b) us of None \<Rightarrow> 0 | Some u \<Rightarrow> u_ValueSat u)"
  using assms(1,3)
proof (induction us arbitrary: us')
  case (Cons u us)
  show ?case
  proof (cases "u_Vout u = v \<and> u_BtxID u = b")
    case True
    with Cons.prems assms show ?thesis by (auto simp: sameTxid_eq)
  next
    case False
    with Cons.prems assms(4) obtain us'' where "markLinear b v us = Some us''" "us' = u # us''"
      by (auto simp: sameTxid_eq split: bind_splits if_splits)
    with Cons False show ?thesis by auto
  qed
qed simp

lemma markUtxoAsSpent_sum:
  assumes "balance_wf ab" and "b \<noteq> []" and "0 \<le> v" and "markUtxoAsSpent b v ab = Some ab'"
  shows "unspentSum (ab_Utxos ab') = unspentSum (ab_Utxos ab) -
    (case find (\<lambda>u. u_Vout u = v \<and> u_BtxID u = b) (ab_Utxos ab) of None \<Rightarrow> 0 | Some u \<Rightarrow> u_ValueSat u)"
  using assms markLinear_sum [of b v "ab_Utxos ab"]
  by (auto simp: markUtxoAsSpent_linear balance_wf_def)

lemma addUtxoInDisconnect_sum:
  assumes "addUtxoInDisconnect u ab = Some ab'"
  shows "unspentSum (ab_Utxos ab') = unspentSum (ab_Utxos ab) + (if 0 \<le> u_Vout u then u_ValueSat u else 0)"
proof -
  have "ab_Utxos ab' = ab_Utxos ab @ [u] \<or> (\<exists>i. ab_Utxos ab' = take i (ab_Utxos ab) @ u # drop i (ab_Utxos ab))"
    using assms addUtxo_fields(1) [of u ab]
    by (auto simp: addUtxoInDisconnect_def addUtxo_def split: bind_splits option.splits)
  moreover have "unspentSum (take i (ab_Utxos ab)) + unspentSum (drop i (ab_Utxos ab)) = unspentSum (ab_Utxos ab)" for i
    using unspentSum_simps(3) [of "take i (ab_Utxos ab)" "drop i (ab_Utxos ab)"] by simp
  ultimately show ?thesis by (auto simp: algebra_simps)
qed

section \<open>Properties\<close>

text \<open>C9: The search for an output to be marked as spent that starts at the position found in the index has the
  same result as the search through the whole list, for every balance whose index satisfies the
  invariant.\<close>

theorem markUtxoAsSpent_index:
  assumes "balance_wf ab" and "b \<noteq> []"
  shows "markUtxoAsSpent b v ab =
    map_option (\<lambda>ab'. ab'\<lparr>ab_utxosMap := ab_utxosMap ab\<rparr>) (markUtxoAsSpent b v (ab\<lparr>ab_utxosMap := []\<rparr>))"
proof -
  have "balance_wf (ab\<lparr>ab_utxosMap := []\<rparr>)" using assms(1) by (simp add: balance_wf_def)
  then show ?thesis
    using assms by (simp add: markUtxoAsSpent_linear option.map_comp comp_def)
qed

definition demoUtxo :: "nat \<Rightarrow> Utxo" where
  "demoUtxo i = \<lparr>u_BtxID = replicate 32 (of_nat (i div 2)), u_Vout = int (i mod 2), u_Height = 7,
     u_ValueSat = int i, u_AssetInfo = None\<rparr>"

definition demoAb :: AddrBalance where
  "demoAb = foldl (\<lambda>ab u. addUtxo u ab)
     (zeroAddrBalance\<lparr>ab_Txs := 9, ab_BalanceSat := 153\<rparr>) (map demoUtxo [0..<18])"

lemma balance_wf_demo: "balance_wf demoAb"
proof -
  have "distinct (remdups_adj (txids (map demoUtxo [0..<18])))" "[] \<notin> set (txids (map demoUtxo [0..<18]))"
    by code_simp+
  then show ?thesis
    unfolding demoAb_def
    by (intro foldl_addUtxo_wf) (simp_all add: balance_wf_def contiguous_def zeroAddrBalance_def del: upt.simps upt_rec_numeral)
qed

theorem markUtxoAsSpent_index_witness:
  "map_option ab_Utxos (markUtxoAsSpent (replicate 32 3) 1 demoAb) =
     map_option ab_Utxos (markUtxoAsSpent (replicate 32 3) 1 (demoAb\<lparr>ab_utxosMap := []\<rparr>)) \<and>
   length (ab_utxosMap demoAb) = 9"
proof -
  have "length (ab_utxosMap demoAb) = 9" by code_simp
  moreover have "replicate 32 (3 :: byte) \<noteq> []" by simp
  note markUtxoAsSpent_index [OF balance_wf_demo this, of 1]
  ultimately show ?thesis by (simp add: option.map_comp comp_def del: replicate_eq_replicate)
qed

text \<open>C10: The invariant of the list of unspent outputs (the outputs of a transaction stand together, a
  non-empty index holds the first position of every transaction) is kept by every operation on it:
  adding an output of a new transaction or of the last one, inserting an output on disconnect and marking an
  output as spent, neither of which panics.\<close>

theorem utxo_index_invariant:
  assumes "balance_wf ab" and "u_BtxID u \<noteq> []" and "b \<noteq> []"
  shows "(u_BtxID u \<notin> set (map u_BtxID (ab_Utxos ab)) \<or>
       (ab_Utxos ab \<noteq> [] \<and> u_BtxID (last (ab_Utxos ab)) = u_BtxID u) \<longrightarrow> balance_wf (addUtxo u ab)) \<and>
    (\<exists>ab'. addUtxoInDisconnect u ab = Some ab' \<and> balance_wf ab') \<and>
    (\<exists>ab'. markUtxoAsSpent b v ab = Some ab' \<and> balance_wf ab')"
  using balance_wf_append [OF assms(1,2)] addUtxoInDisconnect_wf [OF assms(1,2)]
    markUtxoAsSpent_wf [OF assms(1,3)]
  by (simp add: addUtxo_def)

theorem utxo_index_invariant_witness:
  "balance_wf (addUtxo (demoUtxo 18) demoAb) \<and>
   (\<exists>ab'. addUtxoInDisconnect (demoUtxo 4) demoAb = Some ab' \<and> balance_wf ab') \<and>
   (\<exists>ab'. markUtxoAsSpent (replicate 32 1) 0 demoAb = Some ab' \<and> balance_wf ab')"
proof -
  have "u_BtxID (demoUtxo 18) \<notin> set (map u_BtxID (ab_Utxos demoAb))" by code_simp
  moreover have "u_BtxID (demoUtxo 18) \<noteq> []" "u_BtxID (demoUtxo 4) \<noteq> []" "replicate 32 (1 :: byte) \<noteq> []"
    by (simp_all add: demoUtxo_def)
  ultimately show ?thesis
    using utxo_index_invariant [OF balance_wf_demo, of "demoUtxo 18" "replicate 32 1" 0]
      utxo_index_invariant [OF balance_wf_demo, of "demoUtxo 4" "replicate 32 1" 0]
    by blast
qed

text \<open>C11: A row of the column addressBalance decodes to the balance packed into it: number of
  transactions, sent amount, balance, the balances of assets (for Syscoin), and, on request, the unspent
  outputs in their order without those marked as spent; read for an update, the outputs come with an
  index that satisfies the invariant.\<close>

theorem addrBalance_roundtrip:
  assumes "validAddrBalance d n ab"
  shows "\<exists>ab'. unpackAddrBalance d (packAddrBalance d ab) n detail = Some ab' \<and>
    ab_Txs ab' = ab_Txs ab \<and>
    ab_SentSat ab' = canonBigint (ab_SentSat ab) \<and> ab_BalanceSat ab' = canonBigint (ab_BalanceSat ab) \<and>
    ab_AssetBalances ab' = (if supportsSyscoinAssets (d_chainParser d)
       then map canonAssetBalance (ab_AssetBalances ab) else []) \<and>
    ab_Utxos ab' = (if detail = AddressBalanceDetailNoUTXO then []
       else map (canonUtxo d) (filter (\<lambda>u. 0 \<le> u_Vout u) (ab_Utxos ab))) \<and>
    (detail = addressBalanceDetailUTXOIndexed \<and> balance_wf ab \<longrightarrow> balance_wf ab')"
  using unpackAddrBalance_pack [OF assms, of detail] canonAddrBalance_wf [of ab d]
  by (auto simp: canonAddrBalance_def Let_def foldl_keepUtxo_fields balance_wf_def)

lemma validAddrBalance_demo: "validAddrBalance (demoDB False False) 32 demoAb"
proof -
  have "\<forall>u \<in> set (map demoUtxo [0..<18]). length (u_BtxID u) = 32 \<and> 0 \<le> u_Vout u \<and> u_Vout u < 2"
    by (auto simp: demoUtxo_def)
  moreover have "ab_Utxos demoAb = map demoUtxo [0..<18]" "ab_AssetBalances demoAb = []" by code_simp+
  ultimately show ?thesis
    by (auto simp: validAddrBalance_def validUtxo_def vlq_ok_leb list_all_iff is_int32_def demoUtxo_def
        simp del: upt.simps upt_rec_numeral)
qed

theorem addrBalance_roundtrip_witness:
  "\<exists>ab'. unpackAddrBalance (demoDB False False) (packAddrBalance (demoDB False False) demoAb) 32
      addressBalanceDetailUTXOIndexed = Some ab' \<and> ab_Txs ab' = 9 \<and> length (ab_Utxos ab') = 18 \<and> balance_wf ab'"
proof -
  have "ab_Txs demoAb = 9" "length (filter (\<lambda>u. 0 \<le> u_Vout u) (ab_Utxos demoAb)) = 18" by code_simp+
  then show ?thesis
    using addrBalance_roundtrip [OF validAddrBalance_demo, of addressBalanceDetailUTXOIndexed] balance_wf_demo
    by auto
qed

text \<open>C12: Balances written by a block are read back: after the batch of \<open>storeBalances\<close> is applied, reading
  an address returns the balance written for it, an address without transactions has no row, and
  every address the batch does not mention reads as before.\<close>

theorem storeBalances_lookup:
  assumes "distinct (map fst abm)" and "\<forall>k ab. (k, Some ab) \<in> set abm \<longrightarrow> validAddrBalance d (p_PackedTxidLen (d_chainParser d)) ab"
  shows "GetAddrDescBalance d (after get (storeBalances d abm)) a detail =
    (case map_of abm a of
       None \<Rightarrow> GetAddrDescBalance d get a detail
     | Some None \<Rightarrow> Inr None
     | Some (Some ab) \<Rightarrow> Inr (if ab_Txs ab = 0 then None else Some (canonAddrBalance d detail ab)))"
proof (cases "map_of abm a")
  case None
  then show ?thesis
    by (simp add: GetAddrDescBalance_def after_def storeBalances_effect [OF assms(1)])
next
  case (Some b)
  show ?thesis
  proof (cases b)
    case None
    with Some show ?thesis
      by (simp add: GetAddrDescBalance_def after_def storeBalances_effect [OF assms(1)] val_Data_def)
  next
    case (Some ab)
    with \<open>map_of abm a = Some b\<close> have "(a, Some ab) \<in> set abm" by (auto dest: map_of_SomeD)
    with assms(2) have v: "validAddrBalance d (p_PackedTxidLen (d_chainParser d)) ab" by blast
    then have "3 \<le> length (packAddrBalance d ab)"
      by (intro length_packAddrBalance) (simp add: validAddrBalance_def)
    with Some \<open>map_of abm a = Some b\<close> unpackAddrBalance_pack [OF v, of detail] show ?thesis
      by (simp add: GetAddrDescBalance_def after_def storeBalances_effect [OF assms(1)] val_Data_def Let_def)
  qed
qed

theorem storeBalances_lookup_witness:
  "GetAddrDescBalance (demoDB False False)
     (after (\<lambda>_ _. Inr None) (storeBalances (demoDB False False) [([1], Some demoAb), ([2], None)])) [1]
     AddressBalanceDetailNoUTXO =
   Inr (Some (canonAddrBalance (demoDB False False) AddressBalanceDetailNoUTXO demoAb))"
proof -
  have "ab_Txs demoAb = 9" by code_simp
  moreover have "\<forall>k ab. (k, Some ab) \<in> set [([1], Some demoAb), ([2 :: byte], None)] \<longrightarrow>
      validAddrBalance (demoDB False False) (p_PackedTxidLen (d_chainParser (demoDB False False))) ab"
    using validAddrBalance_demo by simp
  ultimately show ?thesis
    using storeBalances_lookup [of "[([1], Some demoAb), ([2], None)]" "demoDB False False" "\<lambda>_ _. Inr None" "[1]"
        AddressBalanceDetailNoUTXO]
    by simp
qed

end
