(* ===== verification/BlocksLaws.thy ===== *)
theory BlocksLaws
  imports Blocks AddrBalanceLaws
begin

text \<open>
  Round trips of the rows of blocks, the order in which the transactions of an address are
  delivered, and the retention of the rows of spent outpoints.
\<close>

section \<open>Indexes of a transaction\<close>

definition validIndex :: "int \<Rightarrow> bool" where
  "validIndex i \<longleftrightarrow> - (2 ^ 30) \<le> i \<and> i < 2 ^ 30"

definition validTxIndexes :: "RocksDB \<Rightarrow> txIndexes \<Rightarrow> bool" where
  "validTxIndexes d t \<longleftrightarrow>
     int (length (btxID t)) = p_PackedTxidLen (d_chainParser d) \<and> indexes t \<noteq> [] \<and> list_all validIndex (indexes t)"

lemma index_shift:
  assumes "validIndex i"
  shows "int32 (push_bit 1 i) = 2 * i" "int32 (push_bit 1 i) OR 1 = 2 * i + 1"
    "is_int32 (2 * i)" "is_int32 (2 * i + 1)"
proof -
  have r: "is_int32 (2 * i)" using assms by (simp add: validIndex_def is_int32_def)
  then show "int32 (push_bit 1 i) = 2 * i" by (simp add: push_bit_eq_mult int32_id mult.commute)
  then show "int32 (push_bit 1 i) OR 1 = 2 * i + 1" by (simp add: or_one_eq)
  show "is_int32 (2 * i)" "is_int32 (2 * i + 1)"
    using assms by (simp_all add: validIndex_def is_int32_def)
qed

lemma index_unshift:
  "drop_bit (Suc 0) (2 * i) = (i :: int)" "drop_bit (Suc 0) (2 * i + 1) = (i :: int)"
  "(2 * i) AND 1 = (0 :: int)" "(2 * i + 1) AND 1 = (1 :: int)"
  by (simp_all add: drop_bit_eq_div and_one_eq)

lemma packIndexes_valid:
  "validIndex i \<Longrightarrow> packIndexes v [i] = packVarint32 v (2 * i + 1)"
  "validIndex i \<Longrightarrow> packIndexes v (i # j # is) = packVarint32 v (2 * i) @ packIndexes v (j # is)"
  by (simp_all only: packIndexes.simps index_shift(1)) (simp add: or_one_eq)

lemma packIndexes_length: "vlq_ok v \<Longrightarrow> length is \<le> length (packIndexes v is)"
proof (induction v "is" rule: packIndexes.induct)
  case (2 v i)
  then show ?case by (simp add: Suc_leI)
next
  case (3 v i j "is")
  have "0 < length (packVarint32 v (int32 (push_bit 1 i)))" using 3 by simp
  with 3 show ?case by (simp del: length_greater_0_conv)
qed simp

text \<open>Both loops over indexes read what \<open>packIndexes\<close> wrote.\<close>

lemma unpackIndexes_pack:
  "vlq_ok v \<Longrightarrow> is \<noteq> [] \<Longrightarrow> list_all validIndex is \<Longrightarrow> length is \<le> fuel \<Longrightarrow>
   unpackIndexes fuel v (packIndexes v is @ rest) acc = Some (acc @ is, rest)"
proof (induction v "is" arbitrary: fuel acc rule: packIndexes.induct)
  case (2 v i)
  then obtain f where "fuel = Suc f" by (cases fuel) auto
  with 2 show ?case
    by (simp add: packIndexes_valid index_shift unpackVarint32_pack index_unshift del: packIndexes.simps)
next
  case (3 v i j "is")
  then obtain f where "fuel = Suc f" by (cases fuel) auto
  with 3 show ?case
    by (simp add: packIndexes_valid index_shift unpackVarint32_pack index_unshift del: packIndexes.simps)
qed simp

lemma readIndexes_pack:
  "vlq_ok v \<Longrightarrow> is \<noteq> [] \<Longrightarrow> list_all validIndex is \<Longrightarrow> length is \<le> fuel \<Longrightarrow>
   readIndexes fuel v (packIndexes v is @ rest) acc = Some (acc @ is, rest)"
proof (induction v "is" arbitrary: fuel acc rule: packIndexes.induct)
  case (2 v i)
  then obtain f where "fuel = Suc f" by (cases fuel) auto
  with 2 show ?case
    by (simp add: packIndexes_valid index_shift unpackVarint32_pack index_unshift del: packIndexes.simps)
next
  case (3 v i j "is")
  then obtain f where "fuel = Suc f" by (cases fuel) auto
  moreover have "packIndexes v (j # is) \<noteq> []" using packIndexes_length [OF 3(2), of "j # is"] by auto
  ultimately show ?case using 3
    by (simp add: packIndexes_valid index_shift unpackVarint32_pack index_unshift del: packIndexes.simps)
qed simp

lemma packTxIndex_rest:
  assumes "vlq_ok (d_vlq d)" and "validTxIndexes d t"
  shows "p_PackedTxidLen (d_chainParser d) < int (length (btxID t @ packIndexes (d_vlq d) (indexes t) @ rest))"
    "length (indexes t) \<le> length (packIndexes (d_vlq d) (indexes t) @ rest)"
proof -
  have "0 < length (indexes t)" using assms(2) by (simp add: validTxIndexes_def)
  with packIndexes_length [OF assms(1), of "indexes t"] assms(2)
  show "p_PackedTxidLen (d_chainParser d) < int (length (btxID t @ packIndexes (d_vlq d) (indexes t) @ rest))"
    "length (indexes t) \<le> length (packIndexes (d_vlq d) (indexes t) @ rest)"
    by (simp_all add: validTxIndexes_def del: length_greater_0_conv)
qed

lemma unpackTxIndexesLoop_pack:
  assumes "vlq_ok (d_vlq d)"
  shows "list_all (validTxIndexes d) ts \<Longrightarrow> length ts \<le> fuel \<Longrightarrow> 0 \<le> p_PackedTxidLen (d_chainParser d) \<Longrightarrow>
    unpackTxIndexesLoop fuel d (concat (map (\<lambda>t. btxID t @ packIndexes (d_vlq d) (indexes t)) ts)) = Some ts"
proof (induction ts arbitrary: fuel)
  case Nil
  then show ?case by (subst unpackTxIndexesLoop.simps) simp
next
  case (Cons t ts)
  obtain f where f: "fuel = Suc f" "length ts \<le> f" using Cons.prems(2) by (cases fuel) auto
  let ?rest = "concat (map (\<lambda>t. btxID t @ packIndexes (d_vlq d) (indexes t)) ts)"
  have t: "validTxIndexes d t" using Cons.prems(1) by simp
  have n: "p_PackedTxidLen (d_chainParser d) = int (length (btxID t))" using t by (simp add: validTxIndexes_def)
  have "unpackTxIndexesLoop f d ?rest = Some ts" using Cons f by simp
  moreover have "unpackIndexes (length (packIndexes (d_vlq d) (indexes t) @ ?rest)) (d_vlq d)
      (packIndexes (d_vlq d) (indexes t) @ ?rest) [] = Some (indexes t, ?rest)"
    using unpackIndexes_pack [OF assms _ _ packTxIndex_rest(2) [OF assms t, of ?rest], of ?rest "[]"] t
    by (simp add: validTxIndexes_def)
  ultimately show ?case
    using packTxIndex_rest(1) [OF assms t, of ?rest]
    by (subst unpackTxIndexesLoop.simps) (simp add: f n Let_def)
qed

lemma length_packTxIndexes:
  "vlq_ok (d_vlq d) \<Longrightarrow> list_all (validTxIndexes d) ts \<Longrightarrow>
   length ts \<le> length (concat (map (\<lambda>t. btxID t @ packIndexes (d_vlq d) (indexes t)) ts))"
proof (induction ts)
  case (Cons t ts)
  then have "0 < length (indexes t)" by (simp add: validTxIndexes_def)
  with Cons packIndexes_length [of "d_vlq d" "indexes t"] show ?case by (simp del: length_greater_0_conv)
qed simp

lemma unpackTxIndexes_pack:
  assumes "vlq_ok (d_vlq d)" and "list_all (validTxIndexes d) ts" and "0 \<le> p_PackedTxidLen (d_chainParser d)"
  shows "unpackTxIndexes d (packTxIndexes d ts) = Some ts"
proof -
  have r: "list_all (validTxIndexes d) (rev ts)" using assms(2) by (simp add: list_all_iff)
  show ?thesis
    using unpackTxIndexesLoop_pack [OF assms(1) r length_packTxIndexes [OF assms(1) r] assms(3)]
    by (simp add: unpackTxIndexes_def packTxIndexes_def)
qed

section \<open>Iteration over the transactions of an address\<close>

text \<open>The calls of the callback, in order, until one returns an error.\<close>

fun runCallback :: "'s callback \<Rightarrow> (string \<times> uint32 \<times> int list) list \<Rightarrow> 's \<Rightarrow> 's \<times> error option" where
  "runCallback fn [] s = (s, None)"
| "runCallback fn ((tx, h, is) # es) s =
     (case fn tx h is s of (s, Some err) \<Rightarrow> (s, Some err) | (s, None) \<Rightarrow> runCallback fn es s)"

definition stopOk :: "'s \<times> error option \<Rightarrow> 's \<times> error option" where
  "stopOk r = (case r of (s, Some StopIteration) \<Rightarrow> (s, None) | r \<Rightarrow> r)"

definition keyHeight :: "bytes \<Rightarrow> bytes \<Rightarrow> uint32" where
  "keyHeight a k = NOT (of_nat (be_nat (drop (length a) k)))"

definition rowEntries :: "RocksDB \<Rightarrow> bytes \<Rightarrow> bytes \<times> bytes \<Rightarrow> (string \<times> uint32 \<times> int list) list" where
  "rowEntries d a r =
     (case unpackTxIndexes d (snd r) of
        None \<Rightarrow> []
      | Some ts \<Rightarrow> map (\<lambda>t. (ignore_err (p_UnpackTxid (d_chainParser d) (btxID t)), keyHeight a (fst r), indexes t)) (rev ts))"

text \<open>The rows of a descriptor between two heights.\<close>

definition rowOf :: "bytes \<Rightarrow> uint32 \<Rightarrow> uint32 \<Rightarrow> bytes \<times> bytes \<Rightarrow> bool" where
  "rowOf a lower higher r \<longleftrightarrow> length (fst r) = length a + 4 \<and> take (length a) (fst r) = a \<and>
     lower \<le> keyHeight a (fst r) \<and> keyHeight a (fst r) \<le> higher"

lemma runCallback_append:
  "runCallback fn (xs @ ys) s =
     (case runCallback fn xs s of (s, Some err) \<Rightarrow> (s, Some err) | (s, None) \<Rightarrow> runCallback fn ys s)"
  by (induction fn xs s rule: runCallback.induct) (auto split: prod.splits option.splits)

lemma append_less_append_length:
  "length a = length p \<Longrightarrow> (a @ x :: bytes) < p @ q \<longleftrightarrow> a < p \<or> (a = p \<and> x < q)"
  by (induction a p rule: list_induct2) auto

lemma be_nat_le_iff:
  "length xs = length ys \<Longrightarrow> (xs :: bytes) \<le> ys \<longleftrightarrow> be_nat xs \<le> be_nat ys"
  using be_nat_less_iff [of ys xs] by (simp flip: linorder_not_less)

lemma NOT_le_swap: "NOT (x :: uint32) \<le> y \<longleftrightarrow> NOT y \<le> x" "x \<le> NOT (y :: uint32) \<longleftrightarrow> y \<le> NOT x"
  by (simp_all only: word_le_def uint_NOT) arith+

lemma be_nat_word: "length q = 4 \<Longrightarrow> unat (of_nat (be_nat q) :: uint32) = be_nat q"
  using be_nat_less [of q] by (simp add: unsigned_of_nat take_bit_nat_eq_self)

text \<open>Between the first and the last key of the scan lie exactly the keys of the descriptor with a
  height in the range.\<close>

lemma scan_range:
  assumes "length k = length a + 4"
  shows "packAddressKey a higher \<le> k \<and> k \<le> packAddressKey a lower \<longleftrightarrow>
    take (length a) k = a \<and> lower \<le> keyHeight a k \<and> keyHeight a k \<le> higher"
proof -
  define p q where "p = take (length a) k" and "q = drop (length a) k"
  have k: "k = p @ q" and l: "length p = length a" "length q = 4" using assms by (simp_all add: p_def q_def)
  let ?w = "of_nat (be_nat q) :: uint32"
  have "put_be 4 w \<le> q \<longleftrightarrow> w \<le> ?w" "q \<le> put_be 4 w \<longleftrightarrow> ?w \<le> w" for w :: uint32
    using l(2) be_nat_word [OF l(2)]
    by (simp_all add: be_nat_le_iff be_nat_put_be_word word_le_nat_alt)
  then have h: "put_be 4 (NOT h) \<le> q \<longleftrightarrow> keyHeight a k \<le> h" "q \<le> put_be 4 (NOT h) \<longleftrightarrow> h \<le> keyHeight a k" for h :: uint32
    using NOT_le_swap(1) [of h ?w] NOT_le_swap(2) [of ?w h] by (simp_all add: keyHeight_def flip: q_def)
  have "packAddressKey a higher \<le> k \<longleftrightarrow> \<not> (p < a \<or> (p = a \<and> q < put_be 4 (NOT higher)))"
    unfolding packAddressKey_def k using append_less_append_length [OF l(1)] by (simp flip: linorder_not_less)
  moreover have "k \<le> packAddressKey a lower \<longleftrightarrow> \<not> (a < p \<or> (a = p \<and> put_be 4 (NOT lower) < q))"
    unfolding packAddressKey_def k using append_less_append_length [OF l(1) [symmetric]] by (simp flip: linorder_not_less)
  ultimately show ?thesis
    using h by (auto simp: linorder_not_less simp flip: p_def)
qed

text \<open>A row whose value is a list of transactions that can be decoded.\<close>

definition rowValid :: "RocksDB \<Rightarrow> bytes \<Rightarrow> bool" where
  "rowValid d val \<longleftrightarrow> (\<exists>ts. val = packTxIndexes d ts \<and> list_all (validTxIndexes d) ts \<and>
     (\<forall>t \<in> set ts. \<exists>x. p_UnpackTxid (d_chainParser d) (btxID t) = Inr x))"

lemma visitRow_pack:
  assumes v: "vlq_ok (d_vlq d)" "0 \<le> p_PackedTxidLen (d_chainParser d)"
  shows "list_all (validTxIndexes d) ts \<Longrightarrow> (\<forall>t \<in> set ts. \<exists>x. p_UnpackTxid (d_chainParser d) (btxID t) = Inr x) \<Longrightarrow>
    length ts \<le> fuel \<Longrightarrow>
    visitRow fuel d fn h (concat (map (\<lambda>t. btxID t @ packIndexes (d_vlq d) (indexes t)) ts)) s =
    runCallback fn (map (\<lambda>t. (ignore_err (p_UnpackTxid (d_chainParser d) (btxID t)), h, indexes t)) ts) s"
proof (induction ts arbitrary: fuel s)
  case Nil
  with v show ?case by (subst visitRow.simps) simp
next
  case (Cons t ts)
  obtain f where f: "fuel = Suc f" "length ts \<le> f" using Cons.prems(3) by (cases fuel) auto
  let ?rest = "concat (map (\<lambda>t. btxID t @ packIndexes (d_vlq d) (indexes t)) ts)"
  have t: "validTxIndexes d t" using Cons.prems(1) by simp
  have n: "p_PackedTxidLen (d_chainParser d) = int (length (btxID t))" using t by (simp add: validTxIndexes_def)
  obtain x where x: "p_UnpackTxid (d_chainParser d) (btxID t) = Inr x" using Cons.prems(2) by auto
  have "visitRow f d fn h ?rest s' =
      runCallback fn (map (\<lambda>t. (ignore_err (p_UnpackTxid (d_chainParser d) (btxID t)), h, indexes t)) ts) s'" for s'
    using Cons f by simp
  moreover have "readIndexes (length (packIndexes (d_vlq d) (indexes t) @ ?rest)) (d_vlq d)
      (packIndexes (d_vlq d) (indexes t) @ ?rest) [] = Some (indexes t, ?rest)"
    using readIndexes_pack [OF v(1) _ _ packTxIndex_rest(2) [OF v(1) t, of ?rest], of ?rest "[]"] t
    by (simp add: validTxIndexes_def)
  ultimately show ?case
    using packTxIndex_rest(1) [OF v(1) t, of ?rest] x
    by (subst visitRow.simps) (simp add: f n Let_def ignore_err_def split: prod.splits option.splits)
qed

lemma visitRow_row:
  assumes "vlq_ok (d_vlq d)" "0 \<le> p_PackedTxidLen (d_chainParser d)" and "rowValid d val"
  shows "visitRow (length val) d fn (keyHeight a k) val s = runCallback fn (rowEntries d a (k, val)) s"
proof -
  obtain ts where ts: "val = packTxIndexes d ts" "list_all (validTxIndexes d) ts"
    "\<forall>t \<in> set ts. \<exists>x. p_UnpackTxid (d_chainParser d) (btxID t) = Inr x"
    using assms(3) by (auto simp: rowValid_def)
  have r: "list_all (validTxIndexes d) (rev ts)" using ts(2) by (simp add: list_all_iff)
  show ?thesis
    using visitRow_pack [OF assms(1,2) r _ length_packTxIndexes [OF assms(1) r], of fn "keyHeight a k" s] ts
      unpackTxIndexes_pack [OF assms(1) ts(2) assms(2)]
    by (simp add: rowEntries_def packTxIndexes_def)
qed

lemma unpackAddressKey_height:
  assumes "length k = length a + 4" and "a \<noteq> []"
  shows "unpackAddressKey k = Inr (take (length a) k, keyHeight a k)"
  using assms by (simp add: unpackAddressKey_def packedHeightBytes_def Let_def slice_def unpackUint_def keyHeight_def)

text \<open>The scan visits the rows up to the last key, and skips the keys of another length.\<close>

lemma visitRows_filter:
  assumes v: "vlq_ok (d_vlq d)" "0 \<le> p_PackedTxidLen (d_chainParser d)" and a: "a \<noteq> []"
  shows "sorted_wrt (<) (map fst rows) \<Longrightarrow>
    (\<forall>r \<in> set rows. length (fst r) = length a + 4 \<and> fst r \<le> stop \<longrightarrow> rowValid d (snd r)) \<Longrightarrow>
    nm + length (filter (\<lambda>r. fst r \<le> stop \<and> length (fst r) \<noteq> length a + 4) rows) \<le> 1000 \<Longrightarrow>
    visitRows d fn stop (length a) nm rows s =
    stopOk (runCallback fn (concat (map (rowEntries d a)
      (filter (\<lambda>r. fst r \<le> stop \<and> length (fst r) = length a + 4) rows))) s)"
proof (induction rows arbitrary: nm s)
  case (Cons r rows)
  obtain k val where r: "r = (k, val)" by fastforce
  consider "stop < k" | "k \<le> stop" "length k \<noteq> length a + 4" | "k \<le> stop" "length k = length a + 4" by force
  then show ?case
  proof cases
    case 1
    have "\<forall>q \<in> set rows. stop < fst q" using Cons.prems(1) 1 r by (auto intro: less_trans)
    then have "filter (\<lambda>r. fst r \<le> stop \<and> length (fst r) = length a + 4) rows = []"
      by (auto simp: filter_empty_conv linorder_not_le)
    moreover have "\<not> k \<le> stop" using 1 by simp
    ultimately show ?thesis using 1 by (simp add: r stopOk_def)
  next
    case 2
    then have "\<not> stop < k" by auto
    with 2 Cons show ?thesis by (simp add: r packedHeightBytes_def maxAddrDescScanNonMatching_def)
  next
    case 3
    have "rowValid d val" using Cons.prems(2) 3 r by simp
    note row = visitRow_row [OF v this, of fn a k s]
    have "visitRows d fn stop (length a) nm rows s' = stopOk (runCallback fn (concat (map (rowEntries d a)
        (filter (\<lambda>r. fst r \<le> stop \<and> length (fst r) = length a + 4) rows))) s')" for s'
      using Cons 3 r by simp
    note IH = this
    obtain s1 e where e: "runCallback fn (rowEntries d a (k, val)) s = (s1, e)" by fastforce
    have "\<not> stop < k" using 3(1) by auto
    note step = this 3 row IH e unpackAddressKey_height [OF 3(2) a]
    show ?thesis
    proof (cases e)
      case None
      with step show ?thesis by (simp add: r packedHeightBytes_def runCallback_append)
    next
      case (Some err)
      with step show ?thesis
        by (cases err) (simp_all add: r packedHeightBytes_def runCallback_append stopOk_def)
    qed
  qed
qed (simp add: stopOk_def)

lemma seek_filter: "sorted_wrt (<) (map fst rows) \<Longrightarrow> seek key rows = filter (\<lambda>r. key \<le> fst r) rows"
proof (induction rows)
  case (Cons r rows)
  then show ?case
    by (auto simp: seek_def linorder_not_less intro!: filter_True [symmetric] split: prod.splits dest: less_imp_le)
qed (simp add: seek_def)

lemma GetAddrDescTransactions_rows:
  assumes v: "vlq_ok (d_vlq d)" "0 \<le> p_PackedTxidLen (d_chainParser d)" and a: "a \<noteq> []"
    and rows: "sorted_wrt (<) (map fst rows)" "\<forall>r \<in> set rows. rowOf a lower higher r \<longrightarrow> rowValid d (snd r)"
    and scan: "length (filter (\<lambda>r. packAddressKey a higher \<le> fst r \<and> fst r \<le> packAddressKey a lower \<and>
        length (fst r) \<noteq> length a + 4) rows) \<le> 1000"
  shows "GetAddrDescTransactions d rows a lower higher fn s =
    stopOk (runCallback fn (concat (map (rowEntries d a) (filter (rowOf a lower higher) rows))) s)"
proof -
  let ?start = "packAddressKey a higher" and ?stop = "packAddressKey a lower"
  let ?rows = "filter (\<lambda>r. ?start \<le> fst r) rows"
  have range: "?start \<le> fst r \<and> fst r \<le> ?stop \<and> length (fst r) = length a + 4 \<longleftrightarrow> rowOf a lower higher r" for r
    using scan_range [of "fst r" a higher lower] by (auto simp: rowOf_def)
  have s: "sorted_wrt (<) (map fst ?rows)"
    using rows(1) by (induction rows) auto
  have ok: "\<forall>r \<in> set ?rows. length (fst r) = length a + 4 \<and> fst r \<le> ?stop \<longrightarrow> rowValid d (snd r)"
    using rows(2) range by auto
  have nm: "0 + length (filter (\<lambda>r. fst r \<le> ?stop \<and> length (fst r) \<noteq> length a + 4) ?rows) \<le> 1000"
    using scan by (simp add: conj_commute conj_left_commute)
  have f: "filter (\<lambda>r. fst r \<le> ?stop \<and> length (fst r) = length a + 4) ?rows = filter (rowOf a lower higher) rows"
    using range by (simp add: conj_commute cong: filter_cong)
  show ?thesis
    unfolding GetAddrDescTransactions_def Let_def seek_filter [OF rows(1)] visitRows_filter [OF v a s ok nm] f ..
qed

text \<open>The rows of a descriptor come in the order of falling heights.\<close>

lemma rows_newest_first:
  assumes "sorted_wrt (<) (map fst rows)"
  shows "sorted_wrt (>) (map (keyHeight a \<circ> fst) (filter (rowOf a lower higher) rows))"
  using assms
proof (induction rows)
  case (Cons r rows)
  have "keyHeight a (fst q) < keyHeight a (fst r)"
    if "rowOf a lower higher r" "q \<in> set rows" "rowOf a lower higher q" for q
  proof -
    have "fst r < fst q" using Cons.prems that(2) by auto
    moreover have "fst r = a @ drop (length a) (fst r)" "fst q = a @ drop (length a) (fst q)"
      using that by (metis append_take_drop_id rowOf_def)+
    ultimately have "drop (length a) (fst r) < drop (length a) (fst q)"
      by (metis append_less_append_iff)
    moreover have l: "length (drop (length a) (fst r)) = 4" "length (drop (length a) (fst q)) = 4"
      using that by (simp_all add: rowOf_def)
    ultimately have "(of_nat (be_nat (drop (length a) (fst r))) :: uint32) < of_nat (be_nat (drop (length a) (fst q)))"
      by (simp only: word_less_nat_alt be_nat_word be_nat_less_iff)
    then show ?thesis by (simp only: keyHeight_def word_less_def uint_NOT)
  qed
  with Cons show ?case by auto
qed simp

section \<open>Spent outpoints\<close>

definition validOutpoint :: "RocksDB \<Rightarrow> outpoint \<Rightarrow> bool" where
  "validOutpoint d o' \<longleftrightarrow> int (length (o_btxID o')) = p_PackedTxidLen (d_chainParser d) \<and> is_int32 (o_index o')"

definition validBlockTxs :: "RocksDB \<Rightarrow> blockTxs \<Rightarrow> bool" where
  "validBlockTxs d t \<longleftrightarrow> int (length (bt_btxID t)) = p_PackedTxidLen (d_chainParser d) \<and>
     list_all (validOutpoint d) (bt_inputs t) \<and> length (bt_inputs t) < 2 ^ 63"

lemma unpackOutpoints_pack:
  assumes "vlq_ok (d_vlq d)"
  shows "list_all (validOutpoint d) os \<Longrightarrow>
    unpackOutpoints (length os) d (pre @ packOutpoints d os @ rest) (int (length pre)) =
    Inr (os, int (length pre) + int (length (packOutpoints d os)))"
proof (induction os arbitrary: pre)
  case (Cons x os)
  let ?v = "packVarint32 (d_vlq d) (o_index x)"
  have n: "p_PackedTxidLen (d_chainParser d) = int (length (o_btxID x))" and i: "is_int32 (o_index x)"
    using Cons.prems by (simp_all add: validOutpoint_def)
  have "0 < length ?v" using assms by simp
  moreover have "unpackOutpoints (length os) d ((pre @ o_btxID x @ ?v) @ packOutpoints d os @ rest)
      (int (length (pre @ o_btxID x @ ?v))) =
    Inr (os, int (length (pre @ o_btxID x @ ?v)) + int (length (packOutpoints d os)))"
    by (rule Cons.IH) (use Cons.prems in simp)
  ultimately show ?case
    using assms i
    by (simp add: packOutpoints_def n Let_def pos_simps unpackVarint32_pack add.assoc del: length_greater_0_conv)
qed (simp add: packOutpoints_def)

lemma unpackNOutpoints_pack:
  assumes "vlq_ok (d_vlq d)" and "list_all (validOutpoint d) os" and "length os < 2 ^ 63"
  shows "unpackNOutpoints d (packVaruint (d_vlq d) (of_nat (length os)) @ packOutpoints d os @ rest) =
    Inr (os, int (length (packVaruint (d_vlq d) (of_nat (length os)) @ packOutpoints d os)))"
  using unpackOutpoints_pack [OF assms(1,2), of "packVaruint (d_vlq d) (of_nat (length os))" rest] assms
  by (simp add: unpackNOutpoints_def unpackVaruint_pack unat_of_nat64)

definition blockRow :: "RocksDB \<Rightarrow> blockTxs \<Rightarrow> bytes" where
  "blockRow d t = bt_btxID t @ packVaruint (d_vlq d) (of_nat (length (bt_inputs t))) @ packOutpoints d (bt_inputs t)"

lemma getBlockTxsLoop_pack:
  assumes v: "vlq_ok (d_vlq d)"
  shows "list_all (validBlockTxs d) ts \<Longrightarrow> length ts \<le> fuel \<Longrightarrow>
    getBlockTxsLoop fuel d (pre @ concat (map (blockRow d) ts)) (int (length pre)) = Inr ts"
proof (induction ts arbitrary: fuel pre)
  case Nil
  then show ?case by (subst getBlockTxsLoop.simps) simp
next
  case (Cons t ts)
  obtain f where f: "fuel = Suc f" "length ts \<le> f" using Cons.prems(2) by (cases fuel) auto
  let ?n = "packVaruint (d_vlq d) (of_nat (length (bt_inputs t)))"
  have t: "p_PackedTxidLen (d_chainParser d) = int (length (bt_btxID t))" "list_all (validOutpoint d) (bt_inputs t)"
    "length (bt_inputs t) < 2 ^ 63"
    using Cons.prems by (simp_all add: validBlockTxs_def)
  have "0 < length ?n" using v by simp
  moreover have "getBlockTxsLoop f d ((pre @ blockRow d t) @ concat (map (blockRow d) ts)) (int (length (pre @ blockRow d t))) = Inr ts"
    by (rule Cons.IH) (use Cons.prems(1) f in simp_all)
  ultimately show ?case
    using unpackNOutpoints_pack [OF v t(2,3), of "concat (map (blockRow d) ts)"]
    by (subst getBlockTxsLoop.simps)
      (simp add: f t(1) blockRow_def pos_simps add.assoc Let_def del: length_greater_0_conv)
qed

lemma length_blockRows:
  "vlq_ok (d_vlq d) \<Longrightarrow> length ts \<le> length (concat (map (blockRow d) ts))"
proof (induction ts)
  case (Cons t ts)
  have "0 < length (packVaruint (d_vlq d) (of_nat (length (bt_inputs t))))" using Cons.prems by simp
  with Cons show ?case by (simp add: blockRow_def del: length_greater_0_conv)
qed simp

text \<open>The spent outpoints of a transaction, as they are stored.\<close>

definition blockTxOf :: "RocksDB \<Rightarrow> Tx \<Rightarrow> blockTxs res" where
  "blockTxOf d tx =
     bindR (mapR (packVinOutpoint d) (tx_Vin tx)) (\<lambda>os.
     bindR (p_PackTxid (d_chainParser d) (tx_Txid tx)) (\<lambda>b. Inr \<lparr>bt_btxID = b, bt_inputs = os\<rparr>))"

lemma packBlockTx_row: "packBlockTx d tx = bindR (blockTxOf d tx) (\<lambda>t. Inr (blockRow d t))"
  by (simp add: packBlockTx_def blockTxOf_def blockRow_def bindR_assoc)

lemma mapR_packBlockTx:
  "mapR (packBlockTx d) txs = bindR (mapR (blockTxOf d) txs) (\<lambda>ts. Inr (map (blockRow d) ts))"
proof (induction txs)
  case (Cons tx txs)
  show ?case
    by (cases "blockTxOf d tx"; cases "mapR (blockTxOf d) txs") (simp_all add: Cons packBlockTx_row [of d tx])
qed simp

section \<open>Retention of spent outpoints\<close>

lemma packUint_inj: "packUint g = packUint h \<longleftrightarrow> g = h"
  by (metis option.inject unpackUint_pack')

text \<open>The rows deleted are those from \<open>n\<close> downwards to the first missing one.\<close>

lemma cleanupBlockTxsFrom_effect:
  assumes "cleanupBlockTxsFrom get n = Inr wb" and "n < 2 ^ 32"
  shows "batch_effect cfBlockTxs (packUint r) wb =
    (if 0 < unat r \<and> unat r \<le> n \<and> (\<forall>j. unat r \<le> j \<and> j \<le> n \<longrightarrow> (\<exists>v. get cfBlockTxs (packUint (of_nat j)) = Inr (Some v)))
     then Some None else None) \<and> wop_cf ` set wb \<subseteq> {cfBlockTxs}"
  using assms
proof (induction n arbitrary: wb)
  case (Suc n)
  let ?k = "packUint (of_nat (Suc n))"
  have r: "packUint r = ?k \<longleftrightarrow> unat r = Suc n"
  proof -
    have "unat (of_nat (Suc n) :: uint32) = Suc n"
      using Suc.prems(2) by (simp add: unsigned_of_nat take_bit_nat_eq_self del: of_nat_Suc)
    then show ?thesis by (metis packUint_inj word_unat_eq_iff)
  qed
  obtain val where val: "get cfBlockTxs ?k = Inr val"
    using Suc.prems(1) by (auto simp: Let_def bindR_eq_Inr)
  show ?case
  proof (cases val)
    case None
    with Suc.prems(1) val have "wb = []" by (simp add: Let_def)
    moreover have "\<not> (\<exists>v. get cfBlockTxs (packUint (of_nat (Suc n))) = Inr (Some v))" using val None by simp
    ultimately show ?thesis by (auto simp del: of_nat_Suc)
  next
    case (Some v)
    with Suc.prems(1) val obtain wb' where wb': "cleanupBlockTxsFrom get n = Inr wb'" "wb = DeleteCF cfBlockTxs ?k # wb'"
      by (auto simp: Let_def bindR_eq_Inr)
    let ?ex = "\<lambda>j. \<exists>v. get cfBlockTxs (packUint (of_nat j)) = Inr (Some v)"
    have "?ex (Suc n)" using val Some by blast
    then have all: "(\<forall>j. unat r \<le> j \<and> j \<le> Suc n \<longrightarrow> ?ex j) \<longleftrightarrow> (\<forall>j. unat r \<le> j \<and> j \<le> n \<longrightarrow> ?ex j)"
      by (metis le_Suc_eq)
    have cf: "wop_cf ` set wb \<subseteq> {cfBlockTxs}" using Suc.IH [OF wb'(1)] Suc.prems(2) by (simp add: wb'(2))
    show ?thesis
    proof (cases "unat r = Suc n")
      case True
      then have "batch_effect cfBlockTxs (packUint r) wb' = None"
        using Suc.IH [OF wb'(1)] Suc.prems(2) by simp
      with True r all cf show ?thesis by (simp add: wb'(2) del: of_nat_Suc)
    next
      case False
      then have "unat r \<le> Suc n \<longleftrightarrow> unat r \<le> n" by auto
      with False r all cf Suc.IH [OF wb'(1)] Suc.prems(2) show ?thesis
        by (simp add: wb'(2) split: option.split del: of_nat_Suc)
    qed
  qed
qed auto

section \<open>Block headers\<close>

definition validHash :: "RocksDB \<Rightarrow> string \<Rightarrow> bool" where
  "validHash d h \<longleftrightarrow>
     (case p_PackBlockHash (d_chainParser d) h of
        Inl _ \<Rightarrow> False
      | Inr b \<Rightarrow> int (length b) = p_PackedTxidLen (d_chainParser d) \<and> p_UnpackBlockHash (d_chainParser d) b = Inr h)"

lemma blockInfo_roundtrip:
  assumes v: "vlq_ok (d_vlq d)" and h: "validHash d (bi_Hash bi)"
  obtains val where "packBlockInfo d bi = Inr val"
    and "unpackBlockInfo d val = Inr (Some (bi\<lparr>bi_Time := bi_Time bi mod 2 ^ 32, bi_Height := 0\<rparr>))"
proof -
  obtain b where b: "p_PackBlockHash (d_chainParser d) (bi_Hash bi) = Inr b"
    "p_PackedTxidLen (d_chainParser d) = int (length b)" "p_UnpackBlockHash (d_chainParser d) b = Inr (bi_Hash bi)"
    using h by (auto simp: validHash_def split: sum.splits)
  let ?t = "packUint (word_of_int (bi_Time bi))"
  let ?x = "packVaruint (d_vlq d) (ucast (bi_Txs bi))" and ?s = "packVaruint (d_vlq d) (ucast (bi_Size bi))"
  have p: "packBlockInfo d bi = Inr (b @ ?t @ ?x @ ?s)" by (simp add: packBlockInfo_def b)
  have "0 < length ?x" "0 < length ?s" using v by simp_all
  then have l: "\<not> int (length (b @ ?t @ ?x @ ?s)) < int (length b) + 4 + 2"
    by (simp del: length_greater_0_conv)
  have s: "slice (b @ ?t @ ?x @ ?s) 0 (int (length b)) = Some b"
    "slice_from (b @ ?t @ ?x @ ?s) (int (length b)) = Some (?t @ ?x @ ?s)"
    "slice_from (b @ ?t @ ?x @ ?s) (int (length b) + 4) = Some (?x @ ?s)"
    "slice_from (b @ ?t @ ?x @ ?s) (int (length b) + 4 + int (length ?x)) = Some ?s"
    by (simp_all add: pos_simps)
  have "unpackVaruint (d_vlq d) ?s = (ucast (bi_Size bi), int (length ?s))"
    using unpackVaruint_pack [OF v, of "ucast (bi_Size bi)" "[]"] by simp
  then have "unpackBlockInfo d (b @ ?t @ ?x @ ?s) =
      Inr (Some (bi\<lparr>bi_Time := bi_Time bi mod 2 ^ 32, bi_Height := 0\<rparr>))"
    using v l s b(3)
    by (simp add: unpackBlockInfo_def b(2) Let_def unpackUint_pack unpackVaruint_pack unsigned_of_int take_bit_eq_mod)
  with p show thesis by (rule that)
qed

lemma best_row:
  assumes "sorted_wrt (<) (map fst rows)" and "(packUint h, val) \<in> set rows"
    and "\<forall>k \<in> fst ` set rows. \<exists>g. k = packUint g \<and> g \<le> h"
  shows "last rows = (packUint h, val)"
proof -
  have ne: "rows \<noteq> []" using assms(2) by auto
  then obtain g where g: "fst (last rows) = packUint g" "g \<le> h" using assms(3) last_in_set [of rows] by force
  have "packUint h \<le> packUint g"
  proof -
    obtain i where i: "i < length rows" "rows ! i = (packUint h, val)" using assms(2) by (auto simp: in_set_conv_nth)
    have "i = length rows - 1 \<or> fst (rows ! i) < fst (rows ! (length rows - 1))"
      using sorted_wrt_nth_less [OF assms(1), of i "length rows - 1"] i(1) by (cases "i = length rows - 1") auto
    with i g ne show ?thesis by (auto simp: last_conv_nth)
  qed
  then have "be_nat (put_be 4 h) \<le> be_nat (put_be 4 g)" by (simp add: packUint_def be_nat_le_iff)
  with g(2) have "g = h" by (simp add: be_nat_put_be_word word_le_nat_alt word_unat_eq_iff)
  moreover have "distinct (map fst rows)" using assms(1) by (simp add: strict_sorted_iff)
  ultimately show ?thesis
    using assms(2) g(1) last_in_set [OF ne] by (metis eq_key_imp_eq_value prod.collapse)
qed

section \<open>Transactions of an address within a block\<close>

lemma appendIndex_None: "appendIndex b i at = None \<longleftrightarrow> b \<notin> set (map btxID at)"
  by (induction at) auto

lemma appendIndex_Some:
  "appendIndex b i at = Some at' \<Longrightarrow>
   map btxID at' = map btxID at \<and> (\<forall>t \<in> set at'. indexes t \<noteq> [] \<or> t \<in> set at)"
  by (induction at arbitrary: at') (auto split: if_splits)

definition txsOf :: "addressesMap \<Rightarrow> bytes \<Rightarrow> txIndexes list" where
  "txsOf m a = (case map_of m a of None \<Rightarrow> [] | Some at \<Rightarrow> at)"

text \<open>The return value tells whether the transaction was already recorded for the address, and a
  transaction is recorded once.\<close>

lemma addToAddressesMap_counts:
  assumes "addToAddressesMap m a b i = (m', counted)"
  shows "counted \<longleftrightarrow> b \<in> set (map btxID (txsOf m a))"
    and "map btxID (txsOf m' a) = map btxID (txsOf m a) @ (if counted then [] else [b])"
    and "c \<noteq> a \<Longrightarrow> txsOf m' c = txsOf m c"
    and "distinct (map btxID (txsOf m a)) \<Longrightarrow> distinct (map btxID (txsOf m' a))"
proof -
  have *: "txsOf m a = (case map_of m a of None \<Rightarrow> [] | Some at \<Rightarrow> at)" by (simp add: txsOf_def)
  show c: "counted \<longleftrightarrow> b \<in> set (map btxID (txsOf m a))"
    using assms appendIndex_None [of b i "txsOf m a"]
    by (auto simp: addToAddressesMap_def Let_def simp flip: * split: option.splits)
  show m: "map btxID (txsOf m' a) = map btxID (txsOf m a) @ (if counted then [] else [b])"
    using assms appendIndex_Some [of b i "txsOf m a"]
    by (auto simp: addToAddressesMap_def Let_def txsOf_def [of m'] simp flip: * split: option.splits)
  show "c \<noteq> a \<Longrightarrow> txsOf m' c = txsOf m c"
    using assms by (auto simp: addToAddressesMap_def Let_def txsOf_def split: option.splits)
  show "distinct (map btxID (txsOf m a)) \<Longrightarrow> distinct (map btxID (txsOf m' a))"
    using c m by simp
qed

section \<open>Properties\<close>

text \<open>C5: The transactions of an address between two heights: the callback is called exactly for the entries of the
  rows of that descriptor whose height lies in the range (keys of longer descriptors in between are
  skipped, up to the limit of a scan), from the newest block to the oldest, and stops early without an
  error when the callback asks for it.\<close>

theorem address_transactions_newest_first:
  assumes "vlq_ok (d_vlq d)" "0 \<le> p_PackedTxidLen (d_chainParser d)" and "a \<noteq> []"
    and "sorted_wrt (<) (map fst rows)" "\<forall>r \<in> set rows. rowOf a lower higher r \<longrightarrow> rowValid d (snd r)"
    and "length (filter (\<lambda>r. packAddressKey a higher \<le> fst r \<and> fst r \<le> packAddressKey a lower \<and>
        length (fst r) \<noteq> length a + 4) rows) \<le> 1000"
  shows "GetAddrDescTransactions d rows a lower higher fn s =
      stopOk (runCallback fn (concat (map (rowEntries d a) (filter (rowOf a lower higher) rows))) s) \<and>
    sorted_wrt (>) (map (keyHeight a \<circ> fst) (filter (rowOf a lower higher) rows))"
  using GetAddrDescTransactions_rows [OF assms] rows_newest_first [OF assms(4)] by (rule conjI)

definition demoTxi :: "byte \<Rightarrow> txIndexes" where
  "demoTxi b = \<lparr>btxID = replicate 32 b, indexes = [0, - 3]\<rparr>"

definition demoRows :: "(bytes \<times> bytes) list" where
  "demoRows = [(packAddressKey [1] 9, packTxIndexes (demoDB False False) [demoTxi 5, demoTxi 6]),
     (packAddressKey [1] 8, packTxIndexes (demoDB False False) [demoTxi 4])]"

definition collect :: "(uint32 \<times> int list) list callback" where
  "collect tx h is s = (s @ [(h, is)], None)"

theorem address_transactions_newest_first_witness:
  "GetAddrDescTransactions (demoDB False False) demoRows [1] 0 100 collect [] =
     stopOk (runCallback collect (concat (map (rowEntries (demoDB False False) [1])
       (filter (rowOf [1] 0 100) demoRows))) []) \<and>
   map (keyHeight [1] \<circ> fst) (filter (rowOf [1] 0 100) demoRows) = [9, 8]"
proof -
  have "validTxIndexes (demoDB False False) (demoTxi b)" for b
    by (simp add: validTxIndexes_def demoTxi_def validIndex_def)
  then have "rowValid (demoDB False False) (packTxIndexes (demoDB False False) (map demoTxi bs))" for bs
    unfolding rowValid_def by (intro exI [of _ "map demoTxi bs"]) (auto simp: list_all_iff BaseParser_UnpackTxid_def)
  from this [of "[5, 6]"] this [of "[4]"]
  have v: "\<forall>r \<in> set demoRows. rowOf [1] 0 100 r \<longrightarrow> rowValid (demoDB False False) (snd r)"
    by (simp add: demoRows_def)
  have k: "packAddressKey [1] 9 = [1, 255, 255, 255, 246]" "packAddressKey [1] 8 = [1, 255, 255, 255, 247]"
    by code_simp+
  have s: "sorted_wrt (<) (map fst demoRows)" by (simp add: demoRows_def k)
  have f: "filter (rowOf [1] 0 100) demoRows = demoRows" "map (keyHeight [1] \<circ> fst) demoRows = [9, 8]"
    by (simp_all add: demoRows_def rowOf_def keyHeight_def k be_nat_def)
  have n: "length (filter (\<lambda>r. packAddressKey [1] 100 \<le> fst r \<and> fst r \<le> packAddressKey [1] 0 \<and>
      length (fst r) \<noteq> length [1 :: byte] + 4) demoRows) \<le> 1000"
    by (simp add: demoRows_def k)
  show ?thesis
    using address_transactions_newest_first [of "demoDB False False" "[1]", OF _ _ _ s v n, of collect "[]"]
    by (simp add: vlq_ok_leb f)
qed

text \<open>The rows that are dropped when a block is stored: at or below the height of the block less the number of
  blocks to keep, with no missing row in between.\<close>

definition expiredRow :: "view \<Rightarrow> uint32 \<Rightarrow> uint32 \<Rightarrow> uint32 \<Rightarrow> bool" where
  "expiredRow get keep h r \<longleftrightarrow> keep < h \<and> 0 < unat r \<and> unat r \<le> unat (h - keep) \<and>
     (\<forall>j. unat r \<le> j \<and> j \<le> unat (h - keep) \<longrightarrow> (\<exists>v. get cfBlockTxs (packUint (of_nat j)) = Inr (Some v)))"

lemma cleanupBlockTxs_effect:
  assumes "cleanupBlockTxs d get block = Inr cl"
    and "keep = (word_of_int (p_KeepBlockAddresses (d_chainParser d)) :: uint32)"
  shows "batch_effect cfBlockTxs (packUint r) cl = (if expiredRow get keep (block_Height block) r then Some None else None)"
    and "wop_cf ` set cl \<subseteq> {cfBlockTxs}"
proof -
  have *: "batch_effect cfBlockTxs (packUint r) cl = (if expiredRow get keep (block_Height block) r then Some None else None) \<and>
      wop_cf ` set cl \<subseteq> {cfBlockTxs}"
  proof (cases "keep < block_Height block")
    case True
    have "unat (block_Height block - keep) < 2 ^ 32"
      using unsigned_less [of "block_Height block - keep", where ?'a = nat] by simp
    moreover have "cleanupBlockTxsFrom get (unat (block_Height block - keep)) = Inr cl"
      using assms True by (simp add: cleanupBlockTxs_def Let_def)
    ultimately show ?thesis
      using cleanupBlockTxsFrom_effect [of get "unat (block_Height block - keep)" cl r] True
      unfolding expiredRow_def by simp
  next
    case False
    with assms have "cl = []" by (simp add: cleanupBlockTxs_def Let_def)
    with False show ?thesis by (simp add: expiredRow_def)
  qed
  then show "batch_effect cfBlockTxs (packUint r) cl = (if expiredRow get keep (block_Height block) r then Some None else None)"
    "wop_cf ` set cl \<subseteq> {cfBlockTxs}" by simp_all
qed

lemma expiredRow_self: "0 < keep \<Longrightarrow> \<not> expiredRow get keep h h"
proof
  assume "0 < keep" "expiredRow get keep h h"
  then have "keep < h" "unat h \<le> unat (h - keep)" by (simp_all add: expiredRow_def)
  with \<open>0 < keep\<close> show False by (simp add: word_less_nat_alt unat_sub word_le_nat_alt)
qed

text \<open>C15: The spent outpoints of a block are read back as they were stored, in the order of its transactions, a
  missing transaction id as zeros; storing a block removes from the column exactly the rows at and below
  the number of blocks to keep, down to the first missing one, and no row of a more recent block.\<close>

theorem blockTxs_store_retain:
  assumes "vlq_ok (d_vlq d)" and "storeAndCleanupBlockTxs d get block = Inr wb"
    and "mapR (blockTxOf d) (block_Txs block) = Inr ts" and "list_all (validBlockTxs d) ts"
    and "keep = (word_of_int (p_KeepBlockAddresses (d_chainParser d)) :: uint32)" and "0 < keep"
  shows "getBlockTxs d (after get wb) (block_Height block) = Inr ts \<and>
    (r \<noteq> block_Height block \<longrightarrow>
      after get wb cfBlockTxs (packUint r) =
        (if expiredRow get keep (block_Height block) r then Inr None else get cfBlockTxs (packUint r)))"
proof -
  let ?h = "block_Height block"
  obtain cl where cl: "cleanupBlockTxs d get block = Inr cl"
    and wb: "wb = PutCF cfBlockTxs (packUint ?h) (concat (map (blockRow d) ts)) # cl"
    using assms(2,3) by (auto simp: storeAndCleanupBlockTxs_def mapR_packBlockTx bindR_eq_Inr)
  note e = cleanupBlockTxs_effect(1) [OF cl assms(5)]
  have "after get wb cfBlockTxs (packUint ?h) = Inr (Some (concat (map (blockRow d) ts)))"
    using expiredRow_self [OF assms(6), of get ?h] by (simp add: after_def wb e)
  then have "getBlockTxs d (after get wb) ?h = Inr ts"
    using getBlockTxsLoop_pack [OF assms(1,4) length_blockRows [OF assms(1)], of "[]"]
    by (simp add: getBlockTxs_def val_Data_def)
  then show ?thesis by (simp add: after_def wb e packUint_inj)
qed

definition demoBlock10 :: Block where
  "demoBlock10 = demoBlock 10
     [demoTx 1 [demoVin [] 0] [demoVout 50 [7]],
      demoTx 2 [demoVin (hex_encode (replicate 32 1)) 0] [demoVout 20 [8], demoVout 30 [9]]]"

definition demoBlockTxs :: "blockTxs list" where
  "demoBlockTxs =
     [\<lparr>bt_btxID = replicate 32 1, bt_inputs = [\<lparr>o_btxID = replicate 32 0, o_index = 0\<rparr>]\<rparr>,
      \<lparr>bt_btxID = replicate 32 2, bt_inputs = [\<lparr>o_btxID = replicate 32 1, o_index = 0\<rparr>]\<rparr>]"

lemma cleanupBlockTxsFrom_total:
  "(\<And>k. \<exists>v. get cfBlockTxs k = Inr v) \<Longrightarrow> \<exists>wb. cleanupBlockTxsFrom get n = Inr wb"
proof (induction n)
  case (Suc n)
  then obtain wb v where "cleanupBlockTxsFrom get n = Inr wb" "get cfBlockTxs (packUint (of_nat (Suc n))) = Inr v"
    by blast
  then show ?case by (cases v) (simp_all del: of_nat_Suc)
qed simp

theorem blockTxs_store_retain_witness:
  "\<exists>wb. storeAndCleanupBlockTxs (demoDB False False) (\<lambda>_ _. Inr (Some [])) demoBlock10 = Inr wb \<and>
    getBlockTxs (demoDB False False) (after (\<lambda>_ _. Inr (Some [])) wb) 10 = Inr demoBlockTxs \<and>
    after (\<lambda>_ _. Inr (Some [])) wb cfBlockTxs (packUint 8) = Inr None \<and>
    after (\<lambda>_ _. Inr (Some [])) wb cfBlockTxs (packUint 9) = Inr (Some [])"
proof -
  let ?get = "(\<lambda>_ _. Inr (Some [])) :: view"
  have h: "block_Height demoBlock10 = 10" by (simp add: demoBlock10_def demoBlock_def)
  have k: "(2 :: uint32) = word_of_int (p_KeepBlockAddresses (d_chainParser (demoDB False False)))"
    by (simp add: demoParser_def)
  have ts: "mapR (blockTxOf (demoDB False False)) (block_Txs demoBlock10) = Inr demoBlockTxs"
    by (simp add: demoBlock10_def demoBlock_def demoTx_def demoVin_def blockTxOf_def packVinOutpoint_def demoBlockTxs_def Let_def)
  then obtain wb where wb: "storeAndCleanupBlockTxs (demoDB False False) ?get demoBlock10 = Inr wb"
    using cleanupBlockTxsFrom_total [of ?get 8] h k
    by (auto simp: storeAndCleanupBlockTxs_def mapR_packBlockTx cleanupBlockTxs_def Let_def)
  have v: "list_all (validBlockTxs (demoDB False False)) demoBlockTxs"
    by (simp add: demoBlockTxs_def validBlockTxs_def validOutpoint_def is_int32_def)
  have e: "expiredRow ?get 2 10 8" "\<not> expiredRow ?get 2 10 9"
    by (simp_all add: expiredRow_def)
  show ?thesis
    using blockTxs_store_retain [OF _ wb ts v k, of 8] blockTxs_store_retain [OF _ wb ts v k, of 9] wb e h
    by (simp add: vlq_ok_leb)
qed

text \<open>C16: A block header written to the column height is read back by height (with the time as a 32-bit number),
  the best block is the one with the highest height, and deleting the row removes the block.\<close>

theorem block_header_store:
  assumes "vlq_ok (d_vlq d)" and "validHash d (bi_Hash bi)"
  shows "\<exists>val. writeHeight d h bi opInsert = Inr ([PutCF cfHeight (packUint h) val], h) \<and>
    GetBlockInfo d (after get [PutCF cfHeight (packUint h) val]) h =
      Inr (Some (bi\<lparr>bi_Time := bi_Time bi mod 2 ^ 32, bi_Height := h\<rparr>)) \<and>
    GetBlockHash d (after get [PutCF cfHeight (packUint h) val]) h = Inr (bi_Hash bi) \<and>
    (\<forall>rows. sorted_wrt (<) (map fst rows) \<and> (packUint h, val) \<in> set rows \<and>
       (\<forall>k \<in> fst ` set rows. \<exists>g. k = packUint g \<and> g \<le> h) \<longrightarrow> GetBestBlock d rows = Inr (h, bi_Hash bi)) \<and>
    writeHeight d h bi opDelete = Inr ([DeleteCF cfHeight (packUint h)], h - 1) \<and>
    (0 \<le> p_PackedTxidLen (d_chainParser d) \<longrightarrow>
      GetBlockInfo d (after get [DeleteCF cfHeight (packUint h)]) h = Inr None)"
proof -
  obtain val where p: "packBlockInfo d bi = Inr val"
    and u: "unpackBlockInfo d val = Inr (Some (bi\<lparr>bi_Time := bi_Time bi mod 2 ^ 32, bi_Height := 0\<rparr>))"
    using blockInfo_roundtrip [OF assms] .
  have "GetBestBlock d rows = Inr (h, bi_Hash bi)"
    if "sorted_wrt (<) (map fst rows)" "(packUint h, val) \<in> set rows"
      "\<forall>k \<in> fst ` set rows. \<exists>g. k = packUint g \<and> g \<le> h" for rows
    using best_row [OF that] that(2) u by (auto simp: GetBestBlock_def unpackUint_pack')
  moreover have "unpackBlockInfo d [] = Inr None" if "0 \<le> p_PackedTxidLen (d_chainParser d)"
    using that by (simp add: unpackBlockInfo_def Let_def)
  ultimately show ?thesis
    by (intro exI [of _ val] conjI allI impI)
      (simp_all add: writeHeight_def p u GetBlockInfo_def GetBlockHash_def after_def val_Data_def)
qed

definition demoHeader :: BlockInfo where
  "demoHeader = \<lparr>bi_Hash = hex_encode (replicate 32 9), bi_Time = 1600000000, bi_Txs = 2, bi_Size = 300, bi_Height = 0\<rparr>"

theorem block_header_store_witness:
  "\<exists>val. writeHeight (demoDB False False) 7 demoHeader opInsert = Inr ([PutCF cfHeight (packUint 7) val], 7) \<and>
    GetBlockHash (demoDB False False) (after (\<lambda>_ _. Inr None) [PutCF cfHeight (packUint 7) val]) 7 =
      Inr (bi_Hash demoHeader) \<and>
    GetBestBlock (demoDB False False) [(packUint 7, val)] = Inr (7, bi_Hash demoHeader)"
proof -
  have "validHash (demoDB False False) (bi_Hash demoHeader)"
    by (simp add: validHash_def demoHeader_def demoParser_def BaseParser_PackBlockHash_def
        BaseParser_UnpackBlockHash_def BaseParser_PackedTxidLen_def)
  from block_header_store [OF _ this, of 7 "\<lambda>_ _. Inr None"] vlq_ok_leb
  obtain val where w: "writeHeight (demoDB False False) 7 demoHeader opInsert = Inr ([PutCF cfHeight (packUint 7) val], 7)"
    and h: "GetBlockHash (demoDB False False) (after (\<lambda>_ _. Inr None) [PutCF cfHeight (packUint 7) val]) 7 =
      Inr (bi_Hash demoHeader)"
    and b: "\<forall>rows. sorted_wrt (<) (map fst rows) \<and> (packUint 7, val) \<in> set rows \<and>
       (\<forall>k \<in> fst ` set rows. \<exists>g. k = packUint g \<and> g \<le> 7) \<longrightarrow>
       GetBestBlock (demoDB False False) rows = Inr (7, bi_Hash demoHeader)"
    by auto
  from b [THEN spec, of "[(packUint 7, val)]"] w h show ?thesis by auto
qed

end
