(* ===== verification/Strings.thy ===== *)
theory Strings
  imports Prelude
begin

text \<open>
  The functions of the Go packages \<open>strings\<close>, \<open>strconv\<close> and \<open>math/big\<close> on decimal numbers that the code
  uses, on strings of ASCII characters, with the lemmas on decimal digits that the components share.
\<close>

section \<open>Decimal digits\<close>

definition dec_digit :: "nat \<Rightarrow> char" where
  "dec_digit n = ''0123456789'' ! n"

definition digit_val :: "char \<Rightarrow> nat" where
  "digit_val c = of_char c - 48"

definition is_digit :: "char \<Rightarrow> bool" where
  "is_digit c \<longleftrightarrow> 48 \<le> (of_char c :: nat) \<and> (of_char c :: nat) \<le> 57"

text \<open>The digits of a number, as \<open>big.Int.String\<close> and the verb \<open>%d\<close> print them.\<close>

fun show_nat :: "nat \<Rightarrow> string" where
  "show_nat n = (if n < 10 then [dec_digit n] else show_nat (n div 10) @ [dec_digit (n mod 10)])"

declare show_nat.simps [simp del]

definition dec_val :: "string \<Rightarrow> nat" where
  "dec_val s = foldl (\<lambda>a c. a * 10 + digit_val c) 0 s"

definition big_String :: "int \<Rightarrow> string" where
  "big_String x = (if x < 0 then CHR ''-'' # show_nat (nat (- x)) else show_nat (nat x))"

text \<open>\<open>SetString(s, 10)\<close>: an optional sign and at least one digit, nothing else.\<close>

definition parse_digits :: "string \<Rightarrow> nat option" where
  "parse_digits s = (if s \<noteq> [] \<and> list_all is_digit s then Some (dec_val s) else None)"

definition big_SetString :: "string \<Rightarrow> int option" where
  "big_SetString s =
     (case s of
        [] \<Rightarrow> None
      | c # cs \<Rightarrow>
          if c = CHR ''-'' then map_option (\<lambda>n. - int n) (parse_digits cs)
          else if c = CHR ''+'' then map_option int (parse_digits cs)
          else map_option int (parse_digits s))"

text \<open>\<open>strconv.Atoi\<close> accepts the same strings and refuses numbers that do not fit 64 bits.\<close>

definition Atoi :: "string \<Rightarrow> int res" where
  "Atoi s =
     (case big_SetString s of
        None \<Rightarrow> Inl (ErrMsg ''invalid syntax'')
      | Some x \<Rightarrow> if - (2 ^ 63) \<le> x \<and> x < 2 ^ 63 then Inr x else Inl (ErrMsg ''value out of range''))"

section \<open>Searching and trimming\<close>

fun index_of :: "(char \<Rightarrow> bool) \<Rightarrow> string \<Rightarrow> nat option" where
  "index_of p [] = None"
| "index_of p (c # cs) = (if p c then Some 0 else map_option Suc (index_of p cs))"

definition IndexByte :: "string \<Rightarrow> char \<Rightarrow> nat option" where
  "IndexByte s c = index_of (\<lambda>x. x = c) s"

definition IndexAny :: "string \<Rightarrow> string \<Rightarrow> nat option" where
  "IndexAny s chars = index_of (\<lambda>x. x \<in> set chars) s"

definition TrimLeft :: "string \<Rightarrow> char \<Rightarrow> string" where
  "TrimLeft s c = dropWhile (\<lambda>x. x = c) s"

definition TrimRight :: "string \<Rightarrow> char \<Rightarrow> string" where
  "TrimRight s c = rev (dropWhile (\<lambda>x. x = c) (rev s))"

definition is_space :: "char \<Rightarrow> bool" where
  "is_space c \<longleftrightarrow> (of_char c :: nat) \<in> {9, 10, 11, 12, 13, 32}"

definition TrimSpace :: "string \<Rightarrow> string" where
  "TrimSpace s = rev (dropWhile is_space (rev (dropWhile is_space s)))"

definition bytes_of_string :: "string \<Rightarrow> bytes" where
  "bytes_of_string s = map of_char s"

definition string_of_bytes :: "bytes \<Rightarrow> string" where
  "string_of_bytes b = map (\<lambda>w. char_of (unat w)) b"

section \<open>Lemmas on decimal digits\<close>

lemma digit_cases:
  assumes "n < 10"
  shows "is_digit (dec_digit n)" "digit_val (dec_digit n) = n"
proof -
  have "\<forall>n \<in> set [0..<10]. is_digit (dec_digit n) \<and> digit_val (dec_digit n) = n"
    by code_simp
  moreover have "n \<in> set [0..<10]" using assms by simp
  ultimately show "is_digit (dec_digit n)" "digit_val (dec_digit n) = n" by blast+
qed

lemma dec_val_Nil [simp]: "dec_val [] = 0"
  by (simp add: dec_val_def)

lemma dec_val_snoc [simp]: "dec_val (s @ [c]) = dec_val s * 10 + digit_val c"
  by (simp add: dec_val_def)

lemma dec_val_append: "dec_val (s @ t) = dec_val s * 10 ^ length t + dec_val t"
proof (induction t rule: rev_induct)
  case (snoc c t)
  have "dec_val (s @ t @ [c]) = dec_val (s @ t) * 10 + digit_val c"
    using dec_val_snoc [of "s @ t" c] by simp
  with snoc show ?case by (simp add: algebra_simps)
qed simp

lemma dec_val_zeros [simp]: "dec_val (replicate k CHR ''0'') = 0"
proof (induction k)
  case (Suc k)
  have "digit_val CHR ''0'' = 0" by code_simp
  with Suc dec_val_snoc [of "replicate k CHR ''0''" "CHR ''0''"] show ?case
    by (simp add: replicate_append_same)
qed simp

lemma dec_val_less: "list_all is_digit s \<Longrightarrow> dec_val s < 10 ^ length s"
proof (induction s rule: rev_induct)
  case (snoc c s)
  then have "dec_val s + 1 \<le> 10 ^ length s" "digit_val c < 10"
    by (auto simp: is_digit_def digit_val_def)
  then show ?case by simp
qed simp

lemma show_nat_digits: "list_all is_digit (show_nat n)"
proof (induction n rule: show_nat.induct)
  case (1 n)
  then show ?case by (subst show_nat.simps) (simp add: digit_cases)
qed

lemma dec_val_show_nat [simp]: "dec_val (show_nat n) = n"
proof (induction n rule: show_nat.induct)
  case (1 n)
  then show ?case
    using dec_val_snoc [of "[]" "dec_digit n"]
    by (subst show_nat.simps) (simp add: digit_cases)
qed

lemma show_nat_neq_Nil [simp]: "show_nat n \<noteq> []"
  by (subst show_nat.simps) simp

lemma show_nat_inj: "show_nat m = show_nat n \<longleftrightarrow> m = n"
  by (metis dec_val_show_nat)

lemma zero_digit [simp]: "is_digit CHR ''0''"
  by code_simp

lemma is_digit_neq: "is_digit c \<Longrightarrow> c \<notin> set ''.eE+-''"
  by (auto simp: is_digit_def)

section \<open>Lemmas on searching and trimming\<close>

lemma index_of_None: "index_of p s = None \<longleftrightarrow> (\<forall>c \<in> set s. \<not> p c)"
  by (induction s) auto

lemma index_of_append:
  "\<forall>c \<in> set s. \<not> p c \<Longrightarrow> p c' \<Longrightarrow> index_of p (s @ c' # t) = Some (length s)"
  by (induction s) auto

lemma index_of_Some:
  "index_of p s = Some i \<Longrightarrow> i < length s \<and> p (s ! i) \<and> (\<forall>c \<in> set (take i s). \<not> p c)"
  by (induction s arbitrary: i) (auto split: if_splits)

lemma takeWhile_same: "takeWhile (\<lambda>x. x = c) s = replicate (length (takeWhile (\<lambda>x. x = c) s)) c"
  by (rule sym, rule replicate_length_same) (auto dest: set_takeWhileD)

lemma TrimLeft_split: "\<exists>k. s = replicate k c @ TrimLeft s c"
  unfolding TrimLeft_def by (metis takeWhile_same takeWhile_dropWhile_id)

lemma TrimRight_split: "\<exists>k. s = TrimRight s c @ replicate k c"
proof -
  obtain k where "rev s = replicate k c @ TrimLeft (rev s) c"
    using TrimLeft_split by blast
  then have "rev (rev s) = rev (replicate k c @ TrimLeft (rev s) c)" by (rule arg_cong)
  then show ?thesis by (auto simp: TrimRight_def TrimLeft_def)
qed

end
