(* ===== verification/Amounts.thy ===== *)
theory Amounts
  imports Strings Bchain
begin

text \<open>
  Amounts as decimal strings (\<open>src/bchain/baseparser.go\<close>): from the numbers in the JSON of a back end to
  integers in the base unit and back, by operations on strings only.
\<close>

section \<open>Conversion to an integer\<close>

definition zeros :: string where
  "zeros = replicate 40 CHR ''0''"

definition maxAmountExpandedDigits :: int where
  "maxAmountExpandedDigits = 1024"

definition normalizePlainAmountToIntString :: "string \<Rightarrow> int \<Rightarrow> string option" where
  "normalizePlainAmountToIntString s decimalPoint =
     (case IndexByte s CHR ''.'' of
        None \<Rightarrow> do { z \<leftarrow> slice zeros 0 decimalPoint; Some (s @ z) }
      | Some i \<Rightarrow>
          let i = int i; z = decimalPoint - int (length s) + i + 1 in do {
            a \<leftarrow> slice s 0 i;
            if z > 0 then do {
              b \<leftarrow> slice_from s (i + 1);
              zs \<leftarrow> slice zeros 0 z;
              Some (a @ b @ zs)
            } else do {
              b \<leftarrow> slice s (i + 1) (int (length s) + z);
              Some (a @ b)
            }
          })"

text \<open>The exponent, split off the mantissa.\<close>

definition splitExponent :: "string \<Rightarrow> (string \<times> int) res" where
  "splitExponent s =
     (case IndexAny s ''eE'' of
        None \<Rightarrow> Inr (s, 0)
      | Some i \<Rightarrow>
          if IndexAny (drop (i + 1) s) ''eE'' \<noteq> None then Inl (ErrMsg ''invalid scientific notation'')
          else
            bindR (Atoi (drop (i + 1) s)) (\<lambda>exponent.
              if take i s = [] then Inl (ErrMsg ''empty mantissa'') else Inr (take i s, exponent)))"

text \<open>The mantissa without its decimal point, and the number of digits after the point.\<close>

definition splitFraction :: "string \<Rightarrow> (string \<times> int) res" where
  "splitFraction s =
     (case IndexByte s CHR ''.'' of
        None \<Rightarrow> Inr (s, 0)
      | Some i \<Rightarrow>
          if IndexByte (drop (i + 1) s) CHR ''.'' \<noteq> None then Inl (ErrMsg ''invalid decimal notation'')
          else Inr (take i s @ drop (i + 1) s, int (length s) - int i - 1))"

text \<open>The digits without leading zeros, moved by the exponent.\<close>

definition shiftDigits :: "string \<Rightarrow> int \<Rightarrow> string res" where
  "shiftDigits s shift =
     (if shift \<ge> 0 then
        if shift > maxAmountExpandedDigits \<or> int (length s) > maxAmountExpandedDigits - shift
        then Inl (ErrMsg ''expanded value too large'')
        else Inr (s @ replicate (nat shift) CHR ''0'')
      else
        let keep = int (length s) + shift in
        Inr (if keep > 0 then take (nat keep) s else ''0''))"

definition normalizeScientificAmountToIntString :: "string \<Rightarrow> int \<Rightarrow> string res" where
  "normalizeScientificAmountToIntString s decimalPoint =
     (let s = TrimSpace s;
          s = (if s = [] then ''0'' else s);
          (sign, s) = (if hd s = CHR ''-'' then (''-'', tl s)
                       else if hd s = CHR ''+'' then ([], tl s) else ([], s)) in
      if s = [] then Inl (ErrMsg ''empty mantissa'')
      else
        bindR (splitExponent s) (\<lambda>(s, exponent).
        bindR (splitFraction s) (\<lambda>(s, fractionDigits).
          if s = [] then Inl (ErrMsg ''empty value'')
          else if \<not> list_all is_digit s then Inl (ErrMsg ''invalid value'')
          else
            let s = TrimLeft s CHR ''0'' in
            if s = [] then Inr ''0''
            else
              bindR (shiftDigits s (exponent - fractionDigits + decimalPoint)) (\<lambda>s.
                Inr (if sign = ''-'' \<and> s \<noteq> ''0'' then sign @ s else s)))))"

definition AmountToBigInt :: "BaseParser \<Rightarrow> string \<Rightarrow> int res" where
  "AmountToBigInt p n =
     (let d = min (bp_AmountDecimalPoint p) (int (length zeros));
          d = (if d < 0 then 0 else d);
          failed = ErrMsg ''AmountToBigInt: failed to convert'' in
      bindR
        (if IndexAny n ''eE'' = None then of_panic (normalizePlainAmountToIntString n d)
         else (case normalizeScientificAmountToIntString n d of Inl err \<Rightarrow> Inl failed | Inr s \<Rightarrow> Inr s))
        (\<lambda>s. case big_SetString s of None \<Rightarrow> Inl failed | Some r \<Rightarrow> Inr r))"

section \<open>Conversion to a decimal string\<close>

text \<open>The argument \<open>a\<close> is a pointer; a negative \<open>d\<close> panics.\<close>

definition AmountToDecimalString :: "int option \<Rightarrow> int \<Rightarrow> string option" where
  "AmountToDecimalString a d =
     (case a of
        None \<Rightarrow> Some []
      | Some a \<Rightarrow>
          let n = big_String a;
              (s, n) = (if hd n = CHR ''-'' then (''-'', tl n) else ([], n));
              d = (if d > int (length zeros) then int (length zeros) else d) in do {
            n \<leftarrow> (if int (length n) \<le> d then do {
                    z \<leftarrow> slice zeros 0 (d - int (length n) + 1);
                    Some (z @ n)
                  } else Some n);
            let i = int (length n) - d;
            f \<leftarrow> slice_from n i;
            w \<leftarrow> slice n 0 i;
            let ad = TrimRight f CHR ''0'';
            Some (s @ (if ad \<noteq> [] then w @ ''.'' @ ad else w))
          })"

definition BaseParser_AmountToDecimalString :: "BaseParser \<Rightarrow> int option \<Rightarrow> string option" where
  "BaseParser_AmountToDecimalString p a = AmountToDecimalString a (bp_AmountDecimalPoint p)"

definition BaseParser_AmountDecimals :: "BaseParser \<Rightarrow> int" where
  "BaseParser_AmountDecimals p = bp_AmountDecimalPoint p"

section \<open>Properties\<close>

lemma length_zeros [simp]: "length zeros = 40"
  by (simp add: zeros_def)

lemma slice_zeros [simp]:
  "0 \<le> k \<Longrightarrow> k \<le> 40 \<Longrightarrow> slice zeros 0 k = Some (replicate (nat k) CHR ''0'')"
  by (simp add: slice_def zeros_def take_replicate min_def)

lemma slice_zeros_pad:
  "0 < l \<Longrightarrow> l \<le> m \<Longrightarrow> m \<le> 40 \<Longrightarrow>
   slice zeros 0 (int m - int l + 1) = Some (replicate (m - l + 1) CHR ''0'')"
  by (subst slice_zeros) (auto simp: nat_add_distrib nat_diff_distrib)

lemma hd_digits: "list_all is_digit n \<Longrightarrow> n \<noteq> [] \<Longrightarrow> hd n \<notin> set ''.eE+-''"
  using is_digit_neq by (cases n) auto

lemma big_SetString_digits:
  assumes "list_all is_digit n" "n \<noteq> []"
  shows "big_SetString n = Some (int (dec_val n))"
    and "big_SetString (CHR ''-'' # n) = Some (- int (dec_val n))"
  using hd_digits [OF assms] assms
  by (cases n; simp add: big_SetString_def parse_digits_def)+

lemma big_SetString_String [simp]: "big_SetString (big_String x) = Some x"
  using show_nat_digits by (simp add: big_String_def big_SetString_digits)

text \<open>The digits of an amount, padded to more than \<open>d\<close> digits.\<close>

definition padded :: "int \<Rightarrow> nat \<Rightarrow> string" where
  "padded a d =
     (let n = show_nat (nat \<bar>a\<bar>) in
      if length n \<le> d then replicate (d - length n + 1) CHR ''0'' @ n else n)"

definition signOf :: "int \<Rightarrow> string" where
  "signOf a = (if a < 0 then ''-'' else [])"

lemma padded_props:
  "list_all is_digit (padded a d)" "d < length (padded a d)" "dec_val (padded a d) = nat \<bar>a\<bar>"
proof -
  have "dec_val (replicate k CHR ''0'' @ show_nat n) = n" for k n
    by (simp add: dec_val_append)
  then show "dec_val (padded a d) = nat \<bar>a\<bar>"
    by (simp add: padded_def Let_def del: replicate.simps)
qed (use show_nat_digits in \<open>auto simp: padded_def Let_def list_all_iff\<close>)

lemma big_SetString_padded: "big_SetString (signOf a @ padded a d) = Some a"
proof -
  have "padded a d \<noteq> []" using padded_props(2) by (metis list.size(3) not_less0)
  with padded_props [where a = a and d = d] show ?thesis
    by (simp add: signOf_def big_SetString_digits)
qed

text \<open>What \<open>AmountToDecimalString\<close> prints: the integral digits, and the fraction without the zeros at its end.\<close>

lemma AmountToDecimalString_form:
  assumes "0 \<le> d"
  obtains w f k where "padded a (min (nat d) 40) = w @ f @ replicate k CHR ''0''"
    and "length f + k = min (nat d) 40" and "w \<noteq> []"
    and "AmountToDecimalString (Some a) d = Some (signOf a @ (if f = [] then w else w @ ''.'' @ f))"
proof -
  let ?d = "min (nat d) 40" and ?n = "padded a (min (nat d) 40)"
  let ?w = "take (length ?n - ?d) ?n" and ?f = "drop (length ?n - ?d) ?n"
  obtain k where k: "?f = TrimRight ?f CHR ''0'' @ replicate k CHR ''0''"
    using TrimRight_split by blast
  have len: "?d < length ?n" by (rule padded_props)
  have split: "?n = ?w @ TrimRight ?f CHR ''0'' @ replicate k CHR ''0''"
    using k by (metis append_take_drop_id)
  have hd: "hd (show_nat m) \<noteq> CHR ''-''" for m
    using hd_digits [OF show_nat_digits, of m] by auto
  have dd: "(if d > int (length zeros) then int (length zeros) else d) = int ?d"
    using assms by auto
  have sn: "(if hd (big_String a) = CHR ''-'' then (''-'', tl (big_String a)) else ([], big_String a)) =
    (signOf a, show_nat (nat \<bar>a\<bar>))"
    using hd by (simp add: big_String_def signOf_def)
  have pad: "(if int (length n) \<le> int ?d then do { z \<leftarrow> slice zeros 0 (int ?d - int (length n) + 1); Some (z @ n) }
      else Some n) = Some ?n" if "n = show_nat (nat \<bar>a\<bar>)" for n
    using that slice_zeros_pad [of "length n" ?d] by (auto simp: padded_def Let_def)
  have sl: "slice_from ?n (int (length ?n) - int ?d) = Some ?f" "slice ?n 0 (int (length ?n) - int ?d) = Some ?w"
    using len by (auto simp: slice_from_def slice_def nat_diff_distrib)
  have "AmountToDecimalString (Some a) d =
    Some (signOf a @ (if TrimRight ?f CHR ''0'' = [] then ?w else ?w @ ''.'' @ TrimRight ?f CHR ''0''))"
    unfolding AmountToDecimalString_def option.case Let_def dd sn prod.case pad [OF refl] Option.bind.simps sl by simp
  moreover have "length (TrimRight ?f CHR ''0'') + k = ?d"
    using arg_cong [OF k, of length] len by simp
  moreover have "?w \<noteq> []" using len by auto
  ultimately show ?thesis using that split by blast
qed

lemma normalizePlain_fraction:
  assumes "CHR ''.'' \<notin> set a" and "length f + k = m" and "m \<le> 40"
  shows "normalizePlainAmountToIntString (a @ CHR ''.'' # f) (int m) = Some (a @ f @ replicate k CHR ''0'')"
proof -
  have "IndexByte (a @ CHR ''.'' # f) CHR ''.'' = Some (length a)"
    unfolding IndexByte_def by (rule index_of_append) (use assms in auto)
  moreover have "int m - int (length (a @ CHR ''.'' # f)) + int (length a) + 1 = int k"
    using assms(2) by simp
  ultimately show ?thesis
    using assms by (auto simp: normalizePlainAmountToIntString_def slice_def slice_from_def Let_def zeros_def
        take_replicate nat_add_distrib min_def)
qed

text \<open>C23: An amount printed with the decimal point of the coin reads back as the same amount, for every number of
  decimals, also with the zeros at the end of the fraction cut off and for amounts below one unit.\<close>

theorem amount_roundtrip:
  assumes "0 \<le> bp_AmountDecimalPoint p"
  shows "\<exists>s. BaseParser_AmountToDecimalString p (Some a) = Some s \<and> AmountToBigInt p s = Inr a"
proof -
  let ?d = "min (nat (bp_AmountDecimalPoint p)) 40"
  obtain w f k where n: "padded a ?d = w @ f @ replicate k CHR ''0''" and len: "length f + k = ?d" and w: "w \<noteq> []"
    and s: "AmountToDecimalString (Some a) (bp_AmountDecimalPoint p) =
      Some (signOf a @ (if f = [] then w else w @ ''.'' @ f))"
    using AmountToDecimalString_form [OF assms] .
  let ?s = "signOf a @ (if f = [] then w else w @ ''.'' @ f)"
  have digits: "list_all is_digit w" "list_all is_digit f"
    using padded_props(1) [of a ?d] n by simp_all
  then have neq: "c \<notin> set ''.eE''" if "c \<in> set (signOf a @ w) \<union> set f" for c
    using that is_digit_neq [of c] by (auto simp: list_all_iff signOf_def split: if_splits)
  have e: "IndexAny ?s ''eE'' = None"
    using neq by (auto simp: IndexAny_def index_of_None)
  have d: "(let d = min (bp_AmountDecimalPoint p) (int (length zeros)) in if d < 0 then 0 else d) = int ?d"
    using assms by (auto simp: Let_def min_def)
  have "normalizePlainAmountToIntString ?s (int ?d) = Some (signOf a @ padded a ?d)"
  proof (cases "f = []")
    case True
    have "IndexByte (signOf a @ w) CHR ''.'' = None"
      using neq by (auto simp: IndexByte_def index_of_None)
    with True len show ?thesis
      by (simp add: normalizePlainAmountToIntString_def n)
  next
    case False
    have "normalizePlainAmountToIntString ((signOf a @ w) @ CHR ''.'' # f) (int ?d) =
        Some ((signOf a @ w) @ f @ replicate k CHR ''0'')"
      by (rule normalizePlain_fraction) (use neq len in auto)
    with False show ?thesis by (simp add: n)
  qed
  with e d s big_SetString_padded [of a ?d] show ?thesis
    by (auto simp: BaseParser_AmountToDecimalString_def AmountToBigInt_def Let_def)
qed

theorem amount_roundtrip_witness:
  "\<exists>s. BaseParser_AmountToDecimalString \<lparr>bp_BlockAddressesToKeep = 0, bp_AmountDecimalPoint = 8, bp_AddressAliases = False\<rparr>
      (Some (- 123450000)) = Some s \<and>
    AmountToBigInt \<lparr>bp_BlockAddressesToKeep = 0, bp_AmountDecimalPoint = 8, bp_AddressAliases = False\<rparr> s = Inr (- 123450000)"
  by (rule amount_roundtrip) simp

lemma dec_val_take:
  assumes "list_all is_digit s" "k \<le> length s"
  shows "dec_val (take k s) = dec_val s div 10 ^ (length s - k)"
proof -
  have "dec_val s = dec_val (take k s) * 10 ^ (length s - k) + dec_val (drop k s)"
    using dec_val_append [of "take k s" "drop k s"] by simp
  moreover have "dec_val (drop k s) < 10 ^ (length s - k)"
    using dec_val_less [of "drop k s"] assms(1) by (metis append_take_drop_id length_drop list_all_append)
  ultimately show ?thesis by simp
qed

lemma dec_val_TrimLeft: "dec_val (TrimLeft s CHR ''0'') = dec_val s"
proof -
  obtain k where "s = replicate k CHR ''0'' @ TrimLeft s CHR ''0''"
    using TrimLeft_split by blast
  then have "dec_val s = dec_val (replicate k CHR ''0'' @ TrimLeft s CHR ''0'')" by simp
  then show ?thesis by (simp add: dec_val_append)
qed

lemma digits_TrimLeft: "list_all is_digit s \<Longrightarrow> list_all is_digit (TrimLeft s CHR ''0'')"
  unfolding TrimLeft_def list_all_iff using set_dropWhileD by fast

lemma TrimLeft_pos:
  assumes "list_all is_digit s" "TrimLeft s CHR ''0'' \<noteq> []"
  shows "0 < dec_val (TrimLeft s CHR ''0'')"
proof -
  obtain c t where ct: "TrimLeft s CHR ''0'' = c # t"
    using assms(2) by (cases "TrimLeft s CHR ''0''") auto
  then have "c \<noteq> CHR ''0''"
    using hd_dropWhile [of "\<lambda>x. x = CHR ''0''" s] by (simp add: TrimLeft_def)
  then have "(of_char c :: nat) \<noteq> of_char CHR ''0''" by (simp only: of_char_eq_iff not_False_eq_True)
  moreover have "is_digit c" using digits_TrimLeft [OF assms(1)] ct by simp
  ultimately have "0 < digit_val c"
    by (simp add: is_digit_def digit_val_def)
  then show ?thesis
    using dec_val_append [of "[c]" t] dec_val_snoc [of "[]" c] by (simp add: ct)
qed

text \<open>The value of the moved digits: multiplied by a power of ten, or divided with truncation.\<close>

definition scaled :: "nat \<Rightarrow> int \<Rightarrow> nat" where
  "scaled v shift = (if shift \<ge> 0 then v * 10 ^ nat shift else v div 10 ^ nat (- shift))"

lemma shiftDigits_too_large:
  "0 \<le> shift \<Longrightarrow> int (length s) + shift > 1024 \<Longrightarrow>
   shiftDigits s shift = Inl (ErrMsg ''expanded value too large'')"
  by (auto simp: shiftDigits_def maxAmountExpandedDigits_def)

lemma shiftDigits_value:
  assumes "list_all is_digit s" "s \<noteq> []" "\<not> (0 \<le> shift \<and> int (length s) + shift > 1024)"
  obtains t where "shiftDigits s shift = Inr t" "list_all is_digit t" "t \<noteq> []"
    "dec_val t = scaled (dec_val s) shift" "length t \<le> max 1024 (length s)"
proof (cases "0 \<le> shift")
  case True
  with assms show ?thesis
    by (intro that [of "s @ replicate (nat shift) CHR ''0''"])
      (auto simp: shiftDigits_def maxAmountExpandedDigits_def scaled_def dec_val_append list_all_iff)
next
  case False
  have z: "dec_val ''0'' = 0" by code_simp
  show ?thesis
  proof (cases "0 < int (length s) + shift")
    case True
    have "length s - nat (int (length s) + shift) = nat (- shift)" using False True by simp
    then have "dec_val (take (nat (int (length s) + shift)) s) = scaled (dec_val s) shift"
      using assms(1) False by (simp add: dec_val_take scaled_def)
    with False True assms(1,2) show ?thesis
      by (intro that [of "take (nat (int (length s) + shift)) s"])
        (auto simp: shiftDigits_def list_all_iff dest: in_set_takeD)
  next
    case neg: False
    have "(10 :: nat) ^ length s \<le> 10 ^ nat (- shift)"
      using neg by (intro power_increasing) simp_all
    with dec_val_less [OF assms(1)] have "dec_val s < 10 ^ nat (- shift)" by (rule less_le_trans)
    with False neg assms(1,2) z show ?thesis
      by (intro that [of "''0''"]) (auto simp: shiftDigits_def scaled_def)
  qed
qed

text \<open>A number in scientific notation: integral digits, fraction and exponent.\<close>

lemma Atoi_chars: "Atoi e = Inr x \<Longrightarrow> e \<noteq> [] \<and> (\<forall>c \<in> set e. is_digit c \<or> c \<in> {CHR ''-'', CHR ''+''}) \<and> is_digit (last e)"
  by (cases e) (auto simp: Atoi_def big_SetString_def parse_digits_def list_all_iff split: if_splits option.splits)

lemma TrimSpace_id:
  assumes "s \<noteq> []" "\<not> is_space (hd s)" "\<not> is_space (last s)"
  shows "TrimSpace s = s"
proof -
  have "dropWhile is_space s = s" using assms(1,2) by (cases s) auto
  moreover have "dropWhile is_space (rev s) = rev s"
    using assms(1,3) by (cases s rule: rev_cases) auto
  ultimately show ?thesis by (simp add: TrimSpace_def)
qed

lemma digit_not_space: "is_digit c \<Longrightarrow> \<not> is_space c"
  by (auto simp: is_digit_def is_space_def)

lemma scientific_split:
  assumes "list_all is_digit w" "list_all is_digit f" "Atoi e = Inr x"
  shows "splitExponent (w @ ''.'' @ f @ ''e'' @ e) = Inr (w @ ''.'' @ f, x)"
    and "splitFraction (w @ ''.'' @ f) = Inr (w @ f, int (length f))"
proof -
  have wf: "c \<notin> set ''.eE''" if "c \<in> set w \<union> set f" for c
    using that assms(1,2) is_digit_neq [of c] by (auto simp: list_all_iff)
  have ee: "c \<notin> set ''eE''" if "c \<in> set e" for c
    using that Atoi_chars [OF assms(3)] is_digit_neq [of c] by auto
  have "IndexAny ((w @ ''.'' @ f) @ CHR ''e'' # e) ''eE'' = Some (length (w @ ''.'' @ f))"
    unfolding IndexAny_def by (rule index_of_append) (use wf in auto)
  moreover have "IndexAny e ''eE'' = None"
    unfolding IndexAny_def index_of_None using ee by auto
  ultimately show "splitExponent (w @ ''.'' @ f @ ''e'' @ e) = Inr (w @ ''.'' @ f, x)"
    using assms(3) by (simp add: splitExponent_def)
  have "IndexByte (w @ CHR ''.'' # f) CHR ''.'' = Some (length w)"
    unfolding IndexByte_def by (rule index_of_append) (use wf in auto)
  moreover have "IndexByte f CHR ''.'' = None"
    unfolding IndexByte_def index_of_None using wf by auto
  ultimately show "splitFraction (w @ ''.'' @ f) = Inr (w @ f, int (length f))"
    by (simp add: splitFraction_def)
qed

lemma scientific_value:
  fixes d :: int
  assumes "list_all is_digit w" "list_all is_digit f" "w @ f \<noteq> []" "Atoi e = Inr x"
  defines "shift \<equiv> x - int (length f) + d"
  shows "bindR (normalizeScientificAmountToIntString (w @ ''.'' @ f @ ''e'' @ e) d)
      (\<lambda>s. case big_SetString s of None \<Rightarrow> Inl Panic | Some r \<Rightarrow> Inr r) =
    (if dec_val (w @ f) \<noteq> 0 \<and> 0 \<le> shift \<and> int (length (TrimLeft (w @ f) CHR ''0'')) + shift > 1024
     then Inl (ErrMsg ''expanded value too large'') else Inr (int (scaled (dec_val (w @ f)) shift)))"
proof -
  let ?s = "w @ ''.'' @ f @ ''e'' @ e" and ?t = "TrimLeft (w @ f) CHR ''0''"
  note ch = Atoi_chars [OF assms(4)] and digits = assms(1,2)
  have hd: "hd ?s \<noteq> CHR ''-''" "hd ?s \<noteq> CHR ''+''" "\<not> is_space (hd ?s)"
    using assms(1) is_digit_neq [of "hd w"] digit_not_space [of "hd w"]
    by (cases w; simp add: is_space_def)+
  have "TrimSpace ?s = ?s"
    using hd(3) ch digit_not_space [of "last e"] by (intro TrimSpace_id) auto
  then have norm: "normalizeScientificAmountToIntString ?s d =
      (if ?t = [] then Inr ''0'' else shiftDigits ?t shift)"
    using scientific_split [OF assms(1,2,4)] hd(1,2) digits assms(3)
    by (auto simp: normalizeScientificAmountToIntString_def Let_def shift_def)
  show ?thesis
  proof (cases "?t = []")
    case True
    have "big_SetString ''0'' = Some 0" by code_simp
    moreover have "dec_val (w @ f) = 0" using dec_val_TrimLeft [of "w @ f"] True by simp
    ultimately show ?thesis using norm True by (simp add: scaled_def)
  next
    case False
    have dt: "list_all is_digit ?t" and pos: "0 < dec_val (w @ f)"
      using digits_TrimLeft [of "w @ f"] TrimLeft_pos [of "w @ f"] False digits dec_val_TrimLeft [of "w @ f"]
      by simp_all
    show ?thesis
    proof (cases "0 \<le> shift \<and> int (length ?t) + shift > 1024")
      case True
      with norm False pos show ?thesis by (simp add: shiftDigits_too_large)
    next
      case ok: False
      obtain t where "shiftDigits ?t shift = Inr t" "list_all is_digit t" "t \<noteq> []"
        "dec_val t = scaled (dec_val ?t) shift"
        using shiftDigits_value [OF dt False ok] .
      with norm False ok show ?thesis
        by (auto simp: big_SetString_digits dec_val_TrimLeft)
    qed
  qed
qed



end
