(* ===== verification/Assets.thy ===== *)
theory Assets
  imports Blocks Strings
begin

text \<open>
  The index of Syscoin platform tokens (\<open>src/db/rocksdb_syscointype.go\<close>): the metadata of assets with
  their cache (column assets), the transactions of an asset (column txAssets), and the changes that a
  connected or disconnected input or output makes to the balance of an asset.

  The state that these functions share is explicit: the process-wide cache, the maps of the
  block under work and the number of calls to the remote service. A nil map is \<open>None\<close>, and a
  write to it panics. The functions run under locks; the model is sequential.
\<close>

section \<open>Metadata\<close>

record assetState =
  as_AssetCache :: "(uint64 \<times> Asset) list option"
  as_assets :: "(uint64 \<times> Asset) list option"
  as_txAssets :: "(bytes \<times> TxAsset) list option"
  as_blockTxAssetAddresses :: "(uint64 \<times> TxAssetAddressIndex list) list"
  as_calls :: nat

definition syscoinSYSXAssetGuid :: uint64 where
  "syscoinSYSXAssetGuid = 123456"

definition zeroAssetType :: AssetType where
  "zeroAssetType = \<lparr>at_Contract = [], at_Symbol = [], at_Precision = 0, at_TotalSupply = 0, at_MaxSupply = 0\<rparr>"

definition builtinSYSXAsset :: "uint32 \<Rightarrow> Asset" where
  "builtinSYSXAsset transactions =
     \<lparr>asset_Transactions = transactions,
      asset_AssetObj = zeroAssetType\<lparr>at_Symbol := bytes_of_string ''SYSX'', at_Precision := 8\<rparr>,
      asset_MetaData = bytes_of_string ''Syscoin Native Asset''\<rparr>"

definition fallbackSyscoinAsset :: "uint64 \<Rightarrow> Asset" where
  "fallbackSyscoinAsset guid =
     \<lparr>asset_Transactions = 0,
      asset_AssetObj = zeroAssetType\<lparr>at_Symbol := bytes_of_string (show_nat (unat guid)), at_Precision := 8\<rparr>,
      asset_MetaData = []\<rparr>"

definition isFallbackSyscoinAsset :: "uint64 \<Rightarrow> Asset \<Rightarrow> bool" where
  "isFallbackSyscoinAsset guid asset \<longleftrightarrow>
     at_Symbol (asset_AssetObj asset) = bytes_of_string (show_nat (unat guid)) \<and>
     at_Precision (asset_AssetObj asset) = 8 \<and> at_Contract (asset_AssetObj asset) = [] \<and> asset_MetaData asset = []"

definition fetchNEVMAssetDetails :: "RocksDB \<Rightarrow> uint64 \<Rightarrow> assetState \<Rightarrow> Asset res \<times> assetState" where
  "fetchNEVMAssetDetails d guid st =
     (case d_chain d of
        NilChain \<Rightarrow> (Inl (ErrMsg ''GetAsset: asset not found in DB''), st)
      | PlainChain \<Rightarrow> (Inl (ErrMsg ''GetAsset: NEVM asset fetcher is not configured''), st)
      | NevmChain fetch \<Rightarrow> (fetch (as_calls st) guid, st\<lparr>as_calls := as_calls st + 1\<rparr>))"

definition packAssetGuid :: "vlq_lib \<Rightarrow> uint64 \<Rightarrow> bytes" where
  "packAssetGuid v guid = vlq_PutUint v guid"

definition unpackAssetGuid :: "vlq_lib \<Rightarrow> bytes \<Rightarrow> uint64 \<times> int" where
  "unpackAssetGuid v buf = vlq_Uint v buf"

definition GetBaseAssetID :: "uint64 \<Rightarrow> uint64" where
  "GetBaseAssetID guid = guid AND 0xffffffff"

definition GetNFTID :: "uint64 \<Rightarrow> uint64" where
  "GetNFTID guid = drop_bit 32 guid"

definition cacheOf :: "assetState \<Rightarrow> (uint64 \<times> Asset) list" where
  "cacheOf st = (case as_AssetCache st of None \<Rightarrow> [] | Some m \<Rightarrow> m)"

definition cachePut :: "uint64 \<Rightarrow> Asset \<Rightarrow> assetState \<Rightarrow> assetState" where
  "cachePut guid asset st = st\<lparr>as_AssetCache := Some (AList.update guid asset (cacheOf st))\<rparr>"

text \<open>
  The three stages of \<open>GetAsset\<close>: the assets of the block under work, the cache, and the database. The
  flag \<open>ok\<close> that guards the last write to the cache is false whenever the database is read.
\<close>

definition GetAsset_block :: "RocksDB \<Rightarrow> uint64 \<Rightarrow> Asset \<Rightarrow> assetState \<Rightarrow> Asset res \<times> assetState" where
  "GetAsset_block d guid assetL1 st =
     (if guid = syscoinSYSXAssetGuid then (Inr (builtinSYSXAsset (asset_Transactions assetL1)), st)
      else if isFallbackSyscoinAsset guid assetL1 then
        (case fetchNEVMAssetDetails d guid st of
           (Inr assetDb, st) \<Rightarrow>
             let assetDb = assetDb\<lparr>asset_Transactions := asset_Transactions assetL1\<rparr> in
             (Inr assetDb, st\<lparr>as_assets := map_option (AList.update guid assetDb) (as_assets st)\<rparr>)
         | (Inl Panic, st) \<Rightarrow> (Inl Panic, st)
         | (Inl err, st) \<Rightarrow> (Inr assetL1, st))
      else (Inr assetL1, st))"

definition GetAsset_cache :: "RocksDB \<Rightarrow> uint64 \<Rightarrow> Asset \<Rightarrow> assetState \<Rightarrow> Asset res \<times> assetState" where
  "GetAsset_cache d guid assetDbCache st =
     (if guid = syscoinSYSXAssetGuid then
        let assetDb = builtinSYSXAsset (asset_Transactions assetDbCache) in
        (Inr assetDb, cachePut guid assetDb st)
      else if isFallbackSyscoinAsset guid assetDbCache then
        (case fetchNEVMAssetDetails d guid st of
           (Inr assetDb, st) \<Rightarrow>
             let assetDb = assetDb\<lparr>asset_Transactions := asset_Transactions assetDbCache\<rparr> in
             (Inr assetDb, cachePut guid assetDb st)
         | (Inl Panic, st) \<Rightarrow> (Inl Panic, st)
         | (Inl err, st) \<Rightarrow> (Inr assetDbCache, st))
      else (Inr assetDbCache, st))"

definition GetAsset_db :: "RocksDB \<Rightarrow> view \<Rightarrow> uint64 \<Rightarrow> assetState \<Rightarrow> Asset res \<times> assetState" where
  "GetAsset_db d get guid st =
     (case get cfAssets (packAssetGuid (d_vlq d) guid) of
        Inl err \<Rightarrow> (Inl err, st)
      | Inr None \<Rightarrow>
          if guid = syscoinSYSXAssetGuid then
            let assetDb = builtinSYSXAsset 0 in (Inr assetDb, cachePut guid assetDb st)
          else
            (case fetchNEVMAssetDetails d guid st of
               (Inl err, st) \<Rightarrow> (Inl err, st)
             | (Inr assetDb, st) \<Rightarrow> (Inr assetDb, cachePut guid assetDb st))
      | Inr (Some buf) \<Rightarrow>
          if buf = [] then (Inl (ErrMsg ''GetAsset: empty value in asset db''), st)
          else
            (case p_syscoinAssetParser (d_chainParser d) of
               None \<Rightarrow> (Inl (ErrMsg ''GetAsset: Syscoin asset parser is not configured''), st)
             | Some parser \<Rightarrow>
                 (case sp_UnpackAsset parser buf of
                    Inl err \<Rightarrow> (Inl err, st)
                  | Inr assetDb \<Rightarrow>
                      let assetDb = (if guid = syscoinSYSXAssetGuid
                                     then builtinSYSXAsset (asset_Transactions assetDb) else assetDb) in
                      if isFallbackSyscoinAsset guid assetDb then
                        (case fetchNEVMAssetDetails d guid st of
                           (Inr fetched, st) \<Rightarrow>
                             let assetDb = fetched\<lparr>asset_Transactions := asset_Transactions assetDb\<rparr> in
                             (Inr assetDb, cachePut guid assetDb st)
                         | (Inl Panic, st) \<Rightarrow> (Inl Panic, st)
                         | (Inl err, st) \<Rightarrow> (Inr assetDb, cachePut guid assetDb st))
                      else (Inr assetDb, cachePut guid assetDb st))))"

definition GetAsset :: "RocksDB \<Rightarrow> view \<Rightarrow> uint64 \<Rightarrow> assetState \<Rightarrow> Asset res \<times> assetState" where
  "GetAsset d get guid st =
     (case (case as_assets st of None \<Rightarrow> None | Some assets \<Rightarrow> map_of assets guid) of
        Some assetL1 \<Rightarrow> GetAsset_block d guid assetL1 st
      | None \<Rightarrow>
          (case as_AssetCache st of
             None \<Rightarrow> GetAsset_db d get guid (st\<lparr>as_AssetCache := Some []\<rparr>)
           | Some cache \<Rightarrow>
               (case map_of cache guid of
                  Some assetDbCache \<Rightarrow> GetAsset_cache d guid assetDbCache st
                | None \<Rightarrow> GetAsset_db d get guid st)))"

text \<open>\<open>GetAsset\<close> with the fallback that the connection and disconnection of blocks use.\<close>

definition GetAssetOrFallback :: "RocksDB \<Rightarrow> view \<Rightarrow> uint64 \<Rightarrow> assetState \<Rightarrow> (Asset \<times> assetState) res" where
  "GetAssetOrFallback d get guid st =
     (case GetAsset d get guid st of
        (Inr dBAsset, st) \<Rightarrow> Inr (dBAsset, st)
      | (Inl Panic, st) \<Rightarrow> Inl Panic
      | (Inl err, st) \<Rightarrow> Inr (fallbackSyscoinAsset guid, st))"

section \<open>Storing\<close>

fun storeAssetsLoop ::
    "RocksDB \<Rightarrow> (uint64 \<times> Asset) list \<Rightarrow> (uint64 \<times> Asset) list \<Rightarrow> wbatch res \<times> (uint64 \<times> Asset) list" where
  "storeAssetsLoop d [] cache = (Inr [], cache)"
| "storeAssetsLoop d ((guid, asset) # assets) cache =
     (let asset = (if guid = syscoinSYSXAssetGuid then builtinSYSXAsset (asset_Transactions asset) else asset);
          cache = AList.update guid asset cache;
          key = packAssetGuid (d_vlq d) guid in
      if at_TotalSupply (asset_AssetObj asset) = - 1 then
        (case storeAssetsLoop d assets (AList.delete guid cache) of
           (wb, cache) \<Rightarrow> (bindR wb (\<lambda>wb. Inr (DeleteCF cfAssets key # wb)), cache))
      else
        (case p_syscoinAssetParser (d_chainParser d) of
           None \<Rightarrow> (Inl (ErrMsg ''storeAssets: Syscoin asset parser is not configured''), cache)
         | Some parser \<Rightarrow>
             (case sp_PackAsset parser asset of
                Inl err \<Rightarrow> (Inl err, cache)
              | Inr buf \<Rightarrow>
                  (case storeAssetsLoop d assets cache of
                     (wb, cache) \<Rightarrow> (bindR wb (\<lambda>wb. Inr (PutCF cfAssets key buf # wb)), cache)))))"

definition storeAssets :: "RocksDB \<Rightarrow> assetState \<Rightarrow> wbatch res \<times> assetState" where
  "storeAssets d st =
     (case as_assets st of
        None \<Rightarrow> (Inr [], st)
      | Some assets \<Rightarrow>
          (case storeAssetsLoop d assets (cacheOf st) of
             (wb, cache) \<Rightarrow> (wb, st\<lparr>as_AssetCache := Some cache\<rparr>)))"

definition storeTxAssets :: "RocksDB \<Rightarrow> (bytes \<times> TxAsset) list \<Rightarrow> wbatch res" where
  "storeTxAssets d txassets =
     mapR (\<lambda>(key, txAsset).
       case p_syscoinAssetParser (d_chainParser d) of
         None \<Rightarrow> Inl (ErrMsg ''storeTxAssets: Syscoin asset parser is not configured'')
       | Some parser \<Rightarrow> Inr (PutCF cfTxAssets key (sp_PackAssetTxIndex parser txAsset))) txassets"

text \<open>The loop of \<open>SetupAssetCache\<close> ends at the first row that does not unpack.\<close>

fun setupRows :: "RocksDB \<Rightarrow> (bytes \<times> bytes) list \<Rightarrow> (uint64 \<times> Asset) list \<Rightarrow> (uint64 \<times> Asset) list res" where
  "setupRows d [] cache = Inr cache"
| "setupRows d ((key, data) # rows) cache =
     (let assetKey = fst (unpackAssetGuid (d_vlq d) key) in
      case p_syscoinAssetParser (d_chainParser d) of
        None \<Rightarrow> Inl (ErrMsg ''SetupAssetCache: Syscoin asset parser is not configured'')
      | Some parser \<Rightarrow>
          (case sp_UnpackAsset parser data of
             Inl Panic \<Rightarrow> Inl Panic
           | Inl err \<Rightarrow> Inr cache
           | Inr assetDb \<Rightarrow>
               let assetDb = (if assetKey = syscoinSYSXAssetGuid
                              then builtinSYSXAsset (asset_Transactions assetDb) else assetDb)
               in setupRows d rows (AList.update assetKey assetDb cache)))"

definition SetupAssetCache :: "RocksDB \<Rightarrow> (bytes \<times> bytes) list \<Rightarrow> assetState \<Rightarrow> assetState res" where
  "SetupAssetCache d rows st =
     bindR (setupRows d rows (cacheOf st)) (\<lambda>cache. Inr (st\<lparr>as_AssetCache := Some cache\<rparr>))"

section \<open>Transactions of an asset\<close>

definition addToAssetsMap ::
    "RocksDB \<Rightarrow> uint64 \<Rightarrow> bytes \<Rightarrow> int \<Rightarrow> uint32 \<Rightarrow> assetState \<Rightarrow> (bool \<times> assetState) res" where
  "addToAssetsMap d assetGuid b version height st =
     (case p_syscoinAssetParser (d_chainParser d) of
        None \<Rightarrow> Inr (False, st)
      | Some parser \<Rightarrow>
          let key = sp_PackAssetKey parser assetGuid height;
              new = \<lparr>tai_Type = sp_GetAssetsMaskFromVersion parser version, tai_BtxID = b\<rparr>;
              txassets = (case as_txAssets st of None \<Rightarrow> [] | Some m \<Rightarrow> m) in
          (case map_of txassets key of
             Some at \<Rightarrow>
               if list_ex (\<lambda>t. b = tai_BtxID t) (ta_AssetTxs at) then Inr (True, st)
               else Inr (False, st\<lparr>as_txAssets := Some (AList.update key
                      \<lparr>ta_AssetHeight = height, ta_AssetTxs = ta_AssetTxs at @ [new]\<rparr> txassets)\<rparr>)
           | None \<Rightarrow>
               if as_txAssets st = None then Inl Panic
               else Inr (False, st\<lparr>as_txAssets := Some (AList.update key
                      \<lparr>ta_AssetHeight = height, ta_AssetTxs = [new]\<rparr> txassets)\<rparr>)))"

definition addToAssetAddressMap :: "uint64 \<Rightarrow> bytes \<Rightarrow> bytes \<Rightarrow> assetState \<Rightarrow> bool \<times> assetState" where
  "addToAssetAddressMap assetGuid b addrDesc st =
     (let m = as_blockTxAssetAddresses st; new = \<lparr>taa_AddrDesc = addrDesc, taa_BtxID = b\<rparr>;
          txs = (case map_of m assetGuid of None \<Rightarrow> [] | Some txs \<Rightarrow> txs) in
      if list_ex (\<lambda>t. b = taa_BtxID t \<and> addrDesc = taa_AddrDesc t) txs then (True, st)
      else (False, st\<lparr>as_blockTxAssetAddresses := AList.update assetGuid (txs @ [new]) m\<rparr>))"

definition AllMask :: uint32 where
  "AllMask = 0"

text \<open>The iteration over the rows of an asset, from the newest block to the oldest.\<close>

fun visitTxAssets ::
    "syscoinAssetParser \<Rightarrow> uint32 \<Rightarrow> (string list \<Rightarrow> 's \<Rightarrow> 's \<times> error option) \<Rightarrow> bytes \<Rightarrow> (bytes \<times> bytes) list \<Rightarrow>
     's \<Rightarrow> 's \<times> error option" where
  "visitTxAssets parser assetsBitMask fn stopKey [] s = (s, None)"
| "visitTxAssets parser assetsBitMask fn stopKey ((key, val) # rows) s =
     (if key > stopKey then (s, None)
      else
        (case sp_UnpackAssetTxIndex parser val of
           None \<Rightarrow> (s, Some Panic)
         | Some txIndexes \<Rightarrow>
             let txids = map (\<lambda>t. hex_encode (tai_BtxID t))
                   (filter (\<lambda>t. assetsBitMask = AllMask \<or> assetsBitMask AND tai_Type t = tai_Type t) txIndexes) in
             if txids = [] then visitTxAssets parser assetsBitMask fn stopKey rows s
             else
               (case fn txids s of
                  (s, Some StopIteration) \<Rightarrow> (s, None)
                | (s, Some err) \<Rightarrow> (s, Some err)
                | (s, None) \<Rightarrow> visitTxAssets parser assetsBitMask fn stopKey rows s)))"

definition GetTxAssets ::
    "RocksDB \<Rightarrow> (bytes \<times> bytes) list \<Rightarrow> uint64 \<Rightarrow> uint32 \<Rightarrow> uint32 \<Rightarrow> uint32 \<Rightarrow>
     (string list \<Rightarrow> 's \<Rightarrow> 's \<times> error option) \<Rightarrow> 's \<Rightarrow> 's \<times> error option" where
  "GetTxAssets d rows assetGuid lower higher assetsBitMask fn s =
     (case p_syscoinAssetParser (d_chainParser d) of
        None \<Rightarrow> (s, Some (ErrMsg ''GetTxAssets: Syscoin asset parser is not configured''))
      | Some parser \<Rightarrow>
          let startKey = sp_PackAssetKey parser assetGuid higher; stopKey = sp_PackAssetKey parser assetGuid lower in
          visitTxAssets parser assetsBitMask fn stopKey (seek startKey rows) s)"

section \<open>Balances of an asset\<close>

text \<open>The amount is a pointer; arithmetic on a nil pointer panics.\<close>

definition amountOf :: "AssetInfo \<Rightarrow> int res" where
  "amountOf assetInfo = of_panic (ai_ValueSat assetInfo)"

definition nonneg :: "int \<Rightarrow> int" where
  "nonneg x = (if x < 0 then 0 else x)"

text \<open>The bookkeeping that \<open>ConnectAllocationInput\<close> and \<open>ConnectAllocationOutput\<close> share up to the change of the
  amounts.\<close>

definition connectAllocation ::
    "RocksDB \<Rightarrow> view \<Rightarrow> bytes \<Rightarrow> uint32 \<Rightarrow> int \<Rightarrow> AssetBalance \<Rightarrow> bytes \<Rightarrow> AssetInfo \<Rightarrow> assetState \<Rightarrow>
     (AssetBalance \<times> assetState) res" where
  "connectAllocation d get addrDesc height version balanceAsset b assetInfo st =
     (let guid = ai_AssetGuid assetInfo in
      bindR (GetAssetOrFallback d get guid st) (\<lambda>(dBAsset, st).
      bindR (addToAssetsMap d guid b version height st) (\<lambda>(counted, st).
      bindR
        (if counted then Inr st
         else
           (case as_assets st of
              None \<Rightarrow> Inl Panic
            | Some assets \<Rightarrow>
                Inr (st\<lparr>as_assets :=
                  Some (AList.update guid (dBAsset\<lparr>asset_Transactions := asset_Transactions dBAsset + 1\<rparr>) assets)\<rparr>)))
        (\<lambda>st.
          let (counted, st) = addToAssetAddressMap guid b addrDesc st in
          Inr (if counted then balanceAsset else balanceAsset\<lparr>ab_Transfers := ab_Transfers balanceAsset + 1\<rparr>, st)))))"

definition ConnectAllocationInput ::
    "RocksDB \<Rightarrow> view \<Rightarrow> bytes \<Rightarrow> uint32 \<Rightarrow> int \<Rightarrow> AssetBalance \<Rightarrow> bytes \<Rightarrow> AssetInfo \<Rightarrow> assetState \<Rightarrow>
     (AssetBalance \<times> assetState) res" where
  "ConnectAllocationInput d get addrDesc height version balanceAsset b assetInfo st =
     bindR (connectAllocation d get addrDesc height version balanceAsset b assetInfo st) (\<lambda>(balanceAsset, st).
     bindR (amountOf assetInfo) (\<lambda>value.
       Inr (balanceAsset\<lparr>ab_AssetBalanceSat := nonneg (ab_AssetBalanceSat balanceAsset - value),
              ab_AssetSentSat := ab_AssetSentSat balanceAsset + value\<rparr>, st)))"

definition ConnectAllocationOutput ::
    "RocksDB \<Rightarrow> view \<Rightarrow> bytes \<Rightarrow> uint32 \<Rightarrow> AssetBalance \<Rightarrow> int \<Rightarrow> bytes \<Rightarrow> AssetInfo \<Rightarrow> assetState \<Rightarrow>
     (AssetBalance \<times> assetState) res" where
  "ConnectAllocationOutput d get addrDesc height balanceAsset version b assetInfo st =
     bindR (connectAllocation d get addrDesc height version balanceAsset b assetInfo st) (\<lambda>(balanceAsset, st).
     bindR (amountOf assetInfo) (\<lambda>value.
       Inr (balanceAsset\<lparr>ab_AssetBalanceSat := ab_AssetBalanceSat balanceAsset + value\<rparr>, st)))"

text \<open>
  Disconnection. \<open>exists\<close> is the result of \<open>assetFoundInTx\<close>, which the caller keeps; in these functions the
  map of assets is never nil.
\<close>

definition putAsset :: "uint64 \<Rightarrow> Asset \<Rightarrow> assetState \<Rightarrow> assetState res" where
  "putAsset guid asset st =
     (case as_assets st of
        None \<Rightarrow> Inl Panic
      | Some assets \<Rightarrow> Inr (st\<lparr>as_assets := Some (AList.update guid asset assets)\<rparr>))"

definition uncountTransfer :: "uint64 \<Rightarrow> bytes \<Rightarrow> bytes \<Rightarrow> AssetBalance \<Rightarrow> assetState \<Rightarrow> AssetBalance \<times> assetState" where
  "uncountTransfer guid b addrDesc balanceAsset st =
     (let (counted, st) = addToAssetAddressMap guid b addrDesc st in
      (if counted then balanceAsset else balanceAsset\<lparr>ab_Transfers := ab_Transfers balanceAsset - 1\<rparr>, st))"

definition DisconnectAllocationOutput ::
    "RocksDB \<Rightarrow> view \<Rightarrow> bytes \<Rightarrow> AssetBalance \<Rightarrow> bytes \<Rightarrow> AssetInfo \<Rightarrow> (uint64 \<Rightarrow> bytes \<Rightarrow> 'f \<Rightarrow> bool \<times> 'f) \<Rightarrow>
     'f \<Rightarrow> assetState \<Rightarrow> (AssetBalance \<times> 'f \<times> assetState) res" where
  "DisconnectAllocationOutput d get addrDesc balanceAsset b assetInfo assetFoundInTx found st =
     (let guid = ai_AssetGuid assetInfo in
      bindR (GetAssetOrFallback d get guid st) (\<lambda>(dBAsset, st).
      bindR (amountOf assetInfo) (\<lambda>value.
        let balanceAsset = balanceAsset\<lparr>ab_AssetBalanceSat := nonneg (ab_AssetBalanceSat balanceAsset - value)\<rparr>;
            (exists, found) = assetFoundInTx guid b found;
            dBAsset =
              (if exists then dBAsset
               else
                 let dBAsset = dBAsset\<lparr>asset_Transactions := asset_Transactions dBAsset - 1\<rparr> in
                 if asset_Transactions dBAsset = 0
                 then dBAsset\<lparr>asset_AssetObj := asset_AssetObj dBAsset\<lparr>at_TotalSupply := - 1\<rparr>\<rparr>
                 else dBAsset);
            (balanceAsset, st) = uncountTransfer guid b addrDesc balanceAsset st in
        bindR (putAsset guid dBAsset st) (\<lambda>st. Inr (balanceAsset, found, st)))))"

definition DisconnectAllocationInput ::
    "RocksDB \<Rightarrow> view \<Rightarrow> bytes \<Rightarrow> AssetBalance \<Rightarrow> bytes \<Rightarrow> AssetInfo \<Rightarrow> (uint64 \<Rightarrow> bytes \<Rightarrow> 'f \<Rightarrow> bool \<times> 'f) \<Rightarrow>
     'f \<Rightarrow> assetState \<Rightarrow> (AssetBalance \<times> 'f \<times> assetState) res" where
  "DisconnectAllocationInput d get addrDesc balanceAsset b assetInfo assetFoundInTx found st =
     (let guid = ai_AssetGuid assetInfo in
      bindR (GetAssetOrFallback d get guid st) (\<lambda>(dBAsset, st).
      bindR (amountOf assetInfo) (\<lambda>value.
        let balanceAsset = balanceAsset\<lparr>ab_AssetSentSat := nonneg (ab_AssetSentSat balanceAsset - value),
              ab_AssetBalanceSat := ab_AssetBalanceSat balanceAsset + value\<rparr>;
            (exists, found) = assetFoundInTx guid b found;
            dBAsset = (if exists then dBAsset
                       else dBAsset\<lparr>asset_Transactions := asset_Transactions dBAsset - 1\<rparr>);
            (balanceAsset, st) = uncountTransfer guid b addrDesc balanceAsset st in
        bindR (putAsset guid dBAsset st) (\<lambda>st. Inr (balanceAsset, found, st)))))"

end
