(* ===== verification/SyscoinParser.thy ===== *)
theory SyscoinParser
  imports Assets
begin

text \<open>
  The parser of Syscoin (\<open>src/bchain/coins/sys/syscoinparser.go\<close>) with the packing helpers of the base
  parser that it uses (\<open>src/bchain/baseparser.go\<close>): the rows of the asset columns, the allocation of
  assets to the outputs of a transaction, and the serializers of transactions and balances that the
  parser keeps beside those of the database.

  The package of the Syscoin wire format and the conversion of public key scripts are parameters. A
  reader that is not at its end after deserialization is the list of the bytes left. The scratch
  buffers of the callers are large enough for every number packed.
\<close>

section \<open>Packing helpers of the base parser\<close>

definition BaseParser_PackUint :: "uint32 \<Rightarrow> bytes" where
  "BaseParser_PackUint i = put_be 4 i"

definition BaseParser_UnpackUint :: "bytes \<Rightarrow> uint32 option" where
  "BaseParser_UnpackUint buf = (if 4 \<le> length buf then Some (of_nat (be_nat (take 4 buf))) else None)"

definition BaseParser_PackVarint32 :: "vlq_lib \<Rightarrow> int \<Rightarrow> bytes" where
  "BaseParser_PackVarint32 v i = vlq_PutInt v i"

definition BaseParser_PackVaruint :: "vlq_lib \<Rightarrow> uint64 \<Rightarrow> bytes" where
  "BaseParser_PackVaruint v i = vlq_PutUint v i"

definition BaseParser_PackVaruint64 :: "vlq_lib \<Rightarrow> uint64 \<Rightarrow> bytes" where
  "BaseParser_PackVaruint64 v i = vlq_PutUint v i"

definition BaseParser_UnpackVaruint :: "vlq_lib \<Rightarrow> bytes \<Rightarrow> uint64 \<times> int" where
  "BaseParser_UnpackVaruint v buf = vlq_Uint v buf"

definition BaseParser_UnpackVaruint64 :: "vlq_lib \<Rightarrow> bytes \<Rightarrow> uint64 \<times> int" where
  "BaseParser_UnpackVaruint64 v buf = vlq_Uint v buf"

text \<open>\<open>big.Int.Bytes\<close>: the absolute value, big-endian, without leading zeros.\<close>

fun big_Bytes :: "nat \<Rightarrow> bytes" where
  "big_Bytes n = (if n = 0 then [] else big_Bytes (n div 256) @ [of_nat (n mod 256)])"

declare big_Bytes.simps [simp del]

definition BaseParser_PackBigint :: "vlq_lib \<Rightarrow> int option \<Rightarrow> bytes" where
  "BaseParser_PackBigint v bi =
     (case bi of
        None \<Rightarrow> BaseParser_PackVaruint v 0
      | Some bi \<Rightarrow>
          if bi < 0 then []
          else let b = big_Bytes (nat bi) in BaseParser_PackVaruint v (of_nat (length b)) @ b)"

definition BaseParser_UnpackBigint :: "vlq_lib \<Rightarrow> bytes \<Rightarrow> (int \<times> int) option" where
  "BaseParser_UnpackBigint v buf =
     (let (l, ll) = BaseParser_UnpackVaruint v buf in
      if l = 0 then Some (0, ll)
      else do {
        s \<leftarrow> slice buf ll (ll + sint l);
        Some (int (be_nat s), ll + sint l)
      })"

definition BaseParser_PackVarBytes :: "vlq_lib \<Rightarrow> bytes \<Rightarrow> bytes" where
  "BaseParser_PackVarBytes v bufValue = BaseParser_PackVaruint v (of_nat (length bufValue)) @ bufValue"

definition BaseParser_UnpackVarBytes :: "vlq_lib \<Rightarrow> bytes \<Rightarrow> (bytes \<times> int) option" where
  "BaseParser_UnpackVarBytes v buf =
     (let (l, ll) = BaseParser_UnpackVaruint v buf in do {
        s \<leftarrow> slice buf ll (ll + sint l);
        Some (s, ll + sint l)
      })"

section \<open>Libraries\<close>

text \<open>The value of an asset that an output carries, as the wire format lists them.\<close>

record AssetOutValue =
  aov_N :: uint32
  aov_ValueSat :: int

record AssetOut =
  ao_AssetGuid :: uint64
  ao_Values :: "AssetOutValue list"

record syscoinwire =
  wire_SerializeAsset :: "AssetType \<Rightarrow> bytes res"
  wire_DeserializeAsset :: "bytes \<Rightarrow> AssetType res"
  wire_DeserializeAllocation :: "bytes \<Rightarrow> (AssetOut list \<times> bytes) res"

text \<open>\<open>txscript.ConvertP2PKtoP2PKH\<close> returns a script and an error.\<close>

record SyscoinParser =
  sys_vlq :: vlq_lib
  sys_wire :: syscoinwire
  sys_ConvertP2PKtoP2PKH :: "bytes \<Rightarrow> bytes \<times> error option"

section \<open>Versions of transactions\<close>

definition SYSCOIN_TX_VERSION_ALLOCATION_BURN_TO_SYSCOIN :: int where
  "SYSCOIN_TX_VERSION_ALLOCATION_BURN_TO_SYSCOIN = 138"

definition SYSCOIN_TX_VERSION_SYSCOIN_BURN_TO_ALLOCATION :: int where
  "SYSCOIN_TX_VERSION_SYSCOIN_BURN_TO_ALLOCATION = 139"

definition SYSCOIN_TX_VERSION_ALLOCATION_MINT :: int where
  "SYSCOIN_TX_VERSION_ALLOCATION_MINT = 140"

definition SYSCOIN_TX_VERSION_ALLOCATION_BURN_TO_NEVM :: int where
  "SYSCOIN_TX_VERSION_ALLOCATION_BURN_TO_NEVM = 141"

definition SYSCOIN_TX_VERSION_ALLOCATION_SEND :: int where
  "SYSCOIN_TX_VERSION_ALLOCATION_SEND = 142"

lemmas version_defs =
  SYSCOIN_TX_VERSION_ALLOCATION_BURN_TO_SYSCOIN_def SYSCOIN_TX_VERSION_SYSCOIN_BURN_TO_ALLOCATION_def
  SYSCOIN_TX_VERSION_ALLOCATION_MINT_def SYSCOIN_TX_VERSION_ALLOCATION_BURN_TO_NEVM_def
  SYSCOIN_TX_VERSION_ALLOCATION_SEND_def

definition maxAddrDescLen :: nat where
  "maxAddrDescLen = 10000"

definition maxMemoLen :: nat where
  "maxMemoLen = 256"

datatype TokenType =
    SPTAssetAllocationMintType | SPTAssetAllocationBurnToNEVMType | SPTAssetAllocationBurnToSyscoinType
  | SPTAssetSyscoinBurnToAllocationType | SPTAssetAllocationSendType

definition GetAssetTypeFromVersion :: "int \<Rightarrow> TokenType option" where
  "GetAssetTypeFromVersion nVersion =
     (if nVersion = SYSCOIN_TX_VERSION_ALLOCATION_MINT then Some SPTAssetAllocationMintType
      else if nVersion = SYSCOIN_TX_VERSION_ALLOCATION_BURN_TO_NEVM then Some SPTAssetAllocationBurnToNEVMType
      else if nVersion = SYSCOIN_TX_VERSION_ALLOCATION_BURN_TO_SYSCOIN then Some SPTAssetAllocationBurnToSyscoinType
      else if nVersion = SYSCOIN_TX_VERSION_SYSCOIN_BURN_TO_ALLOCATION then Some SPTAssetSyscoinBurnToAllocationType
      else if nVersion = SYSCOIN_TX_VERSION_ALLOCATION_SEND then Some SPTAssetAllocationSendType
      else None)"

text \<open>The masks that select classes of transactions.\<close>

definition BaseCoinMask :: uint32 where "BaseCoinMask = 1"

definition AssetAllocationSendMask :: uint32 where "AssetAllocationSendMask = 2"

definition AssetSyscoinBurnToAllocationMask :: uint32 where "AssetSyscoinBurnToAllocationMask = 4"

definition AssetAllocationBurnToSyscoinMask :: uint32 where "AssetAllocationBurnToSyscoinMask = 8"

definition AssetAllocationBurnToNEVMMask :: uint32 where "AssetAllocationBurnToNEVMMask = 16"

definition AssetAllocationMintMask :: uint32 where "AssetAllocationMintMask = 32"

definition AssetMask :: uint32 where
  "AssetMask = AssetSyscoinBurnToAllocationMask OR AssetAllocationBurnToSyscoinMask OR
     AssetAllocationBurnToNEVMMask OR AssetAllocationMintMask OR AssetAllocationSendMask"

lemmas mask_defs =
  BaseCoinMask_def AssetAllocationSendMask_def AssetSyscoinBurnToAllocationMask_def
  AssetAllocationBurnToSyscoinMask_def AssetAllocationBurnToNEVMMask_def AssetAllocationMintMask_def

definition GetAssetsMaskFromVersion :: "int \<Rightarrow> uint32" where
  "GetAssetsMaskFromVersion nVersion =
     (if nVersion = SYSCOIN_TX_VERSION_ALLOCATION_MINT then AssetAllocationMintMask
      else if nVersion = SYSCOIN_TX_VERSION_ALLOCATION_BURN_TO_NEVM then AssetAllocationBurnToNEVMMask
      else if nVersion = SYSCOIN_TX_VERSION_ALLOCATION_BURN_TO_SYSCOIN then AssetAllocationBurnToSyscoinMask
      else if nVersion = SYSCOIN_TX_VERSION_SYSCOIN_BURN_TO_ALLOCATION then AssetSyscoinBurnToAllocationMask
      else if nVersion = SYSCOIN_TX_VERSION_ALLOCATION_SEND then AssetAllocationSendMask
      else BaseCoinMask)"

definition IsSyscoinMintTx :: "int \<Rightarrow> bool" where
  "IsSyscoinMintTx nVersion \<longleftrightarrow> nVersion = SYSCOIN_TX_VERSION_ALLOCATION_MINT"

definition IsAssetAllocationTx :: "int \<Rightarrow> bool" where
  "IsAssetAllocationTx nVersion \<longleftrightarrow>
     nVersion = SYSCOIN_TX_VERSION_ALLOCATION_BURN_TO_NEVM \<or> nVersion = SYSCOIN_TX_VERSION_ALLOCATION_BURN_TO_SYSCOIN \<or>
     nVersion = SYSCOIN_TX_VERSION_SYSCOIN_BURN_TO_ALLOCATION \<or> nVersion = SYSCOIN_TX_VERSION_ALLOCATION_SEND"

definition IsSyscoinTx :: "int \<Rightarrow> uint32 \<Rightarrow> bool" where
  "IsSyscoinTx nVersion nHeight \<longleftrightarrow> IsAssetAllocationTx nVersion \<or> IsSyscoinMintTx nVersion"

section \<open>Allocations\<close>

text \<open>The result \<open>None\<close> is a nil slice.\<close>

definition TryGetOPReturn :: "bytes \<Rightarrow> bytes option" where
  "TryGetOPReturn script =
     (if length script > 1 \<and> script ! 0 = 0x6a then
        let op = script ! 1 in
        if op < 0x4c then
          if length script < 2 + unat op then None else Some (drop 2 script)
        else if op = 0x4c then
          if length script < 3 \<or> length script < 3 + unat (script ! 2) then None else Some (drop 3 script)
        else if op = 0x4d then
          if length script < 4 then None
          else
            let pushLen = unat (script ! 2) OR (push_bit 8 (unat (script ! 3))) in
            if length script < 4 + pushLen then None else Some (drop 4 script)
        else None
      else None)"

definition BitcoinLikeParser_GetAddrDescFromVout :: "SyscoinParser \<Rightarrow> Vout \<Rightarrow> bytes \<times> error option" where
  "BitcoinLikeParser_GetAddrDescFromVout p out =
     (case hex_decode (vout_ScriptPubKeyHex out) of
        Inl err \<Rightarrow> (hex_decode_prefix (vout_ScriptPubKeyHex out), Some err)
      | Inr ad \<Rightarrow> sys_ConvertP2PKtoP2PKH p ad)"

definition BitcoinLikeParser_IsAddrDescIndexable :: "bytes \<Rightarrow> bool" where
  "BitcoinLikeParser_IsAddrDescIndexable addrDesc \<longleftrightarrow> \<not> (addrDesc = [] \<or> addrDesc ! 0 = 0x6a)"

definition BitcoinLikeParser_GetScriptFromAddrDesc :: "bytes \<Rightarrow> bytes res" where
  "BitcoinLikeParser_GetScriptFromAddrDesc addrDesc = Inr addrDesc"

text \<open>The loop over the outputs ends at the first script that starts with \<open>OP_RETURN\<close>; otherwise the
  descriptor of the last output is left.\<close>

fun findOPReturn :: "SyscoinParser \<Rightarrow> Vout list \<Rightarrow> bytes \<Rightarrow> bytes" where
  "findOPReturn p [] addrDesc = addrDesc"
| "findOPReturn p (out # outs) addrDesc =
     (let (addrDesc, err) = BitcoinLikeParser_GetAddrDescFromVout p out in
      if err \<noteq> None \<or> length addrDesc = 0 \<or> length addrDesc > maxAddrDescLen then findOPReturn p outs addrDesc
      else if addrDesc ! 0 = 0x6a then addrDesc
      else findOPReturn p outs addrDesc)"

definition GetSPTDataFromDesc :: "bytes \<Rightarrow> bytes res" where
  "GetSPTDataFromDesc addrDesc =
     bindR (BitcoinLikeParser_GetScriptFromAddrDesc addrDesc) (\<lambda>script.
       case TryGetOPReturn script of None \<Rightarrow> Inl (ErrMsg ''OP_RETURN empty'') | Some sptData \<Rightarrow> Inr sptData)"

definition GetAssetAllocationFromData :: "SyscoinParser \<Rightarrow> bytes \<Rightarrow> int \<Rightarrow> (AssetOut list \<times> bytes) res" where
  "GetAssetAllocationFromData p sptData txVersion =
     bindR (wire_DeserializeAllocation (sys_wire p) sptData) (\<lambda>(assetAllocation, r).
       Inr (assetAllocation,
         if IsAssetAllocationTx txVersion \<and> txVersion \<noteq> SYSCOIN_TX_VERSION_ALLOCATION_BURN_TO_NEVM \<and>
            txVersion \<noteq> SYSCOIN_TX_VERSION_ALLOCATION_BURN_TO_SYSCOIN
         then take maxMemoLen r else []))"

definition GetAssetAllocationFromDesc :: "SyscoinParser \<Rightarrow> bytes \<Rightarrow> int \<Rightarrow> (AssetOut list \<times> bytes) res" where
  "GetAssetAllocationFromDesc p addrDesc txVersion =
     bindR (GetSPTDataFromDesc addrDesc) (\<lambda>sptData. GetAssetAllocationFromData p sptData txVersion)"

definition GetAllocationFromTx :: "SyscoinParser \<Rightarrow> Tx \<Rightarrow> (AssetOut list \<times> bytes) res" where
  "GetAllocationFromTx p tx = GetAssetAllocationFromDesc p (findOPReturn p (tx_Vout tx) []) (tx_Version tx)"

text \<open>\<open>LoadAssets\<close> changes the transaction in place, also when it fails at a later output; its callers
  drop the transaction on an error, except \<open>TxFromMsgTx\<close>.\<close>

fun loadValues :: "uint64 \<Rightarrow> AssetOutValue list \<Rightarrow> Vout list \<Rightarrow> Vout list \<times> error option" where
  "loadValues guid [] vouts = (vouts, None)"
| "loadValues guid (voutAsset # values) vouts =
     (if unat (aov_N voutAsset) \<ge> length vouts
      then (vouts, Some (ErrMsg ''asset allocation vout index out of range''))
      else
        let i = unat (aov_N voutAsset) in
        loadValues guid values
          (vouts[i := (vouts ! i)\<lparr>vout_AssetInfo :=
             Some \<lparr>ai_AssetGuid = guid, ai_ValueSat = Some (aov_ValueSat voutAsset)\<rparr>\<rparr>]))"

fun loadAllocation :: "AssetOut list \<Rightarrow> Vout list \<Rightarrow> Vout list \<times> error option" where
  "loadAllocation [] vouts = (vouts, None)"
| "loadAllocation (v # vs) vouts =
     (case loadValues (ao_AssetGuid v) (ao_Values v) vouts of
        (vouts, Some err) \<Rightarrow> (vouts, Some err)
      | (vouts, None) \<Rightarrow> loadAllocation vs vouts)"

definition LoadAssets :: "SyscoinParser \<Rightarrow> Tx \<Rightarrow> Tx \<times> error option" where
  "LoadAssets p tx =
     (if IsSyscoinTx (tx_Version tx) (tx_BlockHeight tx) then
        (case GetAllocationFromTx p tx of
           Inl err \<Rightarrow> (tx, Some err)
         | Inr (allocation, memo) \<Rightarrow>
             let (vouts, err) = loadAllocation allocation (tx_Vout tx) in
             (tx\<lparr>tx_Memo := memo, tx_Vout := vouts\<rparr>, err))
      else (tx, None))"

section \<open>Rows of the asset columns\<close>

definition PackAssetKey :: "vlq_lib \<Rightarrow> uint64 \<Rightarrow> uint32 \<Rightarrow> bytes" where
  "PackAssetKey v assetGuid height = BaseParser_PackVaruint64 v assetGuid @ BaseParser_PackUint (NOT height)"

definition UnpackAssetKey :: "vlq_lib \<Rightarrow> bytes \<Rightarrow> (uint64 \<times> uint32) option" where
  "UnpackAssetKey v buf =
     (let (assetGuid, l) = BaseParser_UnpackVaruint64 v buf in do {
        b \<leftarrow> slice_from buf l;
        height \<leftarrow> BaseParser_UnpackUint b;
        Some (assetGuid, NOT height)
      })"

definition appendTxAssetIndex :: "TxAssetIndex \<Rightarrow> bytes" where
  "appendTxAssetIndex t = BaseParser_PackUint (tai_Type t) @ tai_BtxID t"

definition PackAssetTxIndex :: "vlq_lib \<Rightarrow> TxAsset \<Rightarrow> bytes" where
  "PackAssetTxIndex v txAsset =
     BaseParser_PackVaruint v (of_nat (length (ta_AssetTxs txAsset))) @
     concat (map appendTxAssetIndex (ta_AssetTxs txAsset))"

definition unpackTxAssetIndex :: "bytes \<Rightarrow> (TxAssetIndex \<times> int) option" where
  "unpackTxAssetIndex buf = do {
     t \<leftarrow> BaseParser_UnpackUint buf;
     b \<leftarrow> slice buf 4 (4 + BaseParser_PackedTxidLen);
     Some (\<lparr>tai_Type = t, tai_BtxID = b\<rparr>, 4 + BaseParser_PackedTxidLen)
   }"

definition UnpackAssetTxIndex :: "vlq_lib \<Rightarrow> bytes \<Rightarrow> TxAssetIndex list option" where
  "UnpackAssetTxIndex v buf =
     (let (numTxIndexes, l) = BaseParser_UnpackVaruint v buf in do {
        (txAssetIndexes, _) \<leftarrow> unpack_n unpackTxAssetIndex (unat numTxIndexes) buf l;
        Some txAssetIndexes
      })"

definition PackAsset :: "SyscoinParser \<Rightarrow> Asset \<Rightarrow> bytes res" where
  "PackAsset p asset =
     bindR (wire_SerializeAsset (sys_wire p) (asset_AssetObj asset)) (\<lambda>buffer.
       Inr (BaseParser_PackVaruint (sys_vlq p) (ucast (asset_Transactions asset)) @
         BaseParser_PackVarBytes (sys_vlq p) (asset_MetaData asset) @ buffer))"

definition UnpackAsset :: "SyscoinParser \<Rightarrow> bytes \<Rightarrow> Asset res" where
  "UnpackAsset p buf =
     (let (transactions, l) = BaseParser_UnpackVaruint (sys_vlq p) buf in
      bindR (of_panic (slice_from buf l)) (\<lambda>b.
      bindR (of_panic (BaseParser_UnpackVarBytes (sys_vlq p) b)) (\<lambda>(metaData, ll).
      bindR (of_panic (slice_from buf (l + ll))) (\<lambda>r.
      bindR (wire_DeserializeAsset (sys_wire p) r) (\<lambda>assetObj.
        Inr \<lparr>asset_Transactions = ucast transactions, asset_AssetObj = assetObj, asset_MetaData = metaData\<rparr>)))))"

text \<open>The parser as the index sees it.\<close>

definition syscoinParserAssets :: "SyscoinParser \<Rightarrow> syscoinAssetParser" where
  "syscoinParserAssets p =
     \<lparr>sp_PackAssetKey = PackAssetKey (sys_vlq p),
      sp_UnpackAssetKey = UnpackAssetKey (sys_vlq p),
      sp_PackAssetTxIndex = PackAssetTxIndex (sys_vlq p),
      sp_UnpackAssetTxIndex = UnpackAssetTxIndex (sys_vlq p),
      sp_PackAsset = PackAsset p,
      sp_UnpackAsset = UnpackAsset p,
      sp_GetAssetsMaskFromVersion = GetAssetsMaskFromVersion\<rparr>"

section \<open>Serializers of transactions and balances\<close>

record sysTxInput =
  si_AddrDesc :: bytes
  si_ValueSat :: int
  si_AssetInfo :: "AssetInfo option"

record sysTxOutput =
  so_AddrDesc :: bytes
  so_Spent :: bool
  so_ValueSat :: int
  so_AssetInfo :: "AssetInfo option"

record sysTxAddresses =
  st_Version :: int
  st_Height :: uint32
  st_Inputs :: "sysTxInput list"
  st_Outputs :: "sysTxOutput list"
  st_Memo :: bytes

definition AppendAssetInfo :: "vlq_lib \<Rightarrow> AssetInfo \<Rightarrow> bytes" where
  "AppendAssetInfo v assetInfo =
     BaseParser_PackVaruint64 v (ai_AssetGuid assetInfo) @ BaseParser_PackBigint v (ai_ValueSat assetInfo)"

definition UnpackAssetInfo :: "vlq_lib \<Rightarrow> bytes \<Rightarrow> (AssetInfo \<times> int) option" where
  "UnpackAssetInfo v buf =
     (let (assetGuid, l) = BaseParser_UnpackVaruint64 v buf in do {
        b \<leftarrow> slice_from buf l;
        (valueSat, al) \<leftarrow> BaseParser_UnpackBigint v b;
        Some (\<lparr>ai_AssetGuid = assetGuid, ai_ValueSat = Some valueSat\<rparr>, l + al)
      })"

definition sys_appendTxInput :: "vlq_lib \<Rightarrow> sysTxInput \<Rightarrow> bytes" where
  "sys_appendTxInput v txi =
     BaseParser_PackVaruint v (of_nat (length (si_AddrDesc txi))) @ si_AddrDesc txi @
     BaseParser_PackBigint v (Some (si_ValueSat txi))"

definition sys_appendTxOutput :: "vlq_lib \<Rightarrow> sysTxOutput \<Rightarrow> bytes" where
  "sys_appendTxOutput v txo =
     (let addrDescLen = int (length (so_AddrDesc txo));
          addrDescLen = (if so_Spent txo then NOT addrDescLen else addrDescLen) in
      vlq_PutInt v addrDescLen @ so_AddrDesc txo @ BaseParser_PackBigint v (Some (so_ValueSat txo)))"

definition sys_unpackTxInput :: "vlq_lib \<Rightarrow> bytes \<Rightarrow> (sysTxInput \<times> int) option" where
  "sys_unpackTxInput v buf =
     (let (addrDescLen, offset) = BaseParser_UnpackVaruint v buf in do {
        a \<leftarrow> slice buf offset (offset + sint addrDescLen);
        let offset = offset + sint addrDescLen;
        b \<leftarrow> slice_from buf offset;
        (valueSat, valueLen) \<leftarrow> BaseParser_UnpackBigint v b;
        Some (\<lparr>si_AddrDesc = a, si_ValueSat = valueSat, si_AssetInfo = None\<rparr>, offset + valueLen)
      })"

definition sys_unpackTxOutput :: "vlq_lib \<Rightarrow> bytes \<Rightarrow> (sysTxOutput \<times> int) option" where
  "sys_unpackTxOutput v buf =
     (let (addrDescLen, offset) = vlq_Int v buf; spent = addrDescLen < 0;
          addrDescLen = (if spent then NOT addrDescLen else addrDescLen) in do {
        a \<leftarrow> slice buf offset (offset + addrDescLen);
        let offset = offset + addrDescLen;
        b \<leftarrow> slice_from buf offset;
        (valueSat, valueLen) \<leftarrow> BaseParser_UnpackBigint v b;
        Some (\<lparr>so_AddrDesc = a, so_Spent = spent, so_ValueSat = valueSat, so_AssetInfo = None\<rparr>, offset + valueLen)
      })"

text \<open>The flag and the asset information that follow every input, output and unspent output.\<close>

definition sys_appendFlagged :: "vlq_lib \<Rightarrow> AssetInfo option \<Rightarrow> bytes" where
  "sys_appendFlagged v assetInfo =
     (case assetInfo of
        Some a \<Rightarrow> BaseParser_PackVaruint v 1 @ AppendAssetInfo v a
      | None \<Rightarrow> BaseParser_PackVaruint v 0)"

definition sys_unpackFlagged :: "vlq_lib \<Rightarrow> bytes \<Rightarrow> (AssetInfo option \<times> int) option" where
  "sys_unpackFlagged v buf =
     (let (assetInfoFlag, l) = BaseParser_UnpackVaruint v buf in
      if assetInfoFlag = 1 then do {
        b \<leftarrow> slice_from buf l;
        (assetInfo, ll) \<leftarrow> UnpackAssetInfo v b;
        Some (Some assetInfo, l + ll)
      } else Some (None, l))"

definition PackTxAddresses :: "vlq_lib \<Rightarrow> sysTxAddresses \<Rightarrow> bytes" where
  "PackTxAddresses v ta =
     BaseParser_PackVaruint v (word_of_int (st_Version ta)) @
     BaseParser_PackVaruint v (ucast (st_Height ta)) @
     BaseParser_PackVaruint v (of_nat (length (st_Inputs ta))) @
     concat (map (\<lambda>ti. sys_appendTxInput v ti @ sys_appendFlagged v (si_AssetInfo ti)) (st_Inputs ta)) @
     BaseParser_PackVaruint v (of_nat (length (st_Outputs ta))) @
     concat (map (\<lambda>to. sys_appendTxOutput v to @ sys_appendFlagged v (so_AssetInfo to)) (st_Outputs ta)) @
     BaseParser_PackVarBytes v (st_Memo ta)"

definition sys_unpackInput :: "vlq_lib \<Rightarrow> bytes \<Rightarrow> (sysTxInput \<times> int) option" where
  "sys_unpackInput v buf = do {
     (ti, l) \<leftarrow> sys_unpackTxInput v buf;
     b \<leftarrow> slice_from buf l;
     (ai, ll) \<leftarrow> sys_unpackFlagged v b;
     Some (ti\<lparr>si_AssetInfo := ai\<rparr>, l + ll)
   }"

definition sys_unpackOutput :: "vlq_lib \<Rightarrow> bytes \<Rightarrow> (sysTxOutput \<times> int) option" where
  "sys_unpackOutput v buf = do {
     (to, l) \<leftarrow> sys_unpackTxOutput v buf;
     b \<leftarrow> slice_from buf l;
     (ai, ll) \<leftarrow> sys_unpackFlagged v b;
     Some (to\<lparr>so_AssetInfo := ai\<rparr>, l + ll)
   }"

definition UnpackTxAddresses :: "vlq_lib \<Rightarrow> bytes \<Rightarrow> sysTxAddresses option" where
  "UnpackTxAddresses v buf =
     (let (version, l) = BaseParser_UnpackVaruint v buf in do {
        b \<leftarrow> slice_from buf l;
        let (height, ll) = BaseParser_UnpackVaruint v b;
        let l = l + ll;
        b \<leftarrow> slice_from buf l;
        let (inputs, ll) = BaseParser_UnpackVaruint v b;
        let l = l + ll;
        (tis, l) \<leftarrow> unpack_n (sys_unpackInput v) (unat inputs) buf l;
        b \<leftarrow> slice_from buf l;
        let (outputs, ll) = BaseParser_UnpackVaruint v b;
        let l = l + ll;
        (tos, l) \<leftarrow> unpack_n (sys_unpackOutput v) (unat outputs) buf l;
        b \<leftarrow> slice_from buf l;
        (memo, _) \<leftarrow> BaseParser_UnpackVarBytes v b;
        Some \<lparr>st_Version = int32 (uint version), st_Height = ucast height, st_Inputs = tis, st_Outputs = tos,
           st_Memo = memo\<rparr>
      })"

record sysUtxo =
  su_BtxID :: bytes
  su_Vout :: int
  su_Height :: uint32
  su_ValueSat :: int
  su_AssetInfo :: "AssetInfo option"

record sysAddrBalance =
  sb_Txs :: uint32
  sb_SentSat :: int
  sb_BalanceSat :: int
  sb_Utxos :: "sysUtxo list"
  sb_AssetBalances :: "(uint64 \<times> AssetBalance) list"

definition AddUtxo :: "sysUtxo \<Rightarrow> sysAddrBalance \<Rightarrow> sysAddrBalance" where
  "AddUtxo u ab = ab\<lparr>sb_Utxos := sb_Utxos ab @ [u]\<rparr>"

definition sys_appendAssetBalance :: "vlq_lib \<Rightarrow> uint64 \<times> AssetBalance \<Rightarrow> bytes" where
  "sys_appendAssetBalance v kv =
     (case kv of (key, value) \<Rightarrow>
        BaseParser_PackVaruint64 v key @ BaseParser_PackBigint v (Some (ab_AssetBalanceSat value)) @
        BaseParser_PackBigint v (Some (ab_AssetSentSat value)) @
        BaseParser_PackVaruint v (ucast (ab_Transfers value)))"

definition sys_appendUtxo :: "vlq_lib \<Rightarrow> sysUtxo \<Rightarrow> bytes" where
  "sys_appendUtxo v utxo =
     (if su_Vout utxo \<ge> 0 then
        su_BtxID utxo @ BaseParser_PackVaruint v (word_of_int (su_Vout utxo)) @
        BaseParser_PackVaruint v (ucast (su_Height utxo)) @ BaseParser_PackBigint v (Some (su_ValueSat utxo)) @
        sys_appendFlagged v (su_AssetInfo utxo)
      else [])"

definition PackAddrBalance :: "vlq_lib \<Rightarrow> sysAddrBalance \<Rightarrow> bytes" where
  "PackAddrBalance v ab =
     BaseParser_PackVaruint v (ucast (sb_Txs ab)) @ BaseParser_PackBigint v (Some (sb_SentSat ab)) @
     BaseParser_PackBigint v (Some (sb_BalanceSat ab)) @
     BaseParser_PackVaruint v (of_nat (length (sb_AssetBalances ab))) @
     concat (map (sys_appendAssetBalance v) (sb_AssetBalances ab)) @
     concat (map (sys_appendUtxo v) (sb_Utxos ab))"

definition sys_unpackAssetBalance :: "vlq_lib \<Rightarrow> bytes \<Rightarrow> ((uint64 \<times> AssetBalance) \<times> int) option" where
  "sys_unpackAssetBalance v buf =
     (let (asset, l) = BaseParser_UnpackVaruint64 v buf in do {
        b \<leftarrow> slice_from buf l;
        (balancevalue, ll) \<leftarrow> BaseParser_UnpackBigint v b;
        let l = l + ll;
        b \<leftarrow> slice_from buf l;
        (sentvalue, ll) \<leftarrow> BaseParser_UnpackBigint v b;
        let l = l + ll;
        b \<leftarrow> slice_from buf l;
        let (transfers, ll) = BaseParser_UnpackVaruint v b;
        Some ((asset, \<lparr>ab_Transfers = ucast transfers, ab_AssetBalanceSat = balancevalue,
           ab_AssetSentSat = sentvalue\<rparr>), l + ll)
      })"

definition sys_unpackUtxo :: "vlq_lib \<Rightarrow> int \<Rightarrow> bytes \<Rightarrow> (sysUtxo \<times> int) option" where
  "sys_unpackUtxo v txidUnpackedLen buf = do {
     btxID \<leftarrow> slice buf 0 txidUnpackedLen;
     let l = txidUnpackedLen;
     b \<leftarrow> slice_from buf l;
     let (vout, ll) = BaseParser_UnpackVaruint v b;
     let l = l + ll;
     b \<leftarrow> slice_from buf l;
     let (height, ll) = BaseParser_UnpackVaruint v b;
     let l = l + ll;
     b \<leftarrow> slice_from buf l;
     (valueSat, ll) \<leftarrow> BaseParser_UnpackBigint v b;
     let l = l + ll;
     b \<leftarrow> slice_from buf l;
     (ai, ll) \<leftarrow> sys_unpackFlagged v b;
     Some (\<lparr>su_BtxID = btxID, su_Vout = int32 (uint vout), su_Height = ucast height, su_ValueSat = valueSat,
        su_AssetInfo = ai\<rparr>, l + ll)
   }"

text \<open>The loop over the unspent outputs ends when fewer than \<open>txidUnpackedLen + 4\<close> bytes are left; the
  counter is started with the length of the row, which bounds the number of rounds.\<close>

fun sys_unpackUtxos ::
    "nat \<Rightarrow> vlq_lib \<Rightarrow> int \<Rightarrow> AddressBalanceDetail \<Rightarrow> bytes \<Rightarrow> int \<Rightarrow> sysAddrBalance \<Rightarrow> sysAddrBalance option" where
  "sys_unpackUtxos fuel v txidUnpackedLen detail buf l ab = do {
     b \<leftarrow> slice_from buf l;
     if int (length b) \<ge> txidUnpackedLen + 4 then
       (case fuel of
          0 \<Rightarrow> None
        | Suc fuel \<Rightarrow> do {
            (u, ll) \<leftarrow> sys_unpackUtxo v txidUnpackedLen b;
            sys_unpackUtxos fuel v txidUnpackedLen detail buf (l + ll)
              (if detail = AddressBalanceDetailUTXO then ab\<lparr>sb_Utxos := sb_Utxos ab @ [u]\<rparr> else AddUtxo u ab)
          })
     else Some ab
   }"

declare sys_unpackUtxos.simps [simp del]

definition UnpackAddrBalance :: "vlq_lib \<Rightarrow> bytes \<Rightarrow> int \<Rightarrow> AddressBalanceDetail \<Rightarrow> sysAddrBalance option" where
  "UnpackAddrBalance v buf txidUnpackedLen detail =
     (let (txs, l) = BaseParser_UnpackVaruint v buf in do {
        b \<leftarrow> slice_from buf l;
        (sentSat, sl) \<leftarrow> BaseParser_UnpackBigint v b;
        b \<leftarrow> slice_from buf (l + sl);
        (balanceSat, bl) \<leftarrow> BaseParser_UnpackBigint v b;
        let l = l + sl + bl;
        b \<leftarrow> slice_from buf l;
        let (numAssetBalances, ll) = BaseParser_UnpackVaruint v b;
        (balances, l) \<leftarrow> unpack_n (sys_unpackAssetBalance v) (unat numAssetBalances) buf (l + ll);
        let ab = \<lparr>sb_Txs = ucast txs, sb_SentSat = sentSat, sb_BalanceSat = balanceSat, sb_Utxos = [],
                   sb_AssetBalances = foldl (\<lambda>m (g, a). AList.update g a m) [] balances\<rparr>;
        if detail \<noteq> AddressBalanceDetailNoUTXO then
          if txidUnpackedLen = 0 then None
          else sys_unpackUtxos (length buf) v txidUnpackedLen detail buf l ab
        else Some ab
      })"

section \<open>Rows of transaction indexes with assets\<close>

record TxIndexes =
  tx_Type :: uint32
  tx_BtxID :: bytes
  tx_Indexes :: "int list"
  tx_Assets :: "uint64 list"

definition PackedTxIndexLen :: int where
  "PackedTxIndexLen = BaseParser_PackedTxidLen + 1"

definition UnpackTxIndexType :: "vlq_lib \<Rightarrow> bytes \<Rightarrow> uint32 \<times> int" where
  "UnpackTxIndexType v buf = (let (maskUint, l) = BaseParser_UnpackVaruint v buf in (ucast maskUint, l))"

fun unpackGuids :: "nat \<Rightarrow> vlq_lib \<Rightarrow> uint64 list \<Rightarrow> bytes \<Rightarrow> (uint64 list \<times> bytes) option" where
  "unpackGuids 0 v assetGuids buf = Some (assetGuids, buf)"
| "unpackGuids (Suc n) v assetGuids buf =
     (let (assetGuidUint, l) = BaseParser_UnpackVaruint64 v buf in do {
        buf \<leftarrow> slice_from buf l;
        unpackGuids n v (assetGuids @ [assetGuidUint]) buf
      })"

definition UnpackTxIndexAssets :: "vlq_lib \<Rightarrow> uint64 list \<Rightarrow> bytes \<Rightarrow> (uint64 \<times> uint64 list \<times> bytes) option" where
  "UnpackTxIndexAssets v assetGuids buf =
     (let (numAssets, l) = BaseParser_UnpackVaruint v buf in do {
        buf \<leftarrow> slice_from buf l;
        (assetGuids, buf) \<leftarrow> unpackGuids (unat numAssets) v assetGuids buf;
        Some (numAssets, assetGuids, buf)
      })"

fun sys_packIndexes :: "vlq_lib \<Rightarrow> int list \<Rightarrow> bytes" where
  "sys_packIndexes v [] = []"
| "sys_packIndexes v [i] = BaseParser_PackVarint32 v (int32 (push_bit 1 i) OR 1)"
| "sys_packIndexes v (i # j # is) = BaseParser_PackVarint32 v (int32 (push_bit 1 i)) @ sys_packIndexes v (j # is)"

definition PackTxIndexes :: "vlq_lib \<Rightarrow> TxIndexes list \<Rightarrow> bytes" where
  "PackTxIndexes v txi =
     concat (map (\<lambda>t. BaseParser_PackVaruint v (ucast (tx_Type t)) @ tx_BtxID t @ sys_packIndexes v (tx_Indexes t) @
       BaseParser_PackVaruint v (of_nat (length (tx_Assets t))) @
       concat (map (BaseParser_PackVaruint64 v) (tx_Assets t))) (rev txi))"

end
