(* ===== verification/Golomb.thy ===== *)
theory Golomb
  imports Bchain
begin

text \<open>
  The filter of the address descriptors of a block or of a mempool transaction (\<open>src/bchain/golomb.go\<close>):
  which descriptors enter the filter, and with which parameters it is built. The construction of the
  Golomb-coded set itself is the parameter \<open>gcs_lib\<close>.

  A Go map with empty values is the list of its keys.
\<close>

section \<open>The filter\<close>

datatype FilterScriptsType =
    FilterScriptsInvalid | FilterScriptsAll | FilterScriptsTaproot | FilterScriptsTaprootNoOrdinals

record GolombFilter =
  gf_Enabled :: bool
  gf_UseZeroedKey :: bool
  gf_p :: byte
  gf_key :: string
  gf_filterScripts :: string
  gf_filterScriptsType :: FilterScriptsType
  gf_filterData :: "bytes list"
  gf_uniqueData :: "bytes list"
  gf_ordinalTxIds :: "string list"
  gf_allAddressDescriptors :: "(string \<times> bytes list) list"

definition ignoreNonTaproot :: "GolombFilter \<Rightarrow> bool" where
  "ignoreNonTaproot f \<longleftrightarrow>
     gf_filterScriptsType f = FilterScriptsTaproot \<or> gf_filterScriptsType f = FilterScriptsTaprootNoOrdinals"

definition ignoreOrdinals :: "GolombFilter \<Rightarrow> bool" where
  "ignoreOrdinals f \<longleftrightarrow> gf_filterScriptsType f = FilterScriptsTaprootNoOrdinals"

definition filterScriptsToScriptsType :: "string \<Rightarrow> FilterScriptsType" where
  "filterScriptsToScriptsType filterScripts =
     (if filterScripts = [] then FilterScriptsAll
      else if filterScripts = ''taproot'' then FilterScriptsTaproot
      else if filterScripts = ''taproot-noordinals'' then FilterScriptsTaprootNoOrdinals
      else FilterScriptsInvalid)"

definition NewGolombFilter :: "byte \<Rightarrow> string \<Rightarrow> string \<Rightarrow> bool \<Rightarrow> GolombFilter res" where
  "NewGolombFilter p filterScripts key useZeroedKey =
     (let gf = \<lparr>gf_Enabled = False, gf_UseZeroedKey = False, gf_p = 0, gf_key = [], gf_filterScripts = [],
            gf_filterScriptsType = FilterScriptsInvalid, gf_filterData = [], gf_uniqueData = [],
            gf_ordinalTxIds = [], gf_allAddressDescriptors = []\<rparr> in
      if p = 0 then Inr gf
      else
        let gf = gf\<lparr>gf_Enabled := True, gf_UseZeroedKey := useZeroedKey, gf_p := p, gf_key := key,
              gf_filterScripts := filterScripts,
              gf_filterScriptsType := filterScriptsToScriptsType filterScripts\<rparr> in
        if gf_filterScriptsType gf = FilterScriptsInvalid
        then Inl (ErrMsg ''Invalid/unsupported filterScripts parameter'')
        else Inr gf)"

definition GetGolombParamM :: "byte \<Rightarrow> uint64" where
  "GetGolombParamM p = push_bit (unat p) 1"

section \<open>Ordinals\<close>

fun bytes_contains :: "bytes \<Rightarrow> bytes \<Rightarrow> bool" where
  "bytes_contains [] pat \<longleftrightarrow> pat = []"
| "bytes_contains (b # bs) pat \<longleftrightarrow> take (length pat) (b # bs) = pat \<or> bytes_contains bs pat"

definition isInputOrdinal :: "Vin \<Rightarrow> bool" where
  "isInputOrdinal vin \<longleftrightarrow>
     length (vin_Witness vin) > 2 \<and>
     bytes_contains (vin_Witness vin ! 1) [0x00, 0x63, 0x03, 0x6f, 0x72, 0x64, 0x01]"

definition txContainsOrdinal :: "Tx \<Rightarrow> bool" where
  "txContainsOrdinal tx \<longleftrightarrow> list_ex isInputOrdinal (tx_Vin tx)"

definition markTxAndParentsAsOrdinals :: "Tx \<Rightarrow> GolombFilter \<Rightarrow> GolombFilter" where
  "markTxAndParentsAsOrdinals tx f =
     f\<lparr>gf_ordinalTxIds :=
         foldl (\<lambda>ids vin. List.insert (vin_Txid vin) ids) (List.insert (tx_Txid tx) (gf_ordinalTxIds f)) (tx_Vin tx)\<rparr>"

definition adsOf :: "(string \<times> bytes list) list \<Rightarrow> string \<Rightarrow> bytes list" where
  "adsOf m txid = (case map_of m txid of None \<Rightarrow> [] | Some ads \<Rightarrow> ads)"

definition addTxIdMapping :: "bytes \<Rightarrow> Tx \<Rightarrow> GolombFilter \<Rightarrow> GolombFilter" where
  "addTxIdMapping ad tx f =
     f\<lparr>gf_allAddressDescriptors :=
         AList.update (tx_Txid tx) (adsOf (gf_allAddressDescriptors f) (tx_Txid tx) @ [ad])
           (gf_allAddressDescriptors f)\<rparr>"

section \<open>Collecting descriptors\<close>

definition IsTaproot :: "bytes \<Rightarrow> bool" where
  "IsTaproot ad \<longleftrightarrow> length ad = 34 \<and> ad ! 0 = 0x51 \<and> ad ! 1 = 0x20"

definition includeAddrDesc :: "bytes \<Rightarrow> GolombFilter \<Rightarrow> GolombFilter" where
  "includeAddrDesc ad f =
     (if ad \<in> set (gf_uniqueData f) then f
      else f\<lparr>gf_filterData := gf_filterData f @ [ad], gf_uniqueData := List.insert ad (gf_uniqueData f)\<rparr>)"

definition AddAddrDesc :: "bytes \<Rightarrow> Tx option \<Rightarrow> GolombFilter \<Rightarrow> GolombFilter" where
  "AddAddrDesc ad tx f =
     (if ignoreNonTaproot f \<and> \<not> IsTaproot ad then f
      else if ignoreOrdinals f \<and> tx \<noteq> None \<and> txContainsOrdinal (the tx) then markTxAndParentsAsOrdinals (the tx) f
      else if ad = [] then f
      else if ignoreOrdinals f \<and> tx \<noteq> None then addTxIdMapping ad (the tx) f
      else includeAddrDesc ad f)"

definition includeAllAddressDescriptorsOrdinals :: "GolombFilter \<Rightarrow> GolombFilter" where
  "includeAllAddressDescriptorsOrdinals f =
     foldl (\<lambda>f (txid, ads).
         if txid \<in> set (gf_ordinalTxIds f) then f else foldl (\<lambda>f ad. includeAddrDesc ad f) f ads)
       f (gf_allAddressDescriptors f)"

section \<open>Building the filter\<close>

definition gcs_KeySize :: nat where
  "gcs_KeySize = 16"

definition Compute :: "gcs_lib \<Rightarrow> GolombFilter \<Rightarrow> GolombFilter \<times> bytes" where
  "Compute gcs f =
     (let m = GetGolombParamM (gf_p f);
          f = (if ignoreOrdinals f then includeAllAddressDescriptorsOrdinals f else f) in
      (f,
       if gf_filterData f = [] then []
       else
         let b = hex_decode_prefix (gf_key f) in
         if \<not> gf_UseZeroedKey f \<and> length b < gcs_KeySize then []
         else
           let key = (if gf_UseZeroedKey f then replicate gcs_KeySize 0 else take gcs_KeySize b) in
           (case gcs_BuildGCSFilter gcs (gf_p f) m key (gf_filterData f) of
              Inl err \<Rightarrow> []
            | Inr flt \<Rightarrow>
                (case gcs_NBytes gcs flt of Inl err \<Rightarrow> [] | Inr fb \<Rightarrow> fb))))"

section \<open>Lemmas\<close>

text \<open>The type of the scripts does not change, and the data are the keys of the map, each once.\<close>

definition golomb_wf :: "GolombFilter \<Rightarrow> bool" where
  "golomb_wf f \<longleftrightarrow> distinct (gf_filterData f) \<and> set (gf_filterData f) = set (gf_uniqueData f)"

lemma includeAddrDesc_data:
  "golomb_wf f \<Longrightarrow> golomb_wf (includeAddrDesc ad f)"
  "golomb_wf f \<Longrightarrow> set (gf_filterData (includeAddrDesc ad f)) = insert ad (set (gf_filterData f))"
  "gf_ordinalTxIds (includeAddrDesc ad f) = gf_ordinalTxIds f"
  "gf_allAddressDescriptors (includeAddrDesc ad f) = gf_allAddressDescriptors f"
  "gf_filterScriptsType (includeAddrDesc ad f) = gf_filterScriptsType f"
  by (auto simp: includeAddrDesc_def golomb_wf_def)

lemma include_list:
  "golomb_wf f \<Longrightarrow> golomb_wf (foldl (\<lambda>f ad. includeAddrDesc ad f) f ads) \<and>
     set (gf_filterData (foldl (\<lambda>f ad. includeAddrDesc ad f) f ads)) = set ads \<union> set (gf_filterData f)"
  "gf_ordinalTxIds (foldl (\<lambda>f ad. includeAddrDesc ad f) f ads) = gf_ordinalTxIds f"
  by (induction ads arbitrary: f) (auto simp: includeAddrDesc_data)

lemma include_all:
  assumes "golomb_wf f"
  shows "golomb_wf (includeAllAddressDescriptorsOrdinals f) \<and>
    set (gf_filterData (includeAllAddressDescriptorsOrdinals f)) =
      set (gf_filterData f) \<union>
      \<Union> (set ` {ads. \<exists>txid. (txid, ads) \<in> set (gf_allAddressDescriptors f) \<and> txid \<notin> set (gf_ordinalTxIds f)})"
proof -
  let ?step = "\<lambda>f (txid, ads).
    if txid \<in> set (gf_ordinalTxIds f) then f else foldl (\<lambda>f ad. includeAddrDesc ad f) f ads"
  have "golomb_wf (foldl ?step f m) \<and> set (gf_filterData (foldl ?step f m)) = set (gf_filterData f) \<union>
      \<Union> (set ` {ads. \<exists>txid. (txid, ads) \<in> set m \<and> txid \<notin> set (gf_ordinalTxIds f)})" for m
    using assms
  proof (induction m arbitrary: f)
    case (Cons ta m)
    obtain t ads where ta: "ta = (t, ads)" by fastforce
    have o: "gf_ordinalTxIds (?step f ta) = gf_ordinalTxIds f"
      by (simp add: ta include_list)
    have w: "golomb_wf (?step f ta)" "set (gf_filterData (?step f ta)) =
        (if t \<in> set (gf_ordinalTxIds f) then {} else set ads) \<union> set (gf_filterData f)"
      using include_list(1) [OF Cons.prems, of ads] Cons.prems by (simp_all add: ta)
    show ?case
      unfolding foldl.simps using Cons.IH [OF w(1)] unfolding o w(2) by (auto simp: ta)
  qed simp
  then show ?thesis by (simp add: includeAllAddressDescriptorsOrdinals_def)
qed

section \<open>What the filter contains\<close>

text \<open>
  The contract: the descriptors of the calls that the type of scripts admits. With ordinals ignored, the
  transactions with an inscription and those they spend are left out, in whichever order they come.
\<close>

type_synonym addCall = "bytes \<times> Tx option"

definition collectCalls :: "GolombFilter \<Rightarrow> addCall list \<Rightarrow> GolombFilter" where
  "collectCalls f calls = foldl (\<lambda>f (ad, tx). AddAddrDesc ad tx f) f calls"

definition ordinalIds :: "addCall list \<Rightarrow> string set" where
  "ordinalIds calls =
     {i. \<exists>ad tx. (ad, Some tx) \<in> set calls \<and> IsTaproot ad \<and> txContainsOrdinal tx \<and>
        i \<in> insert (tx_Txid tx) (vin_Txid ` set (tx_Vin tx))}"

fun filterSpec :: "FilterScriptsType \<Rightarrow> addCall list \<Rightarrow> bytes set" where
  "filterSpec FilterScriptsInvalid calls = {}"
| "filterSpec FilterScriptsAll calls = {ad. ad \<noteq> [] \<and> (\<exists>tx. (ad, tx) \<in> set calls)}"
| "filterSpec FilterScriptsTaproot calls = {ad. IsTaproot ad \<and> (\<exists>tx. (ad, tx) \<in> set calls)}"
| "filterSpec FilterScriptsTaprootNoOrdinals calls =
     {ad. IsTaproot ad \<and>
        ((ad, None) \<in> set calls \<or> (\<exists>tx. (ad, Some tx) \<in> set calls \<and> tx_Txid tx \<notin> ordinalIds calls))}"

lemma IsTaproot_neq_Nil: "IsTaproot ad \<Longrightarrow> ad \<noteq> []"
  by (auto simp: IsTaproot_def)

lemma collectCalls_snoc [simp]: "collectCalls f (calls @ [(ad, tx)]) = AddAddrDesc ad tx (collectCalls f calls)"
  by (simp add: collectCalls_def)

lemma collectCalls_Nil [simp]: "collectCalls f [] = f"
  by (simp add: collectCalls_def)

lemma AddAddrDesc_type: "gf_filterScriptsType (AddAddrDesc ad tx f) = gf_filterScriptsType f"
  by (simp add: AddAddrDesc_def markTxAndParentsAsOrdinals_def addTxIdMapping_def includeAddrDesc_data)

lemma collect_type: "gf_filterScriptsType (collectCalls f calls) = gf_filterScriptsType f"
  by (induction calls rule: rev_induct) (auto simp: AddAddrDesc_type split: prod.splits)

lemma AddAddrDesc_plain:
  "gf_filterScriptsType f = FilterScriptsAll \<Longrightarrow> AddAddrDesc ad tx f = (if ad = [] then f else includeAddrDesc ad f)"
  "gf_filterScriptsType f = FilterScriptsTaproot \<Longrightarrow>
     AddAddrDesc ad tx f = (if IsTaproot ad then includeAddrDesc ad f else f)"
  using IsTaproot_neq_Nil [of ad] by (simp_all add: AddAddrDesc_def ignoreNonTaproot_def ignoreOrdinals_def)

lemma collect_all:
  assumes "golomb_wf f" "gf_filterData f = []" and "gf_filterScriptsType f = FilterScriptsAll"
  shows "golomb_wf (collectCalls f calls) \<and> set (gf_filterData (collectCalls f calls)) = filterSpec FilterScriptsAll calls"
proof (induction calls rule: rev_induct)
  case (snoc c calls)
  obtain ad tx where c: "c = (ad, tx)" by fastforce
  note AddAddrDesc_plain(1) [of "collectCalls f calls" ad tx] collect_type [of f calls]
  with snoc show ?case by (auto simp: c assms(3) includeAddrDesc_data)
qed (simp add: assms)

lemma collect_taproot:
  assumes "golomb_wf f" "gf_filterData f = []" and "gf_filterScriptsType f = FilterScriptsTaproot"
  shows "golomb_wf (collectCalls f calls) \<and> set (gf_filterData (collectCalls f calls)) = filterSpec FilterScriptsTaproot calls"
proof (induction calls rule: rev_induct)
  case (snoc c calls)
  obtain ad tx where c: "c = (ad, tx)" by fastforce
  note AddAddrDesc_plain(2) [of "collectCalls f calls" ad tx] collect_type [of f calls]
  with snoc show ?case by (auto simp: c assms(3) includeAddrDesc_data)
qed (simp add: assms)

lemma insert_fold: "set (foldl (\<lambda>ids vin. List.insert (g vin) ids) ids vins) = g ` set vins \<union> set ids"
  by (induction vins arbitrary: ids) auto

lemma adsOf_update: "adsOf (AList.update k v m) k' = (if k' = k then v else adsOf m k')"
  by (simp add: adsOf_def)

lemma collect_noordinals:
  assumes "golomb_wf f" "gf_filterData f = []" "gf_ordinalTxIds f = []" "gf_allAddressDescriptors f = []"
    and "gf_filterScriptsType f = FilterScriptsTaprootNoOrdinals"
  shows "golomb_wf (collectCalls f calls) \<and>
    set (gf_filterData (collectCalls f calls)) = {ad. IsTaproot ad \<and> (ad, None) \<in> set calls} \<and>
    set (gf_ordinalTxIds (collectCalls f calls)) = ordinalIds calls \<and>
    distinct (map fst (gf_allAddressDescriptors (collectCalls f calls))) \<and>
    (\<forall>txid ad. ad \<in> set (adsOf (gf_allAddressDescriptors (collectCalls f calls)) txid) \<longleftrightarrow>
       IsTaproot ad \<and> (\<exists>tx. (ad, Some tx) \<in> set calls \<and> \<not> txContainsOrdinal tx \<and> tx_Txid tx = txid))"
proof (induction calls rule: rev_induct)
  case Nil
  show ?case using assms by (simp add: ordinalIds_def adsOf_def)
next
  case (snoc c calls)
  obtain ad tx where c: "c = (ad, tx)" by fastforce
  let ?f = "collectCalls f calls"
  have t: "gf_filterScriptsType ?f = FilterScriptsTaprootNoOrdinals"
    using collect_type assms(5) by simp
  have oi: "ordinalIds (calls @ [c]) = ordinalIds calls \<union>
      {i. \<exists>tx'. tx = Some tx' \<and> IsTaproot ad \<and> txContainsOrdinal tx' \<and> i \<in> insert (tx_Txid tx') (vin_Txid ` set (tx_Vin tx'))}"
    unfolding ordinalIds_def c by auto
  consider "\<not> IsTaproot ad" | "IsTaproot ad" "tx = None"
    | tx' where "IsTaproot ad" "tx = Some tx'" "txContainsOrdinal tx'"
    | tx' where "IsTaproot ad" "tx = Some tx'" "\<not> txContainsOrdinal tx'"
    by (cases tx) blast+
  then show ?case
  proof cases
    case 1
    then have "collectCalls f (calls @ [c]) = ?f" using t by (simp add: c AddAddrDesc_def ignoreNonTaproot_def)
    with snoc 1 oi show ?thesis by (auto simp: c)
  next
    case 2
    then have "collectCalls f (calls @ [c]) = includeAddrDesc ad ?f"
      using t IsTaproot_neq_Nil by (auto simp: c AddAddrDesc_def ignoreNonTaproot_def ignoreOrdinals_def)
    with snoc 2 oi show ?thesis by (auto simp: c includeAddrDesc_data)
  next
    case 3
    then have "collectCalls f (calls @ [c]) = markTxAndParentsAsOrdinals tx' ?f"
      using t by (simp add: c AddAddrDesc_def ignoreNonTaproot_def ignoreOrdinals_def)
    with snoc 3 oi show ?thesis
      by (auto simp: c markTxAndParentsAsOrdinals_def golomb_wf_def insert_fold)
  next
    case 4
    then have "collectCalls f (calls @ [c]) = addTxIdMapping ad tx' ?f"
      using t IsTaproot_neq_Nil by (auto simp: c AddAddrDesc_def ignoreNonTaproot_def ignoreOrdinals_def)
    with snoc 4 oi show ?thesis
      by (auto simp: c addTxIdMapping_def golomb_wf_def adsOf_update)
  qed
qed

text \<open>C22: The block and mempool filters contain exactly the descriptors their configuration admits, each once: all
  of them, only those of taproot outputs, or those of taproot outputs of transactions that neither contain an
  inscription nor are spent by one that does, independent of the order in which descriptors are added.\<close>

theorem golomb_filter_data:
  assumes "NewGolombFilter p scripts key zeroed = Inr f" and "gf_Enabled f"
  shows "distinct (gf_filterData (fst (Compute gcs (collectCalls f calls)))) \<and>
    set (gf_filterData (fst (Compute gcs (collectCalls f calls)))) =
      filterSpec (filterScriptsToScriptsType scripts) calls"
proof -
  let ?t = "filterScriptsToScriptsType scripts"
  have f: "golomb_wf f" "gf_filterData f = []" "gf_ordinalTxIds f = []" "gf_allAddressDescriptors f = []"
    "gf_filterScriptsType f = ?t" "?t \<noteq> FilterScriptsInvalid"
    using assms by (auto simp: NewGolombFilter_def Let_def golomb_wf_def split: if_splits)
  show ?thesis
  proof (cases "?t = FilterScriptsTaprootNoOrdinals")
    case False
    then have "golomb_wf (collectCalls f calls) \<and> set (gf_filterData (collectCalls f calls)) = filterSpec ?t calls"
      using f collect_all [OF f(1,2), of calls] collect_taproot [OF f(1,2), of calls] by (cases ?t) simp_all
    with collect_type [of f calls] False show ?thesis
      by (auto simp: Compute_def ignoreOrdinals_def golomb_wf_def f(5) Let_def)
  next
    case True
    let ?f = "collectCalls f calls" let ?m = "gf_allAddressDescriptors ?f"
    note c = collect_noordinals [OF f(1-4), unfolded f(5), OF True, of calls]
    have ads: "(txid, ads) \<in> set ?m \<longleftrightarrow> map_of ?m txid = Some ads" for txid ads
      using c by (simp add: map_of_eq_Some_iff)
    have mem: "(\<exists>ads. map_of ?m txid = Some ads \<and> ad \<in> set ads) \<longleftrightarrow>
        IsTaproot ad \<and> (\<exists>tx. (ad, Some tx) \<in> set calls \<and> \<not> txContainsOrdinal tx \<and> tx_Txid tx = txid)" for ad txid
    proof -
      have "(\<exists>ads. map_of ?m txid = Some ads \<and> ad \<in> set ads) \<longleftrightarrow>
          ad \<in> set (adsOf ?m txid)"
        by (cases "map_of ?m txid") (auto simp: adsOf_def)
      then show ?thesis using c by simp
    qed
    have o: "\<not> txContainsOrdinal tx" if "IsTaproot ad" "(ad, Some tx) \<in> set calls" "tx_Txid tx \<notin> ordinalIds calls" for ad tx
      using that unfolding ordinalIds_def by blast
    have "\<Union> (set ` {ads. \<exists>txid. (txid, ads) \<in> set ?m \<and> txid \<notin> set (gf_ordinalTxIds ?f)}) =
        {ad. IsTaproot ad \<and> (\<exists>tx. (ad, Some tx) \<in> set calls \<and> tx_Txid tx \<notin> ordinalIds calls)}"
      (is "?L = ?R")
    proof (rule set_eqI)
      fix ad
      have oc: "set (gf_ordinalTxIds ?f) = ordinalIds calls" using c by blast
      have "ad \<in> ?L \<longleftrightarrow> (\<exists>txid. (\<exists>ads. map_of ?m txid = Some ads \<and> ad \<in> set ads) \<and> txid \<notin> ordinalIds calls)"
        unfolding oc ads by blast
      also have "\<dots> \<longleftrightarrow> IsTaproot ad \<and>
          (\<exists>tx. (ad, Some tx) \<in> set calls \<and> \<not> txContainsOrdinal tx \<and> tx_Txid tx \<notin> ordinalIds calls)"
        unfolding mem by blast
      also have "\<dots> \<longleftrightarrow> ad \<in> ?R" using o [of ad] by auto
      finally show "ad \<in> ?L \<longleftrightarrow> ad \<in> ?R" .
    qed
    moreover have w: "golomb_wf ?f" using c by blast
    ultimately have "set (gf_filterData (includeAllAddressDescriptorsOrdinals ?f)) =
        filterSpec FilterScriptsTaprootNoOrdinals calls"
      using include_all [OF w] c by auto
    moreover have "distinct (gf_filterData (includeAllAddressDescriptorsOrdinals ?f))"
      using include_all [OF w] by (simp add: golomb_wf_def)
    moreover have "fst (Compute gcs ?f) = includeAllAddressDescriptorsOrdinals ?f"
      using collect_type [of f calls] True by (simp add: Compute_def ignoreOrdinals_def f(5) Let_def)
    ultimately show ?thesis using True by simp
  qed
qed

definition demoFilterTx :: "string \<Rightarrow> string \<Rightarrow> bytes list \<Rightarrow> Tx" where
  "demoFilterTx txid parent witness =
     \<lparr>tx_Hex = [], tx_Txid = txid, tx_Version = 1, tx_LockTime = 0, tx_VSize = 0,
      tx_Vin = [\<lparr>vin_Coinbase = [], vin_Txid = parent, vin_Vout = 0, vin_ScriptSigHex = [], vin_Sequence = 0,
        vin_Addresses = [], vin_Witness = witness\<rparr>],
      tx_Vout = [], tx_BlockHeight = 0, tx_Confirmations = 0, tx_Time = 0, tx_Blocktime = 0, tx_Memo = []\<rparr>"

lemma demoFilterTx_simps [simp]:
  "tx_Txid (demoFilterTx txid parent witness) = txid"
  "vin_Txid ` set (tx_Vin (demoFilterTx txid parent witness)) = {parent}"
  by (simp_all add: demoFilterTx_def)

lemma ordinalIds_Nil [simp]: "ordinalIds [] = {}"
  by (simp add: ordinalIds_def)

lemma ordinalIds_Cons:
  "ordinalIds ((ad, tx) # calls) =
     (case tx of
        None \<Rightarrow> {}
      | Some t \<Rightarrow>
          if IsTaproot ad \<and> txContainsOrdinal t then insert (tx_Txid t) (vin_Txid ` set (tx_Vin t)) else {}) \<union>
     ordinalIds calls"
  unfolding ordinalIds_def by (cases tx) auto

theorem golomb_filter_data_witness:
  "\<exists>f. NewGolombFilter 20 ''taproot-noordinals'' [] True = Inr f \<and>
    set (gf_filterData (fst (Compute \<lparr>gcs_BuildGCSFilter = (\<lambda>p m key data. Inr key), gcs_NBytes = Inr\<rparr> (collectCalls f
      [(0x51 # 0x20 # replicate 32 1, Some (demoFilterTx ''a'' ''x'' [])),
       (0x51 # 0x20 # replicate 32 2, Some (demoFilterTx ''b'' ''y'' [])),
       (0x51 # 0x20 # replicate 32 3, Some (demoFilterTx ''c'' ''a'' [[], [0x00, 0x63, 0x03, 0x6f, 0x72, 0x64, 0x01], []]))]))))
      = {0x51 # 0x20 # replicate 32 2}"
proof -
  let ?calls = "[(0x51 # 0x20 # replicate 32 1, Some (demoFilterTx ''a'' ''x'' [])),
       (0x51 # 0x20 # replicate 32 2, Some (demoFilterTx ''b'' ''y'' [])),
       (0x51 # 0x20 # replicate 32 3, Some (demoFilterTx ''c'' ''a'' [[], [0x00, 0x63, 0x03, 0x6f, 0x72, 0x64, 0x01], []]))]"
  have tt: "filterScriptsToScriptsType ''taproot-noordinals'' = FilterScriptsTaprootNoOrdinals" by code_simp
  obtain f where f: "NewGolombFilter 20 ''taproot-noordinals'' [] True = Inr f" "gf_Enabled f"
    by (simp add: NewGolombFilter_def Let_def tt)
  have t: "IsTaproot (0x51 # 0x20 # replicate 32 b)" for b by (simp add: IsTaproot_def)
  have n: "\<not> txContainsOrdinal (demoFilterTx ''a'' ''x'' [])" "\<not> txContainsOrdinal (demoFilterTx ''b'' ''y'' [])"
    "txContainsOrdinal (demoFilterTx ''c'' ''a'' [[], [0x00, 0x63, 0x03, 0x6f, 0x72, 0x64, 0x01], []])"
    by code_simp+
  have o: "ordinalIds ?calls = {''c'', ''a''}"
    by (simp add: ordinalIds_Cons n t)
  have "filterSpec FilterScriptsTaprootNoOrdinals ?calls = {0x51 # 0x20 # replicate 32 2}"
    unfolding filterSpec.simps o using t [of 2] by auto
  then show ?thesis
    using golomb_filter_data [OF f, of "\<lparr>gcs_BuildGCSFilter = (\<lambda>p m key data. Inr key), gcs_NBytes = Inr\<rparr>" ?calls] f(1)
    by (intro exI [of _ f]) (simp only: tt simp_thms)
qed

end
