(* ===== verification/Connect.thy ===== *)
theory Connect
  imports Assets Golomb
begin

text \<open>
  Connecting a block of a Bitcoin-type chain (\<open>src/db/rocksdb.go\<close>): first all outputs of the block, so
  that its inputs can refer to them, then the inputs, and the rows that the block adds to the write batch.

  The transactions of the block are shared by pointer between the list of the block and the map by
  transaction id, so the rows of transactions live in an explicit heap: a list, indexed by the
  order of allocation. With a transaction id that occurs twice in a block, the map refers to the
  later one. Balances have no second reference and are values of the map.
\<close>

section \<open>The state\<close>

definition maxAddrDescLen :: nat where
  "maxAddrDescLen = 1024"

record connectBlockStats =
  cbs_txAddressesHit :: int
  cbs_txAddressesMiss :: int
  cbs_balancesHit :: int
  cbs_balancesMiss :: int

record connectState =
  cs_heap :: "TxAddresses list"
  cs_txAddressesMap :: "(bytes \<times> nat) list"
  cs_blockTxs :: "(bytes \<times> nat) list"
  cs_balances :: "(bytes \<times> AddrBalance) list"
  cs_addresses :: addressesMap
  cs_gf :: "GolombFilter option"
  cs_assets :: assetState
  cs_cbs :: connectBlockStats

definition GetAndResetConnectBlockStats :: "connectBlockStats \<Rightarrow> connectBlockStats \<times> connectBlockStats" where
  "GetAndResetConnectBlockStats cbs =
     (cbs, \<lparr>cbs_txAddressesHit = 0, cbs_txAddressesMiss = 0, cbs_balancesHit = 0, cbs_balancesMiss = 0\<rparr>)"

text \<open>Access through pointers to elements of the heap.\<close>

definition setOutput :: "nat \<Rightarrow> nat \<Rightarrow> (TxOutput \<Rightarrow> TxOutput) \<Rightarrow> connectState \<Rightarrow> connectState" where
  "setOutput a i f st =
     (let ta = cs_heap st ! a in
      st\<lparr>cs_heap := (cs_heap st)[a := ta\<lparr>ta_Outputs := (ta_Outputs ta)[i := f (ta_Outputs ta ! i)]\<rparr>]\<rparr>)"

definition setInput :: "nat \<Rightarrow> nat \<Rightarrow> (TxInput \<Rightarrow> TxInput) \<Rightarrow> connectState \<Rightarrow> connectState" where
  "setInput a i f st =
     (let ta = cs_heap st ! a in
      st\<lparr>cs_heap := (cs_heap st)[a := ta\<lparr>ta_Inputs := (ta_Inputs ta)[i := f (ta_Inputs ta ! i)]\<rparr>]\<rparr>)"

definition filterAdd :: "bytes \<Rightarrow> Tx \<Rightarrow> connectState \<Rightarrow> connectState" where
  "filterAdd addrDesc tx st = st\<lparr>cs_gf := map_option (AddAddrDesc addrDesc (Some tx)) (cs_gf st)\<rparr>"

definition putBalance :: "bytes \<Rightarrow> AddrBalance \<Rightarrow> connectState \<Rightarrow> connectState" where
  "putBalance addrDesc balance st = st\<lparr>cs_balances := AList.update addrDesc balance (cs_balances st)\<rparr>"

text \<open>The balance of an address: from the map of the block, otherwise from the database, otherwise a new one.\<close>

definition loadBalance :: "RocksDB \<Rightarrow> view \<Rightarrow> bytes \<Rightarrow> connectState \<Rightarrow> (AddrBalance \<times> connectState) res" where
  "loadBalance d get addrDesc st =
     (case map_of (cs_balances st) addrDesc of
        Some balance \<Rightarrow>
          Inr (balance, st\<lparr>cs_cbs := (cs_cbs st)\<lparr>cbs_balancesHit := cbs_balancesHit (cs_cbs st) + 1\<rparr>\<rparr>)
      | None \<Rightarrow>
          bindR (GetAddrDescBalance d get addrDesc addressBalanceDetailUTXOIndexed) (\<lambda>bal.
            let balance = (case bal of None \<Rightarrow> zeroAddrBalance | Some b \<Rightarrow> b) in
            Inr (balance, putBalance addrDesc balance
              (st\<lparr>cs_cbs := (cs_cbs st)\<lparr>cbs_balancesMiss := cbs_balancesMiss (cs_cbs st) + 1\<rparr>\<rparr>))))"

text \<open>The balance of an asset within a balance, created where it is missing.\<close>

definition assetBalanceOf :: "AddrBalance \<Rightarrow> uint64 \<Rightarrow> AssetBalance" where
  "assetBalanceOf balance guid =
     (case map_of (ab_AssetBalances balance) guid of
        None \<Rightarrow> \<lparr>ab_Transfers = 0, ab_AssetBalanceSat = 0, ab_AssetSentSat = 0\<rparr>
      | Some b \<Rightarrow> b)"

definition putAssetBalance :: "uint64 \<Rightarrow> AssetBalance \<Rightarrow> AddrBalance \<Rightarrow> AddrBalance" where
  "putAssetBalance guid b balance =
     balance\<lparr>ab_AssetBalances := AList.update guid b (ab_AssetBalances balance)\<rparr>"

definition resetValueSatToZero :: "int \<Rightarrow> int" where
  "resetValueSatToZero valueSat = 0"

section \<open>Outputs\<close>

definition connectOutputAsset ::
    "RocksDB \<Rightarrow> view \<Rightarrow> Block \<Rightarrow> Tx \<Rightarrow> bytes \<Rightarrow> bytes \<Rightarrow> AssetInfo option \<Rightarrow> AddrBalance \<times> connectState \<Rightarrow>
     (AddrBalance \<times> connectState) res" where
  "connectOutputAsset d get block tx b addrDesc assetInfo bst =
     (case bst of (balance, st) \<Rightarrow>
        (case assetInfo of
           None \<Rightarrow> Inr (balance, st)
         | Some ai \<Rightarrow>
             bindR (ConnectAllocationOutput d get addrDesc (block_Height block)
                 (assetBalanceOf balance (ai_AssetGuid ai)) (tx_Version tx) b ai (cs_assets st)) (\<lambda>(balanceAsset, as).
               Inr (putAssetBalance (ai_AssetGuid ai) balanceAsset balance, st\<lparr>cs_assets := as\<rparr>))))"

definition processOutput ::
    "RocksDB \<Rightarrow> view \<Rightarrow> Block \<Rightarrow> Tx \<Rightarrow> bytes \<Rightarrow> nat \<Rightarrow> nat \<times> Vout \<Rightarrow> connectState \<Rightarrow> connectState res" where
  "processOutput d get block tx b a iout st =
     (case iout of (i, out) \<Rightarrow>
        let st = setOutput a i (\<lambda>tao. tao\<lparr>to_ValueSat := vout_ValueSat out, to_AssetInfo := vout_AssetInfo out\<rparr>) st in
        (case p_GetAddrDescFromVout (d_chainParser d) out of
           Inl Panic \<Rightarrow> Inl Panic
         | Inl err \<Rightarrow> Inr st
         | Inr addrDesc \<Rightarrow>
             if length addrDesc = 0 \<or> length addrDesc > maxAddrDescLen then Inr st
             else
               let st = filterAdd addrDesc tx st;
                   st = setOutput a i (\<lambda>tao. tao\<lparr>to_AddrDesc := addrDesc\<rparr>) st in
               if p_IsAddrDescIndexable (d_chainParser d) addrDesc then
                 bindR (loadBalance d get addrDesc st) (\<lambda>(balance, st).
                 bindR (connectOutputAsset d get block tx b addrDesc (vout_AssetInfo out)
                     (balance\<lparr>ab_BalanceSat := ab_BalanceSat balance + vout_ValueSat out\<rparr>, st)) (\<lambda>(balance, st).
                   let balance = addUtxo \<lparr>u_BtxID = b, u_Vout = int32 (int i), u_Height = block_Height block,
                         u_ValueSat = vout_ValueSat out, u_AssetInfo = vout_AssetInfo out\<rparr> balance;
                       (addresses, counted) = addToAddressesMap (cs_addresses st) addrDesc b (int32 (int i));
                       balance = (if counted then balance else balance\<lparr>ab_Txs := ab_Txs balance + 1\<rparr>) in
                   Inr (putBalance addrDesc balance (st\<lparr>cs_addresses := addresses\<rparr>))))
               else Inr st))"

definition newTxAddresses :: "RocksDB \<Rightarrow> Block \<Rightarrow> Tx \<Rightarrow> TxAddresses" where
  "newTxAddresses d block tx =
     zeroTxAddresses\<lparr>ta_Height := block_Height block, ta_Version := tx_Version tx, ta_Memo := tx_Memo tx,
       ta_VSize := (if d_extendedIndex d then
                      (if tx_VSize tx > 0 then word_of_int (tx_VSize tx) else of_nat (length (tx_Hex tx)))
                    else 0),
       ta_Outputs := replicate (length (tx_Vout tx)) zeroTxOutput\<rparr>"

definition processTxOutputs ::
    "RocksDB \<Rightarrow> view \<Rightarrow> Block \<Rightarrow> Tx \<Rightarrow> connectState \<Rightarrow> connectState res" where
  "processTxOutputs d get block tx st =
     bindR (p_PackTxid (d_chainParser d) (tx_Txid tx)) (\<lambda>b.
       let a = length (cs_heap st);
           st = st\<lparr>cs_heap := cs_heap st @ [newTxAddresses d block tx],
                   cs_txAddressesMap := AList.update b a (cs_txAddressesMap st),
                   cs_blockTxs := cs_blockTxs st @ [(b, a)]\<rparr> in
       foldR (processOutput d get block tx b a) (enumerate 0 (tx_Vout tx)) st)"

section \<open>Inputs\<close>

text \<open>The transaction that an input spends: of this block, loaded before, or read from the database.\<close>

definition findSpentTx :: "RocksDB \<Rightarrow> view \<Rightarrow> bytes \<Rightarrow> connectState \<Rightarrow> (nat option \<times> connectState) res" where
  "findSpentTx d get b st =
     (case map_of (cs_txAddressesMap st) b of
        Some a \<Rightarrow>
          Inr (Some a, st\<lparr>cs_cbs := (cs_cbs st)\<lparr>cbs_txAddressesHit := cbs_txAddressesHit (cs_cbs st) + 1\<rparr>\<rparr>)
      | None \<Rightarrow>
          bindR (getTxAddresses d get b) (\<lambda>ita.
            case ita of
              None \<Rightarrow> Inr (None, st)
            | Some ta \<Rightarrow>
                Inr (Some (length (cs_heap st)),
                  st\<lparr>cs_heap := cs_heap st @ [ta],
                     cs_txAddressesMap := AList.update b (length (cs_heap st)) (cs_txAddressesMap st),
                     cs_cbs := (cs_cbs st)\<lparr>cbs_txAddressesMiss := cbs_txAddressesMiss (cs_cbs st) + 1\<rparr>\<rparr>)))"

definition connectInputAsset ::
    "RocksDB \<Rightarrow> view \<Rightarrow> Block \<Rightarrow> Tx \<Rightarrow> bytes \<Rightarrow> TxOutput \<Rightarrow> AddrBalance \<times> connectState \<Rightarrow>
     (AddrBalance \<times> connectState) res" where
  "connectInputAsset d get block tx spendingTxid spentOutput bst =
     (case bst of (balance, st) \<Rightarrow>
        (case to_AssetInfo spentOutput of
           None \<Rightarrow> Inr (balance, st)
         | Some ai \<Rightarrow>
             bindR (ConnectAllocationInput d get (to_AddrDesc spentOutput) (block_Height block) (tx_Version tx)
                 (assetBalanceOf balance (ai_AssetGuid ai)) spendingTxid ai (cs_assets st)) (\<lambda>(balanceAsset, as).
               Inr (putAssetBalance (ai_AssetGuid ai) balanceAsset balance, st\<lparr>cs_assets := as\<rparr>))))"

text \<open>The effect of a spent output on the balance of its address.\<close>

definition spendFromBalance ::
    "RocksDB \<Rightarrow> view \<Rightarrow> Block \<Rightarrow> Tx \<Rightarrow> bytes \<Rightarrow> nat \<Rightarrow> bytes \<Rightarrow> uint32 \<Rightarrow> TxOutput \<Rightarrow> connectState \<Rightarrow> connectState res" where
  "spendFromBalance d get block tx spendingTxid i b vout spentOutput st =
     (let addrDesc = to_AddrDesc spentOutput in
      bindR (loadBalance d get addrDesc st) (\<lambda>(balance, st).
        let (addresses, counted) = addToAddressesMap (cs_addresses st) addrDesc spendingTxid (NOT (int32 (int i)));
            balance = (if counted then balance else balance\<lparr>ab_Txs := ab_Txs balance + 1\<rparr>);
            balance = balance\<lparr>ab_BalanceSat := ab_BalanceSat balance - to_ValueSat spentOutput\<rparr> in
        bindR (connectInputAsset d get block tx spendingTxid spentOutput (balance, st\<lparr>cs_addresses := addresses\<rparr>))
          (\<lambda>(balance, st).
            bindR (of_panic (markUtxoAsSpent b (sint vout) balance)) (\<lambda>balance.
              let balance = (if ab_BalanceSat balance < 0
                             then balance\<lparr>ab_BalanceSat := resetValueSatToZero (ab_BalanceSat balance)\<rparr> else balance);
                  balance = balance\<lparr>ab_SentSat := ab_SentSat balance + to_ValueSat spentOutput\<rparr> in
              Inr (putBalance addrDesc balance st)))))"

definition processInput ::
    "RocksDB \<Rightarrow> view \<Rightarrow> Block \<Rightarrow> Tx \<Rightarrow> bytes \<Rightarrow> nat \<Rightarrow> nat \<times> Vin \<Rightarrow> connectState \<Rightarrow> connectState res" where
  "processInput d get block tx spendingTxid a ivin st =
     (case ivin of (i, vin) \<Rightarrow>
        (case p_PackTxid (d_chainParser d) (vin_Txid vin) of
           Inl ErrTxidMissing \<Rightarrow> Inr st
         | Inl err \<Rightarrow> Inl err
         | Inr b \<Rightarrow>
             bindR (findSpentTx d get b st) (\<lambda>(ita, st).
               case ita of
                 None \<Rightarrow>
                   Inr (setInput a i (\<lambda>tai. tai\<lparr>ti_AddrDesc :=
                     p_GetAddrDescForUnknownInput (d_chainParser d) tx (int i)\<rparr>) st)
               | Some s \<Rightarrow>
                   let vout = unat (vin_Vout vin) in
                   if length (ta_Outputs (cs_heap st ! s)) \<le> vout then Inr st
                   else
                     let spentOutput = ta_Outputs (cs_heap st ! s) ! vout;
                         st = filterAdd (to_AddrDesc spentOutput) tx st;
                         st = setInput a i (\<lambda>tai. tai\<lparr>ti_AddrDesc := to_AddrDesc spentOutput,
                                ti_ValueSat := to_ValueSat spentOutput, ti_AssetInfo := to_AssetInfo spentOutput\<rparr>) st;
                         st = setOutput s vout (\<lambda>o'. o'\<lparr>to_Spent := True\<rparr>) st;
                         st = (if d_extendedIndex d then
                                 setInput a i (\<lambda>tai. tai\<lparr>ti_Txid := vin_Txid vin, ti_Vout := vin_Vout vin\<rparr>)
                                   (setOutput s vout (\<lambda>o'. o'\<lparr>to_SpentTxid := tx_Txid tx,
                                      to_SpentIndex := of_nat i, to_SpentHeight := block_Height block\<rparr>) st)
                               else st) in
                     if to_AddrDesc spentOutput = [] then Inr st
                     else if p_IsAddrDescIndexable (d_chainParser d) (to_AddrDesc spentOutput)
                     then spendFromBalance d get block tx spendingTxid i b (vin_Vout vin) spentOutput st
                     else Inr st)))"

definition processTxInputs ::
    "RocksDB \<Rightarrow> view \<Rightarrow> Block \<Rightarrow> Tx \<times> bytes \<times> nat \<Rightarrow> connectState \<Rightarrow> connectState res" where
  "processTxInputs d get block txba st =
     (case txba of (tx, spendingTxid, a) \<Rightarrow>
        foldR (processInput d get block tx spendingTxid a) (enumerate 0 (tx_Vin tx))
          (st\<lparr>cs_heap := (cs_heap st)[a := (cs_heap st ! a)\<lparr>ta_Inputs := replicate (length (tx_Vin tx)) zeroTxInput\<rparr>]\<rparr>))"

definition processAddressesBitcoinType :: "RocksDB \<Rightarrow> view \<Rightarrow> Block \<Rightarrow> connectState \<Rightarrow> connectState res" where
  "processAddressesBitcoinType d get block st =
     bindR (foldR (processTxOutputs d get block) (block_Txs block) st) (\<lambda>st.
       foldR (processTxInputs d get block) (zip (block_Txs block) (cs_blockTxs st)) st)"

section \<open>The write batch of a block\<close>

definition storeTxAddresses :: "RocksDB \<Rightarrow> (bytes \<times> TxAddresses) list \<Rightarrow> wbatch" where
  "storeTxAddresses d am = map (\<lambda>(txID, ta). PutCF cfTxAddresses txID (packTxAddresses d ta)) am"

definition storeBlockFilter :: "string \<Rightarrow> bytes \<Rightarrow> wbatch res" where
  "storeBlockFilter blockHash blockFilter =
     bindR (hex_decode blockHash) (\<lambda>blockHashBytes. Inr [PutCF cfBlockFilter blockHashBytes blockFilter])"

definition GetBlockFilter :: "view \<Rightarrow> string \<Rightarrow> string res" where
  "GetBlockFilter get blockHash =
     bindR (hex_decode blockHash) (\<lambda>blockHashBytes.
     bindR (get cfBlockFilter blockHashBytes) (\<lambda>val.
       case val of None \<Rightarrow> Inr [] | Some buf \<Rightarrow> Inr (hex_encode buf)))"

definition initialConnectState :: "RocksDB \<Rightarrow> Block \<Rightarrow> (uint64 \<times> Asset) list option \<Rightarrow> nat \<Rightarrow> connectBlockStats \<Rightarrow> connectState" where
  "initialConnectState d block cache calls cbs =
     (let assets = supportsSyscoinAssets (d_chainParser d) in
      \<lparr>cs_heap = [], cs_txAddressesMap = [], cs_blockTxs = [], cs_balances = [], cs_addresses = [],
       cs_gf =
         (case NewGolombFilter (d_BlockGolombFilterP d) (d_BlockFilterScripts d) (block_Hash block)
             (d_BlockFilterUseZeroedKey d) of
            Inl err \<Rightarrow> None
          | Inr gf \<Rightarrow> if gf_Enabled gf then Some gf else None),
       cs_assets = \<lparr>as_AssetCache = cache, as_assets = (if assets then Some [] else None),
         as_txAssets = (if assets then Some [] else None), as_blockTxAssetAddresses = [], as_calls = calls\<rparr>,
       cs_cbs = cbs\<rparr>)"

definition storeAssetsOfBlock :: "RocksDB \<Rightarrow> connectState \<Rightarrow> (wbatch \<times> connectState) res" where
  "storeAssetsOfBlock d st =
     (if supportsSyscoinAssets (d_chainParser d) then
        (case storeAssets d (cs_assets st) of
           (Inl err, as) \<Rightarrow> Inl err
         | (Inr wb, as) \<Rightarrow>
             bindR (storeTxAssets d (case as_txAssets as of None \<Rightarrow> [] | Some m \<Rightarrow> m)) (\<lambda>wb'.
               Inr (wb @ wb', st\<lparr>cs_assets := as\<rparr>)))
      else Inr ([], st))"

text \<open>
  The part of \<open>ConnectBlock\<close> for chains of the Bitcoin type, up to the column addresses: the batch and the
  state with the addresses of the block. The rows of the transactions are those of the map.
\<close>

definition connectBitcoinType ::
    "RocksDB \<Rightarrow> view \<Rightarrow> Block \<Rightarrow> (uint64 \<times> Asset) list option \<Rightarrow> nat \<Rightarrow> connectBlockStats \<Rightarrow> (wbatch \<times> connectState) res" where
  "connectBitcoinType d get block cache calls cbs =
     bindR (processAddressesBitcoinType d get block (initialConnectState d block cache calls cbs)) (\<lambda>st.
     bindR (storeAndCleanupBlockTxs d get block) (\<lambda>wbTxs.
     bindR (storeAssetsOfBlock d st) (\<lambda>(wbAssets, st).
     bindR (case cs_gf st of None \<Rightarrow> Inr [] | Some gf \<Rightarrow> storeBlockFilter (block_Hash block) (snd (Compute (d_gcs d) gf)))
       (\<lambda>wbFilter.
         Inr (storeTxAddresses d (map (\<lambda>(b, a). (b, cs_heap st ! a)) (cs_txAddressesMap st)) @
           storeBalances d (map (\<lambda>(a, ab). (a, Some ab)) (cs_balances st)) @ wbTxs @ wbAssets @ wbFilter, st)))))"

end
