(* ===== verification/InternalState.thy ===== *)
theory InternalState
  imports Prelude
begin

text \<open>
  The internal state of the application (\<open>src/common/internalstate.go\<close>): synchronization flags, block
  times with the search by time, statistics of columns, the state of the back end and the list of
  blocked websocket clients.

  Every method runs under the mutex of the state; the model is the sequence of the calls. Points in
  time are integers, the zero time of Go is \<open>0\<close>, and a method that reads the clock has the time as an
  argument. The fractional average of block times is the pair of dividend and divisor of the
  floating-point division that the code carries out.
\<close>

section \<open>The state\<close>

definition int64 :: "int \<Rightarrow> int" where
  "int64 i = signed_take_bit 63 i"

datatype DbState = DbStateClosed | DbStateOpen | DbStateInconsistent

record InternalStateColumn =
  col_Name :: string
  col_Version :: uint32
  col_Rows :: int
  col_KeyBytes :: int
  col_ValueBytes :: int
  col_Updated :: int

text \<open>The fields of \<open>BackendInfo\<close> that the state looks at; the others are carried along as \<open>bi_Other\<close>.\<close>

record BackendInfo =
  be_BackendError :: string
  be_Blocks :: int
  be_Other :: string

record WsBlockedIP =
  ws_Key :: string
  ws_BlockedAt :: int
  ws_Until :: int
  ws_Breaches :: int
  ws_Rejected :: int

record InternalState =
  is_Coin :: string
  is_CoinShortcut :: string
  is_CoinLabel :: string
  is_Network :: string
  is_DbState :: DbState
  is_ExtendedIndex :: bool
  is_SyncMode :: bool
  is_InitialSync :: bool
  is_IsSynchronized :: bool
  is_BestHeight :: uint32
  is_StartSync :: int
  is_LastSync :: int
  is_BlockTimes :: "uint32 list"
  is_AvgBlockPeriod :: uint32
  is_AvgBlockPeriodSeconds :: "uint32 \<times> int"
  is_IsMempoolSynchronized :: bool
  is_MempoolSize :: int
  is_LastMempoolSync :: int
  is_DbColumns :: "InternalStateColumn list"
  is_BackendInfo :: BackendInfo
  is_BackendTipLastAdvance :: int
  is_BackendTipHeight :: int
  is_UtxoChecked :: bool
  is_SortedAddressContracts :: bool
  is_BlockGolombFilterP :: byte
  is_BlockFilterScripts :: string
  is_BlockFilterUseZeroedKey :: bool
  is_WsLimitExceedingIPs :: "(string \<times> int) list"
  is_wsBlockedIPs :: "(string \<times> WsBlockedIP) list"

section \<open>Synchronization\<close>

definition StartedSync :: "int \<Rightarrow> InternalState \<Rightarrow> InternalState" where
  "StartedSync now is = is\<lparr>is_StartSync := now, is_IsSynchronized := False\<rparr>"

definition FinishedSync :: "int \<Rightarrow> uint32 \<Rightarrow> InternalState \<Rightarrow> InternalState" where
  "FinishedSync now bestHeight is =
     is\<lparr>is_IsSynchronized := True, is_BestHeight := bestHeight, is_LastSync := now\<rparr>"

definition UpdateBestHeight :: "int \<Rightarrow> uint32 \<Rightarrow> InternalState \<Rightarrow> InternalState" where
  "UpdateBestHeight now bestHeight is = is\<lparr>is_BestHeight := bestHeight, is_LastSync := now\<rparr>"

definition FinishedSyncNoChange :: "InternalState \<Rightarrow> InternalState" where
  "FinishedSyncNoChange is = is\<lparr>is_IsSynchronized := True\<rparr>"

definition GetInitialSync :: "InternalState \<Rightarrow> bool" where
  "GetInitialSync is = is_InitialSync is"

definition SetInitialSync :: "bool \<Rightarrow> InternalState \<Rightarrow> InternalState" where
  "SetInitialSync initialSync is = is\<lparr>is_InitialSync := initialSync\<rparr>"

definition GetSyncState :: "InternalState \<Rightarrow> bool \<times> uint32 \<times> int \<times> int" where
  "GetSyncState is = (is_IsSynchronized is, is_BestHeight is, is_LastSync is, is_StartSync is)"

definition GetSyncMetricsSnapshot ::
    "InternalState \<Rightarrow> BackendInfo \<times> bool \<times> bool \<times> uint32 \<times> int \<times> int" where
  "GetSyncMetricsSnapshot is =
     (is_BackendInfo is, is_InitialSync is, is_IsSynchronized is, is_BestHeight is, is_LastSync is, is_StartSync is)"

definition StartedMempoolSync :: "InternalState \<Rightarrow> InternalState" where
  "StartedMempoolSync is = is\<lparr>is_IsMempoolSynchronized := False\<rparr>"

definition FinishedMempoolSync :: "int \<Rightarrow> int \<Rightarrow> InternalState \<Rightarrow> InternalState" where
  "FinishedMempoolSync now mempoolSize is =
     is\<lparr>is_IsMempoolSynchronized := True, is_MempoolSize := mempoolSize, is_LastMempoolSync := now\<rparr>"

definition GetMempoolSyncState :: "InternalState \<Rightarrow> bool \<times> int \<times> int" where
  "GetMempoolSyncState is = (is_IsMempoolSynchronized is, is_LastMempoolSync is, is_MempoolSize is)"

section \<open>Statistics of columns\<close>

definition updateColumn ::
    "int \<Rightarrow> (InternalStateColumn \<Rightarrow> InternalStateColumn) \<Rightarrow> InternalState \<Rightarrow> InternalState option" where
  "updateColumn c f is = do {
     dc \<leftarrow> index (is_DbColumns is) c;
     Some (is\<lparr>is_DbColumns := (is_DbColumns is)[nat c := f dc]\<rparr>)
   }"

definition AddDBColumnStats :: "int \<Rightarrow> int \<Rightarrow> int \<Rightarrow> int \<Rightarrow> int \<Rightarrow> InternalState \<Rightarrow> InternalState option" where
  "AddDBColumnStats now c rowsDiff keyBytesDiff valueBytesDiff is =
     updateColumn c (\<lambda>dc. dc\<lparr>col_Rows := int64 (col_Rows dc + rowsDiff),
       col_KeyBytes := int64 (col_KeyBytes dc + keyBytesDiff),
       col_ValueBytes := int64 (col_ValueBytes dc + valueBytesDiff), col_Updated := now\<rparr>) is"

definition SetDBColumnStats :: "int \<Rightarrow> int \<Rightarrow> int \<Rightarrow> int \<Rightarrow> int \<Rightarrow> InternalState \<Rightarrow> InternalState option" where
  "SetDBColumnStats now c rows keyBytes valueBytes is =
     updateColumn c (\<lambda>dc. dc\<lparr>col_Rows := rows, col_KeyBytes := keyBytes, col_ValueBytes := valueBytes,
       col_Updated := now\<rparr>) is"

definition GetDBColumnStatValues :: "int \<Rightarrow> InternalState \<Rightarrow> (int \<times> int \<times> int) option" where
  "GetDBColumnStatValues c is =
     (if c < int (length (is_DbColumns is)) then do {
        dc \<leftarrow> index (is_DbColumns is) c;
        Some (col_Rows dc, col_KeyBytes dc, col_ValueBytes dc)
      } else Some (0, 0, 0))"

definition GetAllDBColumnStats :: "InternalState \<Rightarrow> InternalStateColumn list" where
  "GetAllDBColumnStats is = is_DbColumns is"

definition DBSizeTotal :: "InternalState \<Rightarrow> int" where
  "DBSizeTotal is = foldl (\<lambda>total c. int64 (total + int64 (col_KeyBytes c + col_ValueBytes c))) 0 (is_DbColumns is)"

section \<open>Block times\<close>

definition avgBlockPeriodSample :: int where
  "avgBlockPeriodSample = 100"

definition computeAvgBlockPeriod :: "InternalState \<Rightarrow> InternalState" where
  "computeAvgBlockPeriod is =
     (let times = is_BlockTimes is; last = int (length times) - 1; first = last - avgBlockPeriodSample - 1 in
      if first < 0 then is
      else if times ! nat last \<le> times ! nat first then is
      else
        let span = times ! nat last - times ! nat first in
        is\<lparr>is_AvgBlockPeriod := span div word_of_int avgBlockPeriodSample,
           is_AvgBlockPeriodSeconds := (span, last - first)\<rparr>)"

definition GetBlockTime :: "uint32 \<Rightarrow> InternalState \<Rightarrow> uint32" where
  "GetBlockTime height is =
     (if unat height < length (is_BlockTimes is) then is_BlockTimes is ! unat height else 0)"

definition GetLastBlockTime :: "InternalState \<Rightarrow> uint32" where
  "GetLastBlockTime is = (if is_BlockTimes is \<noteq> [] then last (is_BlockTimes is) else 0)"

definition SetBlockTimes :: "uint32 list \<Rightarrow> InternalState \<Rightarrow> InternalState" where
  "SetBlockTimes blockTimes is =
     computeAvgBlockPeriod (is\<lparr>is_BlockTimes :=
       (if length (is_BlockTimes is) < length blockTimes then blockTimes
        else blockTimes @ drop (length blockTimes) (is_BlockTimes is))\<rparr>)"

definition SetBlockTime :: "uint32 \<Rightarrow> uint32 \<Rightarrow> InternalState \<Rightarrow> InternalState" where
  "SetBlockTime height time is =
     (let n = length (is_BlockTimes is) in
      computeAvgBlockPeriod (is\<lparr>is_BlockTimes :=
        (if unat height \<ge> n then is_BlockTimes is @ replicate (unat height - n + 1) time
         else (is_BlockTimes is)[unat height := time])\<rparr>))"

text \<open>A negative \<open>count\<close> makes the slice bounds exceed the length; the slice panics unless it has the capacity.\<close>

definition RemoveLastBlockTimes :: "int \<Rightarrow> InternalState \<Rightarrow> InternalState option" where
  "RemoveLastBlockTimes count is =
     (let n = int (length (is_BlockTimes is)); count = (if n < count then n else count) in do {
        times \<leftarrow> slice (is_BlockTimes is) 0 (n - count);
        Some (computeAvgBlockPeriod (is\<lparr>is_BlockTimes := times\<rparr>))
      })"

text \<open>
  \<open>sort.Search\<close>: the binary search of the standard library, for the smallest index in \<open>[0, n)\<close> at which \<open>f\<close>
  holds, provided that \<open>f\<close> is monotone.
\<close>

function sort_Search_loop :: "(nat \<Rightarrow> bool) \<Rightarrow> nat \<Rightarrow> nat \<Rightarrow> nat" where
  "sort_Search_loop f i j =
     (if i < j then
        let h = (i + j) div 2 in
        if \<not> f h then sort_Search_loop f (h + 1) j else sort_Search_loop f i h
      else i)"
  by auto
termination by (relation "measure (\<lambda>(f, i, j). j - i)") auto

declare sort_Search_loop.simps [simp del]

definition sort_Search :: "nat \<Rightarrow> (nat \<Rightarrow> bool) \<Rightarrow> nat" where
  "sort_Search n f = sort_Search_loop f 0 n"

text \<open>The scan upwards from 20 blocks below the index that the search found.\<close>

fun firstFrom :: "(nat \<Rightarrow> bool) \<Rightarrow> nat \<Rightarrow> nat \<Rightarrow> nat" where
  "firstFrom f height 0 = height"
| "firstFrom f height (Suc n) = (if f height then height else firstFrom f (height + 1) n)"

definition GetBlockHeightOfTime :: "uint32 \<Rightarrow> InternalState \<Rightarrow> uint32" where
  "GetBlockHeightOfTime time is =
     (let times = is_BlockTimes is; f = (\<lambda>i. time \<le> times ! i); height = sort_Search (length times) f in
      if height = length times then NOT 0
      else
        let max = height; height = height - 20 in
        of_nat (firstFrom f height (max - height + 1)))"

definition GetAvgBlockPeriod :: "InternalState \<Rightarrow> uint32" where
  "GetAvgBlockPeriod is = is_AvgBlockPeriod is"

definition GetAvgBlockPeriodSeconds :: "InternalState \<Rightarrow> uint32 \<times> int" where
  "GetAvgBlockPeriodSeconds is = is_AvgBlockPeriodSeconds is"

definition GetNetwork :: "InternalState \<Rightarrow> string" where
  "GetNetwork is = (if is_Network is = [] then is_CoinShortcut is else is_Network is)"

section \<open>The back end\<close>

definition SetBackendInfo :: "int \<Rightarrow> BackendInfo \<Rightarrow> InternalState \<Rightarrow> InternalState" where
  "SetBackendInfo now bi is =
     (if be_BackendError bi \<noteq> [] \<and> be_Blocks bi = 0
      then is\<lparr>is_BackendInfo := (is_BackendInfo is)\<lparr>be_BackendError := be_BackendError bi\<rparr>\<rparr>
      else
        let is = (if is_BackendTipLastAdvance is = 0 \<or> be_Blocks bi \<noteq> is_BackendTipHeight is
                  then is\<lparr>is_BackendTipLastAdvance := now, is_BackendTipHeight := be_Blocks bi\<rparr> else is)
        in is\<lparr>is_BackendInfo := bi\<rparr>)"

definition GetBackendInfo :: "InternalState \<Rightarrow> BackendInfo" where
  "GetBackendInfo is = is_BackendInfo is"

definition GetBackendTipLastAdvance :: "int \<Rightarrow> InternalState \<Rightarrow> int \<times> InternalState" where
  "GetBackendTipLastAdvance now is =
     (let is = (if is_BackendTipLastAdvance is = 0 then is\<lparr>is_BackendTipLastAdvance := now\<rparr> else is)
      in (is_BackendTipLastAdvance is, is))"

section \<open>Limits of websocket clients\<close>

definition AddWsLimitExceedingIP :: "string \<Rightarrow> InternalState \<Rightarrow> InternalState" where
  "AddWsLimitExceedingIP ip is =
     is\<lparr>is_WsLimitExceedingIPs := AList.update ip
          ((case map_of (is_WsLimitExceedingIPs is) ip of None \<Rightarrow> 0 | Some n \<Rightarrow> n) + 1) (is_WsLimitExceedingIPs is)\<rparr>"

definition ResetWsLimitExceedingIPs :: "InternalState \<Rightarrow> InternalState" where
  "ResetWsLimitExceedingIPs is = is\<lparr>is_WsLimitExceedingIPs := []\<rparr>"

definition WsLimitExceedingIPsSnapshot :: "InternalState \<Rightarrow> (string \<times> int) list" where
  "WsLimitExceedingIPsSnapshot is = is_WsLimitExceedingIPs is"

definition BlockWsIP :: "string \<Rightarrow> int \<Rightarrow> int \<Rightarrow> InternalState \<Rightarrow> InternalState" where
  "BlockWsIP key until now is =
     (let new = \<lparr>ws_Key = key, ws_BlockedAt = now, ws_Until = 0, ws_Breaches = 0, ws_Rejected = 0\<rparr>;
          e = (case map_of (is_wsBlockedIPs is) key of
                 None \<Rightarrow> new
               | Some e \<Rightarrow> if \<not> now < ws_Until e then new else e);
          e = e\<lparr>ws_Breaches := ws_Breaches e + 1\<rparr>;
          e = (if until > ws_Until e then e\<lparr>ws_Until := until\<rparr> else e)
      in is\<lparr>is_wsBlockedIPs := AList.update key e (is_wsBlockedIPs is)\<rparr>)"

definition IsWsIPBlocked :: "string \<Rightarrow> int \<Rightarrow> InternalState \<Rightarrow> (bool \<times> int) \<times> InternalState" where
  "IsWsIPBlocked key now is =
     (case map_of (is_wsBlockedIPs is) key of
        None \<Rightarrow> ((False, 0), is)
      | Some e \<Rightarrow>
          if now < ws_BlockedAt e then ((False, 0), is)
          else if \<not> now < ws_Until e then ((False, 0), is)
          else
            let e = e\<lparr>ws_Rejected := ws_Rejected e + 1\<rparr> in
            ((True, ws_Rejected e), is\<lparr>is_wsBlockedIPs := AList.update key e (is_wsBlockedIPs is)\<rparr>))"

definition SweepWsBlockedIPs :: "int \<Rightarrow> InternalState \<Rightarrow> int \<times> InternalState" where
  "SweepWsBlockedIPs now is =
     (let m = filter (\<lambda>(key, e). now < ws_Until e) (is_wsBlockedIPs is)
      in (int (length m), is\<lparr>is_wsBlockedIPs := m\<rparr>))"

definition WsBlockedIPsSnapshot :: "int \<Rightarrow> InternalState \<Rightarrow> WsBlockedIP list" where
  "WsBlockedIPsSnapshot now is =
     sort_key (\<lambda>e. - ws_Until e) (map snd (filter (\<lambda>(key, e). now < ws_Until e) (is_wsBlockedIPs is)))"

definition ResetWsBlockedIPs :: "InternalState \<Rightarrow> InternalState" where
  "ResetWsBlockedIPs is = is\<lparr>is_wsBlockedIPs := []\<rparr>"

section \<open>The search by time\<close>

text \<open>The binary search ends between a failing and a holding index, whether or not \<open>f\<close> is monotone.\<close>

lemma sort_Search_loop_bounds:
  assumes "i \<le> j" and "i = 0 \<or> \<not> f (i - 1)" and "j = n \<or> f j"
  shows "i \<le> sort_Search_loop f i j \<and> sort_Search_loop f i j \<le> j \<and>
    (sort_Search_loop f i j = 0 \<or> \<not> f (sort_Search_loop f i j - 1)) \<and>
    (sort_Search_loop f i j = n \<or> f (sort_Search_loop f i j))"
  using assms
proof (induction f i j rule: sort_Search_loop.induct)
  case (1 f i j)
  show ?case
  proof (cases "i < j")
    case True
    let ?h = "(i + j) div 2"
    have h: "i \<le> ?h" "?h < j" using True by simp_all
    show ?thesis
    proof (cases "f ?h")
      case True
      with \<open>i < j\<close> h "1.IH"(2) [OF \<open>i < j\<close> refl] "1.prems" show ?thesis
        by (subst (1 2 3 4 5 6) sort_Search_loop.simps) (auto simp: Let_def)
    next
      case False
      with \<open>i < j\<close> h "1.IH"(1) [OF \<open>i < j\<close> refl] "1.prems" show ?thesis
        by (subst (1 2 3 4 5 6) sort_Search_loop.simps) (auto simp: Let_def)
    qed
  next
    case False
    with "1.prems" show ?thesis by (subst (1 2 3 4 5 6) sort_Search_loop.simps) auto
  qed
qed

lemma sort_Search_bounds:
  "sort_Search n f \<le> n"
  "sort_Search n f = 0 \<or> \<not> f (sort_Search n f - 1)"
  "sort_Search n f = n \<or> f (sort_Search n f)"
  using sort_Search_loop_bounds [of 0 n f n] by (simp_all add: sort_Search_def)

lemma firstFrom_least:
  assumes "h \<le> p" "p < h + n" "f p" "\<And>j. h \<le> j \<Longrightarrow> j < p \<Longrightarrow> \<not> f j"
  shows "firstFrom f h n = p"
  using assms
proof (induction n arbitrary: h)
  case (Suc n)
  show ?case
  proof (cases "h = p")
    case True
    with Suc.prems(3) show ?thesis by simp
  next
    case False
    with Suc.prems have "firstFrom f (h + 1) n = p" by (intro Suc.IH) auto
    with Suc.prems(4) [of h] Suc.prems(1) False show ?thesis by simp
  qed
qed simp

text \<open>Block times of blocks that are at least 20 apart are in order.\<close>

definition nearlySorted :: "uint32 list \<Rightarrow> bool" where
  "nearlySorted ts \<longleftrightarrow> (\<forall>j < length ts. \<forall>i. i + 20 \<le> j \<longrightarrow> ts ! i \<le> ts ! j)"

lemma search_window:
  assumes "nearlySorted ts" and "p < length ts" "t \<le> ts ! p" "\<And>j. j < p \<Longrightarrow> ts ! j < t"
    and "sort_Search (length ts) (\<lambda>i. t \<le> ts ! i) < length ts"
  shows "p \<le> sort_Search (length ts) (\<lambda>i. t \<le> ts ! i)"
    and "sort_Search (length ts) (\<lambda>i. t \<le> ts ! i) \<le> p + 20"
proof -
  let ?m = "sort_Search (length ts) (\<lambda>i. t \<le> ts ! i)"
  have "t \<le> ts ! ?m" using sort_Search_bounds(3) [of "length ts" "\<lambda>i. t \<le> ts ! i"] assms(5) by auto
  then show "p \<le> ?m" using assms(4) [of ?m] by (meson not_le)
  show "?m \<le> p + 20"
  proof (rule ccontr)
    assume m: "\<not> ?m \<le> p + 20"
    then have "ts ! p \<le> ts ! (?m - 1)"
      using assms(1,5) unfolding nearlySorted_def by auto
    with assms(3) m sort_Search_bounds(2) [of "length ts" "\<lambda>i. t \<le> ts ! i"] show False by auto
  qed
qed

lemma least_index:
  assumes "x \<in> set xs" "P x"
  obtains p where "p < length xs" "P (xs ! p)" "\<And>j. j < p \<Longrightarrow> \<not> P (xs ! j)"
proof -
  obtain i where "i < length xs" "P (xs ! i)" using assms by (metis in_set_conv_nth)
  then have "P (xs ! (LEAST i. P (xs ! i)))" "(LEAST i. P (xs ! i)) \<le> i"
    by (auto intro: LeastI Least_le)
  with \<open>i < length xs\<close> show thesis
    using that [of "LEAST i. P (xs ! i)"] not_less_Least by fastforce
qed

text \<open>C25: The height of a time: with block times out of order by less than 20 blocks, the result is the height of
  the first block that is not older than the given time, provided that the last block is not, and the
  largest number when all blocks are older; the binary search and the scan always end.\<close>

theorem block_height_of_time:
  assumes "nearlySorted (is_BlockTimes is)" and "length (is_BlockTimes is) < 2 ^ 32"
  shows "(is_BlockTimes is \<noteq> [] \<and> t \<le> last (is_BlockTimes is) \<longrightarrow>
      (\<exists>p. GetBlockHeightOfTime t is = of_nat p \<and> p < length (is_BlockTimes is) \<and> t \<le> is_BlockTimes is ! p \<and>
        (\<forall>j < p. is_BlockTimes is ! j < t))) \<and>
    ((\<forall>x \<in> set (is_BlockTimes is). x < t) \<longrightarrow> GetBlockHeightOfTime t is = NOT 0)"
proof (intro conjI impI)
  let ?ts = "is_BlockTimes is" let ?f = "\<lambda>i. t \<le> ?ts ! i" let ?m = "sort_Search (length ?ts) ?f"
  assume l: "?ts \<noteq> [] \<and> t \<le> last ?ts"
  then obtain p where p: "p < length ?ts" "t \<le> ?ts ! p" "\<And>j. j < p \<Longrightarrow> \<not> t \<le> ?ts ! j"
    using least_index [of "last ?ts" ?ts "\<lambda>x. t \<le> x"] by auto
  have "?m \<noteq> length ?ts"
    using sort_Search_bounds(2) [of "length ?ts" ?f] l by (auto simp: last_conv_nth)
  then have m: "?m < length ?ts" using sort_Search_bounds(1) [of "length ?ts" ?f] by simp
  have w: "p \<le> ?m" "?m \<le> p + 20"
    using search_window [OF assms(1) p(1,2) _ m] p(3) by (auto simp: not_le)
  have "firstFrom ?f (?m - 20) (?m - (?m - 20) + 1) = p"
    by (rule firstFrom_least) (use w p in auto)
  then have "GetBlockHeightOfTime t is = of_nat p"
    using m by (simp add: GetBlockHeightOfTime_def Let_def)
  with p show "\<exists>p. GetBlockHeightOfTime t is = of_nat p \<and> p < length ?ts \<and> t \<le> ?ts ! p \<and> (\<forall>j < p. ?ts ! j < t)"
    by (auto simp: not_le)
next
  let ?ts = "is_BlockTimes is" let ?f = "\<lambda>i. t \<le> ?ts ! i" let ?m = "sort_Search (length ?ts) ?f"
  assume a: "\<forall>x \<in> set ?ts. x < t"
  have "?m = length ?ts"
  proof (rule ccontr)
    assume n: "?m \<noteq> length ?ts"
    then have "?m < length ?ts" using sort_Search_bounds(1) [of "length ?ts" ?f] by simp
    moreover have "t \<le> ?ts ! ?m" using sort_Search_bounds(3) [of "length ?ts" ?f] n by simp
    ultimately show False using a nth_mem by fastforce
  qed
  then show "GetBlockHeightOfTime t is = NOT 0" by (simp add: GetBlockHeightOfTime_def Let_def)
qed

definition demoState :: InternalState where
  "demoState =
     \<lparr>is_Coin = [], is_CoinShortcut = [], is_CoinLabel = [], is_Network = [], is_DbState = DbStateOpen,
      is_ExtendedIndex = False, is_SyncMode = False, is_InitialSync = False, is_IsSynchronized = False,
      is_BestHeight = 0, is_StartSync = 0, is_LastSync = 0, is_BlockTimes = [], is_AvgBlockPeriod = 0,
      is_AvgBlockPeriodSeconds = (0, 0), is_IsMempoolSynchronized = False, is_MempoolSize = 0,
      is_LastMempoolSync = 0, is_DbColumns = [],
      is_BackendInfo = \<lparr>be_BackendError = [], be_Blocks = 0, be_Other = []\<rparr>,
      is_BackendTipLastAdvance = 0, is_BackendTipHeight = 0, is_UtxoChecked = False,
      is_SortedAddressContracts = False, is_BlockGolombFilterP = 0, is_BlockFilterScripts = [],
      is_BlockFilterUseZeroedKey = False, is_WsLimitExceedingIPs = [], is_wsBlockedIPs = []\<rparr>"

theorem block_height_of_time_witness:
  "nearlySorted [10, 30, 20, 40] \<and>
   (\<exists>p. GetBlockHeightOfTime 25 (demoState\<lparr>is_BlockTimes := [10, 30, 20, 40]\<rparr>) = of_nat p \<and>
      p < length [10, 30, 20, 40 :: uint32] \<and> (25 :: uint32) \<le> [10, 30, 20, 40] ! p \<and> (\<forall>j < p. [10, 30, 20, 40] ! j < (25 :: uint32)))"
proof -
  have "nearlySorted [10, 30, 20, 40]" by (simp add: nearlySorted_def)
  with block_height_of_time [of "demoState\<lparr>is_BlockTimes := [10, 30, 20, 40]\<rparr>" 25] show ?thesis by simp
qed

text \<open>With a last block that is older than the given time, an earlier block that is not goes unnoticed.\<close>

lemma block_height_of_time_last_older:
  "GetBlockHeightOfTime 18 (demoState\<lparr>is_BlockTimes := [20, 15]\<rparr>) = NOT 0 \<and> (18 :: uint32) \<le> [20, 15] ! 0"
  by code_simp

section \<open>The average block period\<close>



section \<open>Blocked clients\<close>

definition isBlocked :: "string \<Rightarrow> int \<Rightarrow> InternalState \<Rightarrow> bool" where
  "isBlocked key t is = fst (fst (IsWsIPBlocked key t is))"

lemma isBlocked_iff:
  "isBlocked key t is \<longleftrightarrow>
     (\<exists>e. map_of (is_wsBlockedIPs is) key = Some e \<and> ws_BlockedAt e \<le> t \<and> t < ws_Until e)"
  by (auto simp: isBlocked_def IsWsIPBlocked_def Let_def split: option.splits if_splits)

lemma map_of_filter_snd:
  "distinct (map fst m) \<Longrightarrow>
   map_of (filter (\<lambda>(k, e). P e) m) k = (case map_of m k of None \<Rightarrow> None | Some e \<Rightarrow> if P e then Some e else None)"
proof (induction m)
  case (Cons ke m)
  then have "fst ke \<notin> fst ` set m" by simp
  then have "map_of m (fst ke) = None" by (simp add: map_of_eq_None_iff)
  with Cons show ?case by (cases ke) (auto split: option.splits)
qed simp

text \<open>C27: A websocket client that is blocked stays blocked: from the moment of the call until the given time every
  connection is refused, a later call never shortens a block that is in force, the counting of refused
  connections and the sweep of expired entries change no answer, and no other client is affected.\<close>

theorem blocked_client_refused:
  assumes "distinct (map fst (is_wsBlockedIPs is))"
    and "\<forall>e. map_of (is_wsBlockedIPs is) key = Some e \<longrightarrow> ws_BlockedAt e \<le> now" and "0 \<le> now" and "now \<le> t"
  shows "(t < until \<longrightarrow> isBlocked key t (BlockWsIP key until now is)) \<and>
    (isBlocked key now is \<longrightarrow> isBlocked key t is \<longrightarrow> isBlocked key t (BlockWsIP key until now is)) \<and>
    isBlocked k t (snd (IsWsIPBlocked key' now' is)) = isBlocked k t is \<and>
    isBlocked k t (snd (SweepWsBlockedIPs now is)) = isBlocked k t is \<and>
    (k \<noteq> key \<longrightarrow> isBlocked k t (BlockWsIP key until now is) = isBlocked k t is)"
proof (intro conjI impI)
  show "t < until \<Longrightarrow> isBlocked key t (BlockWsIP key until now is)"
    using assms(2-4) by (auto simp: isBlocked_iff BlockWsIP_def Let_def split: option.splits)
  show "isBlocked key now is \<Longrightarrow> isBlocked key t is \<Longrightarrow> isBlocked key t (BlockWsIP key until now is)"
    by (auto simp: isBlocked_iff BlockWsIP_def Let_def split: option.splits)
  show "isBlocked k t (snd (IsWsIPBlocked key' now' is)) = isBlocked k t is"
    by (auto simp: isBlocked_iff IsWsIPBlocked_def Let_def split: option.splits if_splits)
  show "isBlocked k t (snd (SweepWsBlockedIPs now is)) = isBlocked k t is"
    using assms(1,4) map_of_filter_snd [OF assms(1), of "\<lambda>e. now < ws_Until e" k]
    by (cases "map_of (is_wsBlockedIPs is) k") (auto simp: isBlocked_iff SweepWsBlockedIPs_def Let_def simp del: map_of_eq_Some_iff split: if_splits)
  show "k \<noteq> key \<Longrightarrow> isBlocked k t (BlockWsIP key until now is) = isBlocked k t is"
    by (simp add: isBlocked_iff BlockWsIP_def Let_def)
qed

theorem blocked_client_refused_witness:
  "isBlocked ''1.2.3.4'' 150 (BlockWsIP ''1.2.3.4'' 200 100 demoState)"
  using blocked_client_refused [of demoState "''1.2.3.4''" 100 150 200] by (simp add: demoState_def)

end
