(* ===== verification/Disconnect.thy ===== *)
theory Disconnect
  imports Connect InternalState
begin

text \<open>
  The database of a Bitcoin-type chain as a whole (\<open>src/db/rocksdb.go\<close>): connection of a block up to the write of
  its batch, and disconnection of the newest blocks. What is in memory changes also where the write fails, so
  the operations return the new state together with the error, if any. Where an operation fails before its
  batch is complete, the asset cache is taken to be as before.

  Rows that a disconnection reads come from the database each time, so there is no sharing between them
  and maps of values suffice.
\<close>

section \<open>Connection\<close>

record 'db indexState =
  x_db :: 'db
  x_is :: InternalState
  x_AssetCache :: "(uint64 \<times> Asset) list option"
  x_calls :: nat
  x_cbs :: connectBlockStats

definition connectBlockBitcoinType ::
    "'db store \<Rightarrow> RocksDB \<Rightarrow> int \<Rightarrow> Block \<Rightarrow> 'db indexState \<Rightarrow> 'db indexState \<times> error option" where
  "connectBlockBitcoinType s d now block x =
     (case writeHeightFromBlock d block opInsert of
        Inl err \<Rightarrow> (x, Some err)
      | Inr (wbHeight, best) \<Rightarrow>
          let x = x\<lparr>x_is := UpdateBestHeight now best (x_is x)\<rparr> in
          (case connectBitcoinType d (s_GetCF s (x_db x)) block (x_AssetCache x) (x_calls x) (x_cbs x) of
             Inl err \<Rightarrow> (x, Some err)
           | Inr (wb, st) \<Rightarrow>
               let x = x\<lparr>x_AssetCache := as_AssetCache (cs_assets st), x_calls := as_calls (cs_assets st),
                         x_cbs := cs_cbs st\<rparr> in
               (case s_Write s (x_db x) (wbHeight @ wb @ storeAddresses d (block_Height block) (cs_addresses st)) of
                  Inl err \<Rightarrow> (x, Some err)
                | Inr db \<Rightarrow>
                    (x\<lparr>x_db := db,
                       x_is := SetBlockTime (block_Height block) (word_of_int (block_Time block)) (x_is x)\<rparr>, None))))"

section \<open>Disconnection of a block\<close>

record disconnectState =
  ds_txAddressesToUpdate :: "(bytes \<times> TxAddresses) list"
  ds_balances :: "(bytes \<times> AddrBalance option) list"
  ds_blockAddressesTxs :: "(bytes \<times> bytes list) list"
  ds_blockAssetTxs :: "(uint64 \<times> bytes list) list"
  ds_touchedAssets :: "uint64 list"
  ds_assets :: assetState

definition getAddressBalance ::
    "RocksDB \<Rightarrow> view \<Rightarrow> bytes \<Rightarrow> disconnectState \<Rightarrow> (AddrBalance option \<times> disconnectState) res" where
  "getAddressBalance d get addrDesc st =
     (case map_of (ds_balances st) addrDesc of
        Some b \<Rightarrow> Inr (b, st)
      | None \<Rightarrow>
          bindR (GetAddrDescBalance d get addrDesc addressBalanceDetailUTXOIndexed) (\<lambda>b.
            Inr (b, st\<lparr>ds_balances := AList.update addrDesc b (ds_balances st)\<rparr>)))"

definition addressFoundInTx :: "bytes \<Rightarrow> bytes \<Rightarrow> disconnectState \<Rightarrow> bool \<times> disconnectState" where
  "addressFoundInTx addrDesc b st =
     (let m = ds_blockAddressesTxs st in
      case map_of m addrDesc of
        None \<Rightarrow> (False, st\<lparr>ds_blockAddressesTxs := AList.update addrDesc [b] m\<rparr>)
      | Some a \<Rightarrow>
          if b \<in> set a then (True, st)
          else (False, st\<lparr>ds_blockAddressesTxs := AList.update addrDesc (b # a) m\<rparr>))"

text \<open>The maps that \<open>assetFoundInTx\<close> keeps: transactions by asset, and the touched assets.\<close>

type_synonym foundAssets = "(uint64 \<times> bytes list) list \<times> uint64 list"

definition assetFoundInTx :: "uint64 \<Rightarrow> bytes \<Rightarrow> foundAssets \<Rightarrow> bool \<times> foundAssets" where
  "assetFoundInTx asset b found =
     (case found of (m, touched) \<Rightarrow>
        let touched = List.insert asset touched in
        (case map_of m asset of
           None \<Rightarrow> (False, AList.update asset [b] m, touched)
         | Some a \<Rightarrow>
             if b \<in> set a then (True, m, touched)
             else (False, AList.update asset (b # a) m, touched)))"

definition setFound :: "foundAssets \<Rightarrow> assetState \<Rightarrow> disconnectState \<Rightarrow> disconnectState" where
  "setFound found as st = st\<lparr>ds_blockAssetTxs := fst found, ds_touchedAssets := snd found, ds_assets := as\<rparr>"

definition putDisconnected :: "bytes \<Rightarrow> AddrBalance \<Rightarrow> disconnectState \<Rightarrow> disconnectState" where
  "putDisconnected addrDesc balance st = st\<lparr>ds_balances := AList.update addrDesc (Some balance) (ds_balances st)\<rparr>"

text \<open>The transaction that an input spent, with the output no longer marked as spent, and its height.\<close>

definition unspendOutput ::
    "RocksDB \<Rightarrow> view \<Rightarrow> outpoint \<Rightarrow> disconnectState \<Rightarrow> (uint32 \<times> disconnectState) res" where
  "unspendOutput d get input st =
     bindR (case map_of (ds_txAddressesToUpdate st) (o_btxID input) of
              Some sa \<Rightarrow> Inr (Some sa)
            | None \<Rightarrow> getTxAddresses d get (o_btxID input)) (\<lambda>sa.
       case sa of
         None \<Rightarrow> Inr (0, st)
       | Some sa \<Rightarrow>
           bindR (of_panic (index (ta_Outputs sa) (o_index input))) (\<lambda>o'.
             let sa = sa\<lparr>ta_Outputs := (ta_Outputs sa)[nat (o_index input) := o'\<lparr>to_Spent := False\<rparr>]\<rparr> in
             Inr (ta_Height sa,
               st\<lparr>ds_txAddressesToUpdate := AList.update (o_btxID input) sa (ds_txAddressesToUpdate st)\<rparr>)))"

definition disconnectInputAsset ::
    "RocksDB \<Rightarrow> view \<Rightarrow> bytes \<Rightarrow> TxInput \<Rightarrow> AddrBalance \<times> disconnectState \<Rightarrow> (AddrBalance \<times> disconnectState) res" where
  "disconnectInputAsset d get b t bst =
     (case bst of (balance, st) \<Rightarrow>
        (case ti_AssetInfo t of
           None \<Rightarrow> Inr (balance, st)
         | Some ai \<Rightarrow>
             bindR (DisconnectAllocationInput d get (ti_AddrDesc t) (assetBalanceOf balance (ai_AssetGuid ai)) b ai
                 assetFoundInTx (ds_blockAssetTxs st, ds_touchedAssets st) (ds_assets st))
               (\<lambda>(balanceAsset, found, as).
                 Inr (putAssetBalance (ai_AssetGuid ai) balanceAsset balance, setFound found as st))))"

definition disconnectInput ::
    "RocksDB \<Rightarrow> view \<Rightarrow> bytes \<Rightarrow> outpoint list \<Rightarrow> nat \<times> TxInput \<Rightarrow> disconnectState \<Rightarrow> disconnectState res" where
  "disconnectInput d get b inputs it st =
     (case it of (i, t) \<Rightarrow>
        if ti_AddrDesc t = [] then Inr st
        else
          bindR (of_panic (index inputs (int i))) (\<lambda>input.
            let (exist, st) = addressFoundInTx (ti_AddrDesc t) b st in
            bindR (unspendOutput d get input st) (\<lambda>(inputHeight, st).
              if p_IsAddrDescIndexable (d_chainParser d) (ti_AddrDesc t) then
                bindR (getAddressBalance d get (ti_AddrDesc t) st) (\<lambda>(balance, st).
                  case balance of
                    None \<Rightarrow> Inr st
                  | Some balance \<Rightarrow>
                      let balance = (if exist then balance else balance\<lparr>ab_Txs := ab_Txs balance - 1\<rparr>);
                          sent = ab_SentSat balance - ti_ValueSat t;
                          balance = balance\<lparr>ab_SentSat := (if sent < 0 then resetValueSatToZero sent else sent),
                            ab_BalanceSat := ab_BalanceSat balance + ti_ValueSat t\<rparr> in
                      bindR (of_panic (addUtxoInDisconnect \<lparr>u_BtxID = o_btxID input, u_Vout = o_index input,
                          u_Height = inputHeight, u_ValueSat = ti_ValueSat t, u_AssetInfo = ti_AssetInfo t\<rparr> balance))
                        (\<lambda>balance.
                          bindR (disconnectInputAsset d get b t (balance, st)) (\<lambda>(balance, st).
                            Inr (putDisconnected (ti_AddrDesc t) balance st))))
              else Inr st)))"

definition disconnectTxAddressesInputs ::
    "RocksDB \<Rightarrow> view \<Rightarrow> bytes \<Rightarrow> outpoint list \<Rightarrow> TxAddresses \<Rightarrow> disconnectState \<Rightarrow> disconnectState res" where
  "disconnectTxAddressesInputs d get b inputs txa st =
     foldR (disconnectInput d get b inputs) (enumerate 0 (ta_Inputs txa)) st"

definition disconnectOutputAsset ::
    "RocksDB \<Rightarrow> view \<Rightarrow> bytes \<Rightarrow> TxOutput \<Rightarrow> AddrBalance \<times> disconnectState \<Rightarrow> (AddrBalance \<times> disconnectState) res" where
  "disconnectOutputAsset d get b t bst =
     (case bst of (balance, st) \<Rightarrow>
        (case to_AssetInfo t of
           None \<Rightarrow> Inr (balance, st)
         | Some ai \<Rightarrow>
             bindR (DisconnectAllocationOutput d get (to_AddrDesc t) (assetBalanceOf balance (ai_AssetGuid ai)) b ai
                 assetFoundInTx (ds_blockAssetTxs st, ds_touchedAssets st) (ds_assets st))
               (\<lambda>(balanceAsset, found, as).
                 Inr (putAssetBalance (ai_AssetGuid ai) balanceAsset balance, setFound found as st))))"

definition disconnectOutput ::
    "RocksDB \<Rightarrow> view \<Rightarrow> bytes \<Rightarrow> nat \<times> TxOutput \<Rightarrow> disconnectState \<Rightarrow> disconnectState res" where
  "disconnectOutput d get b it st =
     (case it of (i, t) \<Rightarrow>
        if to_AddrDesc t = [] then Inr st
        else
          let (exist, st) = addressFoundInTx (to_AddrDesc t) b st in
          if p_IsAddrDescIndexable (d_chainParser d) (to_AddrDesc t) then
            bindR (getAddressBalance d get (to_AddrDesc t) st) (\<lambda>(balance, st).
              case balance of
                None \<Rightarrow> Inr st
              | Some balance \<Rightarrow>
                  let balance = (if exist then balance else balance\<lparr>ab_Txs := ab_Txs balance - 1\<rparr>);
                      sat = ab_BalanceSat balance - to_ValueSat t;
                      balance = balance\<lparr>ab_BalanceSat := (if sat < 0 then resetValueSatToZero sat else sat)\<rparr> in
                  bindR (disconnectOutputAsset d get b t (balance, st)) (\<lambda>(balance, st).
                  bindR (of_panic (markUtxoAsSpent b (int32 (int i)) balance)) (\<lambda>balance.
                    Inr (putDisconnected (to_AddrDesc t) balance st))))
          else Inr st)"

definition disconnectTxAddressesOutputs ::
    "RocksDB \<Rightarrow> view \<Rightarrow> bytes \<Rightarrow> TxAddresses \<Rightarrow> disconnectState \<Rightarrow> disconnectState res" where
  "disconnectTxAddressesOutputs d get b txa st =
     foldR (disconnectOutput d get b) (enumerate 0 (ta_Outputs txa)) st"

definition disconnectBlockFilter :: "RocksDB \<Rightarrow> view \<Rightarrow> uint32 \<Rightarrow> wbatch res" where
  "disconnectBlockFilter d get height =
     bindR (GetBlockHash d get height) (\<lambda>blockHash.
     bindR (hex_decode blockHash) (\<lambda>blockHashBytes. Inr [DeleteCF cfBlockFilter blockHashBytes]))"

definition storeBalancesDisconnect :: "RocksDB \<Rightarrow> (bytes \<times> AddrBalance option) list \<Rightarrow> wbatch" where
  "storeBalancesDisconnect d balances =
     storeBalances d (map (\<lambda>(a, b). (a, map_option (\<lambda>b.
       b\<lparr>ab_Utxos := sort_key u_Height (filter (\<lambda>u. u_Vout u \<ge> 0) (ab_Utxos b))\<rparr>) b)) balances)"

definition disconnectAssetRows :: "RocksDB \<Rightarrow> uint32 \<Rightarrow> disconnectState \<Rightarrow> (wbatch \<times> assetState) res" where
  "disconnectAssetRows d height st =
     (if supportsSyscoinAssets (d_chainParser d) then
        (case p_syscoinAssetParser (d_chainParser d) of
           None \<Rightarrow> Inl (ErrMsg ''disconnectBlock: Syscoin asset parser is not configured'')
         | Some parser \<Rightarrow>
             (case storeAssets d (ds_assets st) of
                (Inl err, as) \<Rightarrow> Inl err
              | (Inr wb, as) \<Rightarrow>
                  Inr (map (\<lambda>asset. DeleteCF cfTxAssets (sp_PackAssetKey parser asset height)) (ds_touchedAssets st) @ wb,
                       as)))
      else Inr ([], ds_assets st))"

text \<open>The loop over the inputs of all transactions reads the rows that the loop over the outputs uses.\<close>

definition disconnectTxInputs ::
    "RocksDB \<Rightarrow> view \<Rightarrow> blockTxs \<Rightarrow> TxAddresses option list \<times> disconnectState \<Rightarrow>
     (TxAddresses option list \<times> disconnectState) res" where
  "disconnectTxInputs d get bt tst =
     (case tst of (txAddresses, st) \<Rightarrow>
        bindR (getTxAddresses d get (bt_btxID bt)) (\<lambda>txa.
          case txa of
            None \<Rightarrow> Inr (txAddresses @ [None], st)
          | Some txa \<Rightarrow>
              bindR (disconnectTxAddressesInputs d get (bt_btxID bt) (bt_inputs bt) txa st) (\<lambda>st.
                Inr (txAddresses @ [Some txa], st))))"

definition disconnectTxOutputs ::
    "RocksDB \<Rightarrow> view \<Rightarrow> blockTxs \<times> TxAddresses option \<Rightarrow> disconnectState \<Rightarrow> disconnectState res" where
  "disconnectTxOutputs d get btxa st =
     (case btxa of (bt, txa) \<Rightarrow>
        (case txa of None \<Rightarrow> Inr st | Some txa \<Rightarrow> disconnectTxAddressesOutputs d get (bt_btxID bt) txa st))"

definition disconnectState0 :: "(uint64 \<times> Asset) list option \<Rightarrow> nat \<Rightarrow> disconnectState" where
  "disconnectState0 cache calls =
     \<lparr>ds_txAddressesToUpdate = [], ds_balances = [], ds_blockAddressesTxs = [], ds_blockAssetTxs = [],
      ds_touchedAssets = [], ds_assets = \<lparr>as_AssetCache = cache, as_assets = Some [], as_txAssets = None,
        as_blockTxAssetAddresses = [], as_calls = calls\<rparr>\<rparr>"

definition disconnectAddresses ::
    "RocksDB \<Rightarrow> view \<Rightarrow> blockTxs list \<Rightarrow> disconnectState \<Rightarrow> disconnectState res" where
  "disconnectAddresses d get bts st =
     bindR (foldR (disconnectTxInputs d get) bts ([], st)) (\<lambda>(txAddresses, st).
       foldR (disconnectTxOutputs d get) (zip bts txAddresses) st)"

text \<open>The batch of a disconnected block, in the order of the code.\<close>

definition disconnectBlockBatch ::
    "RocksDB \<Rightarrow> view \<Rightarrow> uint32 \<Rightarrow> blockTxs list \<Rightarrow> (uint64 \<times> Asset) list option \<Rightarrow> nat \<Rightarrow> (wbatch \<times> assetState) res" where
  "disconnectBlockBatch d get height bts cache calls =
     bindR (disconnectAddresses d get bts (disconnectState0 cache calls)) (\<lambda>st.
     bindR (disconnectAssetRows d height st) (\<lambda>(wbAssets, as).
     bindR (disconnectBlockFilter d get height) (\<lambda>wbFilter.
       Inr (map (\<lambda>(a, _). DeleteCF cfAddresses (packAddressKey a height)) (ds_blockAddressesTxs st) @
         [DeleteCF cfBlockTxs (packUint height), DeleteCF cfHeight (packUint height)] @
         storeTxAddresses d (ds_txAddressesToUpdate st) @
         storeBalancesDisconnect d (ds_balances st) @ wbAssets @
         concat (map (\<lambda>b. [DeleteCF cfTransactions b, DeleteCF cfTxAddresses b]) (remdups (map bt_btxID bts))) @
         wbFilter, as))))"

definition disconnectBlock ::
    "'db store \<Rightarrow> RocksDB \<Rightarrow> uint32 \<Rightarrow> blockTxs list \<Rightarrow> 'db indexState \<Rightarrow> 'db indexState \<times> error option" where
  "disconnectBlock s d height bts x =
     (case disconnectBlockBatch d (s_GetCF s (x_db x)) height bts (x_AssetCache x) (x_calls x) of
        Inl err \<Rightarrow> (x, Some err)
      | Inr (wb, as) \<Rightarrow>
          let x = x\<lparr>x_AssetCache := as_AssetCache as, x_calls := as_calls as\<rparr> in
          (case s_Write s (x_db x) wb of
             Inl err \<Rightarrow> (x, Some err)
           | Inr db \<Rightarrow> (x\<lparr>x_db := db\<rparr>, None)))"

section \<open>Disconnection of a range of blocks\<close>

text \<open>
  Heights are of 32 bits and wrap. The slice of blocks has \<open>higher - lower + 1\<close> elements, also modulo
  \<open>2 ^ 32\<close>, and the access to it bounds both loops.
\<close>

function collectBlocks ::
    "RocksDB \<Rightarrow> view \<Rightarrow> uint32 \<Rightarrow> uint32 \<Rightarrow> uint32 \<Rightarrow> blockTxs list list res" where
  "collectBlocks d get lower higher height =
     (if height \<le> higher then
        bindR (getBlockTxs d get height) (\<lambda>bts.
          if bts = [] then
            Inl (ErrMsg ''Cannot disconnect blocks with height %v and lower. It is necessary to rebuild index.'')
          else if height - lower < higher - lower + 1 then
            bindR (collectBlocks d get lower higher (height + 1)) (\<lambda>blocks. Inr (bts # blocks))
          else Inl Panic)
      else Inr [])"
  by pat_completeness auto

lemma word_succ_below:
  fixes a n :: uint32
  assumes "a < n"
  shows "unat (a + 1) = unat a + 1"
proof -
  have "unat a + 1 < 2 ^ 32"
    using assms unsigned_less [of n, where 'a = nat] by (simp add: word_less_nat_alt)
  then show ?thesis by (simp add: unat_word_ariths)
qed

termination collectBlocks
proof (relation "measure (\<lambda>(d, get, lower, higher, height). unat (higher - lower + 1) - unat (height - lower))", goal_cases)
  case 1
  show ?case by simp
next
  case (2 d get lower higher height bts)
  have "unat (height + 1 - lower) = unat (height - lower) + 1"
    using word_succ_below [OF 2(3)] by (simp add: algebra_simps)
  with 2(3) show ?case by (simp add: word_less_nat_alt)
qed


declare collectBlocks.simps [simp del]

text \<open>
  \<open>n\<close> is the length of the slice of blocks. With \<open>lower = 0\<close> the test \<open>height \<ge> lower\<close> holds for every height,
  and the height after block 0 is outside of the slice.
\<close>

function disconnectBlocks ::
    "'db store \<Rightarrow> RocksDB \<Rightarrow> uint32 \<Rightarrow> uint32 \<Rightarrow> blockTxs list list \<Rightarrow> uint32 \<Rightarrow> 'db indexState \<Rightarrow>
     'db indexState \<times> error option" where
  "disconnectBlocks s d lower n blocks height x =
     (if height \<ge> lower then
        if height - lower < n then
          (case disconnectBlock s d height (blocks ! unat (height - lower)) x of
             (x, Some err) \<Rightarrow> (x, Some err)
           | (x, None) \<Rightarrow> disconnectBlocks s d lower n blocks (height - 1) x)
        else (x, Some Panic)
      else (x, None))"
  by pat_completeness auto

lemma word_pred_measure:
  fixes a n :: uint32
  assumes "a < n"
  shows "(if a - 1 < n then unat (a - 1) + 1 else 0) < unat a + 1"
proof (cases "a = 0")
  case True
  have "\<not> (- 1 :: uint32) < n" by (simp add: not_less)
  with True show ?thesis by simp
next
  case False
  then have "unat (a - 1) = unat a - 1" "0 < unat a"
    by (simp_all add: unat_minus_one unat_gt_0)
  then show ?thesis by simp
qed

termination disconnectBlocks
proof (relation "measure (\<lambda>(s, d, lower, n, blocks, height, x).
    if height - lower < n then unat (height - lower) + 1 else 0)", goal_cases)
  case 1
  show ?case by simp
next
  case (2 s d lower n blocks height)
  have eq: "height - 1 - lower = height - lower - 1" by (simp add: algebra_simps)
  show ?case
    using word_pred_measure [OF 2(2)] 2(2) by (simp add: eq split: if_splits)
qed

declare disconnectBlocks.simps [simp del]

definition DisconnectBlockRangeBitcoinType ::
    "'db store \<Rightarrow> RocksDB \<Rightarrow> uint32 \<Rightarrow> uint32 \<Rightarrow> 'db indexState \<Rightarrow> 'db indexState \<times> error option" where
  "DisconnectBlockRangeBitcoinType s d lower higher x =
     (case collectBlocks d (s_GetCF s (x_db x)) lower higher lower of
        Inl err \<Rightarrow> (x, Some err)
      | Inr blocks \<Rightarrow>
          (case disconnectBlocks s d lower (higher - lower + 1) blocks higher x of
             (x, Some err) \<Rightarrow> (x, Some err)
           | (x, None) \<Rightarrow>
               (case RemoveLastBlockTimes (int (unat (higher - lower)) + 1) (x_is x) of
                  None \<Rightarrow> (x, Some Panic)
                | Some is \<Rightarrow> (x\<lparr>x_is := is\<rparr>, None))))"

end
