(* ===== verification/ConnectLaws.thy ===== *)
theory ConnectLaws
  imports Connect Instances
begin

text \<open>
  The connection of a block as a ledger. The specification lists the credits and debits of a block: outputs
  first, then inputs, each input looked up among the outputs of the block and in the database. The laws show
  that the code, with its caches, its shared transactions and its two passes, changes balances and the address
  index exactly by that list.
\<close>

section \<open>The ledger\<close>

datatype ledgerEvent =
    Credit (ev_addr: bytes) (ev_txid: bytes) (ev_index: int) (ev_value: int)
  | Debit (ev_addr: bytes) (ev_txid: bytes) (ev_index: int) (ev_value: int)

type_synonym outs = "(bytes \<times> int) list"

definition outSpec :: "RocksDB \<Rightarrow> Vout \<Rightarrow> bytes \<times> int" where
  "outSpec d out =
     (case p_GetAddrDescFromVout (d_chainParser d) out of
        Inl err \<Rightarrow> []
      | Inr a \<Rightarrow> if length a > maxAddrDescLen then [] else a, vout_ValueSat out)"

definition outsOf :: "TxAddresses \<Rightarrow> outs" where
  "outsOf ta = map (\<lambda>o'. (to_AddrDesc o', to_ValueSat o')) (ta_Outputs ta)"

definition indexed :: "RocksDB \<Rightarrow> bytes \<Rightarrow> bool" where
  "indexed d a \<longleftrightarrow> a \<noteq> [] \<and> p_IsAddrDescIndexable (d_chainParser d) a"

definition creditOf :: "RocksDB \<Rightarrow> bytes \<Rightarrow> nat \<times> Vout \<Rightarrow> ledgerEvent list" where
  "creditOf d b iout =
     (case iout of (i, out) \<Rightarrow>
        (case outSpec d out of (a, v) \<Rightarrow> if indexed d a then [Credit a b (int32 (int i)) v] else []))"

definition debitOf :: "RocksDB \<Rightarrow> (bytes \<Rightarrow> outs option) \<Rightarrow> bytes \<Rightarrow> nat \<times> Vin \<Rightarrow> ledgerEvent list" where
  "debitOf d prev b ivin =
     (case ivin of (i, vin) \<Rightarrow>
        (case p_PackTxid (d_chainParser d) (vin_Txid vin) of
           Inl err \<Rightarrow> []
         | Inr p \<Rightarrow>
             (case prev p of
                None \<Rightarrow> []
              | Some os \<Rightarrow>
                  if unat (vin_Vout vin) < length os then
                    (case os ! unat (vin_Vout vin) of (a, v) \<Rightarrow>
                       if indexed d a then [Debit a b (NOT (int32 (int i))) v] else [])
                  else [])))"

definition txidOf :: "RocksDB \<Rightarrow> Tx \<Rightarrow> bytes" where
  "txidOf d tx = (case p_PackTxid (d_chainParser d) (tx_Txid tx) of Inl err \<Rightarrow> [] | Inr b \<Rightarrow> b)"

text \<open>The outputs of a transaction: of the last transaction of the block with that id, otherwise of the database.\<close>

definition dbOuts :: "RocksDB \<Rightarrow> view \<Rightarrow> bytes \<Rightarrow> outs option" where
  "dbOuts d get b =
     (case getTxAddresses d get b of Inr (Some ta) \<Rightarrow> Some (outsOf ta) | _ \<Rightarrow> None)"

definition blockOuts :: "RocksDB \<Rightarrow> Tx list \<Rightarrow> bytes \<Rightarrow> outs option" where
  "blockOuts d txs = map_of (rev (map (\<lambda>tx. (txidOf d tx, map (outSpec d) (tx_Vout tx))) txs))"

definition prevOuts :: "RocksDB \<Rightarrow> view \<Rightarrow> Block \<Rightarrow> bytes \<Rightarrow> outs option" where
  "prevOuts d get block b =
     (case blockOuts d (block_Txs block) b of Some os \<Rightarrow> Some os | None \<Rightarrow> dbOuts d get b)"

definition credits :: "RocksDB \<Rightarrow> Tx \<Rightarrow> ledgerEvent list" where
  "credits d tx = concat (map (creditOf d (txidOf d tx)) (enumerate 0 (tx_Vout tx)))"

definition debits :: "RocksDB \<Rightarrow> view \<Rightarrow> Block \<Rightarrow> Tx \<Rightarrow> ledgerEvent list" where
  "debits d get block tx = concat (map (debitOf d (prevOuts d get block) (txidOf d tx)) (enumerate 0 (tx_Vin tx)))"

definition blockEvents :: "RocksDB \<Rightarrow> view \<Rightarrow> Block \<Rightarrow> ledgerEvent list" where
  "blockEvents d get block =
     concat (map (credits d) (block_Txs block)) @ concat (map (debits d get block) (block_Txs block))"

text \<open>The account of an address: balance and sent amount. A balance does not become negative.\<close>

fun ledgerStep :: "ledgerEvent \<Rightarrow> int \<times> int \<Rightarrow> int \<times> int" where
  "ledgerStep (Credit a b i v) (bal, sent) = (bal + v, sent)"
| "ledgerStep (Debit a b i v) (bal, sent) = (max 0 (bal - v), sent + v)"

definition eventsOf :: "bytes \<Rightarrow> ledgerEvent list \<Rightarrow> ledgerEvent list" where
  "eventsOf a evs = filter (\<lambda>e. ev_addr e = a) evs"

definition oldBalance :: "RocksDB \<Rightarrow> view \<Rightarrow> bytes \<Rightarrow> AddrBalance" where
  "oldBalance d get a =
     (case GetAddrDescBalance d get a addressBalanceDetailUTXOIndexed of Inr (Some b) \<Rightarrow> b | _ \<Rightarrow> zeroAddrBalance)"

definition accounted :: "AddrBalance \<Rightarrow> ledgerEvent list \<Rightarrow> AddrBalance \<Rightarrow> bool" where
  "accounted old evs ab \<longleftrightarrow>
     (ab_BalanceSat ab, ab_SentSat ab) = fold ledgerStep evs (ab_BalanceSat old, ab_SentSat old) \<and>
     ab_Txs ab = ab_Txs old + of_nat (card (ev_txid ` set evs))"

text \<open>The transactions of an address in the order of their first event, each with all its indexes.\<close>

definition groupTx :: "ledgerEvent list \<Rightarrow> txIndexes list" where
  "groupTx evs =
     map (\<lambda>b. \<lparr>btxID = b, indexes = map ev_index (filter (\<lambda>e. ev_txid e = b) evs)\<rparr>)
       (rev (remdups (rev (map ev_txid evs))))"

definition posted :: "RocksDB \<Rightarrow> view \<Rightarrow> ledgerEvent list \<Rightarrow> connectState \<Rightarrow> bool" where
  "posted d get evs st \<longleftrightarrow>
     (\<forall>a. case map_of (cs_balances st) a of
            None \<Rightarrow> eventsOf a evs = []
          | Some ab \<Rightarrow> eventsOf a evs \<noteq> [] \<and> accounted (oldBalance d get a) (eventsOf a evs) ab) \<and>
     (\<forall>a. map_of (cs_addresses st) a = (if eventsOf a evs = [] then None else Some (groupTx (eventsOf a evs)))) \<and>
     distinct (map fst (cs_balances st)) \<and> distinct (map fst (cs_addresses st))"

section \<open>Posting one event\<close>

lemma eventsOf_simps [simp]:
  "eventsOf a [] = []" "eventsOf a (xs @ ys) = eventsOf a xs @ eventsOf a ys"
  "eventsOf a (e # es) = (if ev_addr e = a then e # eventsOf a es else eventsOf a es)"
  by (simp_all add: eventsOf_def)

lemma remdups_rev_snoc:
  "rev (remdups (rev (xs @ [x]))) = (if x \<in> set xs then rev (remdups (rev xs)) else rev (remdups (rev xs)) @ [x])"
  by simp

lemma appendIndex_map:
  assumes "distinct bs"
  shows "appendIndex b i (map (\<lambda>b. \<lparr>btxID = b, indexes = f b\<rparr>) bs) =
    (if b \<in> set bs then Some (map (\<lambda>b'. \<lparr>btxID = b', indexes = f b' @ (if b' = b then [i] else [])\<rparr>) bs) else None)"
  using assms by (induction bs) auto

lemma appendIndex_groupTx:
  "appendIndex (ev_txid e) (ev_index e) (groupTx evs) =
     (if ev_txid e \<in> ev_txid ` set evs then Some (groupTx (evs @ [e])) else None)"
  unfolding groupTx_def by (subst appendIndex_map) (auto intro!: map_cong)

lemma groupTx_new:
  assumes "ev_txid e \<notin> ev_txid ` set evs"
  shows "groupTx (evs @ [e]) = groupTx evs @ [\<lparr>btxID = ev_txid e, indexes = [ev_index e]\<rparr>]"
proof -
  have "filter (\<lambda>e'. ev_txid e' = ev_txid e) evs = []"
    using assms by (simp add: filter_empty_conv) (metis imageI)
  with assms show ?thesis by (auto simp: groupTx_def intro!: map_cong)
qed

lemma groupTx_Nil [simp]: "groupTx [] = []"
  by (simp add: groupTx_def)

lemma addToAddressesMap_post:
  assumes rel: "\<And>a. map_of m a = (if eventsOf a evs = [] then None else Some (groupTx (eventsOf a evs)))"
    and add: "addToAddressesMap m (ev_addr e) (ev_txid e) (ev_index e) = (m', counted)"
  shows "map_of m' a = (if eventsOf a (evs @ [e]) = [] then None else Some (groupTx (eventsOf a (evs @ [e]))))"
    and "counted \<longleftrightarrow> ev_txid e \<in> ev_txid ` set (eventsOf (ev_addr e) evs)"
proof -
  let ?es = "eventsOf (ev_addr e) evs"
  have at: "(case map_of m (ev_addr e) of None \<Rightarrow> [] | Some at \<Rightarrow> at) = groupTx ?es"
    by (simp add: rel)
  show "map_of m' a = (if eventsOf a (evs @ [e]) = [] then None else Some (groupTx (eventsOf a (evs @ [e]))))"
    using add unfolding addToAddressesMap_def at Let_def appendIndex_groupTx
    by (auto simp: rel groupTx_new split: if_splits)
  show "counted \<longleftrightarrow> ev_txid e \<in> ev_txid ` set ?es"
    using add unfolding addToAddressesMap_def at Let_def appendIndex_groupTx by (auto split: if_splits)
qed

lemma addToAddressesMap_distinct:
  assumes "addToAddressesMap m a b i = (m', counted)" "distinct (map fst m)"
  shows "distinct (map fst m')"
proof -
  obtain at where "m' = AList.update a at m"
    using assms(1) by (auto simp: addToAddressesMap_def Let_def split: option.splits)
  with assms(2) show ?thesis by simp
qed

lemma accounted_snoc:
  assumes "accounted old evs ab"
    and "(ab_BalanceSat ab', ab_SentSat ab') = ledgerStep e (ab_BalanceSat ab, ab_SentSat ab)"
    and "ab_Txs ab' = (if ev_txid e \<in> ev_txid ` set evs then ab_Txs ab else ab_Txs ab + 1)"
  shows "accounted old (evs @ [e]) ab'"
  using assms by (auto simp: accounted_def card_insert_if)

lemma accounted_Nil: "accounted old [] old"
  by (simp add: accounted_def)

text \<open>The state between the load of a balance and its update.\<close>

lemma loadBalance_cases:
  assumes "loadBalance d get a st = Inr (balance, st')"
  obtains (hit) cbs where "map_of (cs_balances st) a = Some balance" "st' = st\<lparr>cs_cbs := cbs\<rparr>"
  | (miss) cbs where "map_of (cs_balances st) a = None" "balance = oldBalance d get a"
      "st' = putBalance a balance (st\<lparr>cs_cbs := cbs\<rparr>)"
proof (cases "map_of (cs_balances st) a")
  case None
  from assms None obtain bal where bal: "GetAddrDescBalance d get a addressBalanceDetailUTXOIndexed = Inr bal"
    and eq: "balance = (case bal of None \<Rightarrow> zeroAddrBalance | Some b \<Rightarrow> b)"
      "st' = putBalance a balance (st\<lparr>cs_cbs := (cs_cbs st)\<lparr>cbs_balancesMiss := cbs_balancesMiss (cs_cbs st) + 1\<rparr>\<rparr>)"
    by (simp add: loadBalance_def bindR_eq_Inr Let_def) blast
  have "balance = oldBalance d get a" by (simp add: oldBalance_def bal eq(1))
  then show thesis by (rule miss [OF None _ eq(2)])
next
  case (Some b)
  with assms have "balance = b" "st' = st\<lparr>cs_cbs := (cs_cbs st)\<lparr>cbs_balancesHit := cbs_balancesHit (cs_cbs st) + 1\<rparr>\<rparr>"
    by (simp_all add: loadBalance_def)
  with Some show thesis by (intro hit) simp_all
qed

lemma loadBalance_frame:
  assumes "loadBalance d get a st = Inr (balance, st')"
  shows "cs_addresses st' = cs_addresses st" and "cs_heap st' = cs_heap st"
    and "cs_txAddressesMap st' = cs_txAddressesMap st" and "cs_blockTxs st' = cs_blockTxs st"
    and "a' \<noteq> a \<Longrightarrow> map_of (cs_balances st') a' = map_of (cs_balances st) a'"
    and "distinct (map fst (cs_balances st)) \<Longrightarrow> distinct (map fst (cs_balances st'))"
  using assms by (cases rule: loadBalance_cases; simp add: putBalance_def)+

lemma loadBalance_posted:
  assumes load: "loadBalance d get a st = Inr (balance, st')" and "posted d get evs st"
  shows "accounted (oldBalance d get a) (eventsOf a evs) balance"
proof -
  have p: "case map_of (cs_balances st) a of
            None \<Rightarrow> eventsOf a evs = []
          | Some ab \<Rightarrow> eventsOf a evs \<noteq> [] \<and> accounted (oldBalance d get a) (eventsOf a evs) ab"
    using assms(2) by (simp add: posted_def)
  from load show ?thesis
    by (cases rule: loadBalance_cases) (use p in \<open>simp_all add: accounted_Nil\<close>)
qed

lemma posted_step:
  assumes "posted d get evs st"
    and "accounted (oldBalance d get (ev_addr e)) (eventsOf (ev_addr e) (evs @ [e])) balance"
    and "\<And>a. a \<noteq> ev_addr e \<Longrightarrow> map_of (cs_balances st') a = map_of (cs_balances st) a"
    and "map_of (cs_balances st') (ev_addr e) = Some balance"
    and "addToAddressesMap (cs_addresses st) (ev_addr e) (ev_txid e) (ev_index e) = (cs_addresses st', counted)"
    and "distinct (map fst (cs_balances st'))"
  shows "posted d get (evs @ [e]) st'"
proof -
  have addrs: "\<And>a. map_of (cs_addresses st) a = (if eventsOf a evs = [] then None else Some (groupTx (eventsOf a evs)))"
    and bals: "\<And>a. case map_of (cs_balances st) a of
            None \<Rightarrow> eventsOf a evs = []
          | Some ab \<Rightarrow> eventsOf a evs \<noteq> [] \<and> accounted (oldBalance d get a) (eventsOf a evs) ab"
    using assms(1) by (simp_all add: posted_def)
  have "case map_of (cs_balances st') a of
            None \<Rightarrow> eventsOf a (evs @ [e]) = []
          | Some ab \<Rightarrow> eventsOf a (evs @ [e]) \<noteq> [] \<and> accounted (oldBalance d get a) (eventsOf a (evs @ [e])) ab" for a
  proof (cases "a = ev_addr e")
    case True
    with assms(2,4) show ?thesis by simp
  next
    case False
    then have eq: "eventsOf a (evs @ [e]) = eventsOf a evs" by auto
    show ?thesis
      unfolding eq assms(3) [OF False] by (rule bals)
  qed
  moreover note addToAddressesMap_post(1) [OF addrs assms(5)]
  moreover have "distinct (map fst (cs_addresses st'))"
    by (rule addToAddressesMap_distinct [OF assms(5)]) (use assms(1) in \<open>simp add: posted_def\<close>)
  ultimately show ?thesis using assms(6) by (simp add: posted_def)
qed

lemma posted_cong:
  assumes "posted d get evs st" "cs_balances st' = cs_balances st" "cs_addresses st' = cs_addresses st"
  shows "posted d get evs st'"
  using assms by (simp add: posted_def)

section \<open>Outputs\<close>

definition hOuts :: "connectState \<Rightarrow> nat \<Rightarrow> outs" where
  "hOuts st j = outsOf (cs_heap st ! j)"

lemma setOutput_frame [simp]:
  "cs_balances (setOutput a i f st) = cs_balances st" "cs_addresses (setOutput a i f st) = cs_addresses st"
  "cs_txAddressesMap (setOutput a i f st) = cs_txAddressesMap st" "cs_blockTxs (setOutput a i f st) = cs_blockTxs st"
  "length (cs_heap (setOutput a i f st)) = length (cs_heap st)"
  by (simp_all add: setOutput_def Let_def)

lemma setInput_frame [simp]:
  "cs_balances (setInput a i f st) = cs_balances st" "cs_addresses (setInput a i f st) = cs_addresses st"
  "cs_txAddressesMap (setInput a i f st) = cs_txAddressesMap st" "cs_blockTxs (setInput a i f st) = cs_blockTxs st"
  "length (cs_heap (setInput a i f st)) = length (cs_heap st)"
  by (simp_all add: setInput_def Let_def)

lemma filterAdd_frame [simp]:
  "cs_balances (filterAdd a tx st) = cs_balances st" "cs_addresses (filterAdd a tx st) = cs_addresses st"
  "cs_txAddressesMap (filterAdd a tx st) = cs_txAddressesMap st" "cs_blockTxs (filterAdd a tx st) = cs_blockTxs st"
  "cs_heap (filterAdd a tx st) = cs_heap st"
  by (simp_all add: filterAdd_def)

lemma hOuts_setOutput:
  assumes "a < length (cs_heap st)"
  shows "hOuts (setOutput a i f st) j =
    (if j = a then
       (hOuts st a)[i := (to_AddrDesc (f (ta_Outputs (cs_heap st ! a) ! i)), to_ValueSat (f (ta_Outputs (cs_heap st ! a) ! i)))]
     else hOuts st j)"
  using assms by (simp add: hOuts_def setOutput_def Let_def outsOf_def map_update)

lemma nth_update_same: "g y = g (xs ! a) \<Longrightarrow> g (xs[a := y] ! j) = g (xs ! j)"
  by (cases "a < length xs"; cases "j = a") (simp_all add: list_update_beyond not_less)

lemma hOuts_setOutput_same:
  assumes "\<And>x. to_AddrDesc (f x) = to_AddrDesc x" "\<And>x. to_ValueSat (f x) = to_ValueSat x"
  shows "hOuts (setOutput a i f st) j = hOuts st j"
proof -
  have "map (\<lambda>o'. (to_AddrDesc o', to_ValueSat o')) (os[i := f (os ! i)]) = map (\<lambda>o'. (to_AddrDesc o', to_ValueSat o')) os" for os
    by (cases "i < length os") (simp_all add: map_update assms list_update_same_conv list_update_beyond not_less)
  then show ?thesis
    unfolding hOuts_def setOutput_def Let_def by (simp add: outsOf_def nth_update_same [of outsOf, unfolded outsOf_def])
qed

lemma hOuts_setInput [simp]: "hOuts (setInput a i f st) j = hOuts st j"
  unfolding hOuts_def setInput_def Let_def by (simp add: outsOf_def nth_update_same [of outsOf, unfolded outsOf_def])

lemma hOuts_cong: "cs_heap st' = cs_heap st \<Longrightarrow> hOuts st' = hOuts st"
  by (simp add: hOuts_def fun_eq_iff)

lemma hOuts_filterAdd [simp]: "hOuts (filterAdd x tx st) = hOuts st"
  by (rule hOuts_cong) simp

lemma connectOutputAsset_frame:
  assumes "connectOutputAsset d get block tx b a ai (balance, st) = Inr (balance', st')"
  shows "ab_BalanceSat balance' = ab_BalanceSat balance" "ab_SentSat balance' = ab_SentSat balance"
    "ab_Txs balance' = ab_Txs balance" "\<exists>as. st' = st\<lparr>cs_assets := as\<rparr>"
  using assms
  by (cases ai; force simp: connectOutputAsset_def bindR_eq_Inr putAssetBalance_def intro: exI [of _ "cs_assets st"])+

lemma connectInputAsset_frame:
  assumes "connectInputAsset d get block tx b o' (balance, st) = Inr (balance', st')"
  shows "ab_BalanceSat balance' = ab_BalanceSat balance" "ab_SentSat balance' = ab_SentSat balance"
    "ab_Txs balance' = ab_Txs balance" "\<exists>as. st' = st\<lparr>cs_assets := as\<rparr>"
  using assms
  by (cases "to_AssetInfo o'"; force simp: connectInputAsset_def bindR_eq_Inr putAssetBalance_def intro: exI [of _ "cs_assets st"])+

lemma addUtxo_frame [simp]:
  "ab_BalanceSat (addUtxo u ab) = ab_BalanceSat ab" "ab_SentSat (addUtxo u ab) = ab_SentSat ab"
  "ab_Txs (addUtxo u ab) = ab_Txs ab"
  by (simp_all add: addUtxo_def manageUtxoMap_def Let_def split: option.split)

lemma markUtxoAsSpent_frame:
  assumes "markUtxoAsSpent b vout ab = Some ab'"
  shows "ab_BalanceSat ab' = ab_BalanceSat ab" "ab_SentSat ab' = ab_SentSat ab" "ab_Txs ab' = ab_Txs ab"
  using assms by (auto simp: markUtxoAsSpent_def split: if_splits option.splits bind_splits)

text \<open>The part of \<open>processOutput\<close> that credits an address.\<close>

definition creditBalance ::
    "RocksDB \<Rightarrow> view \<Rightarrow> Block \<Rightarrow> Tx \<Rightarrow> bytes \<Rightarrow> nat \<times> Vout \<Rightarrow> bytes \<Rightarrow> connectState \<Rightarrow> connectState res" where
  "creditBalance d get block tx b iout addrDesc st =
     (case iout of (i, out) \<Rightarrow>
        bindR (loadBalance d get addrDesc st) (\<lambda>(balance, st).
        bindR (connectOutputAsset d get block tx b addrDesc (vout_AssetInfo out)
            (balance\<lparr>ab_BalanceSat := ab_BalanceSat balance + vout_ValueSat out\<rparr>, st)) (\<lambda>(balance, st).
          let balance = addUtxo \<lparr>u_BtxID = b, u_Vout = int32 (int i), u_Height = block_Height block,
                u_ValueSat = vout_ValueSat out, u_AssetInfo = vout_AssetInfo out\<rparr> balance;
              (addresses, counted) = addToAddressesMap (cs_addresses st) addrDesc b (int32 (int i));
              balance = (if counted then balance else balance\<lparr>ab_Txs := ab_Txs balance + 1\<rparr>) in
          Inr (putBalance addrDesc balance (st\<lparr>cs_addresses := addresses\<rparr>)))))"

lemma creditBalance_posted:
  assumes "creditBalance d get block tx b (i, out) a st = Inr st'" and p: "posted d get evs st"
  shows "posted d get (evs @ [Credit a b (int32 (int i)) (vout_ValueSat out)]) st'"
    and "cs_heap st' = cs_heap st" and "cs_txAddressesMap st' = cs_txAddressesMap st" and "cs_blockTxs st' = cs_blockTxs st"
proof -
  let ?e = "Credit a b (int32 (int i)) (vout_ValueSat out)"
  from assms(1) obtain bal st1 bal2 st2 where load: "loadBalance d get a st = Inr (bal, st1)"
    and asset: "connectOutputAsset d get block tx b a (vout_AssetInfo out)
        (bal\<lparr>ab_BalanceSat := ab_BalanceSat bal + vout_ValueSat out\<rparr>, st1) = Inr (bal2, st2)"
    and rest: "(let balance = addUtxo \<lparr>u_BtxID = b, u_Vout = int32 (int i), u_Height = block_Height block,
                u_ValueSat = vout_ValueSat out, u_AssetInfo = vout_AssetInfo out\<rparr> bal2;
              (addresses, counted) = addToAddressesMap (cs_addresses st2) a b (int32 (int i));
              balance = (if counted then balance else balance\<lparr>ab_Txs := ab_Txs balance + 1\<rparr>) in
          Inr (putBalance a balance (st2\<lparr>cs_addresses := addresses\<rparr>))) = (Inr st' :: connectState res)"
    by (auto simp: creditBalance_def bindR_eq_Inr)
  obtain as where st2: "st2 = st1\<lparr>cs_assets := as\<rparr>" using connectOutputAsset_frame(4) [OF asset] by blast
  obtain m counted where add: "addToAddressesMap (cs_addresses st) a b (int32 (int i)) = (m, counted)"
    by (cases "addToAddressesMap (cs_addresses st) a b (int32 (int i))")
  note frame = loadBalance_frame [OF load]
  obtain bal3 where st': "st' = putBalance a bal3 (st2\<lparr>cs_addresses := m\<rparr>)"
    and bal3: "ab_BalanceSat bal3 = ab_BalanceSat bal + vout_ValueSat out" "ab_SentSat bal3 = ab_SentSat bal"
      "ab_Txs bal3 = (if counted then ab_Txs bal else ab_Txs bal + 1)"
    using rest connectOutputAsset_frame(1-3) [OF asset] by (auto simp: st2 frame(1) add Let_def)
  have addrs: "\<And>a. map_of (cs_addresses st) a = (if eventsOf a evs = [] then None else Some (groupTx (eventsOf a evs)))"
    using p by (simp add: posted_def)
  have counted: "counted \<longleftrightarrow> ev_txid ?e \<in> ev_txid ` set (eventsOf a evs)"
    using addToAddressesMap_post(2) [where e = ?e, OF addrs] add by simp
  have acc: "accounted (oldBalance d get a) (eventsOf a evs @ [?e]) bal3"
    by (rule accounted_snoc [OF loadBalance_posted [OF load p]]) (simp_all add: bal3 counted)
  show "posted d get (evs @ [?e]) st'"
  proof (rule posted_step [OF p])
    show "accounted (oldBalance d get (ev_addr ?e)) (eventsOf (ev_addr ?e) (evs @ [?e])) bal3" using acc by simp
    show "map_of (cs_balances st') a' = map_of (cs_balances st) a'" if "a' \<noteq> ev_addr ?e" for a'
      using that frame(5) [of a'] by (simp add: st' putBalance_def st2)
    show "map_of (cs_balances st') (ev_addr ?e) = Some bal3" by (simp add: st' putBalance_def)
    show "addToAddressesMap (cs_addresses st) (ev_addr ?e) (ev_txid ?e) (ev_index ?e) = (cs_addresses st', counted)"
      using add by (simp add: st' putBalance_def)
    show "distinct (map fst (cs_balances st'))"
      using frame(6) p by (simp add: st' putBalance_def st2 posted_def)
  qed
  show "cs_heap st' = cs_heap st" "cs_txAddressesMap st' = cs_txAddressesMap st" "cs_blockTxs st' = cs_blockTxs st"
    by (simp_all add: st' putBalance_def st2 frame(2-4))
qed

lemma processOutput_unfold:
  "processOutput d get block tx b a (i, out) st =
     (let st = setOutput a i (\<lambda>tao. tao\<lparr>to_ValueSat := vout_ValueSat out, to_AssetInfo := vout_AssetInfo out\<rparr>) st in
      case p_GetAddrDescFromVout (d_chainParser d) out of
        Inl err \<Rightarrow> if err = Panic then Inl Panic else Inr st
      | Inr addrDesc \<Rightarrow>
          if length addrDesc = 0 \<or> length addrDesc > maxAddrDescLen then Inr st
          else
            let st = setOutput a i (\<lambda>tao. tao\<lparr>to_AddrDesc := addrDesc\<rparr>) (filterAdd addrDesc tx st) in
            if p_IsAddrDescIndexable (d_chainParser d) addrDesc then creditBalance d get block tx b (i, out) addrDesc st
            else Inr st)"
  by (simp add: processOutput_def creditBalance_def Let_def split: sum.split error.split)

definition sameShape :: "nat \<Rightarrow> connectState \<Rightarrow> connectState \<Rightarrow> bool" where
  "sameShape a st st' \<longleftrightarrow>
     cs_txAddressesMap st' = cs_txAddressesMap st \<and> cs_blockTxs st' = cs_blockTxs st \<and>
     length (cs_heap st') = length (cs_heap st) \<and> (\<forall>j. j \<noteq> a \<longrightarrow> hOuts st' j = hOuts st j)"

lemma sameShape_refl: "sameShape a st st"
  by (simp add: sameShape_def)

lemma sameShape_trans: "sameShape a st st' \<Longrightarrow> sameShape a st' st'' \<Longrightarrow> sameShape a st st''"
  by (simp add: sameShape_def)

lemma processOutput_posted:
  assumes run: "processOutput d get block tx b a (i, out) st = Inr st'" and p: "posted d get evs st"
    and a: "a < length (cs_heap st)" and i: "i < length (hOuts st a)" and zero: "fst (hOuts st a ! i) = []"
  shows "posted d get (evs @ creditOf d b (i, out)) st'"
    and "sameShape a st st'" and "hOuts st' a = (hOuts st a)[i := outSpec d out]"
proof -
  let ?s = "setOutput a i (\<lambda>tao. tao\<lparr>to_ValueSat := vout_ValueSat out, to_AssetInfo := vout_AssetInfo out\<rparr>) st"
  have nth: "to_AddrDesc (ta_Outputs (cs_heap st ! a) ! i) = []"
    using i zero by (simp add: hOuts_def outsOf_def)
  have s: "hOuts ?s a = (hOuts st a)[i := ([], vout_ValueSat out)]" "posted d get evs ?s" "sameShape a st ?s"
    using a by (auto simp: hOuts_setOutput nth sameShape_def intro: posted_cong [OF p])
  have "posted d get (evs @ creditOf d b (i, out)) st' \<and> sameShape a st st' \<and> hOuts st' a = (hOuts st a)[i := outSpec d out]"
  proof (cases "fst (outSpec d out) = []")
    case True
    then have "st' = ?s" "creditOf d b (i, out) = []" "outSpec d out = ([], vout_ValueSat out)"
      using run by (auto simp: processOutput_unfold Let_def outSpec_def creditOf_def indexed_def maxAddrDescLen_def
          split: sum.splits if_splits)
    with s show ?thesis by simp
  next
    case False
    then obtain ad where ad: "p_GetAddrDescFromVout (d_chainParser d) out = Inr ad" "ad \<noteq> []" "length ad \<le> maxAddrDescLen"
      by (auto simp: outSpec_def split: sum.splits if_splits)
    let ?t = "setOutput a i (\<lambda>tao. tao\<lparr>to_AddrDesc := ad\<rparr>) (filterAdd ad tx ?s)"
    have "ta_Outputs (cs_heap ?s ! a) ! i = (ta_Outputs (cs_heap st ! a) ! i)\<lparr>to_ValueSat := vout_ValueSat out, to_AssetInfo := vout_AssetInfo out\<rparr>"
      using a i by (simp add: setOutput_def Let_def hOuts_def outsOf_def)
    then have t: "hOuts ?t a = (hOuts st a)[i := outSpec d out]" "posted d get evs ?t" "sameShape a st ?t"
      using a s ad by (auto simp: hOuts_setOutput outSpec_def sameShape_def intro: posted_cong [OF p])
    have spec: "outSpec d out = (ad, vout_ValueSat out)" using ad by (simp add: outSpec_def)
    show ?thesis
    proof (cases "p_IsAddrDescIndexable (d_chainParser d) ad")
      case True
      with run ad have c: "creditBalance d get block tx b (i, out) ad ?t = Inr st'"
        by (simp add: processOutput_unfold Let_def)
      have "creditOf d b (i, out) = [Credit ad b (int32 (int i)) (vout_ValueSat out)]"
        using True ad(2) by (simp add: creditOf_def spec indexed_def)
      with creditBalance_posted [OF c t(2)] t(1,3) show ?thesis
        by (simp add: sameShape_def hOuts_def)
    next
      case False
      with run ad have "st' = ?t" by (simp add: processOutput_unfold Let_def)
      moreover have "creditOf d b (i, out) = []" using False by (simp add: creditOf_def spec indexed_def)
      ultimately show ?thesis using t by simp
    qed
  qed
  then show "posted d get (evs @ creditOf d b (i, out)) st'" "sameShape a st st'" "hOuts st' a = (hOuts st a)[i := outSpec d out]"
    by blast+
qed

lemma processOutputs_fold:
  assumes "foldR (processOutput d get block tx b a) (enumerate n vouts) st = Inr st'"
    and "posted d get evs st" "a < length (cs_heap st)"
    and "hOuts st a = pre @ replicate (length vouts) ([], 0)" "length pre = n"
  shows "posted d get (evs @ concat (map (creditOf d b) (enumerate n vouts))) st' \<and> sameShape a st st' \<and>
    hOuts st' a = pre @ map (outSpec d) vouts"
  using assms
proof (induction vouts arbitrary: n st evs pre)
  case Nil
  then show ?case by (simp add: sameShape_refl)
next
  case (Cons out vouts)
  from Cons.prems(1) obtain s where one: "processOutput d get block tx b a (n, out) st = Inr s"
    and rest: "foldR (processOutput d get block tx b a) (enumerate (Suc n) vouts) s = Inr st'"
    by (auto simp: bindR_eq_Inr)
  note step = processOutput_posted [OF one Cons.prems(2,3)]
  have n: "n < length (hOuts st a)" "fst (hOuts st a ! n) = []"
    using Cons.prems(4,5) by auto
  note step = step [OF n]
  have "hOuts s a = (pre @ [outSpec d out]) @ replicate (length vouts) ([], 0)"
    using step(3) Cons.prems(4,5) by auto
  moreover have "a < length (cs_heap s)" using step(2) Cons.prems(3) by (simp add: sameShape_def)
  ultimately have "posted d get ((evs @ creditOf d b (n, out)) @ concat (map (creditOf d b) (enumerate (Suc n) vouts))) st' \<and>
      sameShape a s st' \<and> hOuts st' a = (pre @ [outSpec d out]) @ map (outSpec d) vouts"
    by (intro Cons.IH [OF rest step(1)]) (simp_all add: Cons.prems(5))
  then show ?case using sameShape_trans [OF step(2)] by simp
qed

text \<open>After the outputs of the transactions \<open>txs\<close>.\<close>

definition outputsDone :: "RocksDB \<Rightarrow> view \<Rightarrow> Tx list \<Rightarrow> connectState \<Rightarrow> bool" where
  "outputsDone d get txs st \<longleftrightarrow>
     posted d get (concat (map (credits d) txs)) st \<and> map fst (cs_blockTxs st) = map (txidOf d) txs \<and>
     (\<forall>b. blockOuts d txs b = map_option (hOuts st) (map_of (cs_txAddressesMap st) b)) \<and>
     (\<forall>b j. map_of (cs_txAddressesMap st) b = Some j \<longrightarrow> j < length (cs_heap st))"

lemma blockOuts_snoc:
  "blockOuts d (txs @ [tx]) = (blockOuts d txs)(txidOf d tx \<mapsto> map (outSpec d) (tx_Vout tx))"
  by (simp add: blockOuts_def)

lemma processTxOutputs_done:
  assumes "processTxOutputs d get block tx st = Inr st'" and finished: "outputsDone d get txs st"
  shows "outputsDone d get (txs @ [tx]) st'"
proof -
  from assms(1) obtain b where b: "p_PackTxid (d_chainParser d) (tx_Txid tx) = Inr b"
    by (auto simp: processTxOutputs_def bindR_eq_Inr)
  let ?a = "length (cs_heap st)"
  let ?s = "st\<lparr>cs_heap := cs_heap st @ [newTxAddresses d block tx],
      cs_txAddressesMap := AList.update b ?a (cs_txAddressesMap st), cs_blockTxs := cs_blockTxs st @ [(b, ?a)]\<rparr>"
  have run: "foldR (processOutput d get block tx b ?a) (enumerate 0 (tx_Vout tx)) ?s = Inr st'"
    using assms(1) b by (simp add: processTxOutputs_def Let_def)
  have id: "txidOf d tx = b" by (simp add: txidOf_def b)
  have p: "posted d get (concat (map (credits d) txs)) ?s"
    using finished by (auto simp: outputsDone_def intro: posted_cong)
  have old: "hOuts ?s j = hOuts st j" if "j < ?a" for j
    using that by (simp add: hOuts_def nth_append)
  have "posted d get (concat (map (credits d) txs) @ concat (map (creditOf d b) (enumerate 0 (tx_Vout tx)))) st' \<and>
      sameShape ?a ?s st' \<and> hOuts st' ?a = [] @ map (outSpec d) (tx_Vout tx)"
    by (rule processOutputs_fold [OF run p])
       (simp_all add: hOuts_def outsOf_def newTxAddresses_def zeroTxOutput_def)
  then have q: "posted d get (concat (map (credits d) (txs @ [tx]))) st'"
    and same: "sameShape ?a ?s st'" and new: "hOuts st' ?a = map (outSpec d) (tx_Vout tx)"
    by (simp_all add: credits_def id)
  have range: "j < ?a" if "map_of (cs_txAddressesMap st) b' = Some j" for b' j
    using that finished by (simp add: outputsDone_def)
  have tam: "map_of (cs_txAddressesMap st') = (map_of (cs_txAddressesMap st))(b \<mapsto> ?a)"
    using same by (simp add: sameShape_def)
  have outs: "blockOuts d (txs @ [tx]) b' = map_option (hOuts st') (map_of (cs_txAddressesMap st') b')" for b'
  proof (cases "b' = b")
    case False
    have "hOuts st' j = hOuts st j" if "map_of (cs_txAddressesMap st) b' = Some j" for j
      using same old [OF range [OF that]] range [OF that] by (simp add: sameShape_def)
    moreover have "blockOuts d txs b' = map_option (hOuts st) (map_of (cs_txAddressesMap st) b')"
      using finished by (simp add: outputsDone_def)
    ultimately show ?thesis using False
      by (cases "map_of (cs_txAddressesMap st) b'") (simp_all add: blockOuts_snoc id tam)
  qed (simp add: blockOuts_snoc id tam new)
  have "j < length (cs_heap st')" if "map_of (cs_txAddressesMap st') b' = Some j" for b' j
    using that range [of b' j] same by (auto simp: tam sameShape_def split: if_splits)
  moreover have "map fst (cs_blockTxs st') = map (txidOf d) (txs @ [tx])"
    using same finished by (simp add: sameShape_def outputsDone_def id)
  ultimately show ?thesis using q outs by (simp add: outputsDone_def)
qed

lemma processTxOutputs_fold:
  assumes "foldR (processTxOutputs d get block) txs st = Inr st'" and "outputsDone d get [] st"
  shows "outputsDone d get txs st'"
  using assms
proof (induction txs arbitrary: st' rule: rev_induct)
  case (snoc tx txs)
  from snoc.prems(1) obtain s where "foldR (processTxOutputs d get block) txs st = Inr s"
    and "processTxOutputs d get block tx s = Inr st'"
    by (auto simp: foldR_append bindR_eq_Inr)
  with snoc.IH snoc.prems(2) show ?case by (blast intro: processTxOutputs_done)
qed simp

section \<open>Inputs\<close>

text \<open>While inputs are processed, every transaction in the map has the outputs that the ledger refers to.\<close>

definition inputsKnown :: "RocksDB \<Rightarrow> view \<Rightarrow> Block \<Rightarrow> connectState \<Rightarrow> bool" where
  "inputsKnown d get block st \<longleftrightarrow>
     (\<forall>b. case map_of (cs_txAddressesMap st) b of
            None \<Rightarrow> blockOuts d (block_Txs block) b = None
          | Some j \<Rightarrow> j < length (cs_heap st) \<and> prevOuts d get block b = Some (hOuts st j))"

lemma inputsKnown_cong:
  assumes "inputsKnown d get block st" "cs_txAddressesMap st' = cs_txAddressesMap st"
    "length (cs_heap st') = length (cs_heap st)" "\<And>j. hOuts st' j = hOuts st j"
  shows "inputsKnown d get block st'"
proof -
  have outs: "hOuts st' = hOuts st" using assms(4) by (rule ext)
  show ?thesis using assms(1) unfolding inputsKnown_def assms(2,3) outs .
qed

lemma findSpentTx_known:
  assumes "findSpentTx d get b st = Inr (ita, st')" and known: "inputsKnown d get block st"
  shows "inputsKnown d get block st'"
    and "prevOuts d get block b = map_option (hOuts st') ita"
    and "cs_balances st' = cs_balances st" "cs_addresses st' = cs_addresses st"
proof -
  have k: "case map_of (cs_txAddressesMap st) b' of
            None \<Rightarrow> blockOuts d (block_Txs block) b' = None
          | Some j \<Rightarrow> j < length (cs_heap st) \<and> prevOuts d get block b' = Some (hOuts st j)" for b'
    using known by (simp add: inputsKnown_def)
  have "inputsKnown d get block st' \<and> prevOuts d get block b = map_option (hOuts st') ita \<and>
      cs_balances st' = cs_balances st \<and> cs_addresses st' = cs_addresses st"
  proof (cases "map_of (cs_txAddressesMap st) b")
    case (Some j)
    with assms(1) obtain cbs where "ita = Some j" "st' = st\<lparr>cs_cbs := cbs\<rparr>"
      by (auto simp: findSpentTx_def)
    with Some k [of b] known show ?thesis
      by (auto simp: hOuts_def intro: inputsKnown_cong [OF known])
  next
    case None
    with k [of b] have prev: "prevOuts d get block b = dbOuts d get b" by (simp add: prevOuts_def)
    from assms(1) None obtain r where r: "getTxAddresses d get b = Inr r"
      by (auto simp: findSpentTx_def bindR_eq_Inr)
    show ?thesis
    proof (cases r)
      case None': None
      with assms(1) None r prev known show ?thesis by (simp add: findSpentTx_def dbOuts_def)
    next
      case (Some ta)
      let ?a = "length (cs_heap st)"
      from assms(1) None r Some obtain cbs where ita: "ita = Some ?a"
        and st': "st' = st\<lparr>cs_heap := cs_heap st @ [ta],
          cs_txAddressesMap := AList.update b ?a (cs_txAddressesMap st), cs_cbs := cbs\<rparr>"
        by (auto simp: findSpentTx_def)
      have new: "hOuts st' ?a = outsOf ta" by (simp add: hOuts_def st')
      have old: "j < ?a \<Longrightarrow> hOuts st' j = hOuts st j" for j by (simp add: hOuts_def st' nth_append)
      have b: "prevOuts d get block b = Some (hOuts st' ?a)" using prev r Some by (simp add: dbOuts_def new)
      have "case map_of (cs_txAddressesMap st') b' of
            None \<Rightarrow> blockOuts d (block_Txs block) b' = None
          | Some j \<Rightarrow> j < length (cs_heap st') \<and> prevOuts d get block b' = Some (hOuts st' j)" for b'
      proof (cases "b' = b")
        case True
        then show ?thesis using b by (simp add: st')
      next
        case False
        then have "map_of (cs_txAddressesMap st') b' = map_of (cs_txAddressesMap st) b'" by (simp add: st')
        with k [of b'] old show ?thesis by (auto simp: st' split: option.splits)
      qed
      then have "inputsKnown d get block st'" by (simp add: inputsKnown_def)
      with b show ?thesis by (simp add: ita st')
    qed
  qed
  then show "inputsKnown d get block st'" "prevOuts d get block b = map_option (hOuts st') ita"
    "cs_balances st' = cs_balances st" "cs_addresses st' = cs_addresses st"
    by blast+
qed

lemma spendFromBalance_heap:
  assumes "spendFromBalance d get block tx b i p vout o' st = Inr st'"
  shows "cs_heap st' = cs_heap st \<and> cs_txAddressesMap st' = cs_txAddressesMap st"
proof -
  let ?a = "to_AddrDesc o'"
  from assms obtain bal st1 where load: "loadBalance d get ?a st = Inr (bal, st1)"
    by (auto simp: spendFromBalance_def Let_def bindR_eq_Inr)
  from assms load obtain bal1 m bal2 st2 bal3 where
      asset: "connectInputAsset d get block tx b o' (bal1, st1\<lparr>cs_addresses := m\<rparr>) = Inr (bal2, st2)"
    and st': "st' = putBalance ?a bal3 st2"
    by (auto simp: spendFromBalance_def Let_def bindR_eq_Inr split: prod.splits)
  obtain as where "st2 = st1\<lparr>cs_addresses := m, cs_assets := as\<rparr>"
    using connectInputAsset_frame(4) [OF asset] by auto
  then show ?thesis by (simp add: st' putBalance_def loadBalance_frame [OF load])
qed

lemma spendFromBalance_posted:
  assumes "spendFromBalance d get block tx b i p vout o' st = Inr st'" and p: "posted d get evs st"
  shows "posted d get (evs @ [Debit (to_AddrDesc o') b (NOT (int32 (int i))) (to_ValueSat o')]) st'"
proof -
  let ?a = "to_AddrDesc o'" and ?i = "NOT (int32 (int i))"
  let ?e = "Debit ?a b ?i (to_ValueSat o')"
  from assms(1) obtain bal st1 where load: "loadBalance d get ?a st = Inr (bal, st1)"
    by (auto simp: spendFromBalance_def Let_def bindR_eq_Inr)
  note frame = loadBalance_frame [OF load]
  obtain m counted where add: "addToAddressesMap (cs_addresses st) ?a b ?i = (m, counted)"
    by (cases "addToAddressesMap (cs_addresses st) ?a b ?i")
  let ?bal1 = "(if counted then bal else bal\<lparr>ab_Txs := ab_Txs bal + 1\<rparr>)\<lparr>ab_BalanceSat :=
      ab_BalanceSat (if counted then bal else bal\<lparr>ab_Txs := ab_Txs bal + 1\<rparr>) - to_ValueSat o'\<rparr>"
  from assms(1) obtain bal2 st2 bal3 where
      asset: "connectInputAsset d get block tx b o' (?bal1, st1\<lparr>cs_addresses := m\<rparr>) = Inr (bal2, st2)"
    and mark: "markUtxoAsSpent p (sint vout) bal2 = Some bal3"
    and st': "st' = putBalance ?a ((if ab_BalanceSat bal3 < 0
        then bal3\<lparr>ab_BalanceSat := resetValueSatToZero (ab_BalanceSat bal3)\<rparr> else bal3)\<lparr>ab_SentSat :=
          ab_SentSat (if ab_BalanceSat bal3 < 0
            then bal3\<lparr>ab_BalanceSat := resetValueSatToZero (ab_BalanceSat bal3)\<rparr> else bal3) + to_ValueSat o'\<rparr>) st2"
    by (auto simp: spendFromBalance_def Let_def bindR_eq_Inr load frame(1) add of_panic_def split: option.splits)
  obtain as where st2: "st2 = st1\<lparr>cs_addresses := m, cs_assets := as\<rparr>"
    using connectInputAsset_frame(4) [OF asset] by auto
  obtain bal4 where bal4: "st' = putBalance ?a bal4 st2"
    "ab_BalanceSat bal4 = max 0 (ab_BalanceSat bal - to_ValueSat o')" "ab_SentSat bal4 = ab_SentSat bal + to_ValueSat o'"
    "ab_Txs bal4 = (if counted then ab_Txs bal else ab_Txs bal + 1)"
    using st' markUtxoAsSpent_frame [OF mark] connectInputAsset_frame(1-3) [OF asset]
    by (auto simp: resetValueSatToZero_def)
  have addrs: "\<And>a. map_of (cs_addresses st) a = (if eventsOf a evs = [] then None else Some (groupTx (eventsOf a evs)))"
    using p by (simp add: posted_def)
  have counted: "counted \<longleftrightarrow> ev_txid ?e \<in> ev_txid ` set (eventsOf ?a evs)"
    using addToAddressesMap_post(2) [where e = ?e, OF addrs] add by simp
  have acc: "accounted (oldBalance d get ?a) (eventsOf ?a evs @ [?e]) bal4"
    by (rule accounted_snoc [OF loadBalance_posted [OF load p]]) (simp_all add: bal4 counted)
  show "posted d get (evs @ [?e]) st'"
  proof (rule posted_step [OF p])
    show "accounted (oldBalance d get (ev_addr ?e)) (eventsOf (ev_addr ?e) (evs @ [?e])) bal4" using acc by simp
    show "map_of (cs_balances st') a' = map_of (cs_balances st) a'" if "a' \<noteq> ev_addr ?e" for a'
      using that frame(5) [of a'] by (simp add: bal4(1) putBalance_def st2)
    show "map_of (cs_balances st') (ev_addr ?e) = Some bal4" by (simp add: bal4(1) putBalance_def)
    show "addToAddressesMap (cs_addresses st) (ev_addr ?e) (ev_txid ?e) (ev_index ?e) = (cs_addresses st', counted)"
      using add by (simp add: bal4(1) putBalance_def st2)
    show "distinct (map fst (cs_balances st'))"
      using frame(6) p by (simp add: bal4(1) putBalance_def st2 posted_def)
  qed
qed

text \<open>The bookkeeping of an input in the rows of the two transactions.\<close>

definition recordSpent ::
    "RocksDB \<Rightarrow> Block \<Rightarrow> Tx \<Rightarrow> nat \<Rightarrow> nat \<Rightarrow> nat \<times> Vin \<Rightarrow> TxOutput \<Rightarrow> connectState \<Rightarrow> connectState" where
  "recordSpent d block tx a s ivin spentOutput st =
     (case ivin of (i, vin) \<Rightarrow>
        let vout = unat (vin_Vout vin);
            st = filterAdd (to_AddrDesc spentOutput) tx st;
            st = setInput a i (\<lambda>tai. tai\<lparr>ti_AddrDesc := to_AddrDesc spentOutput,
                   ti_ValueSat := to_ValueSat spentOutput, ti_AssetInfo := to_AssetInfo spentOutput\<rparr>) st;
            st = setOutput s vout (\<lambda>o'. o'\<lparr>to_Spent := True\<rparr>) st in
        if d_extendedIndex d then
          setInput a i (\<lambda>tai. tai\<lparr>ti_Txid := vin_Txid vin, ti_Vout := vin_Vout vin\<rparr>)
            (setOutput s vout (\<lambda>o'. o'\<lparr>to_SpentTxid := tx_Txid tx,
               to_SpentIndex := of_nat i, to_SpentHeight := block_Height block\<rparr>) st)
        else st)"

lemma recordSpent_frame [simp]:
  "cs_balances (recordSpent d block tx a s iv so st) = cs_balances st"
  "cs_addresses (recordSpent d block tx a s iv so st) = cs_addresses st"
  "cs_txAddressesMap (recordSpent d block tx a s iv so st) = cs_txAddressesMap st"
  "length (cs_heap (recordSpent d block tx a s iv so st)) = length (cs_heap st)"
  "hOuts (recordSpent d block tx a s iv so st) j = hOuts st j"
  by (simp_all add: recordSpent_def Let_def hOuts_setOutput_same split: prod.split)

lemma processInput_unfold:
  "processInput d get block tx b a (i, vin) st =
     (case p_PackTxid (d_chainParser d) (vin_Txid vin) of
        Inl err \<Rightarrow> if err = ErrTxidMissing then Inr st else Inl err
      | Inr p \<Rightarrow>
          bindR (findSpentTx d get p st) (\<lambda>(ita, st).
            case ita of
              None \<Rightarrow>
                Inr (setInput a i (\<lambda>tai. tai\<lparr>ti_AddrDesc :=
                  p_GetAddrDescForUnknownInput (d_chainParser d) tx (int i)\<rparr>) st)
            | Some s \<Rightarrow>
                if length (ta_Outputs (cs_heap st ! s)) \<le> unat (vin_Vout vin) then Inr st
                else
                  let spentOutput = ta_Outputs (cs_heap st ! s) ! unat (vin_Vout vin);
                      st = recordSpent d block tx a s (i, vin) spentOutput st in
                  if indexed d (to_AddrDesc spentOutput)
                  then spendFromBalance d get block tx b i p (vin_Vout vin) spentOutput st
                  else Inr st))"
proof (cases "p_PackTxid (d_chainParser d) (vin_Txid vin)")
  case (Inl err)
  then show ?thesis by (cases err) (simp_all add: processInput_def)
next
  case (Inr p)
  show ?thesis
  proof (cases "findSpentTx d get p st")
    case (Inr r)
    then show ?thesis
      using \<open>p_PackTxid (d_chainParser d) (vin_Txid vin) = Inr p\<close>
      by (cases r; cases "fst r") (simp_all add: processInput_def recordSpent_def indexed_def Let_def)
  qed (simp add: processInput_def Inr)
qed

lemma processInput_posted:
  assumes run: "processInput d get block tx b a (i, vin) st = Inr st'" and p: "posted d get evs st"
    and known: "inputsKnown d get block st"
  shows "posted d get (evs @ debitOf d (prevOuts d get block) b (i, vin)) st' \<and> inputsKnown d get block st'"
proof (cases "p_PackTxid (d_chainParser d) (vin_Txid vin)")
  case (Inl err)
  with run have "st' = st" by (simp add: processInput_unfold split: if_splits)
  with Inl p known show ?thesis by (simp add: debitOf_def)
next
  case (Inr prev)
  with run obtain ita s1 where find: "findSpentTx d get prev st = Inr (ita, s1)"
    by (auto simp: processInput_unfold bindR_eq_Inr)
  note f = findSpentTx_known [OF find known]
  have p1: "posted d get evs s1" by (rule posted_cong [OF p f(3,4)])
  show ?thesis
  proof (cases ita)
    case None
    with run Inr find have st': "st' = setInput a i (\<lambda>tai. tai\<lparr>ti_AddrDesc :=
        p_GetAddrDescForUnknownInput (d_chainParser d) tx (int i)\<rparr>) s1"
      by (simp add: processInput_unfold)
    have "posted d get evs st'" "inputsKnown d get block st'"
      unfolding st' by (rule posted_cong [OF p1], simp_all) (rule inputsKnown_cong [OF f(1)], simp_all)
    with None Inr f(2) show ?thesis by (simp add: debitOf_def)
  next
    case (Some s)
    let ?n = "unat (vin_Vout vin)" and ?os = "ta_Outputs (cs_heap s1 ! s)"
    have os: "prevOuts d get block prev = Some (map (\<lambda>o'. (to_AddrDesc o', to_ValueSat o')) ?os)"
      using f(2) Some by (simp add: hOuts_def outsOf_def)
    show ?thesis
    proof (cases "?n < length ?os")
      case False
      with run Inr find Some have "st' = s1" by (simp add: processInput_unfold)
      with False Inr os p1 f(1) show ?thesis by (simp add: debitOf_def)
    next
      case True
      let ?o = "?os ! ?n" and ?t = "recordSpent d block tx a s (i, vin) (?os ! ?n) s1"
      have t: "posted d get evs ?t" "inputsKnown d get block ?t"
        by (rule posted_cong [OF p1], simp_all) (rule inputsKnown_cong [OF f(1)], simp_all)
      have debit: "debitOf d (prevOuts d get block) b (i, vin) =
          (if indexed d (to_AddrDesc ?o) then [Debit (to_AddrDesc ?o) b (NOT (int32 (int i))) (to_ValueSat ?o)] else [])"
        using True Inr os by (simp add: debitOf_def)
      show ?thesis
      proof (cases "indexed d (to_AddrDesc ?o)")
        case yes: True
        with run Inr find Some True have sp: "spendFromBalance d get block tx b i prev (vin_Vout vin) ?o ?t = Inr st'"
          by (simp add: processInput_unfold Let_def)
        note q = conjunct1 [OF spendFromBalance_heap [OF sp]] conjunct2 [OF spendFromBalance_heap [OF sp]]
        have "inputsKnown d get block st'"
          by (rule inputsKnown_cong [OF t(2) q(2)]) (simp_all add: q(1) hOuts_cong [OF q(1)] del: recordSpent_frame)
        with spendFromBalance_posted [OF sp t(1)] yes debit show ?thesis by simp
      next
        case no: False
        with run Inr find Some True have "st' = ?t" by (simp add: processInput_unfold Let_def)
        with t no debit show ?thesis by simp
      qed
    qed
  qed
qed

lemma processInputs_fold:
  assumes "foldR (processInput d get block tx b a) (enumerate n vins) st = Inr st'"
    and "posted d get evs st" "inputsKnown d get block st"
  shows "posted d get (evs @ concat (map (debitOf d (prevOuts d get block) b) (enumerate n vins))) st' \<and>
    inputsKnown d get block st'"
  using assms
proof (induction vins arbitrary: n st evs)
  case (Cons vin vins)
  from Cons.prems(1) obtain s where one: "processInput d get block tx b a (n, vin) st = Inr s"
    and rest: "foldR (processInput d get block tx b a) (enumerate (Suc n) vins) s = Inr st'"
    by (auto simp: bindR_eq_Inr)
  have s: "posted d get (evs @ debitOf d (prevOuts d get block) b (n, vin)) s" "inputsKnown d get block s"
    using processInput_posted [OF one Cons.prems(2,3)] by blast+
  from Cons.IH [OF rest s] show ?case by simp
qed simp

lemma processTxInputs_fold:
  assumes "foldR (processTxInputs d get block) (zip txs bas) st = Inr st'" "map fst bas = map (txidOf d) txs"
    and "posted d get evs st" "inputsKnown d get block st"
  shows "posted d get (evs @ concat (map (debits d get block) txs)) st'"
  using assms
proof (induction txs arbitrary: bas st evs)
  case (Cons tx txs)
  from Cons.prems(2) obtain a bas' where bas: "bas = (txidOf d tx, a) # bas'" and tl: "map fst bas' = map (txidOf d) txs"
    by (cases bas) auto
  let ?s = "st\<lparr>cs_heap := (cs_heap st)[a := (cs_heap st ! a)\<lparr>ta_Inputs := replicate (length (tx_Vin tx)) zeroTxInput\<rparr>]\<rparr>"
  from Cons.prems(1) obtain s where
      one: "foldR (processInput d get block tx (txidOf d tx) a) (enumerate 0 (tx_Vin tx)) ?s = Inr s"
    and rest: "foldR (processTxInputs d get block) (zip txs bas') s = Inr st'"
    by (auto simp: bas bindR_eq_Inr processTxInputs_def [of d get block "(tx, txidOf d tx, a)"])
  have "hOuts ?s j = hOuts st j" for j
    by (simp add: hOuts_def outsOf_def nth_update_same [of outsOf, unfolded outsOf_def])
  then have known: "inputsKnown d get block ?s"
    by (intro inputsKnown_cong [OF Cons.prems(4)]) simp_all
  have "posted d get evs ?s" by (rule posted_cong [OF Cons.prems(3)]) simp_all
  note step = processInputs_fold [OF one this known]
  from Cons.IH [OF rest tl conjunct1 [OF step] conjunct2 [OF step]] show ?case by (simp add: debits_def)
qed simp

lemma processAddressesBitcoinType_posted:
  assumes "processAddressesBitcoinType d get block (initialConnectState d block cache calls cbs) = Inr st"
  shows "posted d get (blockEvents d get block) st"
proof -
  let ?s0 = "initialConnectState d block cache calls cbs" and ?txs = "block_Txs block"
  from assms obtain s where outs: "foldR (processTxOutputs d get block) ?txs ?s0 = Inr s"
    and ins: "foldR (processTxInputs d get block) (zip ?txs (cs_blockTxs s)) s = Inr st"
    by (auto simp: processAddressesBitcoinType_def bindR_eq_Inr)
  have "outputsDone d get [] ?s0"
    by (simp add: outputsDone_def posted_def initialConnectState_def Let_def blockOuts_def)
  from processTxOutputs_fold [OF outs this]
  have finished: "posted d get (concat (map (credits d) ?txs)) s" "map fst (cs_blockTxs s) = map (txidOf d) ?txs"
    and outs: "\<And>b. blockOuts d ?txs b = map_option (hOuts s) (map_of (cs_txAddressesMap s) b)"
    and range: "\<And>b j. map_of (cs_txAddressesMap s) b = Some j \<Longrightarrow> j < length (cs_heap s)"
    by (simp_all add: outputsDone_def)
  have "inputsKnown d get block s"
    using outs range by (auto simp: inputsKnown_def prevOuts_def split: option.split)
  from processTxInputs_fold [OF ins finished(2,1) this] show ?thesis by (simp add: blockEvents_def)
qed

section \<open>The ledger of a block\<close>

lemma posted_cases:
  assumes "posted d get evs st"
  shows "if eventsOf a evs = [] then map_of (cs_balances st) a = None \<and> map_of (cs_addresses st) a = None
    else (\<exists>ab. map_of (cs_balances st) a = Some ab \<and> accounted (oldBalance d get a) (eventsOf a evs) ab) \<and>
      map_of (cs_addresses st) a = Some (groupTx (eventsOf a evs))"
proof -
  note p = assms [unfolded posted_def]
  have "case map_of (cs_balances st) a of
      None \<Rightarrow> eventsOf a evs = []
    | Some ab \<Rightarrow> eventsOf a evs \<noteq> [] \<and> accounted (oldBalance d get a) (eventsOf a evs) ab"
    by (rule spec [OF conjunct1 [OF p]])
  moreover have "map_of (cs_addresses st) a =
      (if eventsOf a evs = [] then None else Some (groupTx (eventsOf a evs)))"
    by (rule spec [OF conjunct1 [OF conjunct2 [OF p]]])
  ultimately show ?thesis by (cases "map_of (cs_balances st) a") simp_all
qed

text \<open>C1: Connecting a block of a Bitcoin-type chain changes balances exactly by the ledger of the block. The ledger lists the
  outputs of all transactions, then their inputs, each looked up among the outputs of the block and otherwise in
  the database. An address without an event keeps no balance and no index entry in the block's maps. Every other
  address gets the balance of the database, changed by its events in order (a balance that would become negative
  becomes zero), a transaction count increased by the number of its different transactions, and an index entry
  that lists each of these transactions once, in the order of the first event, with the indexes of all its
  outputs and the complemented indexes of all its inputs. The caches, the sharing of transactions inside of the
  block and the order of the two passes do not show.\<close>

theorem connect_block_ledger:
  assumes "processAddressesBitcoinType d get block (initialConnectState d block cache calls cbs) = Inr st"
  shows "if eventsOf a (blockEvents d get block) = []
    then map_of (cs_balances st) a = None \<and> map_of (cs_addresses st) a = None
    else map_of (cs_addresses st) a = Some (groupTx (eventsOf a (blockEvents d get block))) \<and>
      (\<exists>ab. map_of (cs_balances st) a = Some ab \<and>
         (ab_BalanceSat ab, ab_SentSat ab) =
           fold ledgerStep (eventsOf a (blockEvents d get block))
             (ab_BalanceSat (oldBalance d get a), ab_SentSat (oldBalance d get a)) \<and>
         ab_Txs ab = ab_Txs (oldBalance d get a) +
           of_nat (card (ev_txid ` set (eventsOf a (blockEvents d get block)))))"
  using posted_cases [OF processAddressesBitcoinType_posted [OF assms], of a]
  by (auto simp: accounted_def split: if_splits)

definition emptyView :: view where
  "emptyView c k = Inr None"

definition demoStats :: connectBlockStats where
  "demoStats = \<lparr>cbs_txAddressesHit = 0, cbs_txAddressesMiss = 0, cbs_balancesHit = 0, cbs_balancesMiss = 0\<rparr>"

text \<open>A block whose second transaction spends an output of the first one.\<close>

definition demoSpendBlock :: Block where
  "demoSpendBlock = demoBlock 7
     [demoTx 1 [demoVin [] 0] [demoVout 50 [1, 2], demoVout 20 [3, 4]],
      demoTx 2 [demoVin (hex_encode (replicate 32 1)) 0] [demoVout 30 [3, 4], demoVout 15 [1, 2]]]"

lemma demoSpend_events:
  "eventsOf [1, 2] (blockEvents (demoDB False False) emptyView demoSpendBlock) =
     [Credit [1, 2] (replicate 32 1) 0 50, Credit [1, 2] (replicate 32 2) 1 15, Debit [1, 2] (replicate 32 2) (- 1) 50]"
  by code_simp

lemma demoSpend_runs:
  "case processAddressesBitcoinType (demoDB False False) emptyView demoSpendBlock
      (initialConnectState (demoDB False False) demoSpendBlock None 0 demoStats) of Inl e \<Rightarrow> False | Inr st \<Rightarrow> cs_gf st = None"
  by code_simp

lemma demoSpend_old: "oldBalance (demoDB False False) emptyView [1, 2] = zeroAddrBalance"
  by code_simp

theorem connect_block_ledger_witness:
  "\<exists>st ab. processAddressesBitcoinType (demoDB False False) emptyView demoSpendBlock
       (initialConnectState (demoDB False False) demoSpendBlock None 0 demoStats) = Inr st \<and>
     map_of (cs_balances st) [1, 2] = Some ab \<and> ab_BalanceSat ab = 15 \<and> ab_SentSat ab = 50 \<and> ab_Txs ab = 2"
proof -
  obtain st where st: "processAddressesBitcoinType (demoDB False False) emptyView demoSpendBlock
      (initialConnectState (demoDB False False) demoSpendBlock None 0 demoStats) = Inr st"
    using demoSpend_runs by (auto split: sum.splits)
  have "replicate 32 (1 :: byte) \<noteq> replicate 32 2" by simp
  then have "card {replicate 32 (1 :: byte), replicate 32 2} = 2" by simp
  then show ?thesis
    using connect_block_ledger [OF st, of "[1, 2]"] st
    unfolding demoSpend_events demoSpend_old by (auto simp: zeroAddrBalance_def)
qed

end
