(* ===== verification/DisconnectLaws.thy ===== *)
theory DisconnectLaws
  imports Disconnect ConnectLaws AddrBalanceLaws
begin

text \<open>
  Laws of the database as a whole, for Bitcoin-type chains: what a connected block writes, what a failed
  connection leaves behind, and the errors of the disconnection of a range of blocks.
\<close>

section \<open>The columns that a batch writes\<close>

definition columns :: "wbatch \<Rightarrow> cf set" where
  "columns wb = wop_cf ` set wb"

lemma columns_simps [simp]:
  "columns [] = {}" "columns (w # wb) = insert (wop_cf w) (columns wb)"
  "columns (wb @ wb') = columns wb \<union> columns wb'"
  by (simp_all add: columns_def image_Un)

lemma batch_effect_columns: "c \<notin> columns wb \<Longrightarrow> batch_effect c k wb = None"
  unfolding columns_def by (rule batch_effect_cf_other)

lemma columns_storeTxAddresses: "columns (storeTxAddresses d am) \<subseteq> {cfTxAddresses}"
  by (auto simp: columns_def storeTxAddresses_def)

lemma columns_storeBalances: "columns (storeBalances d abm) \<subseteq> {cfAddressBalance}"
  by (auto simp: columns_def storeBalances_def split: option.splits)

lemma columns_storeAddresses: "columns (storeAddresses d h m) \<subseteq> {cfAddresses}"
  by (auto simp: columns_def storeAddresses_def)

lemma columns_cleanupBlockTxsFrom: "cleanupBlockTxsFrom get n = Inr wb \<Longrightarrow> columns wb \<subseteq> {cfBlockTxs}"
  by (induction n arbitrary: wb) (auto simp: Let_def bindR_eq_Inr split: option.splits)

lemma columns_storeAndCleanupBlockTxs:
  "storeAndCleanupBlockTxs d get block = Inr wb \<Longrightarrow> columns wb \<subseteq> {cfBlockTxs}"
  by (auto simp: storeAndCleanupBlockTxs_def cleanupBlockTxs_def bindR_eq_Inr Let_def
      dest!: columns_cleanupBlockTxsFrom split: if_splits)

lemma columns_storeAssetsLoop:
  "storeAssetsLoop d assets cache = (Inr wb, cache') \<Longrightarrow> columns wb \<subseteq> {cfAssets}"
proof (induction assets arbitrary: cache wb cache')
  case (Cons ga assets)
  obtain guid asset where ga: "ga = (guid, asset)" by fastforce
  show ?case
    using Cons.prems
    by (auto simp: ga Let_def bindR_eq_Inr split: if_splits option.splits sum.splits prod.splits dest!: Cons.IH)
qed simp

lemma columns_mapR_PutCF:
  assumes "mapR f xs = Inr wb" and "\<And>x w. f x = Inr w \<Longrightarrow> wop_cf w = c"
  shows "columns wb \<subseteq> {c}"
  using assms(1) by (induction xs arbitrary: wb) (auto simp: bindR_eq_Inr dest: assms(2))

lemma columns_storeTxAssets: "storeTxAssets d m = Inr wb \<Longrightarrow> columns wb \<subseteq> {cfTxAssets}"
  unfolding storeTxAssets_def by (erule columns_mapR_PutCF) (auto split: option.splits)

lemma storeAssetsOfBlock_columns:
  assumes "storeAssetsOfBlock d st = Inr (wb, st')"
  shows "columns wb \<subseteq> {cfAssets, cfTxAssets}" and "\<exists>as. st' = st\<lparr>cs_assets := as\<rparr>"
proof -
  have "columns wb \<subseteq> {cfAssets, cfTxAssets} \<and> (\<exists>as. st' = st\<lparr>cs_assets := as\<rparr>)"
  proof (cases "supportsSyscoinAssets (d_chainParser d)")
    case True
    then obtain wb1 as wb2 where *: "storeAssets d (cs_assets st) = (Inr wb1, as)"
      "storeTxAssets d (case as_txAssets as of None \<Rightarrow> [] | Some m \<Rightarrow> m) = Inr wb2"
      "wb = wb1 @ wb2" "st' = st\<lparr>cs_assets := as\<rparr>"
      using assms by (auto simp: storeAssetsOfBlock_def bindR_eq_Inr split: prod.splits sum.splits)
    have "columns wb1 \<subseteq> {cfAssets}"
      using *(1) by (auto simp: storeAssets_def split: option.splits prod.splits dest: columns_storeAssetsLoop)
    with *(3,4) columns_storeTxAssets [OF *(2)] show ?thesis by auto
  next
    case False
    with assms have "wb = []" "st' = st" by (simp_all add: storeAssetsOfBlock_def)
    then show ?thesis by (auto intro: exI [of _ "cs_assets st"])
  qed
  then show "columns wb \<subseteq> {cfAssets, cfTxAssets}" "\<exists>as. st' = st\<lparr>cs_assets := as\<rparr>" by blast+
qed

lemma connectBitcoinType_batch:
  assumes "connectBitcoinType d get block cache calls cbs = Inr (wb, st')"
  obtains st pre post where
    "processAddressesBitcoinType d get block (initialConnectState d block cache calls cbs) = Inr st"
    "wb = pre @ storeBalances d (map (\<lambda>(a, ab). (a, Some ab)) (cs_balances st)) @ post"
    "cfAddressBalance \<notin> columns pre" "cfAddressBalance \<notin> columns post" "cfAddresses \<notin> columns wb"
    "cs_balances st' = cs_balances st" "cs_addresses st' = cs_addresses st"
proof -
  from assms obtain st wbTxs wbAssets wbFilter where
      run: "processAddressesBitcoinType d get block (initialConnectState d block cache calls cbs) = Inr st"
    and txs: "storeAndCleanupBlockTxs d get block = Inr wbTxs"
    and assets: "storeAssetsOfBlock d st = Inr (wbAssets, st')"
    and fil: "(case cs_gf st' of None \<Rightarrow> Inr [] | Some gf \<Rightarrow> storeBlockFilter (block_Hash block) (snd (Compute (d_gcs d) gf))) = Inr wbFilter"
    and wb: "wb = storeTxAddresses d (map (\<lambda>(b, a). (b, cs_heap st' ! a)) (cs_txAddressesMap st')) @
      storeBalances d (map (\<lambda>(a, ab). (a, Some ab)) (cs_balances st')) @ wbTxs @ wbAssets @ wbFilter"
    by (auto simp: connectBitcoinType_def bindR_eq_Inr)
  obtain as where st': "st' = st\<lparr>cs_assets := as\<rparr>" using storeAssetsOfBlock_columns(2) [OF assets] by blast
  have "columns wbFilter \<subseteq> {cfBlockFilter}"
    using fil by (auto simp: storeBlockFilter_def bindR_eq_Inr split: option.splits)
  note cols = this columns_storeTxAddresses [of d "map (\<lambda>(b, a). (b, cs_heap st' ! a)) (cs_txAddressesMap st')"]
    columns_storeAndCleanupBlockTxs [OF txs] storeAssetsOfBlock_columns(1) [OF assets]
    columns_storeBalances [of d "map (\<lambda>(a, ab). (a, Some ab)) (cs_balances st')"]
  show thesis
  proof (rule that [OF run])
    show "wb = storeTxAddresses d (map (\<lambda>(b, a). (b, cs_heap st' ! a)) (cs_txAddressesMap st')) @
        storeBalances d (map (\<lambda>(a, ab). (a, Some ab)) (cs_balances st)) @ (wbTxs @ wbAssets @ wbFilter)"
      by (simp add: wb st')
    show "cfAddressBalance \<notin> columns (storeTxAddresses d (map (\<lambda>(b, a). (b, cs_heap st' ! a)) (cs_txAddressesMap st')))"
      "cfAddressBalance \<notin> columns (wbTxs @ wbAssets @ wbFilter)" "cfAddresses \<notin> columns wb"
      using cols by (auto simp: wb)
  qed (simp_all add: st')
qed

section \<open>Connection\<close>

lemma packAddressKey_inject: "packAddressKey a h = packAddressKey a' h \<longleftrightarrow> a = a'"
  by (simp add: packAddressKey_def)

lemma storeAddresses_effect:
  assumes "distinct (map fst m)"
  shows "batch_effect cfAddresses (packAddressKey a h) (storeAddresses d h m) =
    map_option (\<lambda>txi. Some (packTxIndexes d txi)) (map_of m a)"
proof -
  have "distinct (map fst (map (\<lambda>(a, txi). (packAddressKey a h, txi)) m))"
    using assms by (auto simp: distinct_map comp_def case_prod_unfold inj_on_def packAddressKey_inject)
  then have "batch_effect cfAddresses (packAddressKey a h)
      (map (\<lambda>(k, txi). PutCF cfAddresses k (packTxIndexes d txi)) (map (\<lambda>(a, txi). (packAddressKey a h, txi)) m)) =
    map_option (\<lambda>txi. Some (packTxIndexes d txi)) (map_of (map (\<lambda>(a, txi). (packAddressKey a h, txi)) m) (packAddressKey a h))"
    by (rule batch_effect_keyed) auto
  moreover have "map_of (map (\<lambda>(a, txi). (packAddressKey a h, txi)) m) (packAddressKey a h) = map_of m a"
    by (induction m) (auto simp: packAddressKey_inject)
  ultimately show ?thesis by (simp add: storeAddresses_def case_prod_unfold comp_def)
qed

lemma map_of_map_Some: "map_of (map (\<lambda>(a, ab). (a, Some ab)) m) a = map_option Some (map_of m a)"
  by (induction m) auto

lemma writeHeight_columns: "writeHeightFromBlock d block op = Inr (wb, best) \<Longrightarrow> columns wb \<subseteq> {cfHeight}"
  by (cases op) (auto simp: writeHeightFromBlock_def writeHeight_def Let_def bindR_eq_Inr)

lemma connectBlock_success:
  assumes "connectBlockBitcoinType s d now block x = (x', None)"
  obtains wbHeight best wb st' where
    "writeHeightFromBlock d block opInsert = Inr (wbHeight, best)"
    "connectBitcoinType d (s_GetCF s (x_db x)) block (x_AssetCache x) (x_calls x) (x_cbs x) = Inr (wb, st')"
    "s_Write s (x_db x) (wbHeight @ wb @ storeAddresses d (block_Height block) (cs_addresses st')) = Inr (x_db x')"
  using assms by (auto simp: connectBlockBitcoinType_def Let_def split: sum.splits prod.splits)

lemma connectBlock_effects:
  assumes "store_ok s" and success: "connectBlockBitcoinType s d now block x = (x', None)"
  obtains st where "posted d (s_GetCF s (x_db x)) (blockEvents d (s_GetCF s (x_db x)) block) st"
    "\<And>a. s_GetCF s (x_db x') cfAddressBalance a =
       (case map_of (cs_balances st) a of
          None \<Rightarrow> s_GetCF s (x_db x) cfAddressBalance a
        | Some ab \<Rightarrow> Inr (if ab_Txs ab = 0 then None else Some (packAddrBalance d ab)))"
    "\<And>a. s_GetCF s (x_db x') cfAddresses (packAddressKey a (block_Height block)) =
       (case map_of (cs_addresses st) a of
          None \<Rightarrow> s_GetCF s (x_db x) cfAddresses (packAddressKey a (block_Height block))
        | Some txi \<Rightarrow> Inr (Some (packTxIndexes d txi)))"
proof -
  from success obtain wbHeight best wb st' where h: "writeHeightFromBlock d block opInsert = Inr (wbHeight, best)"
    and c: "connectBitcoinType d (s_GetCF s (x_db x)) block (x_AssetCache x) (x_calls x) (x_cbs x) = Inr (wb, st')"
    and w: "s_Write s (x_db x) (wbHeight @ wb @ storeAddresses d (block_Height block) (cs_addresses st')) = Inr (x_db x')"
    by (rule connectBlock_success)
  let ?get = "s_GetCF s (x_db x)" and ?m = "storeAddresses d (block_Height block) (cs_addresses st')"
  from c obtain st pre post where
    run: "processAddressesBitcoinType d ?get block (initialConnectState d block (x_AssetCache x) (x_calls x) (x_cbs x)) = Inr st"
    and wb: "wb = pre @ storeBalances d (map (\<lambda>(a, ab). (a, Some ab)) (cs_balances st)) @ post"
      "cfAddressBalance \<notin> columns pre" "cfAddressBalance \<notin> columns post" "cfAddresses \<notin> columns wb"
    and same: "cs_addresses st' = cs_addresses st"
    by (rule connectBitcoinType_batch)
  note p = processAddressesBitcoinType_posted [OF run]
  have get': "s_GetCF s (x_db x') cc k = after ?get (wbHeight @ wb @ ?m) cc k" for cc k
    using assms(1) w unfolding store_ok_def by blast
  have cols: "cfAddressBalance \<notin> columns wbHeight" "cfAddresses \<notin> columns wbHeight" "cfAddressBalance \<notin> columns ?m"
    using writeHeight_columns [OF h] columns_storeAddresses [of d "block_Height block" "cs_addresses st'"] by auto
  have bal: "batch_effect cfAddressBalance a (wbHeight @ wb @ ?m) =
      batch_effect cfAddressBalance a (storeBalances d (map (\<lambda>(a, ab). (a, Some ab)) (cs_balances st)))" for a
    using cols wb(2,3) by (simp add: wb(1) batch_effect_columns split: option.split)
  have addr: "batch_effect cfAddresses k (wbHeight @ wb @ ?m) = batch_effect cfAddresses k ?m" for k
    using cols wb(4) by (simp add: batch_effect_columns split: option.split)
  have "distinct (map fst (map (\<lambda>(a, ab). (a, Some ab)) (cs_balances st)))" "distinct (map fst (cs_addresses st))"
    using p by (simp_all add: comp_def case_prod_unfold posted_def)
  note eff = storeBalances_effect [OF this(1)] storeAddresses_effect [OF this(2)]
  show thesis
  proof (rule that [OF p])
    show "s_GetCF s (x_db x') cfAddressBalance a =
       (case map_of (cs_balances st) a of
          None \<Rightarrow> s_GetCF s (x_db x) cfAddressBalance a
        | Some ab \<Rightarrow> Inr (if ab_Txs ab = 0 then None else Some (packAddrBalance d ab)))" for a
      by (cases "map_of (cs_balances st) a") (simp_all add: get' after_def bal eff(1) map_of_map_Some del: batch_effect_append)
    show "s_GetCF s (x_db x') cfAddresses (packAddressKey a (block_Height block)) =
       (case map_of (cs_addresses st) a of
          None \<Rightarrow> s_GetCF s (x_db x) cfAddresses (packAddressKey a (block_Height block))
        | Some txi \<Rightarrow> Inr (Some (packTxIndexes d txi)))" for a
      by (cases "map_of (cs_addresses st) a") (simp_all add: get' after_def addr [unfolded same] same eff(2) del: batch_effect_append)
  qed
qed

text \<open>C3: A successfully connected block changes the stored balance of exactly the addresses in its ledger. In the database
  after the write, the row of the balance of an address without an event is as before; the row of any other
  address is the packed balance that results from its events (or is deleted where its transaction count has
  wrapped to zero), and the row of the address and the height lists its transactions of the block. A failed
  connection, for whatever reason, leaves the database as it was.\<close>

theorem connect_block_rows:
  assumes "store_ok s"
  shows "case connectBlockBitcoinType s d now block x of
      (x', Some err) \<Rightarrow> x_db x' = x_db x
    | (x', None) \<Rightarrow>
        (let evs = eventsOf a (blockEvents d (s_GetCF s (x_db x)) block);
             key = packAddressKey a (block_Height block) in
         if evs = [] then
           s_GetCF s (x_db x') cfAddressBalance a = s_GetCF s (x_db x) cfAddressBalance a \<and>
           s_GetCF s (x_db x') cfAddresses key = s_GetCF s (x_db x) cfAddresses key
         else
           (\<exists>ab. accounted (oldBalance d (s_GetCF s (x_db x)) a) evs ab \<and>
              s_GetCF s (x_db x') cfAddressBalance a = Inr (if ab_Txs ab = 0 then None else Some (packAddrBalance d ab))) \<and>
           s_GetCF s (x_db x') cfAddresses key = Inr (Some (packTxIndexes d (groupTx evs))))"
proof (cases "connectBlockBitcoinType s d now block x")
  case (Pair x' e)
  show ?thesis
  proof (cases e)
    case (Some err)
    with Pair have "x_db x' = x_db x"
      by (auto simp: connectBlockBitcoinType_def Let_def split: sum.splits prod.splits)
    with Pair Some show ?thesis by simp
  next
    case None
    let ?get = "s_GetCF s (x_db x)"
    from None Pair obtain st where p: "posted d ?get (blockEvents d ?get block) st"
      and rows: "\<And>a. s_GetCF s (x_db x') cfAddressBalance a =
       (case map_of (cs_balances st) a of
          None \<Rightarrow> ?get cfAddressBalance a
        | Some ab \<Rightarrow> Inr (if ab_Txs ab = 0 then None else Some (packAddrBalance d ab)))"
        "\<And>a. s_GetCF s (x_db x') cfAddresses (packAddressKey a (block_Height block)) =
       (case map_of (cs_addresses st) a of
          None \<Rightarrow> ?get cfAddresses (packAddressKey a (block_Height block))
        | Some txi \<Rightarrow> Inr (Some (packTxIndexes d txi)))"
      using connectBlock_effects [OF assms, of d now block x x'] by auto
    show ?thesis
      using posted_cases [OF p, of a] None Pair by (auto simp: rows Let_def split: if_splits)
  qed
qed

definition demoIndex :: "memdb indexState" where
  "demoIndex = \<lparr>x_db = [], x_is = demoState, x_AssetCache = None, x_calls = 0, x_cbs = demoStats\<rparr>"

lemma demoIndex_view: "s_GetCF mem_store (x_db demoIndex) = emptyView"
  by (intro ext) (simp add: demoIndex_def mem_store_def mem_get_def emptyView_def)

lemma demoSpend_height: "\<exists>r. writeHeightFromBlock (demoDB False False) demoSpendBlock opInsert = Inr r"
proof -
  have "block_Hash demoSpendBlock = hex_encode (replicate 32 7)"
    by (simp add: demoSpendBlock_def demoBlock_def)
  then show ?thesis
    by (simp add: writeHeightFromBlock_def writeHeight_def packBlockInfo_def Let_def demoParser_def
        BaseParser_PackBlockHash_def)
qed

lemma cleanup_emptyView: "cleanupBlockTxsFrom emptyView n = Inr []"
  by (cases n) (simp_all add: emptyView_def Let_def)

lemma demoSpend_blockTxs: "\<exists>wb. storeAndCleanupBlockTxs (demoDB False False) emptyView demoSpendBlock = Inr wb"
  by (simp add: storeAndCleanupBlockTxs_def packBlockTx_def packVinOutpoint_def Let_def cleanupBlockTxs_def
      demoSpendBlock_def demoBlock_def demoTx_def demoVin_def cleanup_emptyView split: sum.split option.split)

lemma demoSpend_connects:
  "snd (connectBlockBitcoinType mem_store (demoDB False False) 0 demoSpendBlock demoIndex) = None"
proof -
  obtain st where "processAddressesBitcoinType (demoDB False False) emptyView demoSpendBlock
      (initialConnectState (demoDB False False) demoSpendBlock None 0 demoStats) = Inr st" "cs_gf st = None"
    using demoSpend_runs by (auto split: sum.splits)
  moreover obtain wb where "storeAndCleanupBlockTxs (demoDB False False) emptyView demoSpendBlock = Inr wb"
    using demoSpend_blockTxs by blast
  ultimately have "\<exists>r. connectBitcoinType (demoDB False False) emptyView demoSpendBlock None 0 demoStats = Inr r"
    by (simp add: connectBitcoinType_def storeAssetsOfBlock_def)
  moreover obtain r where "writeHeightFromBlock (demoDB False False) demoSpendBlock opInsert = Inr r"
    using demoSpend_height by blast
  ultimately show ?thesis
    using demoIndex_view
    by (cases r) (auto simp: connectBlockBitcoinType_def Let_def demoIndex_def mem_store_def split: sum.split prod.split)
qed

lemma demoSpend_index_events:
  "eventsOf [1, 2] (blockEvents (demoDB False False) (s_GetCF mem_store (x_db demoIndex)) demoSpendBlock) =
     [Credit [1, 2] (replicate 32 1) 0 50, Credit [1, 2] (replicate 32 2) 1 15, Debit [1, 2] (replicate 32 2) (- 1) 50]"
  "oldBalance (demoDB False False) (s_GetCF mem_store (x_db demoIndex)) [1, 2] = zeroAddrBalance"
  by code_simp+

theorem connect_block_rows_witness:
  "\<exists>x' ab. connectBlockBitcoinType mem_store (demoDB False False) 0 demoSpendBlock demoIndex = (x', None) \<and>
     s_GetCF mem_store (x_db x') cfAddressBalance [1, 2] = Inr (Some (packAddrBalance (demoDB False False) ab)) \<and>
     ab_BalanceSat ab = 15 \<and> ab_SentSat ab = 50"
proof -
  obtain x' where x': "connectBlockBitcoinType mem_store (demoDB False False) 0 demoSpendBlock demoIndex = (x', None)"
    using demoSpend_connects by (metis prod.collapse)
  have "replicate 32 (1 :: byte) \<noteq> replicate 32 2" by simp
  then have "card {replicate 32 (1 :: byte), replicate 32 2} = 2" by simp
  then show ?thesis
    using connect_block_rows [OF store_ok_mem, where a = "[1, 2]" and d = "demoDB False False" and now = 0
        and block = demoSpendBlock and x = demoIndex]
    unfolding x' Let_def demoSpend_index_events by (auto simp: accounted_def zeroAddrBalance_def)
qed

section \<open>Disconnection of a range\<close>

lemma collectBlocks_missing:
  assumes "lower \<le> height" "height \<le> h" "h \<le> higher" and "getBlockTxs d get h = Inr []"
  shows "\<exists>err. collectBlocks d get lower higher height = Inl err"
  using assms
proof (induction d get lower higher height rule: collectBlocks.induct)
  case (1 d get lower higher height)
  show ?case
  proof (cases "height = h")
    case True
    with 1(4,5) show ?thesis by (simp add: collectBlocks.simps [of d get lower higher h])
  next
    case False
    with 1(3) have less: "height < h" by simp
    note succ = word_succ_below [OF less]
    have nxt: "lower \<le> height + 1" "height + 1 \<le> h"
      using 1(2) less succ by (simp_all add: word_le_nat_alt word_less_nat_alt)
    have le: "height \<le> higher" using less 1(4) by simp
    show ?thesis
    proof (cases "getBlockTxs d get height")
      case (Inl e)
      with le show ?thesis by (simp add: collectBlocks.simps [of d get lower higher height])
    next
      case (Inr bts)
      then show ?thesis
        using 1(1) [OF le _ _ nxt 1(4,5), of bts] le
        by (fastforce simp: collectBlocks.simps [of d get lower higher height])
    qed
  qed
qed

text \<open>C28: Blocks can be disconnected only while the index still has the spent outpoints of all of them. If the row of one
  block of the range is missing or empty, the call returns an error and changes nothing: no block of the range
  is disconnected, and the state in memory is as before.\<close>

theorem disconnect_range_all_or_error:
  assumes "lower \<le> h" "h \<le> higher" and "getBlockTxs d (s_GetCF s (x_db x)) h = Inr []"
  shows "\<exists>err. DisconnectBlockRangeBitcoinType s d lower higher x = (x, Some err)"
  using collectBlocks_missing [OF order.refl assms] by (auto simp: DisconnectBlockRangeBitcoinType_def)

theorem disconnect_range_all_or_error_witness:
  "\<exists>err. DisconnectBlockRangeBitcoinType mem_store (demoDB False False) 3 5 demoIndex = (demoIndex, Some err)"
proof -
  have "getBlockTxs (demoDB False False) (s_GetCF mem_store (x_db demoIndex)) 4 = Inr []"
    by code_simp
  then show ?thesis by (intro disconnect_range_all_or_error [of 3 4 5]) simp_all
qed

lemma disconnectBlocks_from_genesis:
  "snd (disconnectBlocks s d 0 n blocks height x) \<noteq> None"
proof (induction s d "0 :: uint32" n blocks height x rule: disconnectBlocks.induct)
  case (1 s d n blocks height x)
  show ?case
  proof (cases "height < n")
    case True
    obtain x' e where x': "disconnectBlock s d height (blocks ! unat height) x = (x', e)" by fastforce
    show ?thesis
      using 1 True x'
      by (cases e) (simp_all add: disconnectBlocks.simps [of s d 0 n blocks height x])
  next
    case False
    then show ?thesis by (simp add: disconnectBlocks.simps [of s d 0 n blocks height x])
  qed
qed


end
