(* ===== verification/RollbackLaws.thy ===== *)
theory RollbackLaws
  imports DisconnectLaws
begin

text \<open>
  The disconnection of a block as a ledger that is undone, and its relation to the connection: rolling back
  a block restores the balances of all its addresses.
\<close>

section \<open>The ledger of the stored rows\<close>

definition inEvent :: "RocksDB \<Rightarrow> bytes \<Rightarrow> nat \<times> TxInput \<Rightarrow> ledgerEvent list" where
  "inEvent d b it =
     (case it of (i, t) \<Rightarrow>
        if indexed d (ti_AddrDesc t) then [Debit (ti_AddrDesc t) b (NOT (int32 (int i))) (ti_ValueSat t)] else [])"

definition outEvent :: "RocksDB \<Rightarrow> bytes \<Rightarrow> nat \<times> TxOutput \<Rightarrow> ledgerEvent list" where
  "outEvent d b it =
     (case it of (i, t) \<Rightarrow>
        if indexed d (to_AddrDesc t) then [Credit (to_AddrDesc t) b (int32 (int i)) (to_ValueSat t)] else [])"

definition rowOf :: "RocksDB \<Rightarrow> view \<Rightarrow> blockTxs \<Rightarrow> TxAddresses option" where
  "rowOf d get bt = (case getTxAddresses d get (bt_btxID bt) of Inr r \<Rightarrow> r | Inl err \<Rightarrow> None)"

definition inEvents :: "RocksDB \<Rightarrow> view \<Rightarrow> blockTxs \<Rightarrow> ledgerEvent list" where
  "inEvents d get bt =
     (case rowOf d get bt of
        None \<Rightarrow> []
      | Some txa \<Rightarrow> concat (map (inEvent d (bt_btxID bt)) (enumerate 0 (ta_Inputs txa))))"

definition outEvents :: "RocksDB \<Rightarrow> view \<Rightarrow> blockTxs \<Rightarrow> ledgerEvent list" where
  "outEvents d get bt =
     (case rowOf d get bt of
        None \<Rightarrow> []
      | Some txa \<Rightarrow> concat (map (outEvent d (bt_btxID bt)) (enumerate 0 (ta_Outputs txa))))"

definition rowEvents :: "RocksDB \<Rightarrow> view \<Rightarrow> blockTxs list \<Rightarrow> ledgerEvent list" where
  "rowEvents d get bts = concat (map (inEvents d get) bts) @ concat (map (outEvents d get) bts)"

fun undoStep :: "ledgerEvent \<Rightarrow> int \<times> int \<Rightarrow> int \<times> int" where
  "undoStep (Credit a b i v) (bal, sent) = (max 0 (bal - v), sent)"
| "undoStep (Debit a b i v) (bal, sent) = (bal + v, max 0 (sent - v))"

definition undone :: "AddrBalance \<Rightarrow> ledgerEvent list \<Rightarrow> AddrBalance \<Rightarrow> bool" where
  "undone old evs ab \<longleftrightarrow>
     (ab_BalanceSat ab, ab_SentSat ab) = fold undoStep evs (ab_BalanceSat old, ab_SentSat old) \<and>
     ab_Txs ab = ab_Txs old - of_nat (card (ev_txid ` set evs))"

text \<open>An address without a stored balance is skipped, and so keeps none.\<close>

definition stored :: "RocksDB \<Rightarrow> view \<Rightarrow> bytes \<Rightarrow> AddrBalance option" where
  "stored d get a =
     (case GetAddrDescBalance d get a addressBalanceDetailUTXOIndexed of Inr r \<Rightarrow> r | Inl err \<Rightarrow> None)"

definition undoneOpt :: "AddrBalance option \<Rightarrow> ledgerEvent list \<Rightarrow> AddrBalance option \<Rightarrow> bool" where
  "undoneOpt old evs ab \<longleftrightarrow>
     (case old of None \<Rightarrow> ab = None | Some o' \<Rightarrow> \<exists>ab'. ab = Some ab' \<and> undone o' evs ab')"

definition unposted :: "RocksDB \<Rightarrow> view \<Rightarrow> ledgerEvent list \<Rightarrow> disconnectState \<Rightarrow> bool" where
  "unposted d get evs st \<longleftrightarrow>
     (\<forall>a. indexed d a \<longrightarrow>
        (case map_of (ds_balances st) a of
           None \<Rightarrow> eventsOf a evs = []
         | Some r \<Rightarrow> eventsOf a evs \<noteq> [] \<and> undoneOpt (stored d get a) (eventsOf a evs) r)) \<and>
     (\<forall>a. indexed d a \<longrightarrow>
        (case map_of (ds_blockAddressesTxs st) a of None \<Rightarrow> {} | Some l \<Rightarrow> set l) = ev_txid ` set (eventsOf a evs))"

section \<open>Undoing one event\<close>

lemma addressFoundInTx_spec:
  assumes "addressFoundInTx a b st = (exist, st')"
  shows "exist \<longleftrightarrow> b \<in> (case map_of (ds_blockAddressesTxs st) a of None \<Rightarrow> {} | Some l \<Rightarrow> set l)"
    and "(case map_of (ds_blockAddressesTxs st') a' of None \<Rightarrow> {} | Some l \<Rightarrow> set l) =
      (if a' = a then insert b (case map_of (ds_blockAddressesTxs st) a of None \<Rightarrow> {} | Some l \<Rightarrow> set l)
       else (case map_of (ds_blockAddressesTxs st) a' of None \<Rightarrow> {} | Some l \<Rightarrow> set l))"
    and "ds_balances st' = ds_balances st"
  using assms by (auto simp: addressFoundInTx_def Let_def split: option.splits if_splits)

lemma getAddressBalance_spec:
  assumes "getAddressBalance d get a st = Inr (r, st')"
  shows "ds_blockAddressesTxs st' = ds_blockAddressesTxs st" "map_of (ds_balances st') = (map_of (ds_balances st))(a \<mapsto> r)"
    and "map_of (ds_balances st) a = None \<Longrightarrow> r = stored d get a"
    and "map_of (ds_balances st) a = Some r' \<Longrightarrow> r = r'"
  using assms by (auto simp: getAddressBalance_def bindR_eq_Inr stored_def split: option.splits)

lemma undone_snoc:
  assumes "undone old evs ab"
    and "(ab_BalanceSat ab', ab_SentSat ab') = undoStep e (ab_BalanceSat ab, ab_SentSat ab)"
    and "ab_Txs ab' = (if ev_txid e \<in> ev_txid ` set evs then ab_Txs ab else ab_Txs ab - 1)"
  shows "undone old (evs @ [e]) ab'"
  using assms by (auto simp: undone_def card_insert_if)

lemma undone_Nil: "undone old [] old"
  by (simp add: undone_def)

text \<open>One event: the address is noted, its balance loaded and, where it exists, changed.\<close>

lemma unposted_step:
  assumes p: "unposted d get evs st" and ix: "indexed d (ev_addr e)"
    and found: "addressFoundInTx (ev_addr e) (ev_txid e) st = (exist, s1)"
    and s1': "ds_balances s1' = ds_balances s1" "ds_blockAddressesTxs s1' = ds_blockAddressesTxs s1"
    and load: "getAddressBalance d get (ev_addr e) s1' = Inr (r, s2)"
    and none: "r = None \<Longrightarrow> st' = s2"
    and some: "\<And>bal. r = Some bal \<Longrightarrow> \<exists>bal'. map_of (ds_balances st') = (map_of (ds_balances s2))(ev_addr e \<mapsto> Some bal') \<and>
      ds_blockAddressesTxs st' = ds_blockAddressesTxs s2 \<and>
      (ab_BalanceSat bal', ab_SentSat bal') = undoStep e (ab_BalanceSat bal, ab_SentSat bal) \<and>
      ab_Txs bal' = (if exist then ab_Txs bal else ab_Txs bal - 1)"
  shows "unposted d get (evs @ [e]) st'"
proof -
  let ?a = "ev_addr e"
  note f = addressFoundInTx_spec [OF found] and l = getAddressBalance_spec [OF load]
  have bat: "ds_blockAddressesTxs st' = ds_blockAddressesTxs s1"
    using none some l(1) s1'(2) by (cases r) auto
  have exist: "exist \<longleftrightarrow> ev_txid e \<in> ev_txid ` set (eventsOf ?a evs)"
    using f(1) p ix by (simp add: unposted_def)
  have old: "case map_of (ds_balances st) a of
      None \<Rightarrow> eventsOf a evs = []
    | Some r \<Rightarrow> eventsOf a evs \<noteq> [] \<and> undoneOpt (stored d get a) (eventsOf a evs) r" if "indexed d a" for a
    using p that by (simp add: unposted_def)
  have r: "undoneOpt (stored d get ?a) (eventsOf ?a evs) r"
    using old [OF ix] l(3,4) s1'(1) f(3)
    by (cases "map_of (ds_balances st) ?a") (auto simp: undoneOpt_def undone_Nil split: option.split)
  obtain r' where upd: "map_of (ds_balances st') = (map_of (ds_balances st))(?a \<mapsto> r')"
    and r': "undoneOpt (stored d get ?a) (eventsOf ?a evs @ [e]) r'"
  proof (cases r)
    case None
    have "stored d get ?a = None" using r None by (auto simp: undoneOpt_def split: option.splits)
    then show ?thesis
      using none [OF None] None l(2) s1'(1) f(3) by (intro that [of None]) (simp_all add: undoneOpt_def)
  next
    case (Some bal)
    then obtain o' where o': "stored d get ?a = Some o'" "undone o' (eventsOf ?a evs) bal"
      using r by (auto simp: undoneOpt_def split: option.splits)
    obtain bal' where b: "map_of (ds_balances st') = (map_of (ds_balances s2))(?a \<mapsto> Some bal')"
      "(ab_BalanceSat bal', ab_SentSat bal') = undoStep e (ab_BalanceSat bal, ab_SentSat bal)"
      "ab_Txs bal' = (if exist then ab_Txs bal else ab_Txs bal - 1)"
      using some [OF Some] by blast
    have "undone o' (eventsOf ?a evs @ [e]) bal'"
      by (rule undone_snoc [OF o'(2) b(2)]) (simp add: b(3) exist)
    then show ?thesis
      using b(1) l(2) s1'(1) f(3) o'(1) by (intro that [of "Some bal'"]) (simp_all add: undoneOpt_def)
  qed
  have "case map_of (ds_balances st') a of
      None \<Rightarrow> eventsOf a (evs @ [e]) = []
    | Some r \<Rightarrow> eventsOf a (evs @ [e]) \<noteq> [] \<and> undoneOpt (stored d get a) (eventsOf a (evs @ [e])) r" if "indexed d a" for a
  proof (cases "a = ?a")
    case False
    then have eq: "eventsOf a (evs @ [e]) = eventsOf a evs" by auto
    show ?thesis unfolding eq using old [OF that] False by (simp add: upd)
  qed (use r' in \<open>simp add: upd\<close>)
  moreover have "(case map_of (ds_blockAddressesTxs st') a of None \<Rightarrow> {} | Some l \<Rightarrow> set l) = ev_txid ` set (eventsOf a (evs @ [e]))"
    if "indexed d a" for a
    unfolding bat f(2) using p that ix by (auto simp: unposted_def)
  ultimately show ?thesis by (simp add: unposted_def)
qed

text \<open>An item without an indexed address changes nothing that the ledger sees.\<close>

lemma unposted_skip:
  assumes "unposted d get evs st" "addressFoundInTx a b st = (exist, s1)" "\<not> indexed d a"
    and "ds_balances st' = ds_balances s1" "ds_blockAddressesTxs st' = ds_blockAddressesTxs s1"
  shows "unposted d get evs st'"
  using assms(1,3) addressFoundInTx_spec(2,3) [OF assms(2)] unfolding unposted_def assms(4,5) by auto

section \<open>Inputs and outputs\<close>

lemma unspendOutput_frame:
  assumes "unspendOutput d get input st = Inr (h, st')"
  shows "ds_balances st' = ds_balances st" "ds_blockAddressesTxs st' = ds_blockAddressesTxs st"
  using assms by (auto simp: unspendOutput_def bindR_eq_Inr Let_def split: option.splits)

lemma addUtxoInDisconnect_frame:
  assumes "addUtxoInDisconnect u ab = Some ab'"
  shows "ab_BalanceSat ab' = ab_BalanceSat ab" "ab_SentSat ab' = ab_SentSat ab" "ab_Txs ab' = ab_Txs ab"
  using assms
  by (auto simp: addUtxoInDisconnect_def manageUtxoMap_def Let_def split: if_splits option.splits bind_splits)

lemma disconnectInputAsset_frame:
  assumes "disconnectInputAsset d get b t (bal, st) = Inr (bal', st')"
  shows "ab_BalanceSat bal' = ab_BalanceSat bal" "ab_SentSat bal' = ab_SentSat bal" "ab_Txs bal' = ab_Txs bal"
    "ds_balances st' = ds_balances st" "ds_blockAddressesTxs st' = ds_blockAddressesTxs st"
  using assms
  by (cases "ti_AssetInfo t"; force simp: disconnectInputAsset_def bindR_eq_Inr putAssetBalance_def setFound_def)+

lemma disconnectOutputAsset_frame:
  assumes "disconnectOutputAsset d get b t (bal, st) = Inr (bal', st')"
  shows "ab_BalanceSat bal' = ab_BalanceSat bal" "ab_SentSat bal' = ab_SentSat bal" "ab_Txs bal' = ab_Txs bal"
    "ds_balances st' = ds_balances st" "ds_blockAddressesTxs st' = ds_blockAddressesTxs st"
  using assms
  by (cases "to_AssetInfo t"; force simp: disconnectOutputAsset_def bindR_eq_Inr putAssetBalance_def setFound_def)+

lemma disconnectInput_unposted:
  assumes run: "disconnectInput d get b inputs (i, t) st = Inr st'" and p: "unposted d get evs st"
  shows "unposted d get (evs @ inEvent d b (i, t)) st'"
proof (cases "ti_AddrDesc t = []")
  case True
  with run p show ?thesis by (simp add: disconnectInput_def inEvent_def indexed_def)
next
  case False
  let ?a = "ti_AddrDesc t" and ?e = "Debit (ti_AddrDesc t) b (NOT (int32 (int i))) (ti_ValueSat t)"
  obtain exist s1 where found: "addressFoundInTx ?a b st = (exist, s1)" by fastforce
  from run False obtain input h s1' where un: "unspendOutput d get input s1 = Inr (h, s1')"
    and rest: "(if p_IsAddrDescIndexable (d_chainParser d) ?a then
        bindR (getAddressBalance d get ?a s1') (\<lambda>(balance, st).
          case balance of
            None \<Rightarrow> Inr st
          | Some balance \<Rightarrow>
              let balance = (if exist then balance else balance\<lparr>ab_Txs := ab_Txs balance - 1\<rparr>);
                  sent = ab_SentSat balance - ti_ValueSat t;
                  balance = balance\<lparr>ab_SentSat := (if sent < 0 then resetValueSatToZero sent else sent),
                    ab_BalanceSat := ab_BalanceSat balance + ti_ValueSat t\<rparr> in
              bindR (of_panic (addUtxoInDisconnect \<lparr>u_BtxID = o_btxID input, u_Vout = o_index input,
                  u_Height = h, u_ValueSat = ti_ValueSat t, u_AssetInfo = ti_AssetInfo t\<rparr> balance))
                (\<lambda>balance.
                  bindR (disconnectInputAsset d get b t (balance, st)) (\<lambda>(balance, st).
                    Inr (putDisconnected ?a balance st))))
      else Inr s1') = Inr st'"
    by (auto simp: disconnectInput_def bindR_eq_Inr found)
  note s1' = unspendOutput_frame [OF un]
  show ?thesis
  proof (cases "indexed d ?a")
    case no: False
    with rest False have "st' = s1'" by (simp add: indexed_def)
    with unposted_skip [OF p found no] s1' no show ?thesis by (simp add: inEvent_def)
  next
    case True
    with rest obtain r s2 where load: "getAddressBalance d get ?a s1' = Inr (r, s2)"
      by (auto simp: indexed_def bindR_eq_Inr)
    have "unposted d get (evs @ [?e]) st'"
    proof (rule unposted_step [where e = ?e, OF p _ _ s1'])
      show "getAddressBalance d get (ev_addr ?e) s1' = Inr (r, s2)" using load by simp
      show "st' = s2" if "r = None" using rest True load that by (simp add: indexed_def)
      show "\<exists>bal'. map_of (ds_balances st') = (map_of (ds_balances s2))(ev_addr ?e \<mapsto> Some bal') \<and>
          ds_blockAddressesTxs st' = ds_blockAddressesTxs s2 \<and>
          (ab_BalanceSat bal', ab_SentSat bal') = undoStep ?e (ab_BalanceSat bal, ab_SentSat bal) \<and>
          ab_Txs bal' = (if exist then ab_Txs bal else ab_Txs bal - 1)" if "r = Some bal" for bal
      proof -
        let ?b0 = "if exist then bal else bal\<lparr>ab_Txs := ab_Txs bal - 1\<rparr>"
        from rest True load that obtain b1 b2 s3 where
            b1: "addUtxoInDisconnect \<lparr>u_BtxID = o_btxID input, u_Vout = o_index input, u_Height = h,
              u_ValueSat = ti_ValueSat t, u_AssetInfo = ti_AssetInfo t\<rparr>
              (?b0\<lparr>ab_SentSat := (if ab_SentSat ?b0 - ti_ValueSat t < 0
                  then resetValueSatToZero (ab_SentSat ?b0 - ti_ValueSat t) else ab_SentSat ?b0 - ti_ValueSat t),
                 ab_BalanceSat := ab_BalanceSat ?b0 + ti_ValueSat t\<rparr>) = Some b1"
          and b2: "disconnectInputAsset d get b t (b1, s2) = Inr (b2, s3)"
          and st': "st' = putDisconnected ?a b2 s3"
          by (auto simp: indexed_def bindR_eq_Inr Let_def of_panic_def split: option.splits)
        show ?thesis
          using disconnectInputAsset_frame [OF b2] addUtxoInDisconnect_frame [OF b1]
          by (intro exI [of _ b2]) (auto simp: st' putDisconnected_def resetValueSatToZero_def)
      qed
    qed (use True found in simp_all)
    with True show ?thesis by (simp add: inEvent_def)
  qed
qed

lemma disconnectOutput_unposted:
  assumes run: "disconnectOutput d get b (i, t) st = Inr st'" and p: "unposted d get evs st"
  shows "unposted d get (evs @ outEvent d b (i, t)) st'"
proof (cases "to_AddrDesc t = []")
  case True
  with run p show ?thesis by (simp add: disconnectOutput_def outEvent_def indexed_def)
next
  case False
  let ?a = "to_AddrDesc t" and ?e = "Credit (to_AddrDesc t) b (int32 (int i)) (to_ValueSat t)"
  obtain exist s1 where found: "addressFoundInTx ?a b st = (exist, s1)" by fastforce
  show ?thesis
  proof (cases "indexed d ?a")
    case no: False
    with run False found have "st' = s1" by (simp add: disconnectOutput_def indexed_def)
    with unposted_skip [OF p found no] no show ?thesis by (simp add: outEvent_def)
  next
    case True
    with run False found obtain r s2 where load: "getAddressBalance d get ?a s1 = Inr (r, s2)"
      by (auto simp: disconnectOutput_def indexed_def bindR_eq_Inr)
    have "unposted d get (evs @ [?e]) st'"
    proof (rule unposted_step [where e = ?e and s1' = s1, OF p])
      show "getAddressBalance d get (ev_addr ?e) s1 = Inr (r, s2)" using load by simp
      show "st' = s2" if "r = None"
        using run False found True load that by (simp add: disconnectOutput_def indexed_def)
      show "\<exists>bal'. map_of (ds_balances st') = (map_of (ds_balances s2))(ev_addr ?e \<mapsto> Some bal') \<and>
          ds_blockAddressesTxs st' = ds_blockAddressesTxs s2 \<and>
          (ab_BalanceSat bal', ab_SentSat bal') = undoStep ?e (ab_BalanceSat bal, ab_SentSat bal) \<and>
          ab_Txs bal' = (if exist then ab_Txs bal else ab_Txs bal - 1)" if "r = Some bal" for bal
      proof -
        let ?b0 = "if exist then bal else bal\<lparr>ab_Txs := ab_Txs bal - 1\<rparr>"
        from run False found True load that obtain b1 s3 b2 where
            b1: "disconnectOutputAsset d get b t (?b0\<lparr>ab_BalanceSat := (if ab_BalanceSat ?b0 - to_ValueSat t < 0
                then resetValueSatToZero (ab_BalanceSat ?b0 - to_ValueSat t) else ab_BalanceSat ?b0 - to_ValueSat t)\<rparr>, s2)
              = Inr (b1, s3)"
          and b2: "markUtxoAsSpent b (int32 (int i)) b1 = Some b2"
          and st': "st' = putDisconnected ?a b2 s3"
          by (auto simp: disconnectOutput_def indexed_def bindR_eq_Inr Let_def of_panic_def
              split: option.splits)
        show ?thesis
          using disconnectOutputAsset_frame [OF b1] markUtxoAsSpent_frame [OF b2]
          by (intro exI [of _ b2]) (auto simp: st' putDisconnected_def resetValueSatToZero_def)
      qed
    qed (use True found in simp_all)
    with True show ?thesis by (simp add: outEvent_def)
  qed
qed

lemma foldR_concat:
  assumes "\<And>x s t evs. f x s = Inr t \<Longrightarrow> P evs s \<Longrightarrow> P (evs @ g x) t"
    and "foldR f xs s = Inr t" and "P evs s"
  shows "P (evs @ concat (map g xs)) t"
  using assms(2,3)
proof (induction xs arbitrary: s evs)
  case (Cons x xs)
  from Cons.prems(1) obtain u where u: "f x s = Inr u" "foldR f xs u = Inr t" by (auto simp: bindR_eq_Inr)
  from Cons.IH [OF u(2) assms(1) [OF u(1) Cons.prems(2)]] show ?case by simp
qed simp

lemma disconnectTxInputs_unposted:
  assumes "disconnectTxInputs d get bt (rows, st) = Inr (rows', st')" and "unposted d get evs st"
  shows "rows' = rows @ [rowOf d get bt] \<and> unposted d get (evs @ inEvents d get bt) st'"
proof -
  from assms(1) obtain r where r: "getTxAddresses d get (bt_btxID bt) = Inr r"
    by (auto simp: disconnectTxInputs_def bindR_eq_Inr)
  show ?thesis
  proof (cases r)
    case None
    with assms r show ?thesis by (simp add: disconnectTxInputs_def rowOf_def inEvents_def)
  next
    case (Some txa)
    with assms(1) r have "rows' = rows @ [Some txa]"
      and run: "foldR (disconnectInput d get (bt_btxID bt) (bt_inputs bt)) (enumerate 0 (ta_Inputs txa)) st = Inr st'"
      by (auto simp: disconnectTxInputs_def disconnectTxAddressesInputs_def bindR_eq_Inr)
    moreover have "unposted d get (evs @ concat (map (inEvent d (bt_btxID bt)) (enumerate 0 (ta_Inputs txa)))) st'"
      by (rule foldR_concat [where P = "unposted d get", OF _ run assms(2)]) (auto intro: disconnectInput_unposted)
    ultimately show ?thesis using r Some by (simp add: rowOf_def inEvents_def)
  qed
qed

lemma disconnectTxInputs_fold:
  assumes "foldR (disconnectTxInputs d get) bts (rows, st) = Inr (rows', st')" and "unposted d get evs st"
  shows "rows' = rows @ map (rowOf d get) bts \<and> unposted d get (evs @ concat (map (inEvents d get) bts)) st'"
  using assms
proof (induction bts arbitrary: rows st evs)
  case (Cons bt bts)
  from Cons.prems(1) obtain rows1 s1 where one: "disconnectTxInputs d get bt (rows, st) = Inr (rows1, s1)"
    and rest: "foldR (disconnectTxInputs d get) bts (rows1, s1) = Inr (rows', st')"
    by (auto simp: bindR_eq_Inr)
  have step: "rows1 = rows @ [rowOf d get bt]" "unposted d get (evs @ inEvents d get bt) s1"
    using disconnectTxInputs_unposted [OF one Cons.prems(2)] by blast+
  from Cons.IH [OF rest step(2)] step(1) show ?case by simp
qed simp

lemma disconnectTxOutputs_unposted:
  assumes "disconnectTxOutputs d get (bt, rowOf d get bt) st = Inr st'" and "unposted d get evs st"
  shows "unposted d get (evs @ outEvents d get bt) st'"
proof (cases "rowOf d get bt")
  case None
  with assms show ?thesis by (simp add: disconnectTxOutputs_def outEvents_def)
next
  case (Some txa)
  with assms(1) have run: "foldR (disconnectOutput d get (bt_btxID bt)) (enumerate 0 (ta_Outputs txa)) st = Inr st'"
    by (simp add: disconnectTxOutputs_def disconnectTxAddressesOutputs_def)
  have "unposted d get (evs @ concat (map (outEvent d (bt_btxID bt)) (enumerate 0 (ta_Outputs txa)))) st'"
    by (rule foldR_concat [where P = "unposted d get", OF _ run assms(2)]) (auto intro: disconnectOutput_unposted)
  with Some show ?thesis by (simp add: outEvents_def)
qed

lemma disconnectTxOutputs_fold:
  assumes "foldR (disconnectTxOutputs d get) (zip bts (map (rowOf d get) bts)) st = Inr st'" and "unposted d get evs st"
  shows "unposted d get (evs @ concat (map (outEvents d get) bts)) st'"
  using assms
proof (induction bts arbitrary: st evs)
  case (Cons bt bts)
  then obtain s1 where one: "disconnectTxOutputs d get (bt, rowOf d get bt) st = Inr s1"
    and rest: "foldR (disconnectTxOutputs d get) (zip bts (map (rowOf d get) bts)) s1 = Inr st'"
    by (auto simp: bindR_eq_Inr)
  from Cons.IH [OF rest disconnectTxOutputs_unposted [OF one Cons.prems(2)]] show ?case by simp
qed simp

lemma disconnectAddresses_unposted:
  assumes "disconnectAddresses d get bts (disconnectState0 cache calls) = Inr st"
  shows "unposted d get (rowEvents d get bts) st"
proof -
  from assms obtain rows s where
      ins: "foldR (disconnectTxInputs d get) bts ([], disconnectState0 cache calls) = Inr (rows, s)"
    and outs: "foldR (disconnectTxOutputs d get) (zip bts rows) s = Inr st"
    by (auto simp: disconnectAddresses_def bindR_eq_Inr)
  have "unposted d get [] (disconnectState0 cache calls)"
    by (simp add: unposted_def disconnectState0_def)
  from disconnectTxInputs_fold [OF ins this]
  have "rows = map (rowOf d get) bts" "unposted d get (concat (map (inEvents d get) bts)) s" by simp_all
  with disconnectTxOutputs_fold [of d get bts s st] outs show ?thesis by (simp add: rowEvents_def)
qed

section \<open>Rolling back restores the account\<close>

definition isCredit :: "ledgerEvent \<Rightarrow> bool" where
  "isCredit e = (case e of Credit _ _ _ _ \<Rightarrow> True | Debit _ _ _ _ \<Rightarrow> False)"

definition total :: "ledgerEvent list \<Rightarrow> int" where
  "total evs = sum_list (map ev_value evs)"

lemma fold_ledger_credits:
  "\<forall>e \<in> set cs. isCredit e \<Longrightarrow> fold ledgerStep cs (bal, sent) = (bal + total cs, sent)"
  by (induction cs arbitrary: bal) (auto simp: total_def isCredit_def split: ledgerEvent.splits)

lemma total_nonneg: "\<forall>e \<in> set es. 0 \<le> ev_value e \<Longrightarrow> 0 \<le> total es"
  by (induction es) (auto simp: total_def)

lemma fold_ledger_debits:
  assumes "\<forall>e \<in> set ds. \<not> isCredit e" "\<forall>e \<in> set ds. 0 \<le> ev_value e" "total ds \<le> bal"
  shows "fold ledgerStep ds (bal, sent) = (bal - total ds, sent + total ds)"
  using assms
proof (induction ds arbitrary: bal sent)
  case (Cons e ds)
  have "0 \<le> total ds" by (rule total_nonneg) (use Cons.prems in simp)
  with Cons show ?case by (cases e) (auto simp: total_def isCredit_def)
qed (simp add: total_def)

lemma fold_undo_debits:
  assumes "\<forall>e \<in> set ds. \<not> isCredit e" "\<forall>e \<in> set ds. 0 \<le> ev_value e" "total ds \<le> sent"
  shows "fold undoStep ds (bal, sent) = (bal + total ds, sent - total ds)"
  using assms
proof (induction ds arbitrary: bal sent)
  case (Cons e ds)
  have "0 \<le> total ds" by (rule total_nonneg) (use Cons.prems in simp)
  with Cons show ?case by (cases e) (auto simp: total_def isCredit_def)
qed (simp add: total_def)

lemma fold_undo_credits:
  assumes "\<forall>e \<in> set cs. isCredit e" "\<forall>e \<in> set cs. 0 \<le> ev_value e" "total cs \<le> bal"
  shows "fold undoStep cs (bal, sent) = (bal - total cs, sent)"
  using assms
proof (induction cs arbitrary: bal)
  case (Cons e cs)
  have "0 \<le> total cs" by (rule total_nonneg) (use Cons.prems in simp)
  with Cons show ?case by (cases e) (auto simp: total_def isCredit_def)
qed (simp add: total_def)

lemma rollback_account:
  assumes "\<forall>e \<in> set cs. isCredit e" "\<forall>e \<in> set ds. \<not> isCredit e"
    and "\<forall>e \<in> set (cs @ ds). 0 \<le> ev_value e" "0 \<le> bal" "0 \<le> sent" "total ds \<le> bal + total cs"
  shows "fold undoStep (ds @ cs) (fold ledgerStep (cs @ ds) (bal, sent)) = (bal, sent)"
proof -
  have "0 \<le> total ds" "0 \<le> total cs" using assms(3) by (auto intro: total_nonneg)
  with assms show ?thesis
    by (simp add: fold_ledger_credits fold_ledger_debits fold_undo_debits fold_undo_credits)
qed

section \<open>The rows that a connection builds\<close>

definition hIns :: "connectState \<Rightarrow> nat \<Rightarrow> outs" where
  "hIns st j = map (\<lambda>t. (ti_AddrDesc t, ti_ValueSat t)) (ta_Inputs (cs_heap st ! j))"

definition inSpec :: "RocksDB \<Rightarrow> (bytes \<Rightarrow> outs option) \<Rightarrow> Vin \<Rightarrow> bytes \<times> int" where
  "inSpec d prev vin =
     (case p_PackTxid (d_chainParser d) (vin_Txid vin) of
        Inl err \<Rightarrow> ([], 0)
      | Inr p \<Rightarrow>
          (case prev p of
             None \<Rightarrow> ([], 0)
           | Some os \<Rightarrow> if unat (vin_Vout vin) < length os then os ! unat (vin_Vout vin) else ([], 0)))"

lemma debitOf_inSpec:
  "debitOf d prev b (i, vin) =
     (case inSpec d prev vin of (a, v) \<Rightarrow> if indexed d a then [Debit a b (NOT (int32 (int i))) v] else [])"
  by (simp add: debitOf_def inSpec_def indexed_def split: sum.split option.split)

lemma nth_update_other: "j \<noteq> a \<Longrightarrow> xs[a := y] ! j = xs ! j"
  by simp

lemma hIns_setOutput [simp]: "hIns (setOutput a i f st) j = hIns st j"
  unfolding hIns_def setOutput_def Let_def
  by (simp add: nth_update_same [of "\<lambda>ta. map (\<lambda>t. (ti_AddrDesc t, ti_ValueSat t)) (ta_Inputs ta)"])

lemma hIns_setInput_other [simp]: "j \<noteq> a \<Longrightarrow> hIns (setInput a i f st) j = hIns st j"
  by (simp add: hIns_def setInput_def Let_def)

lemma hIns_setInput:
  assumes "a < length (cs_heap st)"
  shows "hIns (setInput a i f st) a =
    (hIns st a)[i := (ti_AddrDesc (f (ta_Inputs (cs_heap st ! a) ! i)), ti_ValueSat (f (ta_Inputs (cs_heap st ! a) ! i)))]"
  using assms by (simp add: hIns_def setInput_def Let_def map_update)

lemma hIns_setInput_same:
  assumes "\<And>x. ti_AddrDesc (f x) = ti_AddrDesc x" "\<And>x. ti_ValueSat (f x) = ti_ValueSat x"
  shows "hIns (setInput a i f st) j = hIns st j"
proof -
  have "map (\<lambda>t. (ti_AddrDesc t, ti_ValueSat t)) (ts[i := f (ts ! i)]) = map (\<lambda>t. (ti_AddrDesc t, ti_ValueSat t)) ts" for ts
    by (cases "i < length ts") (simp_all add: map_update assms list_update_same_conv list_update_beyond not_less)
  then show ?thesis
    unfolding hIns_def setInput_def Let_def
    by (simp add: nth_update_same [of "\<lambda>ta. map (\<lambda>t. (ti_AddrDesc t, ti_ValueSat t)) (ta_Inputs ta)"])
qed

lemma hIns_cong: "cs_heap st' = cs_heap st \<Longrightarrow> hIns st' = hIns st"
  by (simp add: hIns_def fun_eq_iff)

lemma hIns_filterAdd [simp]: "hIns (filterAdd x tx st) = hIns st"
  by (rule hIns_cong) simp

lemma hIns_recordSpent:
  assumes "a < length (cs_heap st)"
  shows "hIns (recordSpent d block tx a s (i, vin) so st) a = (hIns st a)[i := (to_AddrDesc so, to_ValueSat so)]"
    and "j \<noteq> a \<Longrightarrow> hIns (recordSpent d block tx a s (i, vin) so st) j = hIns st j"
  using assms by (simp_all add: recordSpent_def Let_def hIns_setInput_same hIns_setInput)

text \<open>What the processing of inputs keeps: the transactions of the map, their outputs, and the inputs of others.\<close>

definition keeps :: "nat \<Rightarrow> connectState \<Rightarrow> connectState \<Rightarrow> bool" where
  "keeps a st st' \<longleftrightarrow>
     length (cs_heap st) \<le> length (cs_heap st') \<and>
     (\<forall>j < length (cs_heap st). hOuts st' j = hOuts st j \<and> (j \<noteq> a \<longrightarrow> hIns st' j = hIns st j)) \<and>
     (\<forall>b j. map_of (cs_txAddressesMap st) b = Some j \<longrightarrow> map_of (cs_txAddressesMap st') b = Some j)"

lemma keeps_refl: "keeps a st st"
  by (simp add: keeps_def)

lemma keeps_trans: "keeps a st st' \<Longrightarrow> keeps a st' st'' \<Longrightarrow> keeps a st st''"
  unfolding keeps_def by auto

lemma findSpentTx_keeps:
  assumes "findSpentTx d get b st = Inr (ita, st')"
  shows "keeps a st st'" and "a < length (cs_heap st) \<Longrightarrow> hIns st' a = hIns st a"
  using assms
  by (auto simp: findSpentTx_def bindR_eq_Inr keeps_def hOuts_def hIns_def nth_append split: option.splits)

lemma processInput_rows:
  assumes run: "processInput d get block tx b a (i, vin) st = Inr st'"
    and known: "inputsKnown d get block st" and a: "a < length (cs_heap st)"
    and zero: "i < length (hIns st a)" "hIns st a ! i = ([], 0)"
    and unknown: "\<And>tx i. p_GetAddrDescForUnknownInput (d_chainParser d) tx i = []"
  shows "keeps a st st' \<and> hIns st' a = (hIns st a)[i := inSpec d (prevOuts d get block) vin]"
proof (cases "p_PackTxid (d_chainParser d) (vin_Txid vin)")
  case (Inl err)
  with run have "st' = st" by (simp add: processInput_unfold split: if_splits)
  moreover have "(hIns st a)[i := ([], 0)] = hIns st a" using zero by (simp add: list_update_same_conv)
  ultimately show ?thesis using Inl by (simp add: inSpec_def keeps_refl)
next
  case (Inr prev)
  with run obtain ita s1 where find: "findSpentTx d get prev st = Inr (ita, s1)"
    by (auto simp: processInput_unfold bindR_eq_Inr)
  note f = findSpentTx_known(2) [OF find known] and k = findSpentTx_keeps(1) [OF find, of a]
  have h: "hIns s1 a = hIns st a" by (rule findSpentTx_keeps(2) [OF find a])
  have a1: "a < length (cs_heap s1)" using k a by (simp add: keeps_def)
  have nochange: "(hIns st a)[i := ([], 0)] = hIns st a" using zero by (simp add: list_update_same_conv)
  show ?thesis
  proof (cases ita)
    case None
    with run Inr find have st': "st' = setInput a i (\<lambda>tai. tai\<lparr>ti_AddrDesc := []\<rparr>) s1"
      by (simp add: processInput_unfold unknown)
    have "keeps a s1 st'" by (auto simp: st' keeps_def)
    moreover have "snd (hIns s1 a ! i) = 0" "i < length (hIns s1 a)" using h zero by simp_all
    then have "ti_ValueSat (ta_Inputs (cs_heap s1 ! a) ! i) = 0" by (simp add: hIns_def)
    then have "hIns st' a = (hIns st a)[i := ([], 0)]"
      by (simp add: st' hIns_setInput a1 h)
    ultimately show ?thesis using keeps_trans [OF k] Inr f None by (simp add: inSpec_def)
  next
    case (Some s)
    let ?n = "unat (vin_Vout vin)" and ?os = "ta_Outputs (cs_heap s1 ! s)"
    have os: "prevOuts d get block prev = Some (map (\<lambda>o'. (to_AddrDesc o', to_ValueSat o')) ?os)"
      using f Some by (simp add: hOuts_def outsOf_def)
    show ?thesis
    proof (cases "?n < length ?os")
      case False
      with run Inr find Some have "st' = s1" by (simp add: processInput_unfold)
      with False Inr os k h nochange show ?thesis by (simp add: inSpec_def)
    next
      case True
      let ?o = "?os ! ?n" and ?t = "recordSpent d block tx a s (i, vin) (?os ! ?n) s1"
      have "cs_heap st' = cs_heap ?t \<and> cs_txAddressesMap st' = cs_txAddressesMap ?t"
      proof (cases "indexed d (to_AddrDesc ?o)")
        case yes: True
        with run Inr find Some True have sp: "spendFromBalance d get block tx b i prev (vin_Vout vin) ?o ?t = Inr st'"
          by (simp add: processInput_unfold Let_def)
        then show ?thesis by (rule spendFromBalance_heap)
      next
        case no: False
        with run Inr find Some True have "st' = ?t" by (simp add: processInput_unfold Let_def)
        then show ?thesis by simp
      qed
      then have heap: "cs_heap st' = cs_heap ?t" and tam: "cs_txAddressesMap st' = cs_txAddressesMap s1" by simp_all
      have "keeps a s1 st'"
        unfolding keeps_def heap tam hIns_cong [OF heap] hOuts_cong [OF heap] by (simp add: hIns_recordSpent a1)
      moreover have "hIns st' a = (hIns st a)[i := (to_AddrDesc ?o, to_ValueSat ?o)]"
        unfolding hIns_cong [OF heap] by (simp add: hIns_recordSpent a1 h)
      ultimately show ?thesis using keeps_trans [OF k] True Inr os by (simp add: inSpec_def)
    qed
  qed
qed

lemma processInputs_rows:
  assumes "foldR (processInput d get block tx b a) (enumerate n vins) st = Inr st'"
    and "posted d get evs st" "inputsKnown d get block st" "a < length (cs_heap st)"
    and "hIns st a = pre @ replicate (length vins) ([], 0)" "length pre = n"
    and unknown: "\<And>tx i. p_GetAddrDescForUnknownInput (d_chainParser d) tx i = []"
  shows "keeps a st st' \<and> hIns st' a = pre @ map (inSpec d (prevOuts d get block)) vins"
  using assms(1-6)
proof (induction vins arbitrary: n st evs pre)
  case (Cons vin vins)
  from Cons.prems(1) obtain s where one: "processInput d get block tx b a (n, vin) st = Inr s"
    and rest: "foldR (processInput d get block tx b a) (enumerate (Suc n) vins) s = Inr st'"
    by (auto simp: bindR_eq_Inr)
  note q = processInput_posted [OF one Cons.prems(2,3)]
  have zero: "n < length (hIns st a)" "hIns st a ! n = ([], 0)" using Cons.prems(5,6) by auto
  note r = processInput_rows [OF one Cons.prems(3,4) zero unknown]
  have "a < length (cs_heap s)" using r Cons.prems(4) by (simp add: keeps_def)
  moreover have "hIns s a = (pre @ [inSpec d (prevOuts d get block) vin]) @ replicate (length vins) ([], 0)"
    using r Cons.prems(5,6) by auto
  ultimately have "keeps a s st' \<and>
      hIns st' a = (pre @ [inSpec d (prevOuts d get block) vin]) @ map (inSpec d (prevOuts d get block)) vins"
    using Cons.prems(6) by (intro Cons.IH [OF rest conjunct1 [OF q] conjunct2 [OF q]]) simp_all
  then show ?case using keeps_trans [OF conjunct1 [OF r]] by simp
qed (simp add: keeps_refl)

text \<open>The heap after the first pass: transaction number \<open>k\<close> of the block is at address \<open>k\<close>.\<close>

definition laidOut :: "RocksDB \<Rightarrow> Tx list \<Rightarrow> connectState \<Rightarrow> bool" where
  "laidOut d txs st \<longleftrightarrow>
     cs_blockTxs st = zip (map (txidOf d) txs) [0 ..< length txs] \<and> length (cs_heap st) = length txs \<and>
     (\<forall>k < length txs. hOuts st k = map (outSpec d) (tx_Vout (txs ! k))) \<and>
     map_of (cs_txAddressesMap st) = map_of (rev (cs_blockTxs st))"

lemma processTxOutputs_laidOut:
  assumes "processTxOutputs d get block tx st = Inr st'" and "outputsDone d get txs st" and "laidOut d txs st"
  shows "laidOut d (txs @ [tx]) st'"
proof -
  from assms(1) obtain b where b: "p_PackTxid (d_chainParser d) (tx_Txid tx) = Inr b"
    by (auto simp: processTxOutputs_def bindR_eq_Inr)
  let ?a = "length (cs_heap st)"
  let ?s = "st\<lparr>cs_heap := cs_heap st @ [newTxAddresses d block tx],
      cs_txAddressesMap := AList.update b ?a (cs_txAddressesMap st), cs_blockTxs := cs_blockTxs st @ [(b, ?a)]\<rparr>"
  have run: "foldR (processOutput d get block tx b ?a) (enumerate 0 (tx_Vout tx)) ?s = Inr st'"
    using assms(1) b by (simp add: processTxOutputs_def Let_def)
  have p: "posted d get (concat (map (credits d) txs)) ?s"
    using assms(2) by (auto simp: outputsDone_def intro: posted_cong)
  have "sameShape ?a ?s st' \<and> hOuts st' ?a = [] @ map (outSpec d) (tx_Vout tx)"
    using processOutputs_fold [OF run p, of "[]"]
    by (simp add: hOuts_def outsOf_def newTxAddresses_def zeroTxOutput_def)
  then have same: "sameShape ?a ?s st'" and new: "hOuts st' ?a = map (outSpec d) (tx_Vout tx)" by simp_all
  have len: "?a = length txs" using assms(3) by (simp add: laidOut_def)
  have old: "hOuts st' k = map (outSpec d) (tx_Vout (txs ! k))" if "k < length txs" for k
  proof -
    have "hOuts st' k = hOuts ?s k" using same that len by (simp add: sameShape_def)
    also have "\<dots> = hOuts st k" using that len by (simp add: hOuts_def nth_append)
    finally show ?thesis using assms(3) that by (simp add: laidOut_def)
  qed
  have "txidOf d tx = b" by (simp add: txidOf_def b)
  with same assms(3) new old len show ?thesis
    by (auto simp: laidOut_def sameShape_def nth_append less_Suc_eq)
qed

lemma processTxOutputs_laidOut_fold:
  assumes "foldR (processTxOutputs d get block) txs st = Inr st'" and "outputsDone d get [] st" "laidOut d [] st"
  shows "outputsDone d get txs st' \<and> laidOut d txs st'"
  using assms
proof (induction txs arbitrary: st' rule: rev_induct)
  case (snoc tx txs)
  from snoc.prems(1) obtain s where "foldR (processTxOutputs d get block) txs st = Inr s"
    and "processTxOutputs d get block tx s = Inr st'"
    by (auto simp: foldR_append bindR_eq_Inr)
  with snoc.IH snoc.prems(2,3) show ?case by (blast intro: processTxOutputs_done processTxOutputs_laidOut)
qed simp

lemma processTxInputs_rows:
  assumes "foldR (processTxInputs d get block) (zip txs (zip (map (txidOf d) txs) [n ..< n + length txs])) st = Inr st'"
    and "posted d get evs st" "inputsKnown d get block st" "n + length txs \<le> length (cs_heap st)"
    and unknown: "\<And>tx i. p_GetAddrDescForUnknownInput (d_chainParser d) tx i = []"
  shows "length (cs_heap st) \<le> length (cs_heap st') \<and> (\<forall>j < length (cs_heap st). hOuts st' j = hOuts st j) \<and>
    (\<forall>j < n. hIns st' j = hIns st j) \<and>
    (\<forall>k < length txs. hIns st' (n + k) = map (inSpec d (prevOuts d get block)) (tx_Vin (txs ! k))) \<and>
    (\<forall>b j. map_of (cs_txAddressesMap st) b = Some j \<longrightarrow> map_of (cs_txAddressesMap st') b = Some j)"
  using assms(1-4)
proof (induction txs arbitrary: n st evs)
  case (Cons tx txs)
  let ?s = "st\<lparr>cs_heap := (cs_heap st)[n := (cs_heap st ! n)\<lparr>ta_Inputs := replicate (length (tx_Vin tx)) zeroTxInput\<rparr>]\<rparr>"
  have upt: "[n ..< n + length (tx # txs)] = n # [Suc n ..< Suc n + length txs]"
    by (simp add: upt_rec)
  from Cons.prems(1) obtain s where
      one: "foldR (processInput d get block tx (txidOf d tx) n) (enumerate 0 (tx_Vin tx)) ?s = Inr s"
    and rest: "foldR (processTxInputs d get block) (zip txs (zip (map (txidOf d) txs) [Suc n ..< Suc n + length txs])) s = Inr st'"
    unfolding upt by (auto simp: bindR_eq_Inr processTxInputs_def [of d get block "(tx, txidOf d tx, n)"])
  have outs: "hOuts ?s j = hOuts st j" for j
    by (simp add: hOuts_def outsOf_def nth_update_same [of outsOf, unfolded outsOf_def])
  then have known: "inputsKnown d get block ?s"
    by (intro inputsKnown_cong [OF Cons.prems(3)]) simp_all
  have post: "posted d get evs ?s" by (rule posted_cong [OF Cons.prems(2)]) simp_all
  have n: "n < length (cs_heap st)" using Cons.prems(4) by simp
  have "hIns ?s n = [] @ replicate (length (tx_Vin tx)) ([], 0)"
    using n by (simp add: hIns_def zeroTxInput_def)
  then have r: "keeps n ?s s" "hIns s n = map (inSpec d (prevOuts d get block)) (tx_Vin tx)"
    using processInputs_rows [OF one post known _ _ _ unknown, of "[]"] n by simp_all
  note q = processInputs_fold [OF one post known]
  have ins: "hIns ?s j = hIns st j" if "j \<noteq> n" for j using that by (simp add: hIns_def)
  have "Suc n + length txs \<le> length (cs_heap s)" using r(1) Cons.prems(4) by (simp add: keeps_def)
  note IH = Cons.IH [OF rest conjunct1 [OF q] conjunct2 [OF q] this]
  have this_tx: "hIns st' n = hIns s n" using IH by simp
  have new: "\<forall>k < length (tx # txs). hIns st' (n + k) = map (inSpec d (prevOuts d get block)) (tx_Vin ((tx # txs) ! k))"
  proof (intro allI impI)
    fix k assume "k < length (tx # txs)"
    then show "hIns st' (n + k) = map (inSpec d (prevOuts d get block)) (tx_Vin ((tx # txs) ! k))"
      using IH r(2) this_tx by (cases k) simp_all
  qed
  have old: "\<forall>j < n. hIns st' j = hIns st j"
    using IH r(1) n ins by (auto simp: keeps_def)
  have len: "length (cs_heap st) \<le> length (cs_heap s)" using r(1) by (simp add: keeps_def)
  have o': "hOuts st' j = hOuts st j" if "j < length (cs_heap st)" for j
    using IH r(1) outs that len by (simp add: keeps_def)
  show ?case using IH r(1) new old len o' by (auto simp: keeps_def)
qed simp

text \<open>The rows of a connected block, for transactions with different ids.\<close>

lemma connect_rows:
  assumes "processAddressesBitcoinType d get block (initialConnectState d block cache calls cbs) = Inr st"
    and "distinct (map (txidOf d) (block_Txs block))" "k < length (block_Txs block)"
    and unknown: "\<And>tx i. p_GetAddrDescForUnknownInput (d_chainParser d) tx i = []"
  shows "map_of (cs_txAddressesMap st) (txidOf d (block_Txs block ! k)) = Some k"
    and "hOuts st k = map (outSpec d) (tx_Vout (block_Txs block ! k))"
    and "hIns st k = map (inSpec d (prevOuts d get block)) (tx_Vin (block_Txs block ! k))"
proof -
  let ?s0 = "initialConnectState d block cache calls cbs" and ?txs = "block_Txs block"
  from assms(1) obtain s where outs: "foldR (processTxOutputs d get block) ?txs ?s0 = Inr s"
    and ins: "foldR (processTxInputs d get block) (zip ?txs (cs_blockTxs s)) s = Inr st"
    by (auto simp: processAddressesBitcoinType_def bindR_eq_Inr)
  have "outputsDone d get [] ?s0" "laidOut d [] ?s0"
    by (simp_all add: outputsDone_def laidOut_def posted_def initialConnectState_def Let_def blockOuts_def)
  from processTxOutputs_laidOut_fold [OF outs this]
  have finished: "posted d get (concat (map (credits d) ?txs)) s" and laid: "laidOut d ?txs s"
    and bo: "\<And>b. blockOuts d ?txs b = map_option (hOuts s) (map_of (cs_txAddressesMap s) b)"
    and range: "\<And>b j. map_of (cs_txAddressesMap s) b = Some j \<Longrightarrow> j < length (cs_heap s)"
    by (simp_all add: outputsDone_def)
  have known: "inputsKnown d get block s"
    using bo range by (auto simp: inputsKnown_def prevOuts_def split: option.split)
  have bts: "cs_blockTxs s = zip (map (txidOf d) ?txs) [0 ..< 0 + length ?txs]" and len: "0 + length ?txs \<le> length (cs_heap s)"
    using laid by (simp_all add: laidOut_def)
  note r = processTxInputs_rows [OF ins [unfolded bts] finished known len unknown]
  have "map_of (cs_txAddressesMap s) (txidOf d (?txs ! k)) = Some k"
  proof -
    have "distinct (map fst (rev (cs_blockTxs s)))" using assms(2) by (simp add: bts rev_map [symmetric])
    moreover have "(txidOf d (?txs ! k), k) \<in> set (rev (cs_blockTxs s))"
      using assms(3) by (auto simp: bts set_zip intro!: exI [of _ k])
    ultimately show ?thesis using laid by (simp add: laidOut_def map_of_is_SomeI)
  qed
  with r show "map_of (cs_txAddressesMap st) (txidOf d (?txs ! k)) = Some k" by blast
  show "hOuts st k = map (outSpec d) (tx_Vout (?txs ! k))"
    using r laid assms(3) len by (simp add: laidOut_def)
  show "hIns st k = map (inSpec d (prevOuts d get block)) (tx_Vin (?txs ! k))"
    using r assms(3) by simp
qed

section \<open>A rolled back block\<close>

lemma inEvents_debits:
  assumes "map (\<lambda>t. (ti_AddrDesc t, ti_ValueSat t)) ts = map (inSpec d prev) vins"
  shows "concat (map (inEvent d b) (enumerate n ts)) = concat (map (debitOf d prev b) (enumerate n vins))"
  using assms
proof (induction ts arbitrary: n vins)
  case (Cons t ts)
  then obtain vin vins' where vins: "vins = vin # vins'" by (cases vins) auto
  with Cons.prems have "inSpec d prev vin = (ti_AddrDesc t, ti_ValueSat t)"
    and "map (\<lambda>t. (ti_AddrDesc t, ti_ValueSat t)) ts = map (inSpec d prev) vins'" by simp_all
  with Cons.IH show ?case by (simp add: vins debitOf_inSpec inEvent_def)
qed simp

lemma outEvents_credits:
  assumes "map (\<lambda>o'. (to_AddrDesc o', to_ValueSat o')) os = map (outSpec d) vouts"
  shows "concat (map (outEvent d b) (enumerate n os)) = concat (map (creditOf d b) (enumerate n vouts))"
  using assms
proof (induction os arbitrary: n vouts)
  case (Cons o' os)
  then obtain vout vouts' where vouts: "vouts = vout # vouts'" by (cases vouts) auto
  with Cons.prems have "outSpec d vout = (to_AddrDesc o', to_ValueSat o')"
    and "map (\<lambda>o'. (to_AddrDesc o', to_ValueSat o')) os = map (outSpec d) vouts'" by simp_all
  with Cons.IH show ?case by (simp add: vouts creditOf_def outEvent_def)
qed simp

lemma eventsOf_credits:
  "e \<in> set (eventsOf a (concat (map (credits d) txs))) \<Longrightarrow> isCredit e \<and> indexed d a"
  by (auto simp: eventsOf_def credits_def creditOf_def isCredit_def split: prod.splits if_splits)

lemma eventsOf_debits:
  "e \<in> set (eventsOf a (concat (map (debits d get block) txs))) \<Longrightarrow> \<not> isCredit e \<and> indexed d a"
  by (auto simp: eventsOf_def debits_def debitOf_inSpec isCredit_def split: prod.splits if_splits)

text \<open>The rows of the block that \<open>get'\<close> returns are those of the connection that ended in \<open>st\<close>.\<close>

definition rowsOf :: "RocksDB \<Rightarrow> view \<Rightarrow> connectState \<Rightarrow> bool" where
  "rowsOf d get' st \<longleftrightarrow>
     (\<forall>b j. map_of (cs_txAddressesMap st) b = Some j \<longrightarrow>
        (\<exists>ta. getTxAddresses d get' b = Inr (Some ta) \<and> outsOf ta = hOuts st j \<and>
           map (\<lambda>t. (ti_AddrDesc t, ti_ValueSat t)) (ta_Inputs ta) = hIns st j)) \<and>
     (\<forall>a ab. map_of (cs_balances st) a = Some ab \<longrightarrow>
        (\<exists>ab'. GetAddrDescBalance d get' a addressBalanceDetailUTXOIndexed = Inr (Some ab') \<and>
           ab_BalanceSat ab' = ab_BalanceSat ab \<and> ab_SentSat ab' = ab_SentSat ab \<and> ab_Txs ab' = ab_Txs ab))"

lemma rowEvents_of_block:
  assumes run: "processAddressesBitcoinType d get block (initialConnectState d block cache calls cbs) = Inr st"
    and dist: "distinct (map (txidOf d) (block_Txs block))"
    and unknown: "\<And>tx i. p_GetAddrDescForUnknownInput (d_chainParser d) tx i = []"
    and rows: "rowsOf d get' st" and ids: "map bt_btxID bts = map (txidOf d) (block_Txs block)"
  shows "rowEvents d get' bts =
    concat (map (debits d get block) (block_Txs block)) @ concat (map (credits d) (block_Txs block))"
proof -
  let ?txs = "block_Txs block"
  have len: "length bts = length ?txs" using ids by (metis length_map)
  have one: "inEvents d get' (bts ! k) = debits d get block (?txs ! k) \<and> outEvents d get' (bts ! k) = credits d (?txs ! k)"
    if k: "k < length ?txs" for k
  proof -
    note r = connect_rows [OF run dist k unknown]
    have id: "bt_btxID (bts ! k) = txidOf d (?txs ! k)" using ids k len by (metis nth_map)
    obtain ta where "getTxAddresses d get' (txidOf d (?txs ! k)) = Inr (Some ta)" and outs: "outsOf ta = hOuts st k"
      and ins: "map (\<lambda>t. (ti_AddrDesc t, ti_ValueSat t)) (ta_Inputs ta) = hIns st k"
      using rows r(1) unfolding rowsOf_def by blast
    then have "rowOf d get' (bts ! k) = Some ta" by (simp add: rowOf_def id)
    then show ?thesis
      using inEvents_debits [OF ins [unfolded r(3)], of "txidOf d (?txs ! k)" 0]
        outEvents_credits [OF outs [unfolded r(2) outsOf_def], of "txidOf d (?txs ! k)" 0]
      by (simp add: inEvents_def outEvents_def debits_def credits_def id)
  qed
  have "map (inEvents d get') bts = map (debits d get block) ?txs" "map (outEvents d get') bts = map (credits d) ?txs"
    using one len by (auto intro!: nth_equalityI)
  then show ?thesis by (simp add: rowEvents_def)
qed

text \<open>C2: Rolling back a block restores the balances. Let a block be connected and then be disconnected, where the database
  in between returns the rows of transactions and balances that the connection computed. Then every address that
  occurs in the ledger of the block ends with the balance, the sent amount and the number of transactions that it
  had before the block. The transactions of the block have different ids, amounts are not negative, the address
  does not spend more than it has, and the parser gives no address to unknown inputs, which is the default.\<close>

theorem rollback_restores_balances:
  assumes run: "processAddressesBitcoinType d get block (initialConnectState d block cache calls cbs) = Inr st"
    and dist: "distinct (map (txidOf d) (block_Txs block))"
    and unknown: "\<And>tx i. p_GetAddrDescForUnknownInput (d_chainParser d) tx i = []"
    and rows: "rowsOf d get' st" and ids: "map bt_btxID bts = map (txidOf d) (block_Txs block)"
    and undo: "disconnectAddresses d get' bts (disconnectState0 cache' calls') = Inr st'"
    and some: "eventsOf a (blockEvents d get block) \<noteq> []"
    and amounts: "\<forall>e \<in> set (eventsOf a (blockEvents d get block)). 0 \<le> ev_value e"
    and old: "0 \<le> ab_BalanceSat (oldBalance d get a)" "0 \<le> ab_SentSat (oldBalance d get a)"
    and funds: "total (filter (\<lambda>e. \<not> isCredit e) (eventsOf a (blockEvents d get block))) \<le>
      ab_BalanceSat (oldBalance d get a) + total (filter isCredit (eventsOf a (blockEvents d get block)))"
  shows "\<exists>ab. map_of (ds_balances st') a = Some (Some ab) \<and>
    ab_BalanceSat ab = ab_BalanceSat (oldBalance d get a) \<and> ab_SentSat ab = ab_SentSat (oldBalance d get a) \<and>
    ab_Txs ab = ab_Txs (oldBalance d get a)"
proof -
  let ?cs = "eventsOf a (concat (map (credits d) (block_Txs block)))"
    and ?ds = "eventsOf a (concat (map (debits d get block) (block_Txs block)))"
  have evs: "eventsOf a (blockEvents d get block) = ?cs @ ?ds" by (simp add: blockEvents_def)
  have undoEvs: "eventsOf a (rowEvents d get' bts) = ?ds @ ?cs"
    by (simp add: rowEvents_of_block [OF run dist unknown rows ids])
  have kinds: "\<forall>e \<in> set ?cs. isCredit e" "\<forall>e \<in> set ?ds. \<not> isCredit e"
    using eventsOf_credits eventsOf_debits by blast+
  obtain e where "e \<in> set (?cs @ ?ds)" using some unfolding evs by (meson hd_in_set)
  then have ix: "indexed d a" using eventsOf_credits eventsOf_debits by (metis Un_iff set_append)
  obtain ab where ab: "map_of (cs_balances st) a = Some ab" "accounted (oldBalance d get a) (?cs @ ?ds) ab"
    using posted_cases [OF processAddressesBitcoinType_posted [OF run], of a] some unfolding evs by auto
  obtain ab' where ab': "stored d get' a = Some ab'" "ab_BalanceSat ab' = ab_BalanceSat ab"
    "ab_SentSat ab' = ab_SentSat ab" "ab_Txs ab' = ab_Txs ab"
    using rows ab(1) unfolding rowsOf_def stored_def by fastforce
  have "case map_of (ds_balances st') a of
      None \<Rightarrow> ?ds @ ?cs = []
    | Some r \<Rightarrow> ?ds @ ?cs \<noteq> [] \<and> undoneOpt (stored d get' a) (?ds @ ?cs) r"
    using disconnectAddresses_unposted [OF undo] ix unfolding unposted_def undoEvs [symmetric] by blast
  then obtain ab'' where ab'': "map_of (ds_balances st') a = Some (Some ab'')" "undone ab' (?ds @ ?cs) ab''"
    using some ab'(1) unfolding evs by (auto simp: undoneOpt_def split: option.splits)
  have "filter isCredit (?cs @ ?ds) = ?cs" "filter (\<lambda>e. \<not> isCredit e) (?cs @ ?ds) = ?ds"
    using kinds by (simp_all add: filter_id_conv filter_empty_conv)
  note fund = funds [unfolded evs this] and nonneg = amounts [unfolded evs]
  note account = rollback_account [OF kinds nonneg old fund]
  have "(ab_BalanceSat ab, ab_SentSat ab) =
      fold ledgerStep (?cs @ ?ds) (ab_BalanceSat (oldBalance d get a), ab_SentSat (oldBalance d get a))"
    and "(ab_BalanceSat ab'', ab_SentSat ab'') = fold undoStep (?ds @ ?cs) (ab_BalanceSat ab, ab_SentSat ab)"
    using ab(2) ab''(2) unfolding accounted_def undone_def ab'(2,3) by blast+
  then have "(ab_BalanceSat ab'', ab_SentSat ab'') = (ab_BalanceSat (oldBalance d get a), ab_SentSat (oldBalance d get a))"
    by (simp only: account)
  moreover have "ab_Txs ab'' = ab_Txs (oldBalance d get a)"
    using ab(2) ab''(2) ab'(4) by (simp add: accounted_def undone_def Un_commute)
  ultimately show ?thesis using ab''(1) by simp
qed

text \<open>A block with one transaction, and the rows of it as bytes.\<close>

definition demoMintBlock :: Block where
  "demoMintBlock = demoBlock 7 [demoTx 1 [demoVin [] 0] [demoVout 50 [1, 2]]]"

definition demoMintRows :: view where
  "demoMintRows c k =
     Inr (if c = cfTxAddresses \<and> k = replicate 32 1 then Some [7, 1, 0, 0, 1, 4, 1, 2, 1, 50]
          else if c = cfAddressBalance \<and> k = [1, 2] then Some ([1, 0, 1, 50] @ replicate 32 1 @ [0, 7, 1, 50])
          else None)"

definition demoMintTxs :: "blockTxs list" where
  "demoMintTxs = [\<lparr>bt_btxID = replicate 32 1, bt_inputs = [\<lparr>o_btxID = replicate 32 0, o_index = 0\<rparr>]\<rparr>]"

lemma demoMint_connects:
  "case processAddressesBitcoinType (demoDB False False) emptyView demoMintBlock
      (initialConnectState (demoDB False False) demoMintBlock None 0 demoStats) of
     Inl e \<Rightarrow> False
   | Inr st \<Rightarrow> cs_txAddressesMap st = [(replicate 32 1, 0)] \<and> hOuts st 0 = [([1, 2], 50)] \<and> hIns st 0 = [([], 0)] \<and>
       map (\<lambda>(a, ab). (a, ab_BalanceSat ab, ab_SentSat ab, ab_Txs ab)) (cs_balances st) = [([1, 2], 50, 0, 1)]"
  by code_simp

lemma demoMint_row:
  "case getTxAddresses (demoDB False False) demoMintRows (replicate 32 1) of
     Inr (Some ta) \<Rightarrow> outsOf ta = [([1, 2], 50)] \<and> map (\<lambda>t. (ti_AddrDesc t, ti_ValueSat t)) (ta_Inputs ta) = [([], 0)]
   | _ \<Rightarrow> False"
  by code_simp

lemma demoMint_balance:
  "case GetAddrDescBalance (demoDB False False) demoMintRows [1, 2] addressBalanceDetailUTXOIndexed of
     Inr (Some ab) \<Rightarrow> ab_BalanceSat ab = 50 \<and> ab_SentSat ab = 0 \<and> ab_Txs ab = 1
   | _ \<Rightarrow> False"
  by code_simp

lemma demoMint_disconnects:
  "case disconnectAddresses (demoDB False False) demoMintRows demoMintTxs (disconnectState0 None 0) of
     Inl e \<Rightarrow> False | Inr st \<Rightarrow> True"
  by code_simp

lemma demoMint_events:
  "eventsOf [1, 2] (blockEvents (demoDB False False) emptyView demoMintBlock) = [Credit [1, 2] (replicate 32 1) 0 50]"
  "oldBalance (demoDB False False) emptyView [1, 2] = zeroAddrBalance"
  "map (txidOf (demoDB False False)) (block_Txs demoMintBlock) = [replicate 32 1]"
  by code_simp+

theorem rollback_restores_balances_witness:
  "\<exists>st st' ab. processAddressesBitcoinType (demoDB False False) emptyView demoMintBlock
       (initialConnectState (demoDB False False) demoMintBlock None 0 demoStats) = Inr st \<and>
     disconnectAddresses (demoDB False False) demoMintRows demoMintTxs (disconnectState0 None 0) = Inr st' \<and>
     map_of (ds_balances st') [1, 2] = Some (Some ab) \<and> ab_BalanceSat ab = 0 \<and> ab_Txs ab = 0"
proof -
  let ?d = "demoDB False False"
  obtain st where run: "processAddressesBitcoinType ?d emptyView demoMintBlock
      (initialConnectState ?d demoMintBlock None 0 demoStats) = Inr st"
    and tam: "cs_txAddressesMap st = [(replicate 32 1, 0)]" and outs: "hOuts st 0 = [([1, 2], 50)]"
    and ins: "hIns st 0 = [([], 0)]"
    and bals: "map (\<lambda>(a, ab). (a, ab_BalanceSat ab, ab_SentSat ab, ab_Txs ab)) (cs_balances st) = [([1, 2], 50, 0, 1)]"
    using demoMint_connects by (auto split: sum.splits)
  obtain st' where undo: "disconnectAddresses ?d demoMintRows demoMintTxs (disconnectState0 None 0) = Inr st'"
    using demoMint_disconnects by (auto split: sum.splits)
  obtain ta where "getTxAddresses ?d demoMintRows (replicate 32 1) = Inr (Some ta)" "outsOf ta = [([1, 2], 50)]"
    "map (\<lambda>t. (ti_AddrDesc t, ti_ValueSat t)) (ta_Inputs ta) = [([], 0)]"
    using demoMint_row by (auto split: sum.splits option.splits)
  moreover obtain ab' where "GetAddrDescBalance ?d demoMintRows [1, 2] addressBalanceDetailUTXOIndexed = Inr (Some ab')"
    "ab_BalanceSat ab' = 50" "ab_SentSat ab' = 0" "ab_Txs ab' = 1"
    using demoMint_balance by (auto split: sum.splits option.splits)
  moreover obtain ab where "cs_balances st = [([1, 2], ab)]" "ab_BalanceSat ab = 50" "ab_SentSat ab = 0" "ab_Txs ab = 1"
    using bals by (auto simp: map_eq_Cons_conv)
  ultimately have rows: "rowsOf ?d demoMintRows st"
    by (simp add: rowsOf_def tam outs ins)
  have "\<exists>ab. map_of (ds_balances st') [1, 2] = Some (Some ab) \<and> ab_BalanceSat ab = 0 \<and> ab_SentSat ab = 0 \<and> ab_Txs ab = 0"
    using rollback_restores_balances [OF run _ _ rows _ undo, of "[1, 2]"]
    by (simp add: demoMint_events demoMintTxs_def zeroAddrBalance_def total_def isCredit_def
        demoParser_def BaseParser_GetAddrDescForUnknownInput_def)
  then show ?thesis using run undo by blast
qed

end
