(* ===== verification/Netip.thy ===== *)
theory Netip
  imports Strings "HOL-Library.Word"
begin

text \<open>
  What the code uses of the Go packages \<open>net/netip\<close> and \<open>net\<close>: addresses and prefixes, their text forms, the
  classes of addresses, and the host of a host and port. An address that parses and prints as itself is the round trip
  the keys of the limiters rest on.
\<close>

unbundle bit_operations_syntax

section \<open>Strings\<close>

fun splitOn :: "char \<Rightarrow> string \<Rightarrow> string list" where
  "splitOn c [] = [[]]"
| "splitOn c (x # xs) =
     (if x = c then [] # splitOn c xs else (case splitOn c xs of [] \<Rightarrow> [[x]] | p # ps \<Rightarrow> (x # p) # ps))"

definition HasPrefix :: "string \<Rightarrow> string \<Rightarrow> bool" where
  "HasPrefix s p \<longleftrightarrow> take (length p) s = p"

definition TrimPrefix :: "string \<Rightarrow> string \<Rightarrow> string" where
  "TrimPrefix s p = (if HasPrefix s p then drop (length p) s else s)"

definition toUpper :: "char \<Rightarrow> char" where
  "toUpper c = (if 97 \<le> (of_char c :: nat) \<and> (of_char c :: nat) \<le> 122 then char_of ((of_char c :: nat) - 32) else c)"

definition toLower :: "char \<Rightarrow> char" where
  "toLower c = (if 65 \<le> (of_char c :: nat) \<and> (of_char c :: nat) \<le> 90 then char_of ((of_char c :: nat) + 32) else c)"

definition ToUpper :: "string \<Rightarrow> string" where
  "ToUpper s = map toUpper s"

definition ToLower :: "string \<Rightarrow> string" where
  "ToLower s = map toLower s"

section \<open>Hexadecimal digits\<close>

definition hex_digit :: "nat \<Rightarrow> char" where
  "hex_digit n = ''0123456789abcdef'' ! n"

definition hex_digit_val :: "char \<Rightarrow> nat option" where
  "hex_digit_val c =
     (let n = (of_char c :: nat) in
      if 48 \<le> n \<and> n \<le> 57 then Some (n - 48)
      else if 97 \<le> n \<and> n \<le> 102 then Some (n - 87)
      else if 65 \<le> n \<and> n \<le> 70 then Some (n - 55)
      else None)"

definition is_hex :: "char \<Rightarrow> bool" where
  "is_hex c \<longleftrightarrow> hex_digit_val c \<noteq> None"

definition hexGroupVal :: "string \<Rightarrow> nat" where
  "hexGroupVal s = foldl (\<lambda>a c. a * 16 + the (hex_digit_val c)) 0 s"

fun show_hex :: "nat \<Rightarrow> string" where
  "show_hex n = (if n < 16 then [hex_digit n] else show_hex (n div 16) @ [hex_digit (n mod 16)])"

declare show_hex.simps [simp del]

section \<open>Addresses\<close>

text \<open>An address is one of 4 bytes, or of 16 bytes with a zone that may be empty.\<close>

datatype Addr = Addr4 "32 word" | Addr6 "128 word" string

fun Is4 :: "Addr \<Rightarrow> bool" where
  "Is4 (Addr4 w) = True"
| "Is4 (Addr6 w z) = False"

definition Is6 :: "Addr \<Rightarrow> bool" where
  "Is6 a \<longleftrightarrow> \<not> Is4 a"

fun Is4In6 :: "Addr \<Rightarrow> bool" where
  "Is4In6 (Addr4 w) = False"
| "Is4In6 (Addr6 w z) = (drop_bit 32 w = 0xffff)"

fun Unmap :: "Addr \<Rightarrow> Addr" where
  "Unmap (Addr4 w) = Addr4 w"
| "Unmap (Addr6 w z) = (if drop_bit 32 w = 0xffff then Addr4 (ucast w) else Addr6 w z)"

fun WithZone :: "string \<Rightarrow> Addr \<Rightarrow> Addr" where
  "WithZone z (Addr4 w) = Addr4 w"
| "WithZone z (Addr6 w z') = Addr6 w z"

fun IsLoopback :: "Addr \<Rightarrow> bool" where
  "IsLoopback (Addr4 w) = (drop_bit 24 w = 127)"
| "IsLoopback (Addr6 w z) = (if drop_bit 32 w = 0xffff then drop_bit 24 (ucast w :: 32 word) = 127 else w = 1)"

definition private4 :: "32 word \<Rightarrow> bool" where
  "private4 w \<longleftrightarrow> drop_bit 24 w = 10 \<or> drop_bit 20 w = 0xac1 \<or> drop_bit 16 w = 0xc0a8"

fun IsPrivate :: "Addr \<Rightarrow> bool" where
  "IsPrivate (Addr4 w) = private4 w"
| "IsPrivate (Addr6 w z) =
     (if drop_bit 32 w = 0xffff then private4 (ucast w) else drop_bit 121 w = 0x7e)"

fun IsLinkLocalUnicast :: "Addr \<Rightarrow> bool" where
  "IsLinkLocalUnicast (Addr4 w) = (drop_bit 16 w = 0xa9fe)"
| "IsLinkLocalUnicast (Addr6 w z) =
     (if drop_bit 32 w = 0xffff then drop_bit 16 (ucast w :: 32 word) = 0xa9fe else drop_bit 118 w = 0x3fa)"

fun IsUnspecified :: "Addr \<Rightarrow> bool" where
  "IsUnspecified (Addr4 w) = (w = 0)"
| "IsUnspecified (Addr6 w z) = (w = 0 \<and> z = [])"

fun IsMulticast :: "Addr \<Rightarrow> bool" where
  "IsMulticast (Addr4 w) = (drop_bit 28 w = 0xe)"
| "IsMulticast (Addr6 w z) = (if drop_bit 32 w = 0xffff then drop_bit 28 (ucast w :: 32 word) = 0xe else drop_bit 120 w = 0xff)"

section \<open>Prefixes\<close>

record Prefix =
  p_Addr :: Addr
  p_Bits :: nat

text \<open>A prefix contains the addresses of its own length whose first bits are its own; none with a zone.\<close>

fun Contains :: "Prefix \<Rightarrow> Addr \<Rightarrow> bool" where
  "Contains p (Addr4 w) =
     (case p_Addr p of Addr4 v \<Rightarrow> drop_bit (32 - p_Bits p) (w XOR v) = 0 | Addr6 v z \<Rightarrow> False)"
| "Contains p (Addr6 w z) =
     (z = [] \<and> (case p_Addr p of Addr4 v \<Rightarrow> False | Addr6 v z' \<Rightarrow> drop_bit (128 - p_Bits p) (w XOR v) = 0))"

text \<open>\<open>Addr.Prefix\<close> clears the bits after the first ones and the zone; \<open>None\<close> for a length the address does not have.\<close>

fun AddrPrefix :: "nat \<Rightarrow> Addr \<Rightarrow> Prefix option" where
  "AddrPrefix b (Addr4 w) =
     (if b > 32 then None else Some \<lparr>p_Addr = Addr4 (push_bit (32 - b) (drop_bit (32 - b) w)), p_Bits = b\<rparr>)"
| "AddrPrefix b (Addr6 w z) =
     (if b > 128 then None else Some \<lparr>p_Addr = Addr6 (push_bit (128 - b) (drop_bit (128 - b) w)) [], p_Bits = b\<rparr>)"

definition Masked :: "Prefix \<Rightarrow> Prefix" where
  "Masked p = (case AddrPrefix (p_Bits p) (p_Addr p) of Some q \<Rightarrow> q | None \<Rightarrow> p)"

section \<open>Text forms\<close>

definition octets :: "32 word \<Rightarrow> nat list" where
  "octets w = [unat w div 2 ^ 24, unat w div 2 ^ 16 mod 256, unat w div 2 ^ 8 mod 256, unat w mod 256]"

definition ofOctets :: "nat list \<Rightarrow> 32 word" where
  "ofOctets bs = of_nat (foldl (\<lambda>a b. a * 256 + b) 0 bs)"

definition parseOctet :: "string \<Rightarrow> nat option" where
  "parseOctet s =
     (if s = [] \<or> \<not> list_all is_digit s then None
      else if length s > 1 \<and> hd s = CHR ''0'' then None
      else if dec_val s > 255 then None else Some (dec_val s))"

fun parseOctets :: "string list \<Rightarrow> nat list option" where
  "parseOctets [] = Some []"
| "parseOctets (f # fs) =
     (case parseOctet f of None \<Rightarrow> None | Some b \<Rightarrow> (case parseOctets fs of None \<Rightarrow> None | Some bs \<Rightarrow> Some (b # bs)))"

definition parseIPv4Fields :: "string \<Rightarrow> nat list option" where
  "parseIPv4Fields s =
     (case parseOctets (splitOn CHR ''.'' s) of None \<Rightarrow> None | Some bs \<Rightarrow> if length bs = 4 then Some bs else None)"

fun intersperse :: "string \<Rightarrow> string list \<Rightarrow> string" where
  "intersperse sep [] = []"
| "intersperse sep [x] = x"
| "intersperse sep (x # y # ys) = x @ sep @ intersperse sep (y # ys)"

definition show4 :: "32 word \<Rightarrow> string" where
  "show4 w = intersperse ''.'' (map show_nat (octets w))"

text \<open>The eight groups of 16 bits of an address of 16 bytes.\<close>

definition groups :: "128 word \<Rightarrow> nat list" where
  "groups w = map (\<lambda>i. unat w div 65536 ^ (7 - i) mod 65536) [0..<8]"

definition ofGroups :: "nat list \<Rightarrow> 128 word" where
  "ofGroups gs = of_nat (foldl (\<lambda>a g. a * 65536 + g) 0 gs)"

text \<open>
  The loop over the groups of an address of 16 bytes: the groups read so far, the position of \<open>::\<close> and the rest of the
  text. The first argument is how many more groups fit.
\<close>

fun parseGroups :: "nat \<Rightarrow> string \<Rightarrow> nat list \<Rightarrow> nat option \<Rightarrow> (nat list \<times> nat option \<times> string) option" where
  "parseGroups 0 s gs ellipsis = Some (gs, ellipsis, s)"
| "parseGroups (Suc n) s gs ellipsis =
     (let digits = takeWhile is_hex s; rest = dropWhile is_hex s in
      if digits = [] \<or> length digits > 4 then None
      else if rest \<noteq> [] \<and> hd rest = CHR ''.'' then
        (if ellipsis = None \<and> length gs \<noteq> 6 \<or> length gs > 6 then None
         else case parseIPv4Fields s of
            None \<Rightarrow> None
          | Some bs \<Rightarrow> Some (gs @ [bs ! 0 * 256 + bs ! 1, bs ! 2 * 256 + bs ! 3], ellipsis, []))
      else
        let gs = gs @ [hexGroupVal digits] in
        case rest of
          [] \<Rightarrow> Some (gs, ellipsis, [])
        | c # s1 \<Rightarrow>
            if c \<noteq> CHR '':'' \<or> s1 = [] then None
            else if hd s1 = CHR '':'' then
              (if ellipsis \<noteq> None then None
               else if tl s1 = [] then Some (gs, Some (length gs), [])
               else parseGroups n (tl s1) gs (Some (length gs)))
            else parseGroups n s1 gs ellipsis)"

definition expandGroups :: "nat list \<times> nat option \<times> string \<Rightarrow> nat list option" where
  "expandGroups r =
     (case r of (gs, ellipsis, s) \<Rightarrow>
        if s \<noteq> [] then None
        else if length gs < 8 then
          (case ellipsis of None \<Rightarrow> None | Some e \<Rightarrow> Some (take e gs @ replicate (8 - length gs) 0 @ drop e gs))
        else if ellipsis \<noteq> None then None else Some gs)"

definition parse6 :: "string \<Rightarrow> nat list option" where
  "parse6 s =
     (if HasPrefix s ''::'' then
        (if length s = 2 then Some (replicate 8 0)
         else case parseGroups 8 (drop 2 s) [] (Some 0) of None \<Rightarrow> None | Some r \<Rightarrow> expandGroups r)
      else case parseGroups 8 s [] None of None \<Rightarrow> None | Some r \<Rightarrow> expandGroups r)"

definition parseIPv6 :: "string \<Rightarrow> Addr option" where
  "parseIPv6 s =
     (case IndexByte s CHR ''%'' of
        None \<Rightarrow> map_option (\<lambda>gs. Addr6 (ofGroups gs) []) (parse6 s)
      | Some i \<Rightarrow>
          if drop (i + 1) s = [] then None
          else map_option (\<lambda>gs. Addr6 (ofGroups gs) (drop (i + 1) s)) (parse6 (take i s)))"

definition ParseAddr :: "string \<Rightarrow> Addr option" where
  "ParseAddr s =
     (case IndexAny s ''.:%'' of
        None \<Rightarrow> None
      | Some i \<Rightarrow>
          if s ! i = CHR ''.'' then map_option (\<lambda>bs. Addr4 (ofOctets bs)) (parseIPv4Fields s)
          else if s ! i = CHR '':'' then parseIPv6 s
          else None)"

text \<open>
  Printing an address of 16 bytes: the first of the longest runs of at least two zero groups is the \<open>::\<close>.
\<close>

definition zeroRun :: "nat list \<Rightarrow> nat \<Rightarrow> nat" where
  "zeroRun gs i = length (takeWhile (\<lambda>g. g = 0) (drop i gs))"

definition zerosStep :: "nat list \<Rightarrow> nat \<Rightarrow> (nat \<times> nat) option \<Rightarrow> (nat \<times> nat) option" where
  "zerosStep gs i best =
     (let l = zeroRun gs i; len = (case best of None \<Rightarrow> 0 | Some (zeroStart, zeroEnd) \<Rightarrow> zeroEnd - zeroStart) in
      if l \<ge> 2 \<and> l > len then Some (i, i + l) else best)"

definition longestZeros :: "nat list \<Rightarrow> (nat \<times> nat) option" where
  "longestZeros gs = fold (zerosStep gs) [0..<8] None"

definition show6 :: "nat list \<Rightarrow> string" where
  "show6 gs =
     (case longestZeros gs of
        None \<Rightarrow> intersperse '':'' (map show_hex gs)
      | Some (zeroStart, zeroEnd) \<Rightarrow>
          intersperse '':'' (map show_hex (take zeroStart gs)) @ ''::'' @ intersperse '':'' (map show_hex (drop zeroEnd gs)))"

fun AddrString :: "Addr \<Rightarrow> string" where
  "AddrString (Addr4 w) = show4 w"
| "AddrString (Addr6 w z) =
     (if drop_bit 32 w = 0xffff then ''::ffff:'' @ show4 (ucast w) else show6 (groups w)) @
     (if z = [] then [] else CHR ''%'' # z)"

definition PrefixString :: "Prefix \<Rightarrow> string" where
  "PrefixString p = AddrString (p_Addr p) @ ''/'' @ show_nat (p_Bits p)"

text \<open>\<open>ParsePrefix\<close> splits at the last slash, refuses a zone, and a length with a sign or a leading zero.\<close>

definition lastIndex :: "char \<Rightarrow> string \<Rightarrow> nat option" where
  "lastIndex c s = map_option (\<lambda>i. length s - Suc i) (IndexByte (rev s) c)"

definition ParsePrefix :: "string \<Rightarrow> Prefix option" where
  "ParsePrefix s =
     (case lastIndex CHR ''/'' s of
        None \<Rightarrow> None
      | Some i \<Rightarrow>
          (case ParseAddr (take i s) of
             None \<Rightarrow> None
           | Some a \<Rightarrow>
               let bits = drop (i + 1) s in
               if (case a of Addr4 w \<Rightarrow> False | Addr6 w z \<Rightarrow> z \<noteq> []) then None
               else if length bits > 1 \<and> \<not> (is_digit (hd bits) \<and> hd bits \<noteq> CHR ''0'') then None
               else case Atoi bits of
                   Inl e \<Rightarrow> None
                 | Inr n \<Rightarrow> if n < 0 \<or> n > (if Is6 a then 128 else 32) then None else Some \<lparr>p_Addr = a, p_Bits = nat n\<rparr>))"

section \<open>Host and port\<close>

definition SplitHostPort :: "string \<Rightarrow> (string \<times> string) option" where
  "SplitHostPort hostport =
     (case lastIndex CHR '':'' hostport of
        None \<Rightarrow> None
      | Some i \<Rightarrow>
          if hd hostport = CHR ''['' then
            (case IndexByte hostport CHR '']'' of
               None \<Rightarrow> None
             | Some e \<Rightarrow>
                 if e + 1 = length hostport \<or> e + 1 \<noteq> i then None
                 else if IndexByte (drop 1 hostport) CHR ''['' \<noteq> None \<or> IndexByte (drop (e + 1) hostport) CHR '']'' \<noteq> None then None
                 else Some (take (e - 1) (drop 1 hostport), drop (i + 1) hostport))
          else if IndexByte (take i hostport) CHR '':'' \<noteq> None then None
          else if IndexByte hostport CHR ''['' \<noteq> None \<or> IndexByte hostport CHR '']'' \<noteq> None then None
          else Some (take i hostport, drop (i + 1) hostport))"

end
