(* ===== verification/RateLimits.thy ===== *)
theory RateLimits
  imports Netip "HOL-Library.Signed_Division"
begin

text \<open>
  The limits on clients of the server: connections and connection attempts of websocket clients and the rate of
  messages on a connection (\<open>src/server/websocket_rate_limiter.go\<close>), and the rate, concurrency and temporary blocks
  of clients of the REST interface (\<open>src/server/rest_rate_limiter.go\<close>).

  Times are nanoseconds, durations are nanoseconds of 64 bits, and the clock is an argument. The locks make the
  operations atomic. Floating point arithmetic of the token bucket is a parameter.
\<close>

section \<open>Times\<close>

text \<open>The zero value of \<open>time.Time\<close>, the first of January of the year 1, in nanoseconds from 1970.\<close>

definition zeroTime :: int where
  "zeroTime = - 62135596800000000000"

definition second :: int where
  "second = 1000000000"

definition minute :: int where
  "minute = 60 * second"

text \<open>\<open>Time.Sub\<close> saturates.\<close>

definition timeSub :: "int \<Rightarrow> int \<Rightarrow> int" where
  "timeSub t u = max (- (2 ^ 63)) (min (2 ^ 63 - 1) (t - u))"

fun trimTimes :: "int list \<Rightarrow> int \<Rightarrow> int list" where
  "trimTimes [] cutoff = []"
| "trimTimes (t # ts) cutoff = (if t < cutoff then trimTimes ts cutoff else t # ts)"

section \<open>Connections of websocket clients\<close>

definition defaultWsMaxConnectionAttemptsPerIP :: int where
  "defaultWsMaxConnectionAttemptsPerIP = 64"

definition defaultWsMaxConnectionsPerIP :: int where
  "defaultWsMaxConnectionsPerIP = 128"

definition websocketConnectionAttemptWindow :: int where
  "websocketConnectionAttemptWindow = minute"

definition websocketConnectionLimiterTTL :: int where
  "websocketConnectionLimiterTTL = 10 * minute"

definition websocketConnectionLimiterCleanupInterval :: int where
  "websocketConnectionLimiterCleanupInterval = minute"

record websocketClientLimit =
  wc_active :: int
  wc_attempts :: "int list"
  wc_lastSeen :: int

record websocketConnectionLimiter =
  wl_clients :: "(string \<times> websocketClientLimit) list"
  wl_lastCleanup :: int
  wl_maxConnections :: int
  wl_maxAttempts :: int

definition newWebsocketConnectionLimiter :: "int \<Rightarrow> int \<Rightarrow> websocketConnectionLimiter" where
  "newWebsocketConnectionLimiter maxConnections maxAttempts =
     \<lparr>wl_clients = [], wl_lastCleanup = zeroTime, wl_maxConnections = maxConnections, wl_maxAttempts = maxAttempts\<rparr>"

definition trimAttempts :: "int \<Rightarrow> websocketClientLimit \<Rightarrow> websocketClientLimit" where
  "trimAttempts now client =
     client\<lparr>wc_attempts := trimTimes (wc_attempts client) (now - websocketConnectionAttemptWindow)\<rparr>"

definition wl_sweepLocked :: "int \<Rightarrow> websocketConnectionLimiter \<Rightarrow> websocketConnectionLimiter" where
  "wl_sweepLocked now l =
     l\<lparr>wl_lastCleanup := now,
       wl_clients := filter (\<lambda>(ip, client).
           \<not> (wc_active client = 0 \<and> timeSub now (wc_lastSeen client) > websocketConnectionLimiterTTL))
         (map (\<lambda>(ip, client). (ip, trimAttempts now client)) (wl_clients l))\<rparr>"

definition wl_cleanupLocked :: "int \<Rightarrow> websocketConnectionLimiter \<Rightarrow> websocketConnectionLimiter" where
  "wl_cleanupLocked now l =
     (if wl_lastCleanup l \<noteq> zeroTime \<and> timeSub now (wl_lastCleanup l) < websocketConnectionLimiterCleanupInterval
      then l else wl_sweepLocked now l)"

definition wl_accept :: "string \<Rightarrow> int \<Rightarrow> websocketConnectionLimiter \<Rightarrow> (bool \<times> string) \<times> websocketConnectionLimiter" where
  "wl_accept ip now l =
     (let l = wl_cleanupLocked now l;
          client = (case map_of (wl_clients l) ip of
                      None \<Rightarrow> \<lparr>wc_active = 0, wc_attempts = [], wc_lastSeen = zeroTime\<rparr>
                    | Some client \<Rightarrow> client);
          client = trimAttempts now (client\<lparr>wc_lastSeen := now\<rparr>);
          put = (\<lambda>client. l\<lparr>wl_clients := AList.update ip client (wl_clients l)\<rparr>) in
      if wl_maxConnections l > 0 \<and> wc_active client \<ge> wl_maxConnections l
      then ((False, ''connection_limit''), put client)
      else if wl_maxAttempts l > 0 \<and> int (length (wc_attempts client)) \<ge> wl_maxAttempts l
      then ((False, ''connection_attempt_limit''), put client)
      else
        ((True, []), put (client\<lparr>wc_attempts := wc_attempts client @ [now], wc_active := wc_active client + 1\<rparr>)))"

definition wl_release :: "string \<Rightarrow> int \<Rightarrow> websocketConnectionLimiter \<Rightarrow> websocketConnectionLimiter" where
  "wl_release ip now l =
     (case map_of (wl_clients l) ip of
        None \<Rightarrow> l
      | Some client \<Rightarrow>
          let client = (if wc_active client > 0 then client\<lparr>wc_active := wc_active client - 1\<rparr> else client) in
          wl_cleanupLocked now
            (l\<lparr>wl_clients := AList.update ip (client\<lparr>wc_lastSeen := now\<rparr>) (wl_clients l)\<rparr>))"

definition wl_sweep :: "int \<Rightarrow> websocketConnectionLimiter \<Rightarrow> websocketConnectionLimiter" where
  "wl_sweep now l = wl_sweepLocked now l"

definition wl_stats :: "websocketConnectionLimiter \<Rightarrow> int \<times> int" where
  "wl_stats l =
     fold (\<lambda>(ip, client) (uniqueActiveIPs, maxConnectionsPerIP).
       if wc_active client \<le> 0 then (uniqueActiveIPs, maxConnectionsPerIP)
       else (uniqueActiveIPs + 1,
             if wc_active client > maxConnectionsPerIP then wc_active client else maxConnectionsPerIP))
       (wl_clients l) (0, 0)"

section \<open>The rate of messages on a connection\<close>

definition messageRateWindowBuckets :: int where
  "messageRateWindowBuckets = 60"

record connMessageRate =
  mr_bucketDur :: int
  mr_counts :: "int list"
  mr_total :: int
  mr_lastBucket :: int
  mr_inited :: bool

definition newConnMessageRate :: "int \<Rightarrow> connMessageRate" where
  "newConnMessageRate window =
     (let bucketDur = window sdiv messageRateWindowBuckets; bucketDur = (if bucketDur \<le> 0 then 1 else bucketDur) in
      \<lparr>mr_bucketDur = bucketDur, mr_counts = replicate 60 0, mr_total = 0, mr_lastBucket = 0, mr_inited = False\<rparr>)"

text \<open>One step of the loop that clears the buckets; a negative slot is outside of the array.\<close>

definition clearSlot :: "int \<Rightarrow> connMessageRate \<Rightarrow> connMessageRate option" where
  "clearSlot i m =
     (let slot = (mr_lastBucket m + i) smod messageRateWindowBuckets in do {
        c \<leftarrow> index (mr_counts m) slot;
        Some (m\<lparr>mr_total := int32 (mr_total m - c), mr_counts := (mr_counts m)[nat slot := 0]\<rparr>)
      })"

fun clearSlots :: "nat \<Rightarrow> int \<Rightarrow> connMessageRate \<Rightarrow> connMessageRate option" where
  "clearSlots 0 i m = Some m"
| "clearSlots (Suc n) i m = do { m \<leftarrow> clearSlot i m; clearSlots n (i + 1) m }"

definition advanceTo :: "int \<Rightarrow> connMessageRate \<Rightarrow> connMessageRate option" where
  "advanceTo idx m =
     (let advance = idx - mr_lastBucket m in
      if advance > 0 then do {
        m \<leftarrow> clearSlots (nat (if advance > messageRateWindowBuckets then messageRateWindowBuckets else advance)) 1 m;
        Some (m\<lparr>mr_lastBucket := idx\<rparr>)
      } else Some m)"

definition observe :: "int \<Rightarrow> connMessageRate \<Rightarrow> (int \<times> connMessageRate) option" where
  "observe now m =
     (let idx = now sdiv mr_bucketDur m;
          m = (if mr_inited m then m else m\<lparr>mr_inited := True, mr_lastBucket := idx\<rparr>);
          idx = (if idx < mr_lastBucket m then mr_lastBucket m else idx) in do {
        m \<leftarrow> advanceTo idx m;
        let slot = idx smod messageRateWindowBuckets;
        c \<leftarrow> index (mr_counts m) slot;
        let m = m\<lparr>mr_counts := (mr_counts m)[nat slot := int32 (c + 1)], mr_total := int32 (mr_total m + 1)\<rparr>;
        Some (mr_total m, m)
      })"

section \<open>Floating point numbers\<close>

text \<open>
  The operations on \<open>float64\<close> the token bucket uses, as a parameter: conversion from and to integers, arithmetic,
  comparison, \<open>math.Min\<close> and \<open>math.Ceil\<close>.
\<close>

record 'f float64 =
  fl_ofInt :: "int \<Rightarrow> 'f"
  fl_toInt :: "'f \<Rightarrow> int"
  fl_add :: "'f \<Rightarrow> 'f \<Rightarrow> 'f"
  fl_sub :: "'f \<Rightarrow> 'f \<Rightarrow> 'f"
  fl_mul :: "'f \<Rightarrow> 'f \<Rightarrow> 'f"
  fl_div :: "'f \<Rightarrow> 'f \<Rightarrow> 'f"
  fl_le :: "'f \<Rightarrow> 'f \<Rightarrow> bool"
  fl_min :: "'f \<Rightarrow> 'f \<Rightarrow> 'f"
  fl_ceil :: "'f \<Rightarrow> 'f"

text \<open>\<open>Duration.Seconds\<close>: the whole seconds plus the nanoseconds divided by a billion.\<close>

definition Seconds :: "'f float64 \<Rightarrow> int \<Rightarrow> 'f" where
  "Seconds fl d =
     fl_add fl (fl_ofInt fl (d sdiv second)) (fl_div fl (fl_ofInt fl (d smod second)) (fl_ofInt fl 1000000000))"

section \<open>Requests of the REST interface\<close>

definition restUILimiterCleanupInterval :: int where
  "restUILimiterCleanupInterval = minute"

definition restUIBreachWindow :: int where
  "restUIBreachWindow = 10 * minute"

definition restUIBreachBlockThreshold :: int where
  "restUIBreachBlockThreshold = 3"

definition restUIBreachMinSpacing :: int where
  "restUIBreachMinSpacing = 10 * second"

definition restUIMaxTrackedClients :: int where
  "restUIMaxTrackedClients = 100000"

definition restUIRejectRequestRate :: string where
  "restUIRejectRequestRate = ''request_rate''"

definition restUIRejectConcurrentRequests :: string where
  "restUIRejectConcurrentRequests = ''concurrent_requests''"

definition restUIRejectIPBlocked :: string where
  "restUIRejectIPBlocked = ''ip_blocked''"

record 'f restUITokenBucket =
  tb_tokens :: 'f
  tb_lastRefill :: int

record 'f restUIClientLimit =
  rc_active :: int
  rc_bucket :: "'f restUITokenBucket"
  rc_breaches :: "int list"
  rc_blockedUntil :: int
  rc_blockRejected :: int
  rc_lastSeen :: int
  rc_lastRejectLog :: int
  rc_lastRejectKind :: string

record 'f restUIRateLimiter =
  rl_clients :: "(string \<times> 'f restUIClientLimit) list"
  rl_lastCleanup :: int
  rl_capWarned :: bool
  rl_rateLimit :: int
  rl_rateWindow :: int
  rl_burst :: int
  rl_maxConcurrent :: int
  rl_stateTTL :: int
  rl_blockDuration :: int
  rl_trustedProxies :: "Prefix list"
  rl_cloudflarePrefixes :: "Prefix list"
  rl_trustPseudoIPv6 :: bool
  rl_whitelistPrefixes :: "Prefix list"

record restUILimitDecision =
  rd_accepted :: bool
  rd_untracked :: bool
  rd_reason :: string
  rd_retryAfter :: int
  rd_shouldLog :: bool

definition zeroDecision :: restUILimitDecision where
  "zeroDecision = \<lparr>rd_accepted = False, rd_untracked = False, rd_reason = [], rd_retryAfter = 0, rd_shouldLog = False\<rparr>"

definition zeroClientLimit :: "'f float64 \<Rightarrow> 'f restUIClientLimit" where
  "zeroClientLimit fl =
     \<lparr>rc_active = 0, rc_bucket = \<lparr>tb_tokens = fl_ofInt fl 0, tb_lastRefill = zeroTime\<rparr>, rc_breaches = [],
      rc_blockedUntil = zeroTime, rc_blockRejected = 0, rc_lastSeen = zeroTime, rc_lastRejectLog = zeroTime,
      rc_lastRejectKind = []\<rparr>"

definition allow ::
  "'f float64 \<Rightarrow> int \<Rightarrow> int \<Rightarrow> int \<Rightarrow> int \<Rightarrow> 'f restUITokenBucket \<Rightarrow> (bool \<times> int) \<times> 'f restUITokenBucket" where
  "allow fl now rateLimit rateWindow burst b =
     (if rateLimit \<le> 0 then ((True, 0), b) else
      let b = (if tb_lastRefill b = zeroTime then \<lparr>tb_tokens = fl_ofInt fl burst, tb_lastRefill = now\<rparr> else b);
          now = (if now < tb_lastRefill b then tb_lastRefill b else now);
          ratePerSecond = fl_div fl (fl_ofInt fl rateLimit) (Seconds fl rateWindow);
          tokens = fl_min fl (fl_ofInt fl burst)
            (fl_add fl (tb_tokens b) (fl_mul fl (Seconds fl (timeSub now (tb_lastRefill b))) ratePerSecond));
          b = \<lparr>tb_tokens = tokens, tb_lastRefill = now\<rparr> in
      if fl_le fl (fl_ofInt fl 1) (tb_tokens b)
      then ((True, 0), b\<lparr>tb_tokens := fl_sub fl (tb_tokens b) (fl_ofInt fl 1)\<rparr>)
      else if fl_le fl ratePerSecond (fl_ofInt fl 0) then ((False, rateWindow), b)
      else ((False, fl_toInt fl (fl_ceil fl
              (fl_mul fl (fl_div fl (fl_sub fl (fl_ofInt fl 1) (tb_tokens b)) ratePerSecond) (fl_ofInt fl second)))), b))"

definition shouldLogRejection :: "string \<Rightarrow> int \<Rightarrow> 'f restUIClientLimit \<Rightarrow> bool \<times> 'f restUIClientLimit" where
  "shouldLogRejection reason now client =
     (let shouldLog = (reason \<noteq> rc_lastRejectKind client \<or> timeSub now (rc_lastRejectLog client) \<ge> minute);
          shouldLog = (if reason = restUIRejectIPBlocked \<and>
                          (rc_blockRejected client = 1 \<or> rc_blockRejected client smod 1000 = 0)
                       then True else shouldLog) in
      (shouldLog,
       if shouldLog then client\<lparr>rc_lastRejectKind := reason, rc_lastRejectLog := now\<rparr> else client))"

definition rl_sweepLocked :: "int \<Rightarrow> 'f restUIRateLimiter \<Rightarrow> 'f restUIRateLimiter" where
  "rl_sweepLocked now l =
     (let l = l\<lparr>rl_lastCleanup := now,
                rl_clients := filter (\<lambda>(ipKey, client).
                    \<not> (rc_active client = 0 \<and> \<not> rc_blockedUntil client > now \<and>
                       timeSub now (rc_lastSeen client) > rl_stateTTL l))
                  (map (\<lambda>(ipKey, client).
                     (ipKey, client\<lparr>rc_breaches := trimTimes (rc_breaches client) (now - restUIBreachWindow)\<rparr>))
                   (rl_clients l))\<rparr> in
      if rl_capWarned l \<and> int (length (rl_clients l)) < restUIMaxTrackedClients div 2
      then l\<lparr>rl_capWarned := False\<rparr> else l)"

definition rl_cleanupLocked :: "int \<Rightarrow> 'f restUIRateLimiter \<Rightarrow> 'f restUIRateLimiter" where
  "rl_cleanupLocked now l =
     (if rl_lastCleanup l \<noteq> zeroTime \<and> timeSub now (rl_lastCleanup l) < restUILimiterCleanupInterval
      then l else rl_sweepLocked now l)"

definition rl_put :: "string \<Rightarrow> 'f restUIClientLimit \<Rightarrow> 'f restUIRateLimiter \<Rightarrow> 'f restUIRateLimiter" where
  "rl_put k client l = l\<lparr>rl_clients := AList.update k client (rl_clients l)\<rparr>"

definition countBreach :: "int \<Rightarrow> int \<Rightarrow> 'f restUIClientLimit \<Rightarrow> 'f restUIClientLimit" where
  "countBreach blockDuration now client =
     (let client = client\<lparr>rc_lastSeen := now, rc_breaches := trimTimes (rc_breaches client) (now - restUIBreachWindow)\<rparr> in
      if rc_breaches client \<noteq> [] \<and> timeSub now (last (rc_breaches client)) < restUIBreachMinSpacing then client
      else
        let client = client\<lparr>rc_breaches := rc_breaches client @ [now]\<rparr> in
        if int (length (rc_breaches client)) \<ge> restUIBreachBlockThreshold
        then client\<lparr>rc_blockedUntil := now + blockDuration, rc_blockRejected := 0, rc_breaches := []\<rparr>
        else client)"

definition recordBreachLocked ::
  "'f float64 \<Rightarrow> string \<Rightarrow> bool \<Rightarrow> int \<Rightarrow> 'f restUIRateLimiter \<Rightarrow> 'f restUIRateLimiter" where
  "recordBreachLocked fl blockKey blockable now l =
     (if rl_blockDuration l \<le> 0 \<or> \<not> blockable then l
      else
        case map_of (rl_clients l) blockKey of
          None \<Rightarrow>
            if int (length (rl_clients l)) \<ge> restUIMaxTrackedClients then l
            else rl_put blockKey (countBreach (rl_blockDuration l) now (zeroClientLimit fl)) l
        | Some client \<Rightarrow> rl_put blockKey (countBreach (rl_blockDuration l) now client) l)"

text \<open>
  The pointer to the client of \<open>ipKey\<close> is the entry of the map under that key, which is also the entry of the block
  key where the two keys are equal: the rejection reads it again after the breach is recorded.
\<close>

definition rejectClient ::
  "'f float64 \<Rightarrow> string \<Rightarrow> string \<Rightarrow> bool \<Rightarrow> int \<Rightarrow> string \<Rightarrow> int \<Rightarrow> 'f restUIRateLimiter \<Rightarrow>
   restUILimitDecision \<times> 'f restUIRateLimiter" where
  "rejectClient fl ipKey blockKey blockable now reason retryAfter l =
     (let l = recordBreachLocked fl blockKey blockable now l;
          (shouldLog, client) = shouldLogRejection reason now (the (map_of (rl_clients l) ipKey)) in
      (zeroDecision\<lparr>rd_reason := reason, rd_retryAfter := retryAfter, rd_shouldLog := shouldLog\<rparr>, rl_put ipKey client l))"

definition rl_acceptClient ::
  "'f float64 \<Rightarrow> string \<Rightarrow> string \<Rightarrow> bool \<Rightarrow> int \<Rightarrow> 'f restUIClientLimit \<Rightarrow> 'f restUIRateLimiter \<Rightarrow>
   restUILimitDecision \<times> 'f restUIRateLimiter" where
  "rl_acceptClient fl ipKey blockKey blockable now client l =
     (let client = client\<lparr>rc_lastSeen := now\<rparr> in
      if rl_maxConcurrent l > 0 \<and> rc_active client \<ge> rl_maxConcurrent l
      then rejectClient fl ipKey blockKey blockable now restUIRejectConcurrentRequests 0 (rl_put ipKey client l)
      else
        let ((ok, retryAfter), bucket) =
              (if rl_rateLimit l > 0 then allow fl now (rl_rateLimit l) (rl_rateWindow l) (rl_burst l) (rc_bucket client)
               else ((True, 0), rc_bucket client));
            client = client\<lparr>rc_bucket := bucket\<rparr> in
        if \<not> ok then rejectClient fl ipKey blockKey blockable now restUIRejectRequestRate retryAfter (rl_put ipKey client l)
        else (zeroDecision\<lparr>rd_accepted := True\<rparr>, rl_put ipKey (client\<lparr>rc_active := rc_active client + 1\<rparr>) l))"

definition rl_acceptUnblocked ::
  "'f float64 \<Rightarrow> string \<Rightarrow> string \<Rightarrow> bool \<Rightarrow> int \<Rightarrow> 'f restUIRateLimiter \<Rightarrow> restUILimitDecision \<times> 'f restUIRateLimiter" where
  "rl_acceptUnblocked fl ipKey blockKey blockable now l =
     (case map_of (rl_clients l) ipKey of
        Some client \<Rightarrow> rl_acceptClient fl ipKey blockKey blockable now client l
      | None \<Rightarrow>
          let l = (if int (length (rl_clients l)) \<ge> restUIMaxTrackedClients then rl_sweepLocked now l else l) in
          if int (length (rl_clients l)) \<ge> restUIMaxTrackedClients
          then (zeroDecision\<lparr>rd_accepted := True, rd_untracked := True\<rparr>, l\<lparr>rl_capWarned := True\<rparr>)
          else rl_acceptClient fl ipKey blockKey blockable now (zeroClientLimit fl) l)"

definition rl_accept ::
  "'f float64 \<Rightarrow> string \<Rightarrow> string \<Rightarrow> bool \<Rightarrow> int \<Rightarrow> 'f restUIRateLimiter \<Rightarrow> restUILimitDecision \<times> 'f restUIRateLimiter" where
  "rl_accept fl ipKey blockKey blockable now l =
     (let l = rl_cleanupLocked now l in
      case map_of (rl_clients l) blockKey of
        Some bc \<Rightarrow>
          if rc_blockedUntil bc > now then
            let bc = bc\<lparr>rc_lastSeen := now, rc_blockRejected := rc_blockRejected bc + 1\<rparr>;
                (shouldLog, bc') = shouldLogRejection restUIRejectIPBlocked now bc in
            (zeroDecision\<lparr>rd_reason := restUIRejectIPBlocked, rd_retryAfter := timeSub (rc_blockedUntil bc) now,
                          rd_shouldLog := shouldLog\<rparr>, rl_put blockKey bc' l)
          else rl_acceptUnblocked fl ipKey blockKey blockable now l
      | None \<Rightarrow> rl_acceptUnblocked fl ipKey blockKey blockable now l)"

definition rl_release :: "string \<Rightarrow> int \<Rightarrow> 'f restUIRateLimiter \<Rightarrow> 'f restUIRateLimiter" where
  "rl_release ipKey now l =
     (case map_of (rl_clients l) ipKey of
        None \<Rightarrow> l
      | Some client \<Rightarrow>
          let client = (if rc_active client > 0 then client\<lparr>rc_active := rc_active client - 1\<rparr> else client) in
          rl_cleanupLocked now (rl_put ipKey (client\<lparr>rc_lastSeen := now\<rparr>) l))"

definition rl_sweep :: "int \<Rightarrow> 'f restUIRateLimiter \<Rightarrow> 'f restUIRateLimiter" where
  "rl_sweep now l = rl_sweepLocked now l"

definition rl_stats :: "int \<Rightarrow> 'f restUIRateLimiter \<Rightarrow> int \<times> int \<times> int" where
  "rl_stats now l =
     fold (\<lambda>(k, client) (activeIPs, maxActiveRequestsPerIP, blockedIPs).
       (if rc_active client > 0 then activeIPs + 1 else activeIPs,
        if rc_active client > 0 \<and> rc_active client > maxActiveRequestsPerIP then rc_active client
        else maxActiveRequestsPerIP,
        if rc_blockedUntil client > now then blockedIPs + 1 else blockedIPs))
       (rl_clients l) (0, 0, 0)"

end
