(* ===== verification/RateLimitsLaws.thy ===== *)
theory RateLimitsLaws
  imports RateLimits InternalState Complex_Main
begin

text \<open>
  What the limits of the server promise: the connections of a websocket client, the attempts of a minute and that no
  client is locked out, the message counter as a sliding window, and the bounds, blocks and concurrency of the REST
  limiter.
\<close>

section \<open>Shared lemmas\<close>

lemma timeSub_gt: "- (2 ^ 63) \<le> d \<Longrightarrow> d < 2 ^ 63 - 1 \<Longrightarrow> d < timeSub t u \<longleftrightarrow> d < t - u"
  by (auto simp: timeSub_def)

lemma timeSub_lt: "- (2 ^ 63) < d \<Longrightarrow> d \<le> 2 ^ 63 - 1 \<Longrightarrow> timeSub t u < d \<longleftrightarrow> t - u < d"
  by (auto simp: timeSub_def)

lemma trimTimes_dropWhile: "trimTimes ts cutoff = dropWhile (\<lambda>t. t < cutoff) ts"
  by (induction ts) auto

lemma trimTimes_split: "\<exists>old. ts = old @ trimTimes ts cutoff \<and> (\<forall>t \<in> set old. t < cutoff)"
  by (auto simp: trimTimes_dropWhile intro!: exI [of _ "takeWhile (\<lambda>t. t < cutoff) ts"] dest: set_takeWhileD)

lemma trimTimes_all_old: "(\<forall>t \<in> set ts. t < cutoff) \<Longrightarrow> trimTimes ts cutoff = []"
  by (simp add: trimTimes_dropWhile)

lemma distinct_filter_keys: "distinct (map fst xs) \<Longrightarrow> distinct (map fst (filter P xs))"
  by (simp add: distinct_map_filter)

lemma map_values_keys: "map fst (map (\<lambda>(k, v). (k, f v)) xs) = map fst xs"
  by (induction xs) auto

section \<open>Connections of websocket clients\<close>

lemma wl_sweep_lookup:
  assumes "distinct (map fst (wl_clients l))"
  shows "map_of (wl_clients (wl_sweepLocked now l)) ip =
    (case map_of (wl_clients l) ip of None \<Rightarrow> None
     | Some c \<Rightarrow> if wc_active c = 0 \<and> now - wc_lastSeen c > websocketConnectionLimiterTTL then None
                else Some (trimAttempts now c))"
proof -
  have d: "distinct (map fst (map (\<lambda>(ip, client). (ip, trimAttempts now client)) (wl_clients l)))"
    unfolding map_values_keys by (rule assms)
  have ttl: "websocketConnectionLimiterTTL < timeSub now u \<longleftrightarrow> websocketConnectionLimiterTTL < now - u" for u
    by (rule timeSub_gt) (simp_all add: websocketConnectionLimiterTTL_def minute_def second_def)
  show ?thesis
    using map_of_filter_snd [OF d, of "\<lambda>client. \<not> (wc_active client = 0 \<and> timeSub now (wc_lastSeen client) > websocketConnectionLimiterTTL)" ip]
    by (auto simp: wl_sweepLocked_def map_of_map trimAttempts_def ttl split: option.splits)
qed

lemma wl_sweep_keys:
  "distinct (map fst (wl_clients l)) \<Longrightarrow> distinct (map fst (wl_clients (wl_sweepLocked now l)))"
  unfolding wl_sweepLocked_def by (simp del: map_map add: map_values_keys distinct_filter_keys)

text \<open>
  The runs of the limiter: connections that are accepted or rejected, connections that close, and the sweeps of the
  background ticker, under a clock that does not go back. The run carries how many connections of each client are open
  and when its connections were accepted.
\<close>

inductive wsRun :: "int \<Rightarrow> int \<Rightarrow> websocketConnectionLimiter \<Rightarrow> (string \<Rightarrow> int) \<Rightarrow> (string \<Rightarrow> int list) \<Rightarrow> int \<Rightarrow> bool"
  for maxConnections maxAttempts where
  wsStart: "wsRun maxConnections maxAttempts (newWebsocketConnectionLimiter maxConnections maxAttempts) (\<lambda>_. 0) (\<lambda>_. []) t"
| wsReject: "wsRun maxConnections maxAttempts l opened hist t \<Longrightarrow> t \<le> now \<Longrightarrow> wl_accept ip now l = ((False, reason), l') \<Longrightarrow>
    wsRun maxConnections maxAttempts l' opened hist now"
| wsAccept: "wsRun maxConnections maxAttempts l opened hist t \<Longrightarrow> t \<le> now \<Longrightarrow> wl_accept ip now l = ((True, reason), l') \<Longrightarrow>
    wsRun maxConnections maxAttempts l' (opened(ip := opened ip + 1)) (hist(ip := hist ip @ [now])) now"
| wsClose: "wsRun maxConnections maxAttempts l opened hist t \<Longrightarrow> t \<le> now \<Longrightarrow> 0 < opened ip \<Longrightarrow>
    wsRun maxConnections maxAttempts (wl_release ip now l) (opened(ip := opened ip - 1)) hist now"
| wsSweep: "wsRun maxConnections maxAttempts l opened hist t \<Longrightarrow> t \<le> now \<Longrightarrow>
    wsRun maxConnections maxAttempts (wl_sweep now l) opened hist now"

text \<open>What an entry of the limiter says of a client: its open connections and the times that still count.\<close>

definition entryOk :: "int \<Rightarrow> int \<Rightarrow> int list \<Rightarrow> websocketClientLimit option \<Rightarrow> bool" where
  "entryOk t n hist e \<longleftrightarrow>
     (case e of
        None \<Rightarrow> n = 0 \<and> (\<forall>u \<in> set hist. u < t - websocketConnectionAttemptWindow)
      | Some c \<Rightarrow> wc_active c = n \<and> 0 \<le> n \<and> wc_lastSeen c \<le> t \<and> (\<forall>u \<in> set hist. u \<le> wc_lastSeen c) \<and>
          (\<exists>old. hist = old @ wc_attempts c \<and> (\<forall>u \<in> set old. u < t - websocketConnectionAttemptWindow)))"

lemma entryOk_later: "entryOk t n hist e \<Longrightarrow> t \<le> now \<Longrightarrow> entryOk now n hist e"
  unfolding entryOk_def by (fastforce split: option.splits)

lemma entryOk_trim:
  assumes "entryOk t n hist (Some c)"
  shows "entryOk t n hist (Some (trimAttempts t c))"
proof -
  obtain old where old: "hist = old @ wc_attempts c" "\<forall>u \<in> set old. u < t - websocketConnectionAttemptWindow"
    using assms by (auto simp: entryOk_def)
  obtain old' where old': "wc_attempts c = old' @ wc_attempts (trimAttempts t c)"
    "\<forall>u \<in> set old'. u < t - websocketConnectionAttemptWindow"
    using trimTimes_split [of "wc_attempts c" "t - websocketConnectionAttemptWindow"] by (auto simp: trimAttempts_def)
  have "hist = (old @ old') @ wc_attempts (trimAttempts t c)" using old(1) old'(1) by simp
  moreover have "\<forall>u \<in> set (old @ old'). u < t - websocketConnectionAttemptWindow" using old(2) old'(2) by auto
  ultimately show ?thesis using assms by (auto simp: entryOk_def trimAttempts_def)
qed

lemma entryOk_evict:
  "entryOk t n hist (Some c) \<Longrightarrow> wc_active c = 0 \<Longrightarrow> t - wc_lastSeen c > websocketConnectionLimiterTTL \<Longrightarrow>
   entryOk t n hist None"
  by (fastforce simp: entryOk_def websocketConnectionLimiterTTL_def websocketConnectionAttemptWindow_def minute_def second_def)

text \<open>The invariant of the runs.\<close>

definition limiterOk :: "int \<Rightarrow> int \<Rightarrow> int \<Rightarrow> (string \<Rightarrow> int) \<Rightarrow> (string \<Rightarrow> int list) \<Rightarrow> websocketConnectionLimiter \<Rightarrow> bool" where
  "limiterOk maxConnections maxAttempts t opened hist l \<longleftrightarrow>
     distinct (map fst (wl_clients l)) \<and> wl_maxConnections l = maxConnections \<and> wl_maxAttempts l = maxAttempts \<and>
     (\<forall>ip. entryOk t (opened ip) (hist ip) (map_of (wl_clients l) ip))"

lemma limiterOk_later: "limiterOk mc ma t opened hist l \<Longrightarrow> t \<le> now \<Longrightarrow> limiterOk mc ma now opened hist l"
  by (auto simp: limiterOk_def intro: entryOk_later)

lemma limiterOk_sweep:
  assumes "limiterOk mc ma now opened hist l"
  shows "limiterOk mc ma now opened hist (wl_sweepLocked now l)"
proof -
  have d: "distinct (map fst (wl_clients l))" using assms by (simp add: limiterOk_def)
  have "entryOk now (opened ip) (hist ip) (map_of (wl_clients (wl_sweepLocked now l)) ip)" for ip
  proof -
    have e: "entryOk now (opened ip) (hist ip) (map_of (wl_clients l) ip)" using assms by (simp add: limiterOk_def)
    show ?thesis
      using e wl_sweep_lookup [OF d, of now ip]
      by (cases "map_of (wl_clients l) ip") (auto simp del: map_of_eq_Some_iff intro: entryOk_trim entryOk_evict)
  qed
  then show ?thesis using assms by (simp add: limiterOk_def wl_sweep_keys) (simp add: wl_sweepLocked_def)
qed

lemma limiterOk_cleanup:
  "limiterOk mc ma now opened hist l \<Longrightarrow> limiterOk mc ma now opened hist (wl_cleanupLocked now l)"
  by (simp add: wl_cleanupLocked_def limiterOk_sweep)

lemma limiterOk_put:
  assumes "limiterOk mc ma t opened hist l" and "entryOk t n ts (Some c)"
  shows "limiterOk mc ma t (opened(ip := n)) (hist(ip := ts)) (l\<lparr>wl_clients := AList.update ip c (wl_clients l)\<rparr>)"
  using assms by (auto simp: limiterOk_def map_of_update distinct_update)

lemma entryOk_fresh: "entryOk t n hist None \<Longrightarrow> c = \<lparr>wc_active = 0, wc_attempts = [], wc_lastSeen = t\<rparr> \<Longrightarrow> entryOk t n hist (Some c)"
  by (fastforce simp: entryOk_def websocketConnectionAttemptWindow_def minute_def second_def)

lemma entryOk_seen: "entryOk t n hist (Some c) \<Longrightarrow> entryOk t n hist (Some (c\<lparr>wc_lastSeen := t\<rparr>))"
  by (fastforce simp: entryOk_def)

text \<open>What \<open>accept\<close> decides, in terms of the client after its old attempts are dropped.\<close>

lemma wl_accept_entry:
  assumes "limiterOk mc ma now opened hist l" and "wl_accept ip now l = ((ok, reason), l')"
  obtains l1 c ts where
    "limiterOk mc ma now opened hist l1" "entryOk now (opened ip) (hist ip) (Some c)"
    "wc_lastSeen c = now" "wc_attempts c = trimTimes ts (now - websocketConnectionAttemptWindow)" "set ts \<subseteq> set (hist ip)"
    "ok \<longleftrightarrow> \<not> (mc > 0 \<and> opened ip \<ge> mc) \<and> \<not> (ma > 0 \<and> int (length (wc_attempts c)) \<ge> ma)"
    "ok \<longrightarrow> reason = []"
    "l' = l1\<lparr>wl_clients := AList.update ip
       (if ok then c\<lparr>wc_attempts := wc_attempts c @ [now], wc_active := wc_active c + 1\<rparr> else c) (wl_clients l1)\<rparr>"
proof -
  define l1 where "l1 = wl_cleanupLocked now l"
  define c0 where "c0 = (case map_of (wl_clients l1) ip of None \<Rightarrow> \<lparr>wc_active = 0, wc_attempts = [], wc_lastSeen = zeroTime\<rparr>
                       | Some client \<Rightarrow> client)"
  define c where "c = trimAttempts now (c0\<lparr>wc_lastSeen := now\<rparr>)"
  have l1: "limiterOk mc ma now opened hist l1" unfolding l1_def by (rule limiterOk_cleanup [OF assms(1)])
  then have e: "entryOk now (opened ip) (hist ip) (map_of (wl_clients l1) ip)" by (simp add: limiterOk_def)
  have seen: "entryOk now (opened ip) (hist ip) (Some (c0\<lparr>wc_lastSeen := now\<rparr>))"
    using e by (cases "map_of (wl_clients l1) ip") (auto simp: c0_def simp del: map_of_eq_Some_iff intro: entryOk_seen entryOk_fresh)
  then have ok: "entryOk now (opened ip) (hist ip) (Some c)" unfolding c_def by (rule entryOk_trim)
  have sub: "set (wc_attempts c0) \<subseteq> set (hist ip)" using seen by (auto simp: entryOk_def)
  have act: "wc_active c = opened ip" using ok by (simp add: entryOk_def)
  have lim: "wl_maxConnections l1 = mc" "wl_maxAttempts l1 = ma" using l1 by (simp_all add: limiterOk_def)
  have "wl_accept ip now l =
    (let put = (\<lambda>client. l1\<lparr>wl_clients := AList.update ip client (wl_clients l1)\<rparr>) in
      if mc > 0 \<and> opened ip \<ge> mc then ((False, ''connection_limit''), put c)
      else if ma > 0 \<and> int (length (wc_attempts c)) \<ge> ma then ((False, ''connection_attempt_limit''), put c)
      else ((True, []), put (c\<lparr>wc_attempts := wc_attempts c @ [now], wc_active := wc_active c + 1\<rparr>)))"
    unfolding wl_accept_def l1_def [symmetric] Let_def c0_def [symmetric] c_def [symmetric] lim act ..
  then show ?thesis
    using assms(2) by (intro that [OF l1 ok _ _ sub]) (auto simp: Let_def c_def trimAttempts_def split: if_splits)
qed

lemma entryOk_accept:
  assumes "entryOk now n hist (Some c)" "wc_lastSeen c = now"
  shows "entryOk now (n + 1) (hist @ [now]) (Some (c\<lparr>wc_attempts := wc_attempts c @ [now], wc_active := wc_active c + 1\<rparr>))"
  using assms by (fastforce simp: entryOk_def)

lemma limiterOk_accept:
  assumes "limiterOk mc ma now opened hist l" and "wl_accept ip now l = ((ok, reason), l')"
  shows "limiterOk mc ma now (if ok then opened(ip := opened ip + 1) else opened)
    (if ok then hist(ip := hist ip @ [now]) else hist) l'"
proof -
  obtain l1 c where l1: "limiterOk mc ma now opened hist l1" and c: "entryOk now (opened ip) (hist ip) (Some c)"
    and seen: "wc_lastSeen c = now"
    and l': "l' = l1\<lparr>wl_clients := AList.update ip
       (if ok then c\<lparr>wc_attempts := wc_attempts c @ [now], wc_active := wc_active c + 1\<rparr> else c) (wl_clients l1)\<rparr>"
    by (rule wl_accept_entry [OF assms]) blast
  show ?thesis
    using limiterOk_put [OF l1 c, of ip] limiterOk_put [OF l1 entryOk_accept [OF c seen], of ip] by (simp add: l')
qed

lemma limiterOk_release:
  assumes "limiterOk mc ma now opened hist l" and "0 < opened ip"
  shows "limiterOk mc ma now (opened(ip := opened ip - 1)) hist (wl_release ip now l)"
proof -
  have e: "entryOk now (opened ip) (hist ip) (map_of (wl_clients l) ip)" using assms(1) by (simp add: limiterOk_def)
  then obtain c where c: "map_of (wl_clients l) ip = Some c" "wc_active c = opened ip"
    using assms(2) by (cases "map_of (wl_clients l) ip") (auto simp: entryOk_def simp del: map_of_eq_Some_iff)
  have "entryOk now (opened ip - 1) (hist ip) (Some (c\<lparr>wc_active := wc_active c - 1, wc_lastSeen := now\<rparr>))"
    using e c(1) assms(2) by (fastforce simp: entryOk_def)
  from limiterOk_cleanup [OF limiterOk_put [OF assms(1) this, of ip]] show ?thesis
    using assms(2) by (simp add: wl_release_def c Let_def)
qed

lemma wsRun_limiterOk: "wsRun mc ma l opened hist t \<Longrightarrow> limiterOk mc ma t opened hist l"
proof (induction rule: wsRun.induct)
  case (wsStart t)
  then show ?case by (simp add: limiterOk_def newWebsocketConnectionLimiter_def entryOk_def)
next
  case (wsReject l opened hist t now ip reason l')
  then show ?case using limiterOk_accept [OF limiterOk_later [OF wsReject.IH wsReject.hyps(2)] wsReject.hyps(3)] by simp
next
  case (wsAccept l opened hist t now ip reason l')
  then show ?case using limiterOk_accept [OF limiterOk_later [OF wsAccept.IH wsAccept.hyps(2)] wsAccept.hyps(3)] by (simp add: fun_upd_def)
next
  case (wsClose l opened hist t now ip)
  then show ?case using limiterOk_release [OF limiterOk_later [OF wsClose.IH wsClose.hyps(2)]] by blast
next
  case (wsSweep l opened hist t now)
  then show ?case unfolding wl_sweep_def using limiterOk_sweep limiterOk_later by blast
qed

lemma entryOk_recent:
  assumes "entryOk now n hist (Some c)"
  shows "length (filter (\<lambda>u. now - websocketConnectionAttemptWindow \<le> u) hist) \<le> length (wc_attempts c)"
proof -
  obtain old where old: "hist = old @ wc_attempts c" "\<forall>u \<in> set old. u < now - websocketConnectionAttemptWindow"
    using assms by (auto simp: entryOk_def)
  have "filter (\<lambda>u. now - websocketConnectionAttemptWindow \<le> u) old = []" using old(2) by (auto simp: filter_empty_conv)
  then show ?thesis by (simp add: old(1))
qed

lemma wsRun_bounds:
  assumes "wsRun mc ma l opened hist t"
  shows "0 \<le> opened ip \<and> (0 < mc \<longrightarrow> opened ip \<le> mc) \<and>
    (0 < ma \<longrightarrow> int (length (filter (\<lambda>u. a \<le> u \<and> u \<le> a + websocketConnectionAttemptWindow) (hist ip))) \<le> ma)"
  using assms
proof (induction arbitrary: ip rule: wsRun.induct)
  case (wsAccept l opened hist t now ip' reason l')
  obtain l1 c where c: "entryOk now (opened ip') (hist ip') (Some c)"
    and ok: "True \<longleftrightarrow> \<not> (mc > 0 \<and> opened ip' \<ge> mc) \<and> \<not> (ma > 0 \<and> int (length (wc_attempts c)) \<ge> ma)"
    by (rule wl_accept_entry [OF limiterOk_later [OF wsRun_limiterOk [OF wsAccept.hyps(1)] wsAccept.hyps(2)] wsAccept.hyps(3)])
  let ?in = "\<lambda>u. a \<le> u \<and> u \<le> a + websocketConnectionAttemptWindow"
  have "length (filter ?in (hist ip')) \<le> length (filter (\<lambda>u. now - websocketConnectionAttemptWindow \<le> u) (hist ip'))"
    if "?in now"
  proof -
    have "filter ?in (hist ip') = filter ?in (filter (\<lambda>u. now - websocketConnectionAttemptWindow \<le> u) (hist ip'))"
      using that by (auto simp: filter_filter intro!: filter_cong)
    then show ?thesis using length_filter_le by metis
  qed
  then have "?in now \<Longrightarrow> 0 < ma \<Longrightarrow> int (length (filter ?in (hist ip'))) + 1 \<le> ma"
    using entryOk_recent [OF c] ok by force
  then show ?case using wsAccept.IH [of ip] wsAccept.IH [of ip'] ok by auto
next
  case (wsClose l opened hist t now ip')
  show ?case using wsClose.IH [of ip] wsClose.IH [of ip'] wsClose.hyps(3) by auto
qed simp_all

text \<open>C30: Limits of websocket connections. On every run of the limiter (connections accepted, rejected and closed and
  sweeps, in any order, under a clock that does not go back) the count the limiter keeps for a client is the number of
  its open connections, a client without an entry has none, no client has more than the configured number of open
  connections, and in no interval of a minute more connections of a client are accepted than the configured number of
  attempts.
\<close>

theorem websocket_limits:
  assumes "wsRun maxConnections maxAttempts l opened hist t"
  shows "(case map_of (wl_clients l) ip of None \<Rightarrow> 0 | Some c \<Rightarrow> wc_active c) = opened ip \<and>
    (0 < maxConnections \<longrightarrow> opened ip \<le> maxConnections) \<and>
    (0 < maxAttempts \<longrightarrow>
       int (length (filter (\<lambda>u. a \<le> u \<and> u \<le> a + websocketConnectionAttemptWindow) (hist ip))) \<le> maxAttempts)"
proof -
  have "entryOk t (opened ip) (hist ip) (map_of (wl_clients l) ip)"
    using wsRun_limiterOk [OF assms] by (simp add: limiterOk_def)
  then show ?thesis using wsRun_bounds [OF assms] by (auto simp: entryOk_def split: option.splits)
qed

definition demoLimiter :: websocketConnectionLimiter where
  "demoLimiter = snd (wl_accept ''10.0.0.1'' 5 (newWebsocketConnectionLimiter 2 1))"

lemma demoLimiter_run:
  "wsRun 2 1 demoLimiter ((\<lambda>_. 0)(''10.0.0.1'' := 1)) ((\<lambda>_. [])(''10.0.0.1'' := [5])) 5"
proof -
  have "wl_accept ''10.0.0.1'' 5 (newWebsocketConnectionLimiter 2 1) = ((True, []), demoLimiter)"
    by (simp add: demoLimiter_def wl_accept_def newWebsocketConnectionLimiter_def Let_def wl_cleanupLocked_def
        wl_sweepLocked_def trimAttempts_def)
  from wsAccept [OF wsStart [of 2 1 5] _ this] show ?thesis by simp
qed

theorem websocket_limits_witness:
  "(case map_of (wl_clients demoLimiter) ''10.0.0.1'' of None \<Rightarrow> 0 | Some c \<Rightarrow> wc_active c) = 1 \<and>
   (1::int) \<le> 2 \<and> length (filter (\<lambda>u. 0 \<le> u \<and> u \<le> (0::int) + websocketConnectionAttemptWindow) [5]) \<le> 1"
  using websocket_limits [OF demoLimiter_run, of "''10.0.0.1''" 0] by simp

text \<open>C31: No websocket client is locked out. Whatever happened before on a run of the limiter, a client that has fewer
  open connections than the limit and none of whose connections was accepted in the last minute is accepted: neither
  rejected attempts nor the entries of other clients keep it out.
\<close>

theorem websocket_not_locked_out:
  assumes "wsRun maxConnections maxAttempts l opened hist t" and "t \<le> now"
    and "0 < maxConnections \<longrightarrow> opened ip < maxConnections"
    and "\<forall>u \<in> set (hist ip). u + websocketConnectionAttemptWindow < now"
  shows "fst (wl_accept ip now l) = (True, [])"
proof -
  obtain ok reason l' where acc: "wl_accept ip now l = ((ok, reason), l')" by (metis surj_pair)
  show ?thesis
  proof (rule wl_accept_entry [OF limiterOk_later [OF wsRun_limiterOk [OF assms(1)] assms(2)] acc])
    fix c :: websocketClientLimit and ts
    assume c: "wc_attempts c = trimTimes ts (now - websocketConnectionAttemptWindow)" "set ts \<subseteq> set (hist ip)"
      and ok: "ok \<longleftrightarrow> \<not> (maxConnections > 0 \<and> opened ip \<ge> maxConnections) \<and>
        \<not> (maxAttempts > 0 \<and> int (length (wc_attempts c)) \<ge> maxAttempts)" "ok \<longrightarrow> reason = []"
    have "wc_attempts c = []"
      using trimTimes_all_old [of ts "now - websocketConnectionAttemptWindow"] c assms(4) by fastforce
    then show ?thesis using ok assms(3) acc by auto
  qed
qed

theorem websocket_not_locked_out_witness:
  "fst (wl_accept ''10.0.0.1'' (6 + minute) demoLimiter) = (True, [])"
  using websocket_not_locked_out [OF demoLimiter_run, of "6 + minute" "''10.0.0.1''"]
  by (simp add: websocketConnectionAttemptWindow_def minute_def second_def)

section \<open>The rate of messages\<close>

lemma sdiv_nonneg: "0 \<le> a \<Longrightarrow> 0 < b \<Longrightarrow> a sdiv b = a div (b :: int)"
  by (cases "a = 0") (simp_all add: signed_divide_int_def)

lemma smod_nonneg: "0 \<le> a \<Longrightarrow> 0 < b \<Longrightarrow> a smod b = a mod (b :: int)"
  by (cases "a = 0") (simp_all add: signed_modulo_int_def)

text \<open>The messages of the buckets above \<open>lo\<close>, all of them and those of a slot.\<close>

definition above :: "int list \<Rightarrow> int \<Rightarrow> int" where
  "above bs lo = int (length (filter (\<lambda>b. lo < b) bs))"

definition aboveSlot :: "int list \<Rightarrow> int \<Rightarrow> int \<Rightarrow> int" where
  "aboveSlot bs lo s = int (length (filter (\<lambda>b. lo < b \<and> b mod 60 = s) bs))"

text \<open>The ring counts the messages of the buckets above \<open>lo\<close>.\<close>

definition ring :: "connMessageRate \<Rightarrow> int list \<Rightarrow> int \<Rightarrow> bool" where
  "ring m bs lo \<longleftrightarrow>
     length (mr_counts m) = 60 \<and> (\<forall>s < 60. mr_counts m ! s = aboveSlot bs lo (int s)) \<and> mr_total m = above bs lo"

lemma above_bounds: "0 \<le> above bs lo \<and> above bs lo \<le> int (length bs)"
  by (simp add: above_def)

lemma above_step: "above bs lo = above bs (lo + 1) + int (length (filter (\<lambda>b. b = lo + 1) bs))"
  by (induction bs) (auto simp: above_def)

lemma aboveSlot_step:
  assumes "\<forall>b \<in> set bs. b \<le> lo + 60" "0 \<le> s" "s < 60"
  shows "aboveSlot bs lo s = (if s = (lo + 1) mod 60 then int (length (filter (\<lambda>b. b = lo + 1) bs)) else aboveSlot bs (lo + 1) s)"
    and "s = (lo + 1) mod 60 \<Longrightarrow> aboveSlot bs (lo + 1) s = 0"
proof -
  have only: "b = lo + 1" if "b \<in> set bs" "lo < b" "b mod 60 = (lo + 1) mod 60" for b
  proof -
    have "(b - (lo + 1)) mod 60 = 0" using that(3) by (simp add: mod_diff_eq [symmetric])
    moreover have "0 \<le> b - (lo + 1)" "b - (lo + 1) < 60" using that assms(1) by force+
    ultimately show ?thesis by simp
  qed
  show "aboveSlot bs lo s = (if s = (lo + 1) mod 60 then int (length (filter (\<lambda>b. b = lo + 1) bs)) else aboveSlot bs (lo + 1) s)"
  proof (cases "s = (lo + 1) mod 60")
    case True
    then have "filter (\<lambda>b. lo < b \<and> b mod 60 = s) bs = filter (\<lambda>b. b = lo + 1) bs"
      using only by (intro filter_cong) auto
    then show ?thesis using True by (simp add: aboveSlot_def)
  next
    case False
    then have "filter (\<lambda>b. lo < b \<and> b mod 60 = s) bs = filter (\<lambda>b. lo + 1 < b \<and> b mod 60 = s) bs"
      by (intro filter_cong refl) (smt (verit))
    then show ?thesis using False by (simp add: aboveSlot_def)
  qed
  show "s = (lo + 1) mod 60 \<Longrightarrow> aboveSlot bs (lo + 1) s = 0"
    using only by (fastforce simp: aboveSlot_def filter_empty_conv)
qed

lemma int32_count: "0 \<le> n \<Longrightarrow> n < 2 ^ 31 \<Longrightarrow> int32 n = n"
  by (rule int32_id) (simp add: is_int32_def)

lemma clearSlot_ring:
  assumes "ring m bs lo" and "\<forall>b \<in> set bs. b \<le> lo + 60" and "0 \<le> mr_lastBucket m + i"
    and "(mr_lastBucket m + i) mod 60 = (lo + 1) mod 60" and "length bs < 2 ^ 31"
  shows "\<exists>m'. clearSlot i m = Some m' \<and> ring m' bs (lo + 1) \<and>
    mr_lastBucket m' = mr_lastBucket m \<and> mr_bucketDur m' = mr_bucketDur m \<and> mr_inited m' = mr_inited m"
proof -
  let ?s = "(lo + 1) mod 60"
  have s: "0 \<le> ?s" "?s < 60" by simp_all
  have sm: "(mr_lastBucket m + i) smod messageRateWindowBuckets = ?s"
    using assms(3,4) by (simp add: smod_nonneg messageRateWindowBuckets_def)
  have len: "length (mr_counts m) = 60" and cnt: "\<And>k. k < 60 \<Longrightarrow> mr_counts m ! k = aboveSlot bs lo (int k)"
    and tot: "mr_total m = above bs lo" using assms(1) by (simp_all add: ring_def)
  have idx: "index (mr_counts m) ?s = Some (int (length (filter (\<lambda>b. b = lo + 1) bs)))"
    using cnt [of "nat ?s"] aboveSlot_step(1) [OF assms(2) s] s by (simp add: index_def len nat_less_iff)
  have "int32 (mr_total m - int (length (filter (\<lambda>b. b = lo + 1) bs))) = above bs (lo + 1)"
    using above_step [of bs lo] above_bounds [of bs "lo + 1"] assms(5) by (simp add: tot int32_count)
  moreover have "(mr_counts m)[nat ?s := 0] ! k = aboveSlot bs (lo + 1) (int k)" if "k < 60" for k
  proof (cases "int k = ?s")
    case True
    then have "k = nat ?s" by linarith
    then show ?thesis using aboveSlot_step(2) [OF assms(2), of "int k"] True that len by simp
  next
    case False
    then have "k \<noteq> nat ?s" using s(1) by linarith
    then show ?thesis using aboveSlot_step(1) [OF assms(2), of "int k"] False that cnt [OF that] by simp
  qed
  ultimately show ?thesis by (simp add: clearSlot_def sm idx Let_def ring_def len)
qed

lemma clearSlots_ring:
  assumes "ring m bs lo" and "\<forall>b \<in> set bs. b \<le> lo + 60" and "0 \<le> mr_lastBucket m + i"
    and "mr_lastBucket m + i = lo + 61" and "length bs < 2 ^ 31"
  shows "\<exists>m'. clearSlots n i m = Some m' \<and> ring m' bs (lo + int n) \<and>
    mr_lastBucket m' = mr_lastBucket m \<and> mr_bucketDur m' = mr_bucketDur m \<and> mr_inited m' = mr_inited m"
  using assms
proof (induction n arbitrary: i m lo)
  case 0
  then show ?case by simp
next
  case (Suc n)
  have "(mr_lastBucket m + i) mod 60 = (lo + 1) mod 60"
    unfolding Suc.prems(4) using mod_add_self2 [of "lo + 1" 60] by (simp add: add.commute)
  from clearSlot_ring [OF Suc.prems(1-3) this Suc.prems(5)] obtain m1 where m1: "clearSlot i m = Some m1" "ring m1 bs (lo + 1)" "mr_lastBucket m1 = mr_lastBucket m"
    "mr_bucketDur m1 = mr_bucketDur m" "mr_inited m1 = mr_inited m"
    by blast
  have "\<forall>b \<in> set bs. b \<le> (lo + 1) + 60" using Suc.prems(2) by force
  from Suc.IH [OF m1(2) this, of "i + 1"] obtain m' where "clearSlots n (i + 1) m1 = Some m'" "ring m' bs (lo + 1 + int n)"
    "mr_lastBucket m' = mr_lastBucket m" "mr_bucketDur m' = mr_bucketDur m" "mr_inited m' = mr_inited m"
    using Suc.prems(3-5) by (fastforce simp: m1(3-5))
  then show ?case by (simp add: m1(1) algebra_simps)
qed

lemma ring_empty: "ring m bs lo \<Longrightarrow> \<forall>b \<in> set bs. b \<le> lo \<Longrightarrow> lo \<le> lo' \<Longrightarrow> ring m bs lo'"
proof -
  assume r: "ring m bs lo" and le: "\<forall>b \<in> set bs. b \<le> lo" "lo \<le> lo'"
  have "aboveSlot bs lo' s = aboveSlot bs lo s" "above bs lo' = above bs lo" for s
    using le by (auto simp: aboveSlot_def above_def intro!: arg_cong [where f = length] filter_cong)
  then show ?thesis using r by (simp add: ring_def)
qed

text \<open>The state of the counter after messages in the buckets \<open>bs\<close>, none of them later than the last bucket.\<close>

definition rateOk :: "connMessageRate \<Rightarrow> int list \<Rightarrow> bool" where
  "rateOk m bs \<longleftrightarrow>
     0 < mr_bucketDur m \<and> (mr_inited m \<longrightarrow> 0 \<le> mr_lastBucket m) \<and> (\<not> mr_inited m \<longrightarrow> bs = []) \<and>
     (\<forall>b \<in> set bs. b \<le> mr_lastBucket m) \<and> ring m bs (mr_lastBucket m - 60)"

lemma rateOk_new: "rateOk (newConnMessageRate window) []"
  by (simp add: rateOk_def newConnMessageRate_def Let_def ring_def aboveSlot_def above_def)

lemma newConnMessageRate_bucketDur:
  "0 < window \<Longrightarrow> mr_bucketDur (newConnMessageRate window) = max 1 (window div 60)"
  by (simp add: newConnMessageRate_def Let_def messageRateWindowBuckets_def sdiv_nonneg)

text \<open>A message in a bucket that is not before the last one.\<close>

lemma advance_ring:
  assumes "rateOk m bs" "mr_inited m" "mr_lastBucket m \<le> idx" "length bs < 2 ^ 31"
  shows "\<exists>m'. advanceTo idx m = Some m' \<and>
    ring m' bs (idx - 60) \<and> mr_lastBucket m' = idx \<and> mr_bucketDur m' = mr_bucketDur m \<and> mr_inited m'"
proof (cases "idx - mr_lastBucket m > 0")
  case True
  let ?n = "nat (if idx - mr_lastBucket m > messageRateWindowBuckets then messageRateWindowBuckets else idx - mr_lastBucket m)"
  have le: "\<forall>b \<in> set bs. b \<le> mr_lastBucket m - 60 + 60" and r: "ring m bs (mr_lastBucket m - 60)"
    and nn: "0 \<le> mr_lastBucket m + 1" using assms(1,2) by (simp_all add: rateOk_def)
  from clearSlots_ring [OF r le nn _ assms(4), of ?n] obtain m1 where
    m1: "clearSlots ?n 1 m = Some m1" "ring m1 bs (mr_lastBucket m - 60 + int ?n)"
    "mr_bucketDur m1 = mr_bucketDur m" "mr_inited m1 = mr_inited m" by auto
  have "ring m1 bs (idx - 60)"
  proof (cases "idx - mr_lastBucket m > messageRateWindowBuckets")
    case True
    then have "ring m1 bs (mr_lastBucket m)" using m1(2) by (simp add: messageRateWindowBuckets_def)
    then show ?thesis using ring_empty [of m1 bs "mr_lastBucket m" "idx - 60"] le True
      by (simp add: messageRateWindowBuckets_def)
  next
    case False
    then show ?thesis using m1(2) True by simp
  qed
  then show ?thesis using True m1 assms(2) by (simp add: advanceTo_def Let_def ring_def)
next
  case False
  then show ?thesis using assms by (simp add: advanceTo_def Let_def rateOk_def)
qed

lemma ring_message:
  assumes "ring m bs (idx - 60)" "0 \<le> idx" "length bs < 2 ^ 31 - 1"
  shows "index (mr_counts m) (idx mod 60) = Some (aboveSlot bs (idx - 60) (idx mod 60))"
    and "ring (m\<lparr>mr_counts := (mr_counts m)[nat (idx mod 60) := int32 (aboveSlot bs (idx - 60) (idx mod 60) + 1)],
                mr_total := int32 (mr_total m + 1)\<rparr>) (bs @ [idx]) (idx - 60)"
proof -
  have len: "length (mr_counts m) = 60" and cnt: "\<And>k. k < 60 \<Longrightarrow> mr_counts m ! k = aboveSlot bs (idx - 60) (int k)"
    and tot: "mr_total m = above bs (idx - 60)" using assms(1) by (simp_all add: ring_def)
  show "index (mr_counts m) (idx mod 60) = Some (aboveSlot bs (idx - 60) (idx mod 60))"
    using cnt [of "nat (idx mod 60)"] by (simp add: index_def len nat_less_iff)
  have slot: "aboveSlot (bs @ [idx]) (idx - 60) s = (if s = idx mod 60 then aboveSlot bs (idx - 60) s + 1 else aboveSlot bs (idx - 60) s)" for s
    by (simp add: aboveSlot_def)
  have "aboveSlot bs (idx - 60) (idx mod 60) \<le> int (length bs)" "0 \<le> aboveSlot bs (idx - 60) (idx mod 60)"
    by (simp_all add: aboveSlot_def)
  then have c: "int32 (aboveSlot bs (idx - 60) (idx mod 60) + 1) = aboveSlot bs (idx - 60) (idx mod 60) + 1"
    using assms(3) by (intro int32_count) auto
  have t: "int32 (mr_total m + 1) = above (bs @ [idx]) (idx - 60)"
    using above_bounds [of bs "idx - 60"] assms(3) by (simp add: tot int32_count) (simp add: above_def)
  have "(mr_counts m)[nat (idx mod 60) := aboveSlot bs (idx - 60) (idx mod 60) + 1] ! k = aboveSlot (bs @ [idx]) (idx - 60) (int k)"
    if "k < 60" for k
  proof (cases "int k = idx mod 60")
    case True
    then have "k = nat (idx mod 60)" by linarith
    then show ?thesis using True len that by (simp add: slot)
  next
    case False
    then have "k \<noteq> nat (idx mod 60)" by (metis int_nat_eq pos_mod_sign zero_less_numeral)
    then show ?thesis using False cnt [OF that] by (simp add: slot)
  qed
  then show "ring (m\<lparr>mr_counts := (mr_counts m)[nat (idx mod 60) := int32 (aboveSlot bs (idx - 60) (idx mod 60) + 1)],
      mr_total := int32 (mr_total m + 1)\<rparr>) (bs @ [idx]) (idx - 60)"
    by (simp add: ring_def c t len)
qed

text \<open>The bucket a message is counted in: its own, or the last one where the clock went back.\<close>

definition bucketOf :: "int \<Rightarrow> connMessageRate \<Rightarrow> int" where
  "bucketOf now m = (if mr_inited m then max (mr_lastBucket m) (now div mr_bucketDur m) else now div mr_bucketDur m)"

lemma observe_rateOk:
  assumes "rateOk m bs" "0 \<le> now" "length bs < 2 ^ 31 - 1"
  shows "\<exists>m'. observe now m = Some (above (bs @ [bucketOf now m]) (bucketOf now m - 60), m') \<and>
    rateOk m' (bs @ [bucketOf now m]) \<and> mr_inited m' \<and> mr_lastBucket m' = bucketOf now m \<and> mr_bucketDur m' = mr_bucketDur m"
proof -
  have bd: "0 < mr_bucketDur m" using assms(1) by (simp add: rateOk_def)
  define idx where "idx = now div mr_bucketDur m"
  have idx: "now sdiv mr_bucketDur m = idx" "0 \<le> idx"
    using bd assms(2) by (simp_all add: idx_def sdiv_nonneg pos_imp_zdiv_nonneg_iff)
  define m0 where "m0 = (if mr_inited m then m else m\<lparr>mr_inited := True, mr_lastBucket := idx\<rparr>)"
  have m0: "rateOk m0 bs" "mr_inited m0" "mr_bucketDur m0 = mr_bucketDur m"
    using assms(1) idx(2) by (auto simp: m0_def rateOk_def ring_def aboveSlot_def above_def)
  have b: "(if idx < mr_lastBucket m0 then mr_lastBucket m0 else idx) = bucketOf now m" and le: "mr_lastBucket m0 \<le> bucketOf now m"
    by (auto simp: bucketOf_def m0_def idx_def)
  have nn: "0 \<le> bucketOf now m" using m0(1,2) le by (auto simp: rateOk_def)
  have sm: "bucketOf now m smod messageRateWindowBuckets = bucketOf now m mod 60"
    using nn by (simp add: smod_nonneg messageRateWindowBuckets_def)
  have len: "length bs < 2 ^ 31" using assms(3) by simp
  from advance_ring [OF m0(1,2) le len] obtain m1 where m1: "advanceTo (bucketOf now m) m0 = Some m1"
    "ring m1 bs (bucketOf now m - 60)" "mr_lastBucket m1 = bucketOf now m" "mr_bucketDur m1 = mr_bucketDur m0" "mr_inited m1"
    by blast
  note r = ring_message [OF m1(2) nn assms(3)]
  let ?m2 = "m1\<lparr>mr_counts := (mr_counts m1)[nat (bucketOf now m mod 60) :=
      int32 (aboveSlot bs (bucketOf now m - 60) (bucketOf now m mod 60) + 1)], mr_total := int32 (mr_total m1 + 1)\<rparr>"
  have "observe now m = Some (mr_total ?m2, ?m2)"
    unfolding observe_def Let_def idx(1) m0_def [symmetric] b m1(1) sm by (simp add: r(1))
  moreover have "rateOk ?m2 (bs @ [bucketOf now m])"
    using r(2) m0(1,3) le bd nn m1(3-5) by (auto simp: rateOk_def)
  ultimately show ?thesis using r(2) m1(3-5) m0(3) by (auto simp: ring_def)
qed

text \<open>The messages of a connection one after the other.\<close>

fun observeAll :: "int list \<Rightarrow> connMessageRate \<Rightarrow> connMessageRate option" where
  "observeAll [] m = Some m"
| "observeAll (t # ts) m = do { (n, m) \<leftarrow> observe t m; observeAll ts m }"

lemma observeAll_append: "observeAll (ts @ us) m = do { m \<leftarrow> observeAll ts m; observeAll us m }"
proof (induction ts arbitrary: m)
  case (Cons t ts)
  then show ?case by (cases "observe t m") auto
qed simp

lemma observeAll_rateOk:
  assumes "sorted ts" "\<forall>t \<in> set ts. 0 \<le> t" "length ts < 2 ^ 31" "0 < window"
  shows "\<exists>m. observeAll ts (newConnMessageRate window) = Some m \<and> mr_bucketDur m = max 1 (window div 60) \<and>
    rateOk m (map (\<lambda>t. t div mr_bucketDur m) ts) \<and>
    (ts \<noteq> [] \<longrightarrow> mr_inited m \<and> mr_lastBucket m = last ts div mr_bucketDur m)"
  using assms(1-3)
proof (induction ts rule: rev_induct)
  case Nil
  then show ?case using rateOk_new newConnMessageRate_bucketDur [OF assms(4)] by simp
next
  case (snoc t ts)
  then obtain m where m: "observeAll ts (newConnMessageRate window) = Some m" "mr_bucketDur m = max 1 (window div 60)"
    "rateOk m (map (\<lambda>t. t div mr_bucketDur m) ts)" "ts \<noteq> [] \<longrightarrow> mr_inited m \<and> mr_lastBucket m = last ts div mr_bucketDur m"
    by (auto simp: sorted_append)
  have init: "mr_inited m \<longrightarrow> ts \<noteq> []" using m(1) by (auto simp: newConnMessageRate_def Let_def)
  have "last ts \<le> t" if "ts \<noteq> []" using snoc.prems(1) that by (simp add: sorted_append)
  then have b: "bucketOf t m = t div mr_bucketDur m"
    using m(2,4) init by (auto simp: bucketOf_def max_def intro!: antisym zdiv_mono1)
  have t: "0 \<le> t" "length (map (\<lambda>t. t div mr_bucketDur m) ts) < 2 ^ 31 - 1" using snoc.prems(2,3) by simp_all
  from observe_rateOk [OF m(3) t(1) t(2)] show ?case by (auto simp: observeAll_append m(1,2) b)
qed

lemma bucket_near: "0 < d \<Longrightarrow> now - 59 * d \<le> u \<Longrightarrow> now div d - 60 < u div (d :: int)"
proof -
  assume d: "0 < d" and u: "now - 59 * d \<le> u"
  have "(now - 59 * d) div d = now div d - 59" using d div_mult_self2 [of d now "- 59"] by (simp add: mult.commute)
  then show ?thesis using zdiv_mono1 [OF u d] by simp
qed

lemma bucket_far: "0 < d \<Longrightarrow> now div d - 60 < u div d \<Longrightarrow> now - 60 * d < (u :: int)"
proof -
  assume d: "0 < d" and b: "now div d - 60 < u div d"
  have "(now div d - 59) * d \<le> u div d * d" using b d by (intro mult_right_mono) auto
  moreover have "u div d * d \<le> u" using d by (simp add: minus_mod_eq_div_mult [symmetric])
  moreover have "now - d < now div d * d" using d by (simp add: minus_mod_eq_div_mult [symmetric] pos_mod_bound)
  ultimately show ?thesis by (simp add: algebra_simps)
qed

lemma filter_length_mono: "(\<And>x. x \<in> set xs \<Longrightarrow> P x \<Longrightarrow> Q x) \<Longrightarrow> length (filter P xs) \<le> length (filter Q xs)"
  by (induction xs) (auto simp: le_SucI)



section \<open>Requests of the REST interface\<close>

text \<open>The requests in progress the limiter counts for a key, and the end of the block of a key.\<close>

definition rl_active :: "'f restUIRateLimiter \<Rightarrow> string \<Rightarrow> int" where
  "rl_active l k = (case map_of (rl_clients l) k of None \<Rightarrow> 0 | Some c \<Rightarrow> rc_active c)"

definition rl_blocked :: "'f restUIRateLimiter \<Rightarrow> string \<Rightarrow> int \<Rightarrow> bool" where
  "rl_blocked l k until \<longleftrightarrow> (\<exists>c. map_of (rl_clients l) k = Some c \<and> rc_blockedUntil c = until)"

definition rl_ok :: "'f restUIRateLimiter \<Rightarrow> bool" where
  "rl_ok l \<longleftrightarrow> distinct (map fst (rl_clients l)) \<and> int (length (rl_clients l)) \<le> restUIMaxTrackedClients"

lemma length_update_alist:
  "length (AList.update k v xs) = (if map_of xs k = None then Suc (length xs) else length xs)"
  by (induction xs) auto

lemma rl_put_facts:
  "rl_active (rl_put k c l) k' = (if k' = k then rc_active c else rl_active l k')"
  "rl_blocked (rl_put k c l) k' u \<longleftrightarrow> (if k' = k then rc_blockedUntil c = u else rl_blocked l k' u)"
  "map_of (rl_clients (rl_put k c l)) k' = (if k' = k then Some c else map_of (rl_clients l) k')"
  "rl_maxConcurrent (rl_put k c l) = rl_maxConcurrent l"
  by (auto simp: rl_put_def rl_active_def rl_blocked_def map_of_update)

lemma rl_put_ok:
  "rl_ok l \<Longrightarrow> map_of (rl_clients l) k \<noteq> None \<or> int (length (rl_clients l)) < restUIMaxTrackedClients \<Longrightarrow> rl_ok (rl_put k c l)"
  by (auto simp: rl_ok_def rl_put_def distinct_update length_update_alist)

text \<open>Clearing old breaches and dropping idle clients.\<close>

lemma rl_sweep_clients:
  "rl_clients (rl_sweepLocked now l) =
    filter (\<lambda>(ipKey, client). \<not> (rc_active client = 0 \<and> \<not> rc_blockedUntil client > now \<and>
        timeSub now (rc_lastSeen client) > rl_stateTTL l))
      (map (\<lambda>(ipKey, client). (ipKey, client\<lparr>rc_breaches := trimTimes (rc_breaches client) (now - restUIBreachWindow)\<rparr>))
       (rl_clients l))"
  "rl_maxConcurrent (rl_sweepLocked now l) = rl_maxConcurrent l"
  by (simp_all add: rl_sweepLocked_def Let_def)

lemma rl_sweep_lookup:
  assumes "rl_ok l"
  shows "map_of (rl_clients (rl_sweepLocked now l)) k =
    (case map_of (rl_clients l) k of None \<Rightarrow> None
     | Some c \<Rightarrow> if rc_active c = 0 \<and> \<not> rc_blockedUntil c > now \<and> timeSub now (rc_lastSeen c) > rl_stateTTL l then None
                else Some (c\<lparr>rc_breaches := trimTimes (rc_breaches c) (now - restUIBreachWindow)\<rparr>))"
proof -
  let ?m = "map (\<lambda>(ipKey, client). (ipKey, client\<lparr>rc_breaches := trimTimes (rc_breaches client) (now - restUIBreachWindow)\<rparr>)) (rl_clients l)"
  have "distinct (map fst ?m)" unfolding map_values_keys using assms by (simp add: rl_ok_def)
  from map_of_filter_snd [OF this, of "\<lambda>c. \<not> (rc_active c = 0 \<and> \<not> rc_blockedUntil c > now \<and> timeSub now (rc_lastSeen c) > rl_stateTTL l)" k]
  show ?thesis unfolding rl_sweep_clients by (cases "map_of (rl_clients l) k") (simp_all add: map_of_map)
qed

lemma rl_sweep_facts:
  assumes "rl_ok l"
  shows "rl_ok (rl_sweepLocked now l)" "rl_active (rl_sweepLocked now l) k = rl_active l k"
    "rl_blocked l k u \<Longrightarrow> now < u \<Longrightarrow> rl_blocked (rl_sweepLocked now l) k u"
    "rl_blocked (rl_sweepLocked now l) k u \<Longrightarrow> rl_blocked l k u"
proof -
  have "length (rl_clients (rl_sweepLocked now l)) \<le> length (rl_clients l)"
    unfolding rl_sweep_clients by (rule order.trans [OF length_filter_le]) simp
  moreover have "distinct (map fst (rl_clients (rl_sweepLocked now l)))"
    unfolding rl_sweep_clients using assms by (simp add: rl_ok_def distinct_filter_keys map_values_keys del: map_map)
  ultimately show "rl_ok (rl_sweepLocked now l)" using assms by (simp add: rl_ok_def)
  show "rl_active (rl_sweepLocked now l) k = rl_active l k"
    using rl_sweep_lookup [OF assms, of now k] by (cases "map_of (rl_clients l) k") (auto simp: rl_active_def simp del: map_of_eq_Some_iff)
  show "rl_blocked l k u \<Longrightarrow> now < u \<Longrightarrow> rl_blocked (rl_sweepLocked now l) k u"
    using rl_sweep_lookup [OF assms, of now k] by (auto simp: rl_blocked_def simp del: map_of_eq_Some_iff)
  show "rl_blocked (rl_sweepLocked now l) k u \<Longrightarrow> rl_blocked l k u"
    using rl_sweep_lookup [OF assms, of now k]
    by (cases "map_of (rl_clients l) k") (auto simp: rl_blocked_def simp del: map_of_eq_Some_iff split: if_splits)
qed

lemma rl_cleanup_facts:
  assumes "rl_ok l"
  shows "rl_ok (rl_cleanupLocked now l)" "rl_active (rl_cleanupLocked now l) k = rl_active l k"
    "rl_blocked l k u \<Longrightarrow> now < u \<Longrightarrow> rl_blocked (rl_cleanupLocked now l) k u"
    "rl_maxConcurrent (rl_cleanupLocked now l) = rl_maxConcurrent l"
  using assms rl_sweep_facts [OF assms] by (auto simp: rl_cleanupLocked_def rl_sweep_clients(2))

text \<open>Recording a breach changes no count of requests, no block of another key, and drops no entry.\<close>

lemma countBreach_active: "rc_active (countBreach d now c) = rc_active c"
  by (simp add: countBreach_def Let_def)

lemma zeroClientLimit_active: "rc_active (zeroClientLimit fl) = 0"
  by (simp add: zeroClientLimit_def)

lemma recordBreach_cases:
  obtains "recordBreachLocked fl blockKey blockable now l = l"
  | c where "recordBreachLocked fl blockKey blockable now l = rl_put blockKey c l" "rc_active c = rl_active l blockKey"
      "map_of (rl_clients l) blockKey \<noteq> None \<or> int (length (rl_clients l)) < restUIMaxTrackedClients"
proof (cases "rl_blockDuration l \<le> 0 \<or> \<not> blockable")
  case True
  then show ?thesis using that(1) by (auto simp: recordBreachLocked_def)
next
  case on: False
  show ?thesis
  proof (cases "map_of (rl_clients l) blockKey")
    case None
    show ?thesis
    proof (cases "int (length (rl_clients l)) \<ge> restUIMaxTrackedClients")
      case True
      then show ?thesis using None on by (intro that(1)) (simp add: recordBreachLocked_def)
    next
      case False
      then show ?thesis using None on
        by (intro that(2) [of "countBreach (rl_blockDuration l) now (zeroClientLimit fl)"])
          (simp_all add: recordBreachLocked_def countBreach_active rl_active_def zeroClientLimit_active)
    qed
  next
    case (Some c)
    then show ?thesis using on
      by (intro that(2) [of "countBreach (rl_blockDuration l) now c"])
        (simp_all add: recordBreachLocked_def countBreach_active rl_active_def del: map_of_eq_Some_iff)
  qed
qed

lemma recordBreach_facts:
  assumes "rl_ok l"
  shows "rl_ok (recordBreachLocked fl bk blockable now l)" "rl_active (recordBreachLocked fl bk blockable now l) k = rl_active l k"
    "k \<noteq> bk \<Longrightarrow> rl_blocked (recordBreachLocked fl bk blockable now l) k u \<longleftrightarrow> rl_blocked l k u"
    "map_of (rl_clients l) k \<noteq> None \<Longrightarrow> map_of (rl_clients (recordBreachLocked fl bk blockable now l)) k \<noteq> None"
    "rl_maxConcurrent (recordBreachLocked fl bk blockable now l) = rl_maxConcurrent l"
proof -
  let ?l = "recordBreachLocked fl bk blockable now l"
  show "rl_ok ?l" by (rule recordBreach_cases [of fl bk blockable now l]) (simp_all add: assms rl_put_ok)
  show "rl_active ?l k = rl_active l k"
    by (rule recordBreach_cases [of fl bk blockable now l]) (simp_all add: rl_put_facts)
  show "k \<noteq> bk \<Longrightarrow> rl_blocked ?l k u \<longleftrightarrow> rl_blocked l k u"
    by (rule recordBreach_cases [of fl bk blockable now l]) (simp_all add: rl_put_facts)
  show "map_of (rl_clients l) k \<noteq> None \<Longrightarrow> map_of (rl_clients ?l) k \<noteq> None"
    by (rule recordBreach_cases [of fl bk blockable now l]) (simp_all add: rl_put_facts)
  show "rl_maxConcurrent ?l = rl_maxConcurrent l"
    by (rule recordBreach_cases [of fl bk blockable now l]) (simp_all add: rl_put_facts)
qed

lemma shouldLog_facts:
  "shouldLogRejection reason now c = (b, c') \<Longrightarrow> rc_active c' = rc_active c \<and> rc_blockedUntil c' = rc_blockedUntil c"
  by (auto simp: shouldLogRejection_def Let_def split: if_splits)

lemma reject_facts:
  assumes "rl_ok l" "map_of (rl_clients l) ip \<noteq> None" "rejectClient fl ip bk blockable now reason retry l = (d, l')"
  shows "\<not> rd_accepted d" "rl_ok l'" "rl_active l' k = rl_active l k" "k \<noteq> bk \<Longrightarrow> rl_blocked l k u \<Longrightarrow> rl_blocked l' k u"
    "rl_maxConcurrent l' = rl_maxConcurrent l"
proof -
  let ?l = "recordBreachLocked fl bk blockable now l"
  note rb = recordBreach_facts [OF assms(1), where fl = fl and bk = bk and blockable = blockable and now = now]
  obtain c where c: "map_of (rl_clients ?l) ip = Some c" using rb(4) [where k = ip] assms(2) by (auto simp del: map_of_eq_Some_iff)
  obtain b c' where log: "shouldLogRejection reason now c = (b, c')" by fastforce
  have l': "l' = rl_put ip c' ?l" and "\<not> rd_accepted d"
    using assms(3) by (auto simp: rejectClient_def Let_def c log zeroDecision_def simp del: map_of_eq_Some_iff)
  then show "\<not> rd_accepted d" by simp
  show "rl_ok l'" unfolding l' using rb(1) c by (intro rl_put_ok) simp_all
  have "rl_active ?l ip = rc_active c'" using c shouldLog_facts [OF log] by (simp add: rl_active_def del: map_of_eq_Some_iff)
  then show "rl_active l' k = rl_active l k" using rb(2) [where k = k] by (auto simp: l' rl_put_facts)
  show "rl_blocked l' k u" if "k \<noteq> bk" "rl_blocked l k u"
    using rb(3) [where k = k and u = u] that c shouldLog_facts [OF log] by (auto simp: l' rl_put_facts rl_blocked_def simp del: map_of_eq_Some_iff)
  show "rl_maxConcurrent l' = rl_maxConcurrent l" by (simp add: l' rl_put_facts rb(5))
qed

text \<open>What admitting a request does to the counts and the blocks of all keys.\<close>

definition admission :: "string \<Rightarrow> string \<Rightarrow> 'f restUIRateLimiter \<Rightarrow> restUILimitDecision \<Rightarrow> 'f restUIRateLimiter \<Rightarrow> bool" where
  "admission ip bk l d l' \<longleftrightarrow>
     rl_ok l' \<and> rl_maxConcurrent l' = rl_maxConcurrent l \<and>
     (\<forall>k. rl_active l' k = rl_active l k + (if k = ip \<and> rd_accepted d \<and> \<not> rd_untracked d then 1 else 0)) \<and>
     (rd_accepted d \<and> \<not> rd_untracked d \<and> 0 < rl_maxConcurrent l \<longrightarrow> rl_active l ip < rl_maxConcurrent l)"

lemma reject_admission:
  assumes "rl_ok l" "map_of (rl_clients l) ip \<noteq> None" "rejectClient fl ip bk blockable now reason retry l = (d, l')"
  shows "admission ip bk l d l'"
  using reject_facts [OF assms] by (simp add: admission_def)

lemma admission_put:
  "admission ip bk (rl_put ip c l) d l' \<Longrightarrow> rc_active c = rl_active l ip \<Longrightarrow> admission ip bk l d l'"
  by (auto simp: admission_def rl_put_facts)

lemma acceptClient_admission:
  assumes "rl_ok l" "map_of (rl_clients l) ip \<noteq> None \<or> int (length (rl_clients l)) < restUIMaxTrackedClients"
    "rc_active client = rl_active l ip" "rl_acceptClient fl ip bk blockable now client l = (d, l')"
  shows "admission ip bk l d l'"
proof -
  define c1 where "c1 = client\<lparr>rc_lastSeen := now\<rparr>"
  define r where "r = (if rl_rateLimit l > 0 then allow fl now (rl_rateLimit l) (rl_rateWindow l) (rl_burst l) (rc_bucket c1)
               else ((True, 0), rc_bucket c1))"
  obtain ok retry bucket where r': "r = ((ok, retry), bucket)" by (metis surj_pair)
  define c2 where "c2 = c1\<lparr>rc_bucket := bucket\<rparr>"
  have act: "rc_active c1 = rl_active l ip" "rc_active c2 = rl_active l ip" by (simp_all add: c1_def c2_def assms(3))
  have eq: "rl_acceptClient fl ip bk blockable now client l =
    (if rl_maxConcurrent l > 0 \<and> rc_active c1 \<ge> rl_maxConcurrent l
     then rejectClient fl ip bk blockable now restUIRejectConcurrentRequests 0 (rl_put ip c1 l)
     else if \<not> ok then rejectClient fl ip bk blockable now restUIRejectRequestRate retry (rl_put ip c2 l)
     else (zeroDecision\<lparr>rd_accepted := True\<rparr>, rl_put ip (c2\<lparr>rc_active := rc_active c2 + 1\<rparr>) l))"
    unfolding rl_acceptClient_def c1_def [symmetric] Let_def r_def [symmetric] r' by (simp add: c2_def)
  have put: "rl_ok (rl_put ip c l)" "map_of (rl_clients (rl_put ip c l)) ip \<noteq> None" for c
    using assms(1,2) by (simp_all add: rl_put_ok rl_put_facts)
  show ?thesis
  proof (cases "rl_maxConcurrent l > 0 \<and> rc_active c1 \<ge> rl_maxConcurrent l")
    case True
    then show ?thesis
      using assms(4) reject_admission [OF put] by (auto simp: eq intro: admission_put [where c = c1] act)
  next
    case False
    then show ?thesis
      using assms(4) reject_admission [OF put] put
      by (cases ok) (auto simp: eq act admission_def rl_put_facts zeroDecision_def intro: admission_put [where c = c2] act)
  qed
qed

lemma rl_capWarned_irrelevant:
  "rl_ok (l\<lparr>rl_capWarned := b\<rparr>) = rl_ok l" "rl_active (l\<lparr>rl_capWarned := b\<rparr>) = rl_active l"
  "rl_blocked (l\<lparr>rl_capWarned := b\<rparr>) = rl_blocked l"
  by (auto simp: rl_ok_def rl_active_def rl_blocked_def fun_eq_iff)

lemma acceptUnblocked_admission:
  assumes "rl_ok l" "rl_acceptUnblocked fl ip bk blockable now l = (d, l')"
  shows "admission ip bk l d l'"
proof (cases "map_of (rl_clients l) ip")
  case (Some c)
  then show ?thesis
    using acceptClient_admission [OF assms(1), of ip c] assms(2)
    by (auto simp: rl_acceptUnblocked_def rl_active_def simp del: map_of_eq_Some_iff)
next
  case None
  define l1 where "l1 = (if int (length (rl_clients l)) \<ge> restUIMaxTrackedClients then rl_sweepLocked now l else l)"
  have l1: "rl_ok l1" "rl_active l1 = rl_active l" "rl_maxConcurrent l1 = rl_maxConcurrent l"
    using assms(1) rl_sweep_facts(1,2) [OF assms(1)] by (auto simp: l1_def rl_sweep_clients(2) fun_eq_iff)
  have same: "admission ip bk l1 d l' = admission ip bk l d l'" by (simp add: admission_def l1)
  have act: "rc_active (zeroClientLimit fl) = rl_active l1 ip" using None by (simp add: l1(2) rl_active_def zeroClientLimit_active)
  have eq: "rl_acceptUnblocked fl ip bk blockable now l =
    (if int (length (rl_clients l1)) \<ge> restUIMaxTrackedClients
     then (zeroDecision\<lparr>rd_accepted := True, rd_untracked := True\<rparr>, l1\<lparr>rl_capWarned := True\<rparr>)
     else rl_acceptClient fl ip bk blockable now (zeroClientLimit fl) l1)"
    by (simp add: rl_acceptUnblocked_def None l1_def Let_def)
  show ?thesis
  proof (cases "int (length (rl_clients l1)) \<ge> restUIMaxTrackedClients")
    case True
    then show ?thesis using assms(2) l1 by (auto simp: eq admission_def rl_capWarned_irrelevant)
  next
    case False
    then show ?thesis using assms(2) acceptClient_admission [OF l1(1) _ act] by (simp add: eq same [symmetric])
  qed
qed

lemma rl_accept_cases:
  obtains bc b bc' where "map_of (rl_clients (rl_cleanupLocked now l)) bk = Some bc" "rc_blockedUntil bc > now"
      "rc_active bc' = rc_active bc" "rc_blockedUntil bc' = rc_blockedUntil bc"
      "rl_accept fl ip bk blockable now l =
         (zeroDecision\<lparr>rd_reason := restUIRejectIPBlocked, rd_retryAfter := timeSub (rc_blockedUntil bc) now, rd_shouldLog := b\<rparr>,
          rl_put bk bc' (rl_cleanupLocked now l))"
  | "rl_accept fl ip bk blockable now l = rl_acceptUnblocked fl ip bk blockable now (rl_cleanupLocked now l)"
    "\<forall>bc. map_of (rl_clients (rl_cleanupLocked now l)) bk = Some bc \<longrightarrow> \<not> rc_blockedUntil bc > now"
proof (cases "map_of (rl_clients (rl_cleanupLocked now l)) bk")
  case None
  then show ?thesis using that(2) by (simp add: rl_accept_def Let_def)
next
  case (Some bc)
  show ?thesis
  proof (cases "rc_blockedUntil bc > now")
    case True
    obtain b bc' where log: "shouldLogRejection restUIRejectIPBlocked now
        (bc\<lparr>rc_lastSeen := now, rc_blockRejected := rc_blockRejected bc + 1\<rparr>) = (b, bc')" by fastforce
    show ?thesis
      using Some True shouldLog_facts [OF log] log
      by (intro that(1) [of bc bc' b]) (simp_all add: rl_accept_def Let_def del: map_of_eq_Some_iff)
  next
    case False
    then show ?thesis using Some that(2) by (simp add: rl_accept_def Let_def del: map_of_eq_Some_iff)
  qed
qed

lemma accept_admission:
  assumes "rl_ok l" "rl_accept fl ip bk blockable now l = (d, l')"
  shows "admission ip bk l d l'"
proof -
  let ?l = "rl_cleanupLocked now l"
  note cl = rl_cleanup_facts [OF assms(1), where now = now]
  have same: "admission ip bk ?l d l' = admission ip bk l d l'" by (simp add: admission_def cl)
  show ?thesis
  proof (rule rl_accept_cases [of now l bk fl ip blockable])
    fix bc b bc'
    assume bc: "map_of (rl_clients ?l) bk = Some bc" "rc_active bc' = rc_active bc"
      and acc: "rl_accept fl ip bk blockable now l =
         (zeroDecision\<lparr>rd_reason := restUIRejectIPBlocked, rd_retryAfter := timeSub (rc_blockedUntil bc) now, rd_shouldLog := b\<rparr>,
          rl_put bk bc' ?l)"
    have "rl_active ?l bk = rc_active bc'" using bc by (simp add: rl_active_def del: map_of_eq_Some_iff)
    moreover have "rl_ok (rl_put bk bc' ?l)" using bc(1) cl(1) by (intro rl_put_ok) simp_all
    ultimately show ?thesis
      using assms(2) acc unfolding same [symmetric] by (auto simp: admission_def rl_put_facts zeroDecision_def)
  next
    assume "rl_accept fl ip bk blockable now l = rl_acceptUnblocked fl ip bk blockable now ?l"
    then show ?thesis using acceptUnblocked_admission [OF cl(1)] assms(2) unfolding same [symmetric] by simp
  qed
qed

lemma release_facts:
  assumes "rl_ok l" "0 < rl_active l ip"
  shows "rl_ok (rl_release ip now l)" "rl_active (rl_release ip now l) k = rl_active l k - (if k = ip then 1 else 0)"
    "rl_maxConcurrent (rl_release ip now l) = rl_maxConcurrent l"
proof -
  obtain c where c: "map_of (rl_clients l) ip = Some c" "0 < rc_active c"
    using assms(2) by (auto simp: rl_active_def simp del: map_of_eq_Some_iff split: option.splits)
  let ?c = "c\<lparr>rc_active := rc_active c - 1, rc_lastSeen := now\<rparr>"
  have eq: "rl_release ip now l = rl_cleanupLocked now (rl_put ip ?c l)"
    using c by (simp add: rl_release_def Let_def del: map_of_eq_Some_iff)
  have ok: "rl_ok (rl_put ip ?c l)" using assms(1) c by (intro rl_put_ok) simp_all
  show "rl_ok (rl_release ip now l)" "rl_active (rl_release ip now l) k = rl_active l k - (if k = ip then 1 else 0)"
    "rl_maxConcurrent (rl_release ip now l) = rl_maxConcurrent l"
    using rl_cleanup_facts [OF ok] c by (auto simp: eq rl_put_facts rl_active_def simp del: map_of_eq_Some_iff)
qed

text \<open>
  The runs of the limiter: requests, ends of requests that were admitted under a tracked key, and sweeps, at any times.
  The run carries how many admitted requests of each key are in progress.
\<close>

inductive restRun :: "'f float64 \<Rightarrow> int \<Rightarrow> 'f restUIRateLimiter \<Rightarrow> (string \<Rightarrow> int) \<Rightarrow> bool" for fl maxConcurrent where
  restStart: "rl_clients l = [] \<Longrightarrow> rl_maxConcurrent l = maxConcurrent \<Longrightarrow> restRun fl maxConcurrent l (\<lambda>_. 0)"
| restRequest: "restRun fl maxConcurrent l opened \<Longrightarrow> rl_accept fl ipKey bKey blockable now l = (d, l') \<Longrightarrow>
    restRun fl maxConcurrent l'
      (\<lambda>k. opened k + (if k = ipKey \<and> rd_accepted d \<and> \<not> rd_untracked d then 1 else 0))"
| restEnd: "restRun fl maxConcurrent l opened \<Longrightarrow> 0 < opened ipKey \<Longrightarrow>
    restRun fl maxConcurrent (rl_release ipKey now l) (\<lambda>k. opened k - (if k = ipKey then 1 else 0))"
| restSweep: "restRun fl maxConcurrent l opened \<Longrightarrow> restRun fl maxConcurrent (rl_sweep now l) opened"

lemma restRun_ok:
  "restRun fl mc l opened \<Longrightarrow> rl_ok l \<and> rl_maxConcurrent l = mc \<and> (\<forall>k. rl_active l k = opened k) \<and>
    (0 < mc \<longrightarrow> (\<forall>k. opened k \<le> mc))"
proof (induction rule: restRun.induct)
  case (restStart l)
  then show ?case by (simp add: rl_ok_def restUIMaxTrackedClients_def rl_active_def)
next
  case (restRequest l opened ip bk blockable now d l')
  then have "admission ip bk l d l'" using accept_admission by blast
  then show ?case using restRequest.IH by (auto simp: admission_def)
next
  case (restEnd l opened ip now)
  then have "0 < rl_active l ip" by simp
  note rf = release_facts [OF conjunct1 [OF restEnd.IH] this]
  show ?case using restEnd.IH rf(1,3) rf(2) restEnd.hyps by (simp add: le_diff_eq) (smt (verit))
next
  case (restSweep l opened now)
  then show ?case using rl_sweep_facts(1,2) [of l now] by (simp add: rl_sweep_def rl_sweep_clients(2))
qed

text \<open>C33: Limits of the REST interface. On every run of the limiter, whatever the clock shows, it tracks at most 100,000
  keys, the count it keeps for a key is the number of admitted requests of the key that are in progress, and with a
  concurrency limit no key has more requests in progress than the limit. In particular no sweep drops the state of a
  key with requests in progress, and a temporary block under another key changes no count.
\<close>

theorem rest_limits:
  assumes "restRun fl maxConcurrent l opened"
  shows "int (length (rl_clients l)) \<le> restUIMaxTrackedClients \<and> rl_active l ipKey = opened ipKey \<and>
    (0 < maxConcurrent \<longrightarrow> opened ipKey \<le> maxConcurrent)"
  using restRun_ok [OF assms] by (simp add: rl_ok_def)

text \<open>Exact arithmetic as an instance of the operations on floating point numbers.\<close>

definition ratOps :: "rat float64" where
  "ratOps = \<lparr>fl_ofInt = of_int, fl_toInt = floor, fl_add = (+), fl_sub = (-), fl_mul = (*), fl_div = (/), fl_le = (\<le>),
     fl_min = min, fl_ceil = (\<lambda>x. of_int \<lceil>x\<rceil>)\<rparr>"

definition demoRest :: "rat restUIRateLimiter" where
  "demoRest = \<lparr>rl_clients = [], rl_lastCleanup = zeroTime, rl_capWarned = False, rl_rateLimit = 20, rl_rateWindow = minute,
     rl_burst = 20, rl_maxConcurrent = 1, rl_stateTTL = 10 * minute, rl_blockDuration = minute,
     rl_trustedProxies = [], rl_cloudflarePrefixes = [], rl_trustPseudoIPv6 = False, rl_whitelistPrefixes = []\<rparr>"

definition demoRest1 :: "rat restUIRateLimiter" where
  "demoRest1 = snd (rl_accept ratOps ''k'' ''k'' True 7 demoRest)"

lemma demoRest_accept: "rl_accept ratOps ''k'' ''k'' True 7 demoRest = (zeroDecision\<lparr>rd_accepted := True\<rparr>, demoRest1)"
proof -
  have "fst (rl_accept ratOps ''k'' ''k'' True 7 demoRest) = zeroDecision\<lparr>rd_accepted := True\<rparr>"
    by (simp add: rl_accept_def Let_def demoRest_def rl_cleanupLocked_def rl_sweepLocked_def rl_acceptUnblocked_def
        rl_acceptClient_def zeroClientLimit_def allow_def ratOps_def restUIMaxTrackedClients_def timeSub_def Seconds_def
        zeroTime_def minute_def second_def)
  then show ?thesis by (simp add: demoRest1_def prod_eq_iff)
qed

lemma demoRest1_run: "restRun ratOps 1 demoRest1 (\<lambda>k. 0 + (if k = ''k'' \<and> True \<and> \<not> False then 1 else 0))"
  using restRequest [OF restStart [of demoRest 1 ratOps] demoRest_accept] by (simp add: demoRest_def zeroDecision_def)

theorem rest_limits_witness: "int (length (rl_clients demoRest1)) \<le> restUIMaxTrackedClients \<and> rl_active demoRest1 ''k'' = 1"
  using rest_limits [OF demoRest1_run, of "''k''"] by simp

text \<open>The operations of the limiter with the times they are called at.\<close>

datatype restOp = Request string string bool int | End string int | Sweep int

fun opTime :: "restOp \<Rightarrow> int" where
  "opTime (Request ipKey bKey blockable now) = now"
| "opTime (End ipKey now) = now"
| "opTime (Sweep now) = now"

fun restStep :: "'f float64 \<Rightarrow> restOp \<Rightarrow> 'f restUIRateLimiter \<Rightarrow> 'f restUIRateLimiter" where
  "restStep fl (Request ipKey bKey blockable now) l = snd (rl_accept fl ipKey bKey blockable now l)"
| "restStep fl (End ipKey now) l = rl_release ipKey now l"
| "restStep fl (Sweep now) l = rl_sweep now l"

lemma acceptClient_blocked:
  assumes "rl_ok l" "map_of (rl_clients l) ip \<noteq> None \<or> int (length (rl_clients l)) < restUIMaxTrackedClients"
    "rl_blocked l ip u' \<longrightarrow> rc_blockedUntil client = u'" "rl_blocked l k u" "k \<noteq> bk" "k = ip \<longrightarrow> u' = u"
  shows "rl_blocked (snd (rl_acceptClient fl ip bk blockable now client l)) k u"
proof -
  define c1 where "c1 = client\<lparr>rc_lastSeen := now\<rparr>"
  have put: "rl_ok (rl_put ip c l)" "map_of (rl_clients (rl_put ip c l)) ip \<noteq> None" for c
    using assms(1,2) by (simp_all add: rl_put_ok rl_put_facts)
  have keep: "rl_blocked (rl_put ip c l) k u" if "rc_blockedUntil c = rc_blockedUntil client" for c
    using assms(3-6) that by (auto simp: rl_put_facts)
  have rej: "rl_blocked (snd (rejectClient fl ip bk blockable now reason retry (rl_put ip c l))) k u"
    if "rc_blockedUntil c = rc_blockedUntil client" for c reason retry
    using reject_facts(4) [OF put, of fl bk blockable now reason retry c _ _ k u] keep [OF that] assms(5)
    by (metis prod.collapse)
  show ?thesis
    unfolding rl_acceptClient_def Let_def
    by (auto intro!: rej keep split: prod.splits if_splits)
qed

lemma acceptUnblocked_blocked:
  assumes "rl_ok l" "rl_blocked l k u" "now < u" "k \<noteq> bk"
  shows "rl_blocked (snd (rl_acceptUnblocked fl ip bk blockable now l)) k u"
proof (cases "map_of (rl_clients l) ip")
  case (Some c)
  have "map_of (rl_clients l) ip \<noteq> None \<or> int (length (rl_clients l)) < restUIMaxTrackedClients"
    "rl_blocked l ip (rc_blockedUntil c) \<longrightarrow> rc_blockedUntil c = rc_blockedUntil c" "k = ip \<longrightarrow> rc_blockedUntil c = u"
    using Some assms(2) by (auto simp: rl_blocked_def simp del: map_of_eq_Some_iff)
  from acceptClient_blocked [OF assms(1) this(1,2) assms(2,4) this(3)] Some show ?thesis
    by (simp add: rl_acceptUnblocked_def del: map_of_eq_Some_iff)
next
  case None
  define l1 where "l1 = (if int (length (rl_clients l)) \<ge> restUIMaxTrackedClients then rl_sweepLocked now l else l)"
  have l1: "rl_ok l1" "rl_blocked l1 k u" using assms(1-3) rl_sweep_facts(1,3) [OF assms(1)] by (auto simp: l1_def)
  have no: "\<not> rl_blocked l1 ip u'" for u'
    using None rl_sweep_facts(4) [OF assms(1), where k = ip and now = now and u = u'] by (auto simp: l1_def rl_blocked_def simp del: map_of_eq_Some_iff)
  have eq: "rl_acceptUnblocked fl ip bk blockable now l =
    (if int (length (rl_clients l1)) \<ge> restUIMaxTrackedClients
     then (zeroDecision\<lparr>rd_accepted := True, rd_untracked := True\<rparr>, l1\<lparr>rl_capWarned := True\<rparr>)
     else rl_acceptClient fl ip bk blockable now (zeroClientLimit fl) l1)"
    by (simp add: rl_acceptUnblocked_def None l1_def Let_def)
  show ?thesis
    unfolding eq using acceptClient_blocked [OF l1(1) _ _ l1(2) assms(4), of ip u "zeroClientLimit fl"] no l1(2)
    by (auto simp: rl_capWarned_irrelevant)
qed

lemma step_blocked:
  assumes "rl_ok l" "rl_blocked l k u" "opTime op < u"
  shows "rl_blocked (restStep fl op l) k u \<and> rl_ok (restStep fl op l)"
proof (cases op)
  case (Request ip bk blockable now)
  let ?l = "rl_cleanupLocked now l"
  note cl = rl_cleanup_facts [OF assms(1), where now = now]
  have b: "rl_blocked ?l k u" using cl(3) assms(2,3) Request by simp
  have "rl_blocked (snd (rl_accept fl ip bk blockable now l)) k u"
  proof (rule rl_accept_cases [of now l bk fl ip blockable])
    assume acc: "rl_accept fl ip bk blockable now l = rl_acceptUnblocked fl ip bk blockable now ?l"
      and "\<forall>bc. map_of (rl_clients ?l) bk = Some bc \<longrightarrow> \<not> now < rc_blockedUntil bc"
    then have "k \<noteq> bk" using b assms(3) Request by (auto simp: rl_blocked_def simp del: map_of_eq_Some_iff)
    then show ?thesis using acceptUnblocked_blocked [OF cl(1) b] acc assms(3) Request by simp
  qed (use b in \<open>auto simp: rl_put_facts rl_blocked_def simp del: map_of_eq_Some_iff\<close>)
  moreover have "rl_ok (snd (rl_accept fl ip bk blockable now l))"
    using accept_admission [OF assms(1), of fl ip bk blockable now] by (metis admission_def prod.collapse)
  ultimately show ?thesis by (simp add: Request)
next
  case (End ip now)
  then show ?thesis
  proof (cases "map_of (rl_clients l) ip")
    case (Some c)
    let ?c = "(if rc_active c > 0 then c\<lparr>rc_active := rc_active c - 1\<rparr> else c)\<lparr>rc_lastSeen := now\<rparr>"
    have "rl_ok (rl_put ip ?c l)" using assms(1) Some by (intro rl_put_ok) simp_all
    moreover have "rl_blocked (rl_put ip ?c l) k u"
      using assms(2) Some by (auto simp: rl_put_facts rl_blocked_def simp del: map_of_eq_Some_iff)
    ultimately show ?thesis
      using rl_cleanup_facts(1,3) [of "rl_put ip ?c l"] Some End assms(3)
      by (simp add: rl_release_def Let_def del: map_of_eq_Some_iff)
  qed (use assms in \<open>simp add: rl_release_def\<close>)
next
  case (Sweep now)
  then show ?thesis using assms rl_sweep_facts(1,3) [OF assms(1)] by (simp add: rl_sweep_def)
qed

text \<open>C34: A temporary block holds. Once a key is blocked until a time, then after any requests, ends of requests and sweeps
  at earlier times, under this and any other keys, a request under that block key at an earlier time is rejected with the
  reason \<open>ip_blocked\<close> and told to come back when the block ends.
\<close>

theorem rest_block_holds:
  assumes "restRun fl maxConcurrent l opened" and "rl_blocked l bKey until"
    and "\<forall>op \<in> set ops. opTime op < until" and "now < until"
  shows "\<exists>d l'. rl_accept fl ipKey bKey blockable now (fold (restStep fl) ops l) = (d, l') \<and>
    \<not> rd_accepted d \<and> rd_reason d = restUIRejectIPBlocked \<and> rd_retryAfter d = timeSub until now"
proof -
  have "rl_ok (fold (restStep fl) ops l) \<and> rl_blocked (fold (restStep fl) ops l) bKey until"
    using assms(2,3) conjunct1 [OF restRun_ok [OF assms(1)]]
    by (induction ops arbitrary: l) (auto dest: step_blocked)
  then have b: "rl_blocked (rl_cleanupLocked now (fold (restStep fl) ops l)) bKey until"
    using rl_cleanup_facts(3) assms(4) by blast
  show ?thesis
    using b assms(4) by (rule_tac rl_accept_cases [of now "fold (restStep fl) ops l" bKey fl ipKey blockable])
      (auto simp: rl_blocked_def zeroDecision_def simp del: map_of_eq_Some_iff)
qed

text \<open>Three breaches, each more than ten seconds after the one before, block a key for the block duration.\<close>

definition demoRest2 :: "rat restUIRateLimiter" where
  "demoRest2 = fold (\<lambda>t l. snd (rl_accept ratOps ''k'' ''k'' True t l)) [8, 8 + 11 * second, 8 + 22 * second] demoRest1"

lemma demoRest1_eq: "demoRest1 = demoRest\<lparr>rl_lastCleanup := 7,
   rl_clients := [(''k'', (zeroClientLimit ratOps)\<lparr>rc_active := 1, rc_lastSeen := 7, rc_bucket := \<lparr>tb_tokens = 19, tb_lastRefill = 7\<rparr>\<rparr>)]\<rparr>"
  by (simp add: demoRest1_def rl_accept_def Let_def demoRest_def rl_cleanupLocked_def rl_sweepLocked_def rl_acceptUnblocked_def
      rl_acceptClient_def zeroClientLimit_def allow_def ratOps_def restUIMaxTrackedClients_def timeSub_def Seconds_def rl_put_def
      zeroTime_def minute_def second_def)

lemma demoRest2_blocked: "rl_blocked demoRest2 ''k'' (8 + 22 * second + minute)"
  by (simp add: demoRest2_def demoRest1_eq rl_accept_def Let_def demoRest_def rl_cleanupLocked_def rl_acceptUnblocked_def
      rl_acceptClient_def zeroClientLimit_def ratOps_def timeSub_def rl_put_def rejectClient_def recordBreachLocked_def countBreach_def
      shouldLogRejection_def restUIRejectConcurrentRequests_def restUIRejectIPBlocked_def restUIBreachWindow_def
      restUIBreachMinSpacing_def restUIBreachBlockThreshold_def restUILimiterCleanupInterval_def
      zeroTime_def minute_def second_def rl_blocked_def)

lemma restRun_requests:
  "restRun fl mc l opened \<Longrightarrow> \<exists>opened'. restRun fl mc (fold (\<lambda>t l. snd (rl_accept fl ip bk blockable t l)) ts l) opened'"
proof (induction ts arbitrary: l opened)
  case (Cons t ts)
  show ?case using Cons.IH [OF restRequest [OF Cons.prems prod.collapse [symmetric]]] by simp
qed auto

lemma demoRest2_run: "\<exists>opened. restRun ratOps 1 demoRest2 opened"
  unfolding demoRest2_def by (rule restRun_requests [OF demoRest1_run])

theorem rest_block_holds_witness:
  "\<exists>d l'. rl_accept ratOps ''k'' ''k'' True (9 + 22 * second)
      (fold (restStep ratOps) [Sweep (8 + 22 * second), End ''k'' (8 + 22 * second)] demoRest2) = (d, l') \<and>
    \<not> rd_accepted d \<and> rd_reason d = restUIRejectIPBlocked"
proof -
  obtain opened where "restRun ratOps 1 demoRest2 opened" using demoRest2_run by blast
  from rest_block_holds [OF this demoRest2_blocked,
      of "[Sweep (8 + 22 * second), End ''k'' (8 + 22 * second)]" "9 + 22 * second" "''k''" True]
  show ?thesis by (simp add: minute_def second_def) blast
qed

end
