(* ===== verification/NetipLaws.thy ===== *)
theory NetipLaws
  imports Netip
begin

text \<open>The text form of an address parses to the address: lemmas for addresses of 4 and of 16 bytes.\<close>

section \<open>Digits of a number\<close>

definition digitsB :: "nat \<Rightarrow> nat \<Rightarrow> nat \<Rightarrow> nat list" where
  "digitsB B k n = map (\<lambda>i. n div B ^ (k - Suc i) mod B) [0..<k]"

lemma digitsB_Suc: "digitsB B (Suc k) n = digitsB B k (n div B) @ [n mod B]"
proof -
  have "n div B ^ (k - i) = n div B div B ^ (k - Suc i)" if "i < k" for i
  proof -
    have "k - i = Suc (k - Suc i)" using that by simp
    then show ?thesis by (simp add: div_mult2_eq)
  qed
  then show ?thesis by (simp add: digitsB_def)
qed

lemma digitsB_value: "0 < B \<Longrightarrow> n < B ^ k \<Longrightarrow> foldl (\<lambda>a g. a * B + g) 0 (digitsB B k n) = n"
proof (induction k arbitrary: n)
  case (Suc k)
  have "n div B < B ^ k" using Suc.prems by (simp add: less_mult_imp_div_less mult.commute)
  then show ?case using Suc by (simp add: digitsB_Suc)
qed (simp add: digitsB_def)

lemma groups_digits: "groups w = digitsB 65536 8 (unat w)"
  by (simp add: groups_def digitsB_def)

lemma groups_facts: "length (groups w) = 8" "\<forall>g \<in> set (groups w). g < 65536"
  by (auto simp: groups_def)

lemma ofGroups_groups: "ofGroups (groups w) = w"
proof -
  have "unat w < 65536 ^ 8" using unsigned_less [of w] by simp
  from digitsB_value [OF _ this] show ?thesis by (simp add: ofGroups_def groups_digits)
qed

lemma octets_digits: "octets w = digitsB 256 4 (unat w)"
proof -
  have "unat w < 2 ^ 32" by (rule order.strict_trans2 [OF unsigned_less]) simp
  then have "unat w div 2 ^ 24 < 256" by (simp add: less_mult_imp_div_less)
  then show ?thesis by (simp add: octets_def digitsB_def upt_rec)
qed

lemma octets_facts: "length (octets w) = 4" "\<forall>b \<in> set (octets w). b < 256"
  by (auto simp: octets_digits digitsB_def)

lemma ofOctets_octets: "ofOctets (octets w) = w"
proof -
  have "unat w < 256 ^ 4" using unsigned_less [of w] by simp
  from digitsB_value [OF _ this] show ?thesis by (simp add: ofOctets_def octets_digits)
qed

section \<open>Addresses of 4 bytes\<close>

lemma splitOn_field: "c \<notin> set s \<Longrightarrow> splitOn c s = [s]"
  by (induction s) auto

lemma splitOn_append: "c \<notin> set s \<Longrightarrow> splitOn c (s @ c # t) = s # splitOn c t"
  by (induction s) auto

lemma splitOn_intersperse:
  "fs \<noteq> [] \<Longrightarrow> \<forall>f \<in> set fs. c \<notin> set f \<Longrightarrow> splitOn c (intersperse [c] fs) = fs"
  by (induction "[c]" fs rule: intersperse.induct) (auto simp: splitOn_field splitOn_append)

lemma show_nat_hd: "0 < n \<Longrightarrow> hd (show_nat n) \<noteq> CHR ''0''"
proof (induction n rule: show_nat.induct)
  case (1 n)
  have zero: "digit_val CHR ''0'' = 0" by code_simp
  show ?case
  proof (cases "n < 10")
    case True
    then have "dec_digit n \<noteq> CHR ''0''" using digit_cases(2) [of n] zero 1(2) by auto
    then show ?thesis using True by (subst show_nat.simps) simp
  next
    case False
    then have "hd (show_nat (n div 10)) \<noteq> CHR ''0''" using 1 by simp
    then show ?thesis using False by (subst show_nat.simps) simp
  qed
qed

lemma parseOctet_show:
  assumes "b < 256"
  shows "parseOctet (show_nat b) = Some b"
proof (cases "b = 0")
  case True
  then show ?thesis by (simp add: show_nat.simps [of 0]) code_simp
next
  case False
  then show ?thesis using assms show_nat_hd [of b] show_nat_digits [of b] by (simp add: parseOctet_def)
qed

lemma parseOctets_show: "\<forall>b \<in> set bs. b < 256 \<Longrightarrow> parseOctets (map show_nat bs) = Some bs"
  by (induction bs) (auto simp: parseOctet_show)

lemma show_nat_no: "\<not> is_digit c \<Longrightarrow> c \<notin> set (show_nat n)"
  using show_nat_digits [of n] by (auto simp: list_all_iff)

lemma parseIPv4_show4: "parseIPv4Fields (show4 w) = Some (octets w)"
proof -
  have "\<not> is_digit CHR ''.''" by code_simp
  then have "splitOn CHR ''.'' (show4 w) = map show_nat (octets w)"
    unfolding show4_def using octets_facts(1) [of w] by (intro splitOn_intersperse) (auto dest: show_nat_no)
  then show ?thesis using octets_facts [of w] by (simp add: parseIPv4Fields_def parseOctets_show)
qed

section \<open>Groups of 16 bits\<close>

lemma hex_digit_facts:
  assumes "n < 16"
  shows "hex_digit_val (hex_digit n) = Some n"
proof -
  have all: "list_all (\<lambda>n. hex_digit_val (hex_digit n) = Some n) [0..<16]" by code_simp
  have "n \<in> set [0..<16]" unfolding set_upt using assms by simp
  then show ?thesis using all unfolding list_all_iff by blast
qed

lemma show_hex_hex: "list_all is_hex (show_hex n)"
proof (induction n rule: show_hex.induct)
  case (1 n)
  moreover have "is_hex (hex_digit k)" if "k < 16" for k using that by (simp add: is_hex_def hex_digit_facts)
  ultimately show ?case by (subst show_hex.simps) simp
qed

lemma show_hex_neq_Nil [simp]: "show_hex n \<noteq> []"
  by (subst show_hex.simps) simp

lemma hexGroupVal_show [simp]: "hexGroupVal (show_hex n) = n"
proof (induction n rule: show_hex.induct)
  case (1 n)
  then show ?case by (subst show_hex.simps) (simp add: hexGroupVal_def hex_digit_facts)
qed

lemma show_hex_length: "n < 16 ^ Suc k \<Longrightarrow> length (show_hex n) \<le> Suc k"
proof (induction k arbitrary: n)
  case 0
  then show ?case by (subst show_hex.simps) simp
next
  case (Suc k)
  then have "n div 16 < 16 ^ Suc k" by (simp add: less_mult_imp_div_less mult.commute)
  from Suc.IH [OF this] show ?case by (subst show_hex.simps) simp
qed

lemma is_hex_separators: "\<not> is_hex CHR '':''" "\<not> is_hex CHR ''.''" "\<not> is_hex CHR ''%''"
  by code_simp+

lemma takeWhile_show_hex:
  "s = [] \<or> \<not> is_hex (hd s) \<Longrightarrow> takeWhile is_hex (show_hex g @ s) = show_hex g \<and> dropWhile is_hex (show_hex g @ s) = s"
  using show_hex_hex [of g] by (cases s) (auto simp: list_all_iff takeWhile_append dropWhile_append)

declare parseGroups.simps(2) [simp del]

lemma parseGroups_step:
  assumes "g < 65536" "s = [] \<or> hd s = CHR '':''"
  shows "parseGroups (Suc n) (show_hex g @ s) gs e =
    (case s of
       [] \<Rightarrow> Some (gs @ [g], e, [])
     | c # s1 \<Rightarrow>
         if s1 = [] then None
         else if hd s1 = CHR '':'' then
           (if e \<noteq> None then None
            else if tl s1 = [] then Some (gs @ [g], Some (Suc (length gs)), [])
            else parseGroups n (tl s1) (gs @ [g]) (Some (Suc (length gs))))
         else parseGroups n s1 (gs @ [g]) e)"
proof -
  have "s = [] \<or> \<not> is_hex (hd s)" using assms(2) is_hex_separators by auto
  then have t: "takeWhile is_hex (show_hex g @ s) = show_hex g" "dropWhile is_hex (show_hex g @ s) = s"
    using takeWhile_show_hex [of s g] by blast+
  have len: "\<not> 4 < length (show_hex g)" using show_hex_length [of g 3] assms(1) by simp
  show ?thesis
    using assms(2) unfolding parseGroups.simps(2) t Let_def by (cases s) (simp_all add: len)
qed

lemma parseGroups_last: "g < 65536 \<Longrightarrow> parseGroups (Suc n) (show_hex g) gs e = Some (gs @ [g], e, [])"
  using parseGroups_step [of g "[]"] by simp

lemma parseGroups_more:
  "g < 65536 \<Longrightarrow> s \<noteq> [] \<Longrightarrow> hd s \<noteq> CHR '':'' \<Longrightarrow>
   parseGroups (Suc n) (show_hex g @ CHR '':'' # s) gs e = parseGroups n s (gs @ [g]) e"
  by (simp add: parseGroups_step)

lemma parseGroups_ellipsis:
  "g < 65536 \<Longrightarrow> parseGroups (Suc n) (show_hex g @ ''::'' @ r) gs None =
    (if r = [] then Some (gs @ [g], Some (Suc (length gs)), []) else parseGroups n r (gs @ [g]) (Some (Suc (length gs))))"
  by (simp add: parseGroups_step)

abbreviation showGroups :: "nat list \<Rightarrow> string" where
  "showGroups hs \<equiv> intersperse '':'' (map show_hex hs)"

lemma hd_show_hex: "is_hex (hd (show_hex g @ s))"
  using show_hex_hex [of g] by (cases "show_hex g") auto

lemma showGroups_start:
  assumes "hs \<noteq> []"
  shows "showGroups hs @ s \<noteq> []" "is_hex (hd (showGroups hs @ s))"
proof -
  obtain h t where hs: "hs = h # t" using assms by (cases hs) auto
  have "\<exists>u. showGroups hs = show_hex h @ u" unfolding hs by (cases t) auto
  then obtain u where u: "showGroups hs @ s = show_hex h @ u @ s" by auto
  show "showGroups hs @ s \<noteq> []" "is_hex (hd (showGroups hs @ s))" unfolding u by (simp, rule hd_show_hex)
qed

lemma neq_colon: "is_hex c \<Longrightarrow> c \<noteq> CHR '':''"
  using is_hex_separators(1) by metis

lemma parseGroups_all:
  assumes "hs \<noteq> []" "length hs \<le> n" "\<forall>g \<in> set hs. g < 65536"
  shows "parseGroups n (showGroups hs) gs e = Some (gs @ hs, e, [])"
  using assms
proof (induction hs arbitrary: n gs)
  case (Cons h hs)
  then obtain n' where n: "n = Suc n'" by (cases n) auto
  show ?case
  proof (cases hs)
    case Nil
    then show ?thesis using Cons.prems by (simp add: n parseGroups_last)
  next
    case (Cons h' hs')
    then have "showGroups (h # hs) = show_hex h @ CHR '':'' # showGroups hs" by simp
    moreover have "showGroups hs \<noteq> []" "hd (showGroups hs) \<noteq> CHR '':''"
      using showGroups_start [of hs "[]"] Cons by (auto dest: neq_colon)
    moreover have "parseGroups n' (showGroups hs) (gs @ [h]) e = Some ((gs @ [h]) @ hs, e, [])"
      using Cons.IH [of n' "gs @ [h]"] Cons.prems Cons n by simp
    ultimately show ?thesis using Cons.prems parseGroups_more [of h "showGroups hs" n' gs e] by (simp add: n)
  qed
qed simp

lemma parseGroups_split:
  assumes "hs \<noteq> []" "length hs \<le> n" "\<forall>g \<in> set hs. g < 65536"
  shows "parseGroups n (showGroups hs @ ''::'' @ r) gs None =
    (if r = [] then Some (gs @ hs, Some (length (gs @ hs)), [])
     else parseGroups (n - length hs) r (gs @ hs) (Some (length (gs @ hs))))"
  using assms
proof (induction hs arbitrary: n gs)
  case (Cons h hs)
  then obtain n' where n: "n = Suc n'" by (cases n) auto
  show ?case
  proof (cases hs)
    case Nil
    then show ?thesis using Cons.prems parseGroups_ellipsis [of h n' r gs] by (simp add: n)
  next
    case (Cons h' hs')
    let ?t = "showGroups hs @ ''::'' @ r"
    have eq: "showGroups (h # hs) @ ''::'' @ r = show_hex h @ CHR '':'' # ?t" using Cons by simp
    have t: "?t \<noteq> []" "hd ?t \<noteq> CHR '':''"
      using showGroups_start [of hs "''::'' @ r"] Cons by (auto dest: neq_colon)
    show ?thesis
      using Cons.prems Cons.IH [of n' "gs @ [h]"] Cons parseGroups_more [of h ?t n' gs None] t unfolding eq n by simp
  qed
qed simp

section \<open>The runs of zeros\<close>

text \<open>The groups from \<open>a\<close> to \<open>b\<close> are zero.\<close>

definition zerosAt :: "nat list \<Rightarrow> nat \<Rightarrow> nat \<Rightarrow> bool" where
  "zerosAt gs a b \<longleftrightarrow> take a gs @ replicate (b - a) 0 @ drop b gs = gs"

lemma zeroRun_zeros:
  assumes "i < 8" "length gs = 8"
  shows "i + zeroRun gs i \<le> 8 \<and> zerosAt gs i (i + zeroRun gs i)"
proof -
  have len: "length (takeWhile (\<lambda>g. g = 0) (drop i gs)) \<le> length (drop i gs)" by (rule length_takeWhile_le)
  have tw: "takeWhile (\<lambda>g. g = 0) (drop i gs) = replicate (zeroRun gs i) 0"
    unfolding zeroRun_def by (rule replicate_eqI) (auto dest: set_takeWhileD)
  have "dropWhile (\<lambda>g. g = 0) (drop i gs) = drop (i + zeroRun gs i) gs"
    by (simp add: dropWhile_eq_drop zeroRun_def add.commute)
  then have "drop i gs = replicate (zeroRun gs i) 0 @ drop (i + zeroRun gs i) gs"
    using takeWhile_dropWhile_id [of "\<lambda>g. g = 0" "drop i gs"] unfolding tw by simp
  from arg_cong [OF this, of "(@) (take i gs)"]
  have "zerosAt gs i (i + zeroRun gs i)" unfolding append_take_drop_id zerosAt_def add_diff_cancel_left' by (rule sym)
  moreover have "i + zeroRun gs i \<le> 8" using assms len by (simp add: zeroRun_def)
  ultimately show ?thesis by blast
qed

definition zerosOk :: "nat list \<Rightarrow> (nat \<times> nat) option \<Rightarrow> bool" where
  "zerosOk gs best \<longleftrightarrow> (case best of None \<Rightarrow> True | Some (a, b) \<Rightarrow> a + 2 \<le> b \<and> b \<le> 8 \<and> zerosAt gs a b)"

lemma zerosStep_ok: "i < 8 \<Longrightarrow> length gs = 8 \<Longrightarrow> zerosOk gs best \<Longrightarrow> zerosOk gs (zerosStep gs i best)"
  using zeroRun_zeros [of i gs] by (simp add: zerosStep_def Let_def zerosOk_def)

lemma zerosSteps_ok:
  "\<forall>i \<in> set xs. i < 8 \<Longrightarrow> length gs = 8 \<Longrightarrow> zerosOk gs best \<Longrightarrow> zerosOk gs (fold (zerosStep gs) xs best)"
  by (induction xs arbitrary: best) (simp_all add: zerosStep_ok)

lemma longestZeros_run:
  assumes "longestZeros gs = Some (a, b)" "length gs = 8"
  shows "a + 2 \<le> b \<and> b \<le> 8 \<and> zerosAt gs a b"
proof -
  have "\<forall>i \<in> set [0..<8]. i < (8 :: nat)" by simp
  from zerosSteps_ok [OF this assms(2), of None] have "zerosOk gs (longestZeros gs)"
    unfolding longestZeros_def by (simp add: zerosOk_def)
  then show ?thesis by (simp add: assms(1) zerosOk_def)
qed

section \<open>Addresses of 16 bytes\<close>

lemma HasPrefix_hex: "is_hex (hd s) \<Longrightarrow> \<not> HasPrefix s ''::''"
  using is_hex_separators(1) by (cases s) (auto simp: HasPrefix_def)

lemma parse6_show6:
  assumes "length gs = 8" "\<forall>g \<in> set gs. g < 65536"
  shows "parse6 (show6 gs) = Some gs"
proof (cases "longestZeros gs")
  case None
  have ne: "gs \<noteq> []" using assms(1) by auto
  then have "\<not> HasPrefix (showGroups gs) ''::''" using showGroups_start(2) [of gs "[]"] HasPrefix_hex by simp
  then show ?thesis
    using parseGroups_all [OF ne, of 8 "[]" None] assms None by (simp add: show6_def parse6_def expandGroups_def)
next
  case (Some ab)
  obtain a b where ab: "ab = (a, b)" by fastforce
  have run: "a + 2 \<le> b" "b \<le> 8" "take a gs @ replicate (b - a) 0 @ drop b gs = gs"
    using longestZeros_run [OF _ assms(1)] Some ab by (auto simp: zerosAt_def)
  have small: "\<forall>g \<in> set (take a gs). g < 65536" "\<forall>g \<in> set (drop b gs). g < 65536"
    using assms(2) by (auto dest: in_set_takeD in_set_dropD)
  let ?r = "showGroups (drop b gs)"
  have shown: "show6 gs = showGroups (take a gs) @ ''::'' @ ?r" using Some ab by (simp add: show6_def)
  have r: "?r = [] \<longleftrightarrow> drop b gs = []"
    using showGroups_start(1) [of "drop b gs" "[]"] by (cases "drop b gs") auto
  show ?thesis
  proof (cases "a = 0")
    case True
    then have eq: "show6 gs = ''::'' @ ?r" using shown by simp
    show ?thesis
    proof (cases "drop b gs = []")
      case nil: True
      then show ?thesis
        using run assms(1) True unfolding parse6_def eq by (simp add: HasPrefix_def)
    next
      case False
      have "parseGroups 8 ?r [] (Some 0) = Some ([] @ drop b gs, Some 0, [])"
        using small(2) assms(1) by (intro parseGroups_all [OF False]) auto
      then show ?thesis
        using run assms(1) True False r unfolding parse6_def eq by (simp add: HasPrefix_def expandGroups_def)
    qed
  next
    case False
    then have ne: "take a gs \<noteq> []" and len: "length (take a gs) = a" using assms(1) run by auto
    have np: "\<not> HasPrefix (show6 gs) ''::''" unfolding shown by (rule HasPrefix_hex [OF showGroups_start(2) [OF ne]])
    have split: "parseGroups 8 (show6 gs) [] None =
      (if ?r = [] then Some (take a gs, Some a, []) else parseGroups (8 - a) ?r (take a gs) (Some a))"
      unfolding shown using parseGroups_split [OF ne, of 8 ?r "[]"] small(1) assms(1) len run by simp
    also have "\<dots> = Some (take a gs @ drop b gs, Some a, [])"
    proof (cases "drop b gs = []")
      case False
      then have "parseGroups (8 - a) ?r (take a gs) (Some a) = Some (take a gs @ drop b gs, Some a, [])"
        using small(2) assms(1) run by (intro parseGroups_all) auto
      then show ?thesis using False r by simp
    qed (use r in simp)
    finally have "parse6 (show6 gs) = expandGroups (take a gs @ drop b gs, Some a, [])" using np by (simp add: parse6_def)
    moreover have "length (take a gs @ drop b gs) = 8 - (b - a)" using assms(1) run len by auto
    ultimately show ?thesis using run assms(1) len by (simp add: expandGroups_def)
  qed
qed

section \<open>The text form of an address\<close>

text \<open>The characters before the first separator decide which kind of address a text is.\<close>

lemma IndexAny_first:
  assumes "\<forall>c \<in> set s. c \<notin> set chars" "d \<in> set chars"
  shows "IndexAny (s @ d # t) chars = Some (length s)"
  unfolding IndexAny_def using assms by (intro index_of_append) auto

lemma hex_no_separator: "is_hex c \<Longrightarrow> c \<notin> set ''.:%''"
  using is_hex_separators by (auto simp: list.set)

lemma show_hex_no_separator: "c \<in> set (show_hex g) \<Longrightarrow> c \<notin> set ''.:%''"
  using show_hex_hex [of g] hex_no_separator by (simp add: list_all_iff)

lemma show6_colon:
  assumes "length gs = 8"
  shows "\<exists>p t. show6 gs = p @ CHR '':'' # t \<and> (\<forall>c \<in> set p. c \<notin> set ''.:%'')"
proof -
  have two: "\<exists>p t. showGroups hs @ s = p @ CHR '':'' # t \<and> (\<forall>c \<in> set p. c \<notin> set ''.:%'')" if "length hs \<ge> 2" for hs s
  proof -
    obtain h h' hs' where hs: "hs = h # h' # hs'" using \<open>length hs \<ge> 2\<close> by (cases hs; cases "tl hs") auto
    have "showGroups hs @ s = show_hex h @ CHR '':'' # showGroups (h' # hs') @ s" unfolding hs by simp
    then show ?thesis using show_hex_no_separator by blast
  qed
  show ?thesis
  proof (cases "longestZeros gs")
    case None
    then show ?thesis using two [of gs "[]"] assms by (simp add: show6_def)
  next
    case (Some ab)
    obtain a b where ab: "ab = (a, b)" by fastforce
    have eq: "show6 gs = showGroups (take a gs) @ ''::'' @ showGroups (drop b gs)" using Some ab by (simp add: show6_def)
    consider "take a gs = []" | h where "take a gs = [h]" | "length (take a gs) \<ge> 2"
      by (cases "take a gs"; cases "tl (take a gs)") auto
    then show ?thesis
    proof cases
      case 1
      then have "show6 gs = [] @ CHR '':'' # CHR '':'' # showGroups (drop b gs)" unfolding eq by (simp only: list.map intersperse.simps append_Nil append_Cons)
      then show ?thesis by (metis empty_iff empty_set)
    next
      case (2 h)
      then have "show6 gs = show_hex h @ CHR '':'' # CHR '':'' # showGroups (drop b gs)"
        unfolding eq by (simp only: list.map intersperse.simps append_Nil append_Cons)
      then show ?thesis using show_hex_no_separator by blast
    next
      case 3
      then show ?thesis unfolding eq by (rule two)
    qed
  qed
qed

lemma showGroups_chars: "c \<in> set (showGroups hs) \<Longrightarrow> is_hex c \<or> c = CHR '':''"
proof (induction hs)
  case (Cons h hs)
  then show ?case using show_hex_hex [of h] by (cases hs) (auto simp: list_all_iff)
qed simp

lemma show6_no_zone: "CHR ''%'' \<notin> set (show6 gs)"
proof -
  have "CHR ''%'' \<notin> set (showGroups hs)" for hs
    using showGroups_chars [of "CHR ''%''" hs] is_hex_separators(3) by auto
  then show ?thesis by (auto simp: show6_def split: option.splits)
qed

lemma ParseAddr_show4: "ParseAddr (show4 w) = Some (Addr4 w)"
proof -
  obtain b0 bs where bs: "octets w = b0 # bs" "bs \<noteq> []" by (simp add: octets_def)
  then obtain t where eq: "show4 w = show_nat b0 @ CHR ''.'' # t" by (cases bs) (auto simp: show4_def)
  have sep: "\<forall>d \<in> set ''.:%''. \<not> is_digit d" by code_simp
  have "\<forall>c \<in> set (show_nat b0). c \<notin> set ''.:%''"
    using show_nat_digits [of b0] sep unfolding list_all_iff by blast
  then have "IndexAny (show4 w) ''.:%'' = Some (length (show_nat b0))" unfolding eq by (rule IndexAny_first) simp
  moreover have "show4 w ! length (show_nat b0) = CHR ''.''" by (simp add: eq)
  ultimately show ?thesis by (simp add: ParseAddr_def parseIPv4_show4 ofOctets_octets)
qed

lemma ParseAddr_show6: "ParseAddr (show6 (groups w)) = Some (Addr6 w [])"
proof -
  obtain p t where eq: "show6 (groups w) = p @ CHR '':'' # t" and p: "\<forall>c \<in> set p. c \<notin> set ''.:%''"
    using show6_colon [OF groups_facts(1)] by blast
  have "IndexAny (show6 (groups w)) ''.:%'' = Some (length p)" unfolding eq using p by (rule IndexAny_first) simp
  moreover have "show6 (groups w) ! length p = CHR '':''" by (simp add: eq)
  moreover have "IndexByte (show6 (groups w)) CHR ''%'' = None"
    unfolding IndexByte_def index_of_None using show6_no_zone [of "groups w"] by auto
  ultimately show ?thesis
    using parse6_show6 [OF groups_facts] by (simp add: ParseAddr_def parseIPv6_def ofGroups_groups)
qed

text \<open>An address without a zone that is not an address of 4 bytes in disguise.\<close>

definition plain :: "Addr \<Rightarrow> bool" where
  "plain a \<longleftrightarrow> Unmap (WithZone [] a) = a"

lemma ParseAddr_AddrString: "plain a \<Longrightarrow> ParseAddr (AddrString a) = Some a"
  by (cases a) (auto simp: plain_def ParseAddr_show4 ParseAddr_show6 split: if_splits)

lemma plain_normal: "plain (WithZone [] (Unmap a))"
  by (cases a) (auto simp: plain_def)

lemma AddrString_inj: "plain a \<Longrightarrow> plain b \<Longrightarrow> AddrString a = AddrString b \<Longrightarrow> a = b"
  by (metis ParseAddr_AddrString option.inject)

end
