(* ===== verification/ClientIP.thy ===== *)
theory ClientIP
  imports NetipLaws RateLimits
begin

text \<open>
  Which address a request is counted under (\<open>src/server/client_ip.go\<close>), the configuration of the limiters from the
  environment, and the handler around the public interface (\<open>src/server/rest_rate_limiter.go\<close>).

  The environment and the files of the machine are arguments; \<open>time.ParseDuration\<close> is a parameter.
\<close>

section \<open>Lists of prefixes\<close>

record machine =
  os_LookupEnv :: "string \<Rightarrow> string option"
  os_ReadFile :: "string \<Rightarrow> string option"
  embeddedCloudflareIPs :: string
  time_ParseDuration :: "string \<Rightarrow> int option"

definition os_Getenv :: "machine \<Rightarrow> string \<Rightarrow> string" where
  "os_Getenv os name = (case os_LookupEnv os name of None \<Rightarrow> [] | Some v \<Rightarrow> v)"

record clientIPConfig =
  ci_trustedProxies :: "Prefix list"
  ci_cloudflarePrefixes :: "Prefix list"
  ci_trustPseudoIPv6 :: bool
  ci_trustedEnvName :: string
  ci_cloudflareEnvName :: string
  ci_pseudoIPv6EnvName :: string

text \<open>\<open>strconv.ParseBool\<close>.\<close>

definition ParseBool :: "string \<Rightarrow> bool option" where
  "ParseBool s =
     (if s \<in> {''1'', ''t'', ''T'', ''TRUE'', ''true'', ''True''} then Some True
      else if s \<in> {''0'', ''f'', ''F'', ''FALSE'', ''false'', ''False''} then Some False
      else None)"

definition parseBoolEnv :: "string \<Rightarrow> string \<Rightarrow> bool res" where
  "parseBoolEnv envName value =
     (let v = TrimSpace value in
      if v = [] then Inr False
      else case ParseBool v of None \<Rightarrow> Inl (ErrMsg (envName @ '': invalid value'')) | Some b \<Rightarrow> Inr b)"

definition lookupEnvWithFallback :: "machine \<Rightarrow> string \<Rightarrow> string \<Rightarrow> string \<times> string" where
  "lookupEnvWithFallback os primary fallback =
     (case os_LookupEnv os primary of
        Some v \<Rightarrow> (primary, v)
      | None \<Rightarrow> (case os_LookupEnv os fallback of Some v \<Rightarrow> (fallback, v) | None \<Rightarrow> (primary, [])))"

fun parseCIDRList :: "string \<Rightarrow> string list \<Rightarrow> Prefix list res" where
  "parseCIDRList envName [] = Inr []"
| "parseCIDRList envName (raw # raws) =
     (let raw = TrimSpace raw in
      if raw = [] then parseCIDRList envName raws
      else case ParsePrefix raw of
          None \<Rightarrow> Inl (ErrMsg (envName @ '': invalid CIDR''))
        | Some p \<Rightarrow>
            if Is4In6 (p_Addr p) then Inl (ErrMsg (envName @ '': refusing IPv4-mapped CIDR''))
            else bindR (parseCIDRList envName raws) (\<lambda>prefixes. Inr (Masked p # prefixes)))"

definition splitCIDRList :: "string \<Rightarrow> string list" where
  "splitCIDRList content =
     concat (map (\<lambda>line. splitOn CHR '','' (case IndexByte line CHR ''#'' of Some i \<Rightarrow> take i line | None \<Rightarrow> line))
       (splitOn CHR ''\<newline>'' content))"

definition parseCIDRSource :: "string \<Rightarrow> string \<Rightarrow> Prefix list res" where
  "parseCIDRSource envName content =
     bindR (parseCIDRList envName (splitCIDRList content)) (\<lambda>prefixes.
       if prefixes = [] then Inl (ErrMsg (envName @ '': no CIDRs'')) else Inr prefixes)"

definition tooBroad :: "Prefix \<Rightarrow> bool" where
  "tooBroad p \<longleftrightarrow> (Is4 (p_Addr p) \<and> p_Bits p < 8) \<or> (Is6 (p_Addr p) \<and> p_Bits p < 16)"

definition parseTrustedProxies :: "string \<Rightarrow> string \<Rightarrow> Prefix list res" where
  "parseTrustedProxies envName value =
     bindR (parseCIDRList envName (splitOn CHR '','' value)) (\<lambda>prefixes.
       if list_ex tooBroad prefixes then Inl (ErrMsg (envName @ '': refusing CIDR: prefix is too broad'')) else Inr prefixes)"

definition parseCloudflareProxies :: "machine \<Rightarrow> string \<Rightarrow> string \<Rightarrow> Prefix list res" where
  "parseCloudflareProxies os envName value =
     (let trimmed = TrimSpace value in
      if ToLower trimmed \<in> {[], ''builtin'', ''default''} then parseCIDRSource envName (embeddedCloudflareIPs os)
      else if ToLower trimmed \<in> {''off'', ''none'', ''false'', ''0'', ''disabled''} then Inr []
      else if HasPrefix trimmed ''@'' then
        (case os_ReadFile os (TrimSpace (drop 1 trimmed)) of
           None \<Rightarrow> Inl (ErrMsg (envName @ '': cannot read CIDR file''))
         | Some content \<Rightarrow> parseCIDRSource envName content)
      else parseCIDRSource envName trimmed)"

definition readClientIPConfig :: "machine \<Rightarrow> string \<Rightarrow> clientIPConfig res" where
  "readClientIPConfig os network =
     (let prefix = ToUpper network;
          (trustedEnvName, value) = lookupEnvWithFallback os (prefix @ ''_TRUSTED_PROXIES'') (prefix @ ''_WS_TRUSTED_PROXIES'') in
      bindR (parseTrustedProxies trustedEnvName value) (\<lambda>trusted.
        let (cloudflareEnvName, value) = lookupEnvWithFallback os (prefix @ ''_CLOUDFLARE_IPS'') (prefix @ ''_WS_CLOUDFLARE_IPS'') in
        bindR (parseCloudflareProxies os cloudflareEnvName value) (\<lambda>cloudflare.
          let pseudoIPv6EnvName = prefix @ ''_CLOUDFLARE_PSEUDO_IPV4'' in
          bindR (parseBoolEnv pseudoIPv6EnvName (os_Getenv os pseudoIPv6EnvName)) (\<lambda>trustPseudo.
            Inr \<lparr>ci_trustedProxies = trusted, ci_cloudflarePrefixes = cloudflare, ci_trustPseudoIPv6 = trustPseudo,
                 ci_trustedEnvName = trustedEnvName, ci_cloudflareEnvName = cloudflareEnvName,
                 ci_pseudoIPv6EnvName = pseudoIPv6EnvName\<rparr>))))"

section \<open>The address of a request\<close>

record httpRequest =
  rq_RemoteAddr :: string
  rq_Header :: "string \<Rightarrow> string"
  rq_Path :: string

definition parseAddr :: "string \<Rightarrow> Addr option" where
  "parseAddr value =
     (let value = TrimSpace value in
      if value = [] then None
      else map_option (\<lambda>addr. WithZone [] (Unmap addr)) (ParseAddr value))"

definition parseIP :: "string \<Rightarrow> string option" where
  "parseIP value = map_option AddrString (parseAddr value)"

definition isTrustedProxy :: "Addr \<Rightarrow> Prefix list \<Rightarrow> bool" where
  "isTrustedProxy addr extras \<longleftrightarrow> IsLoopback addr \<or> IsPrivate addr \<or> list_ex (\<lambda>p. Contains p addr) extras"

definition isWhitelistedIP :: "Addr \<Rightarrow> Prefix list \<Rightarrow> bool" where
  "isWhitelistedIP addr prefixes \<longleftrightarrow> list_ex (\<lambda>p. Contains p addr) prefixes"

definition isLocalOrTrustedProxyIP :: "string \<Rightarrow> Prefix list \<Rightarrow> bool" where
  "isLocalOrTrustedProxyIP ip trustedProxies =
     (case parseAddr ip of None \<Rightarrow> False | Some addr \<Rightarrow> isTrustedProxy addr trustedProxies)"

definition isBlockableKey :: "string \<Rightarrow> Prefix list \<Rightarrow> Prefix list \<Rightarrow> bool" where
  "isBlockableKey ip trustedProxies cloudflareProxies =
     (case parseAddr ip of
        None \<Rightarrow> False
      | Some addr \<Rightarrow>
          if IsLoopback addr \<or> IsPrivate addr \<or> IsLinkLocalUnicast addr \<or> IsUnspecified addr \<or> IsMulticast addr then False
          else \<not> list_ex (\<lambda>p. Contains p addr) trustedProxies \<and> \<not> list_ex (\<lambda>p. Contains p addr) cloudflareProxies)"

definition rateLimitKey :: "string \<Rightarrow> string" where
  "rateLimitKey ip =
     (case ParseAddr (TrimSpace ip) of
        None \<Rightarrow> ip
      | Some addr \<Rightarrow>
          let addr = WithZone [] (Unmap addr) in
          if Is6 addr then (case AddrPrefix 64 addr of Some p \<Rightarrow> PrefixString p | None \<Rightarrow> AddrString addr)
          else AddrString addr)"

definition blockKey :: "string \<Rightarrow> string" where
  "blockKey ip =
     (case ParseAddr (TrimSpace ip) of None \<Rightarrow> ip | Some addr \<Rightarrow> AddrString (WithZone [] (Unmap addr)))"

text \<open>The forwarding headers of Cloudflare, consulted without configured trusted proxies.\<close>

definition cloudflareIP :: "httpRequest \<Rightarrow> Addr option \<Rightarrow> Prefix list \<Rightarrow> bool \<Rightarrow> string option" where
  "cloudflareIP r remote cloudflareProxies trustPseudoIPv6 =
     (if cloudflareProxies = [] \<or> (case remote of None \<Rightarrow> False | Some a \<Rightarrow> isTrustedProxy a cloudflareProxies) then
        (case (if trustPseudoIPv6 then parseIP (rq_Header r ''CF-Connecting-IPv6'') else None) of
           Some ip \<Rightarrow> Some ip
         | None \<Rightarrow> parseIP (rq_Header r ''CF-Connecting-IP''))
      else None)"

definition resolveClientIP :: "httpRequest \<Rightarrow> Prefix list \<Rightarrow> Prefix list \<Rightarrow> bool \<Rightarrow> string \<times> bool \<times> bool" where
  "resolveClientIP r trustedProxies cloudflareProxies trustPseudoIPv6 =
     (let host = (case SplitHostPort (rq_RemoteAddr r) of None \<Rightarrow> rq_RemoteAddr r | Some (h, port) \<Rightarrow> h);
          remote = parseAddr host;
          cf = (if trustedProxies = [] then cloudflareIP r remote cloudflareProxies trustPseudoIPv6 else None);
          real = (case remote of
                    None \<Rightarrow> None
                  | Some a \<Rightarrow> if isTrustedProxy a trustedProxies then parseIP (rq_Header r ''X-Real-Ip'') else None);
          hadCFHeader = (rq_Header r ''CF-Connecting-IP'' \<noteq> [] \<or> rq_Header r ''CF-Connecting-IPv6'' \<noteq> []) in
      case cf of
        Some ip \<Rightarrow> (ip, cloudflareProxies \<noteq> [], True)
      | None \<Rightarrow>
          (case real of
             Some ip \<Rightarrow> (ip, True, True)
           | None \<Rightarrow>
               (case remote of
                  Some a \<Rightarrow> (AddrString a, \<not> hadCFHeader, False)
                | None \<Rightarrow> (TrimSpace (rq_RemoteAddr r), \<not> hadCFHeader, False))))"

section \<open>The configuration of the REST limiter\<close>

record restUILimiterConfig =
  cfg_rateLimit :: int
  cfg_rateWindow :: int
  cfg_burst :: int
  cfg_maxConcurrent :: int
  cfg_stateTTL :: int
  cfg_blockDuration :: int
  cfg_trustedProxies :: "Prefix list"
  cfg_cloudflareCIDRs :: "Prefix list"
  cfg_trustPseudoIPv6 :: bool
  cfg_whitelistPrefixes :: "Prefix list"

definition parseNonNegativeIntEnv :: "machine \<Rightarrow> string \<Rightarrow> int \<Rightarrow> int res" where
  "parseNonNegativeIntEnv os envName defaultValue =
     (let v = os_Getenv os envName in
      if v = [] then Inr defaultValue
      else case Atoi v of
          Inl e \<Rightarrow> Inl (ErrMsg (envName @ '': invalid value''))
        | Inr n \<Rightarrow> if n < 0 then Inl (ErrMsg (envName @ '': invalid value'')) else Inr n)"

definition parsePositiveDurationEnv :: "machine \<Rightarrow> string \<Rightarrow> int \<Rightarrow> int res" where
  "parsePositiveDurationEnv os envName defaultValue =
     (let v = os_Getenv os envName in
      if v = [] then Inr defaultValue
      else case time_ParseDuration os v of
          None \<Rightarrow> Inl (ErrMsg (envName @ '': invalid duration''))
        | Some d \<Rightarrow> if d \<le> 0 then Inl (ErrMsg (envName @ '': invalid duration'')) else Inr d)"

definition parseNonNegativeDurationEnv :: "machine \<Rightarrow> string \<Rightarrow> int \<Rightarrow> int res" where
  "parseNonNegativeDurationEnv os envName defaultValue =
     (let v = os_Getenv os envName in
      if v = [] then Inr defaultValue
      else case time_ParseDuration os v of
          None \<Rightarrow> Inl (ErrMsg (envName @ '': invalid duration''))
        | Some d \<Rightarrow> if d < 0 then Inl (ErrMsg (envName @ '': invalid duration'')) else Inr d)"

text \<open>The first of the two variables that is set names the addresses that are not limited.\<close>

fun readWhitelist :: "machine \<Rightarrow> string list \<Rightarrow> Prefix list res" where
  "readWhitelist os [] = Inr []"
| "readWhitelist os (envName # envNames) =
     (let whitelistValue = os_Getenv os envName in
      if whitelistValue = [] then readWhitelist os envNames
      else parseCIDRList envName (splitCIDRList whitelistValue))"

definition readRestUILimiterConfig :: "machine \<Rightarrow> string \<Rightarrow> restUILimiterConfig res" where
  "readRestUILimiterConfig os network =
     (let prefix = ToUpper network in
      bindR (parseNonNegativeIntEnv os (prefix @ ''_REST_UI_RATE_LIMIT'') 20) (\<lambda>rateLimit.
      bindR (parsePositiveDurationEnv os (prefix @ ''_REST_UI_RATE_WINDOW'') minute) (\<lambda>rateWindow.
      bindR (parseNonNegativeIntEnv os (prefix @ ''_REST_UI_BURST'') 20) (\<lambda>burst.
      if rateLimit > 0 \<and> burst \<le> 0 then Inl (ErrMsg (prefix @ ''_REST_UI_BURST: invalid value''))
      else
      bindR (parseNonNegativeIntEnv os (prefix @ ''_REST_UI_MAX_CONCURRENT'') 12) (\<lambda>maxConcurrent.
      bindR (parsePositiveDurationEnv os (prefix @ ''_REST_UI_STATE_TTL'') (10 * minute)) (\<lambda>stateTTL.
      bindR (parseNonNegativeDurationEnv os (prefix @ ''_REST_UI_BLOCK_DURATION'') 0) (\<lambda>blockDuration.
      bindR (readClientIPConfig os network) (\<lambda>clientIPCfg.
      bindR (readWhitelist os [prefix @ ''_REST_UI_WHITELIST_IPS'', ''REST_UI_WHITELIST_IPS'']) (\<lambda>whitelist.
      Inr \<lparr>cfg_rateLimit = rateLimit, cfg_rateWindow = rateWindow, cfg_burst = burst, cfg_maxConcurrent = maxConcurrent,
           cfg_stateTTL = stateTTL, cfg_blockDuration = blockDuration, cfg_trustedProxies = ci_trustedProxies clientIPCfg,
           cfg_cloudflareCIDRs = ci_cloudflarePrefixes clientIPCfg, cfg_trustPseudoIPv6 = ci_trustPseudoIPv6 clientIPCfg,
           cfg_whitelistPrefixes = whitelist\<rparr>)))))))))"

text \<open>No limiter is made where both limits are disabled.\<close>

definition newRestUIRateLimiter :: "machine \<Rightarrow> string \<Rightarrow> 'f restUIRateLimiter option res" where
  "newRestUIRateLimiter os network =
     bindR (readRestUILimiterConfig os network) (\<lambda>cfg.
       if cfg_rateLimit cfg = 0 \<and> cfg_maxConcurrent cfg = 0 then Inr None
       else Inr (Some \<lparr>rl_clients = [], rl_lastCleanup = zeroTime, rl_capWarned = False, rl_rateLimit = cfg_rateLimit cfg,
         rl_rateWindow = cfg_rateWindow cfg, rl_burst = cfg_burst cfg, rl_maxConcurrent = cfg_maxConcurrent cfg,
         rl_stateTTL = cfg_stateTTL cfg, rl_blockDuration = cfg_blockDuration cfg,
         rl_trustedProxies = cfg_trustedProxies cfg, rl_cloudflarePrefixes = cfg_cloudflareCIDRs cfg,
         rl_trustPseudoIPv6 = cfg_trustPseudoIPv6 cfg, rl_whitelistPrefixes = cfg_whitelistPrefixes cfg\<rparr>))"

definition configureConnectionLimits :: "machine \<Rightarrow> string \<Rightarrow> websocketConnectionLimiter res" where
  "configureConnectionLimits os network =
     (let prefix = ToUpper network in
      bindR (parseNonNegativeIntEnv os (prefix @ ''_WS_MAX_CONNECTIONS_PER_IP'') defaultWsMaxConnectionsPerIP) (\<lambda>maxConnections.
      bindR (parseNonNegativeIntEnv os (prefix @ ''_WS_MAX_CONNECTION_ATTEMPTS_PER_IP'') defaultWsMaxConnectionAttemptsPerIP) (\<lambda>maxAttempts.
      Inr (newWebsocketConnectionLimiter maxConnections maxAttempts))))"

section \<open>The handler around the public interface\<close>

definition isRateLimitedRoute :: "string \<Rightarrow> string \<Rightarrow> bool" where
  "isRateLimitedRoute reqPath basePath =
     (if \<not> HasPrefix reqPath basePath then False
      else
        let rel = TrimPrefix (TrimPrefix reqPath basePath) ''/'' in
        \<not> (rel = ''favicon.ico'' \<or> rel = ''openapi.yaml'' \<or> rel = ''test-websocket.html'' \<or> rel = ''websocket'' \<or>
           rel = ''api-docs'' \<or> HasPrefix rel ''static/'' \<or> HasPrefix rel ''api-docs/''))"

text \<open>
  What the handler does with a request: serve it without the limiter, serve it and release the key afterwards, serve it
  without a key to release, or answer that the rate limit is exceeded.
\<close>

datatype handling = ServeUnlimited | ServeThenRelease string | ServeUntracked | TooManyRequests restUILimitDecision

definition wrapPublic ::
  "'f float64 \<Rightarrow> string \<Rightarrow> httpRequest \<Rightarrow> int \<Rightarrow> 'f restUIRateLimiter \<Rightarrow> handling \<times> 'f restUIRateLimiter" where
  "wrapPublic fl basePath r now l =
     (if \<not> isRateLimitedRoute (rq_Path r) basePath then (ServeUnlimited, l)
      else
        let (ip, blockSafe, fromHeader) =
              resolveClientIP r (rl_trustedProxies l) (rl_cloudflarePrefixes l) (rl_trustPseudoIPv6 l) in
        if \<not> fromHeader \<and> isLocalOrTrustedProxyIP ip (rl_trustedProxies l) then (ServeUnlimited, l)
        else if rl_whitelistPrefixes l \<noteq> [] \<and>
          (case parseAddr ip of None \<Rightarrow> False | Some addr \<Rightarrow> isWhitelistedIP addr (rl_whitelistPrefixes l))
        then (ServeUnlimited, l)
        else
          let ipKey = rateLimitKey ip;
              bKey = (if rl_blockDuration l > 0 then blockKey ip else []);
              blockable = (rl_blockDuration l > 0 \<and> blockSafe \<and>
                           isBlockableKey ip (rl_trustedProxies l) (rl_cloudflarePrefixes l));
              (decision, l) = rl_accept fl ipKey bKey blockable now l in
          if \<not> rd_accepted decision then (TooManyRequests decision, l)
          else if \<not> rd_untracked decision then (ServeThenRelease ipKey, l)
          else (ServeUntracked, l))"

section \<open>The limits of the websocket server\<close>

record wsLimitConfig =
  wsc_messageRateLimit :: int
  wsc_messageRateWindow :: int
  wsc_ipBlockDuration :: int
  wsc_ipBlockEnabled :: bool

definition configureMessageRateLimit :: "machine \<Rightarrow> string \<Rightarrow> wsLimitConfig res" where
  "configureMessageRateLimit os network =
     (let prefix = ToUpper network in
      bindR (parseNonNegativeIntEnv os (prefix @ ''_WS_MESSAGE_RATE_LIMIT'') 2500) (\<lambda>messageRateLimit.
      bindR (parsePositiveDurationEnv os (prefix @ ''_WS_MESSAGE_RATE_WINDOW'') (10 * minute)) (\<lambda>messageRateWindow.
      bindR (parseNonNegativeDurationEnv os (prefix @ ''_WS_IP_BLOCK_DURATION'') (720 * minute)) (\<lambda>ipBlockDuration.
      Inr \<lparr>wsc_messageRateLimit = messageRateLimit, wsc_messageRateWindow = messageRateWindow,
           wsc_ipBlockDuration = ipBlockDuration,
           wsc_ipBlockEnabled = (messageRateLimit > 0 \<and> ipBlockDuration > 0)\<rparr>))))"

section \<open>Laws of the keys\<close>

lemma TrimSpace_no_space: "\<forall>c \<in> set s. \<not> is_space c \<Longrightarrow> TrimSpace s = s"
proof -
  assume s: "\<forall>c \<in> set s. \<not> is_space c"
  have "dropWhile is_space t = t" if "\<forall>c \<in> set t. \<not> is_space c" for t using that by (cases t) auto
  from this [of s] this [of "rev s"] show ?thesis using s by (simp add: TrimSpace_def)
qed

lemma is_space_digits: "is_digit c \<Longrightarrow> \<not> is_space c" "is_hex c \<Longrightarrow> \<not> is_space c"
  by (auto simp: is_space_def is_digit_def is_hex_def hex_digit_val_def Let_def)

lemma show4_no_space: "c \<in> set (show4 w) \<Longrightarrow> \<not> is_space c"
proof -
  have dot: "\<not> is_space CHR ''.''" by code_simp
  have "\<not> is_space c" if "c \<in> set (intersperse ''.'' (map show_nat bs))" for bs
    using that
  proof (induction bs)
    case (Cons b bs)
    then show ?case using show_nat_digits [of b] dot is_space_digits(1) by (cases bs) (auto simp: list_all_iff)
  qed simp
  then show "c \<in> set (show4 w) \<Longrightarrow> ?thesis" by (simp add: show4_def)
qed

lemma show6_no_space: "c \<in> set (show6 gs) \<Longrightarrow> \<not> is_space c"
proof -
  have colon: "\<not> is_space CHR '':''" by code_simp
  have "\<not> is_space c" if "c \<in> set (showGroups hs)" for hs
    using showGroups_chars [OF that] colon is_space_digits(2) by auto
  then show "c \<in> set (show6 gs) \<Longrightarrow> ?thesis" using colon by (auto simp: show6_def split: option.splits)
qed

lemma TrimSpace_AddrString: "plain a \<Longrightarrow> TrimSpace (AddrString a) = AddrString a"
  by (cases a) (auto simp: plain_def show4_no_space show6_no_space split: if_splits intro!: TrimSpace_no_space)

lemma AddrString_neq_Nil: "plain a \<Longrightarrow> AddrString a \<noteq> []"
  using ParseAddr_AddrString [of a] by (auto simp: ParseAddr_def IndexAny_def)

lemma parseAddr_AddrString: "plain a \<Longrightarrow> parseAddr (AddrString a) = Some a"
  by (cases a)
    (auto simp: parseAddr_def TrimSpace_AddrString AddrString_neq_Nil ParseAddr_AddrString plain_def Let_def split: if_splits
      simp del: AddrString.simps)

lemma parseAddr_plain: "parseAddr s = Some a \<Longrightarrow> plain a"
  by (auto simp: parseAddr_def Let_def plain_normal split: if_splits)

lemma normal_plain: "plain a \<Longrightarrow> WithZone [] (Unmap a) = a"
  by (cases a) (auto simp: plain_def split: if_splits)

lemma blockKey_plain: "plain a \<Longrightarrow> blockKey (AddrString a) = AddrString a"
  by (simp add: blockKey_def TrimSpace_AddrString ParseAddr_AddrString normal_plain)

lemma mask64_plain: "plain (Addr6 (push_bit 64 (drop_bit 64 w)) [])"
proof -
  have "\<not> bit (drop_bit 32 (push_bit 64 (drop_bit 64 w)) :: 128 word) 0" by (simp add: bit_simps)
  moreover have "bit (0xffff :: 128 word) 0" by simp
  ultimately have "drop_bit 32 (push_bit 64 (drop_bit 64 w)) \<noteq> (0xffff :: 128 word)" by metis
  then show ?thesis by (simp add: plain_def)
qed

lemma mask64_inj: "push_bit 64 (drop_bit 64 v) = push_bit 64 (drop_bit 64 w) \<longleftrightarrow> drop_bit 64 v = drop_bit 64 (w :: 128 word)"
proof
  assume eq: "push_bit 64 (drop_bit 64 v) = push_bit 64 (drop_bit 64 w)"
  show "drop_bit 64 v = drop_bit 64 w"
  proof (rule bit_word_eqI)
    fix n assume "n < LENGTH(128)"
    have "bit (push_bit 64 (drop_bit 64 v)) (n + 64) = bit (push_bit 64 (drop_bit 64 w)) (n + 64)" by (simp only: eq)
    then show "bit (drop_bit 64 v) n = bit (drop_bit 64 w) n"
      by (cases "n < 64") (auto simp: bit_simps add.commute dest: bit_imp_le_length)
  qed
qed simp

lemma blockKey_parseAddr: "parseAddr s = Some a \<Longrightarrow> blockKey s = AddrString a"
  by (auto simp: parseAddr_def blockKey_def Let_def split: if_splits)

fun clientOf :: "Addr \<Rightarrow> 32 word + 64 word" where
  "clientOf (Addr4 w) = Inl w"
| "clientOf (Addr6 w z) = Inr (ucast (drop_bit 64 w))"

lemma rateLimitKey_parseAddr:
  assumes "parseAddr s = Some a"
  shows "rateLimitKey s =
    (case a of Addr4 w \<Rightarrow> show4 w
     | Addr6 w z \<Rightarrow> AddrString (Addr6 (push_bit 64 (drop_bit 64 w)) []) @ ''/64'')"
proof -
  have "show_nat 64 = ''64''" by (simp add: show_nat.simps dec_digit_def)
  then show ?thesis
    using assms by (cases a) (auto simp: parseAddr_def rateLimitKey_def Let_def Is6_def PrefixString_def split: if_splits
        simp del: AddrString.simps(2))
qed

lemma show4_no_slash: "CHR ''/'' \<notin> set (show4 w)"
proof -
  have slash: "\<not> is_digit CHR ''/''" by code_simp
  have "CHR ''/'' \<notin> set (intersperse ''.'' (map show_nat bs))" for bs
  proof (induction bs)
    case (Cons b bs)
    then show ?case using show_nat_no [OF slash] by (cases bs) auto
  qed simp
  then show ?thesis by (simp add: show4_def)
qed

lemma ucast_drop64: "(ucast (drop_bit 64 v) :: 64 word) = ucast (drop_bit 64 w) \<longleftrightarrow> drop_bit 64 v = drop_bit 64 (w :: 128 word)"
proof
  assume eq: "(ucast (drop_bit 64 v) :: 64 word) = ucast (drop_bit 64 w)"
  show "drop_bit 64 v = drop_bit 64 w"
  proof (rule bit_word_eqI)
    fix n assume "n < LENGTH(128)"
    have "bit (ucast (drop_bit 64 v) :: 64 word) n = bit (ucast (drop_bit 64 w) :: 64 word) n" by (simp only: eq)
    then show "bit (drop_bit 64 v) n = bit (drop_bit 64 w) n"
      by (cases "n < 64") (auto simp: bit_simps add.commute dest: bit_imp_le_length)
  qed
qed simp

text \<open>C35: The keys clients are counted and blocked under. Whatever text forms two addresses have (zones, IPv4 addresses in
  IPv6 notation, zeros written out or not), the keys of a block are equal exactly when the addresses are, and the
  keys of the rate limit are equal exactly when the addresses are the same IPv4 address or share the first 64 bits of an
  IPv6 address. So no two clients share a block, and no IPv6 client escapes the rate limit by changing its low bits.
\<close>

theorem client_keys:
  assumes "parseAddr s = Some a" and "parseAddr t = Some b"
  shows "(blockKey s = blockKey t \<longleftrightarrow> a = b) \<and> (rateLimitKey s = rateLimitKey t \<longleftrightarrow> clientOf a = clientOf b)"
proof -
  note plain = parseAddr_plain [OF assms(1)] parseAddr_plain [OF assms(2)]
  have keys: "AddrString (Addr6 (push_bit 64 (drop_bit 64 v)) []) = AddrString (Addr6 (push_bit 64 (drop_bit 64 w)) []) \<longleftrightarrow>
      drop_bit 64 v = drop_bit 64 w" for v w :: "128 word"
    using AddrString_inj [OF mask64_plain mask64_plain, of v w] mask64_inj [of v w] by (metis Addr.inject(2))
  have four: "show4 v = show4 w \<longleftrightarrow> v = w" for v w
    using ParseAddr_show4 [of v] ParseAddr_show4 [of w] by (metis Addr.inject(1) option.inject)
  have mixed: "show4 v \<noteq> u @ ''/64''" "u @ ''/64'' \<noteq> show4 v" for v u
  proof -
    have "CHR ''/'' \<in> set (u @ ''/64'')" by simp
    then show "show4 v \<noteq> u @ ''/64''" "u @ ''/64'' \<noteq> show4 v" using show4_no_slash [of v] by metis+
  qed
  have "rateLimitKey s = rateLimitKey t \<longleftrightarrow> clientOf a = clientOf b"
    unfolding rateLimitKey_parseAddr [OF assms(1)] rateLimitKey_parseAddr [OF assms(2)]
    by (cases a; cases b)
      (simp_all only: Addr.case clientOf.simps sum.inject sum.distinct append_same_eq keys four mixed ucast_drop64)
  moreover have "blockKey s = blockKey t \<longleftrightarrow> a = b"
    unfolding blockKey_parseAddr [OF assms(1)] blockKey_parseAddr [OF assms(2)] using AddrString_inj [OF plain] by auto
  ultimately show ?thesis by blast
qed

theorem client_keys_witness:
  "(blockKey (show4 1) = blockKey (show4 2) \<longleftrightarrow> Addr4 1 = Addr4 2) \<and>
   (rateLimitKey (show4 1) = rateLimitKey (show4 2) \<longleftrightarrow> clientOf (Addr4 1) = clientOf (Addr4 2))"
  using client_keys [of "show4 1" "Addr4 1" "show4 2" "Addr4 2"] parseAddr_AddrString [of "Addr4 1"] parseAddr_AddrString [of "Addr4 2"]
  by (simp add: plain_def)

text \<open>C36: Forwarding headers of a stranger are ignored. For a request whose connection comes from an address that is neither
  loopback nor private nor in a configured trusted range, and with peer verification against the ranges of Cloudflare
  enabled and the address in none of them, the address the request is counted under is the address of the connection,
  whatever headers the request carries, and it is not marked as coming from a header.
\<close>

theorem no_spoofing:
  assumes "SplitHostPort (rq_RemoteAddr r) = Some (host, port)" and "parseAddr host = Some a"
    and "\<not> isTrustedProxy a trustedProxies" and "\<not> isTrustedProxy a cloudflareProxies" and "cloudflareProxies \<noteq> []"
  shows "\<exists>blockSafe. resolveClientIP r trustedProxies cloudflareProxies trustPseudoIPv6 = (AddrString a, blockSafe, False) \<and>
    (blockSafe \<longleftrightarrow> rq_Header r ''CF-Connecting-IP'' = [] \<and> rq_Header r ''CF-Connecting-IPv6'' = [])"
  using assms by (auto simp: resolveClientIP_def cloudflareIP_def Let_def)

definition spoofedRequest :: httpRequest where
  "spoofedRequest = \<lparr>rq_RemoteAddr = ''8.8.8.8:1234'', rq_Header = (\<lambda>name. ''1.2.3.4''), rq_Path = ''/api/v2''\<rparr>"

theorem no_spoofing_witness:
  "\<exists>blockSafe. resolveClientIP spoofedRequest [] [\<lparr>p_Addr = Addr4 0xadf53000, p_Bits = 20\<rparr>] True =
     (AddrString (Addr4 0x08080808), blockSafe, False) \<and> \<not> blockSafe"
proof -
  have "SplitHostPort ''8.8.8.8:1234'' = Some (''8.8.8.8'', ''1234'')" by code_simp
  moreover have "parseAddr ''8.8.8.8'' = Some (Addr4 0x08080808)" by code_simp
  moreover have "\<not> isTrustedProxy (Addr4 0x08080808) []" by code_simp
  moreover have "\<not> isTrustedProxy (Addr4 0x08080808) [\<lparr>p_Addr = Addr4 0xadf53000, p_Bits = 20\<rparr>]" by code_simp
  ultimately show ?thesis
    using no_spoofing [of spoofedRequest "''8.8.8.8''" "''1234''" "Addr4 0x08080808" "[]"
        "[\<lparr>p_Addr = Addr4 0xadf53000, p_Bits = 20\<rparr>]" True]
    by (simp add: spoofedRequest_def)
qed

end
