(* ===== verification/EthContracts.thy ===== *)
theory EthContracts
  imports InternalState Blocks
begin

text \<open>
  The token holdings of an address of an Ethereum-type chain and the rows of the column addressContracts
  (\<open>src/db/rocksdb_ethereumtype.go\<close>): the sorted lists of token ids and of values of multi tokens, the format of the
  rows, and the form with lazily decoded numbers that the connection of blocks works on.
\<close>

section \<open>Tokens\<close>

text \<open>\<open>TokenStandard\<close> is an integer type with three named values.\<close>

definition FungibleToken :: int where
  "FungibleToken = 0"

definition NonFungibleToken :: int where
  "NonFungibleToken = 1"

definition MultiToken :: int where
  "MultiToken = 2"

record MultiTokenValue =
  mtv_Id :: int
  mtv_Value :: int

record TokenTransfer =
  tt_Standard :: int
  tt_Contract :: string
  tt_From :: string
  tt_To :: string
  tt_Value :: int
  tt_MultiTokenValues :: "MultiTokenValue list"

definition EthereumTypeAddressDescriptorLen :: int where
  "EthereumTypeAddressDescriptorLen = 20"

definition EthereumTypeTxidLen :: int where
  "EthereumTypeTxidLen = 32"

definition ContractIndexOffset :: int where
  "ContractIndexOffset = 2"

section \<open>Ids of tokens\<close>

text \<open>\<open>CmpAbs\<close> compares absolute values.\<close>

definition Ids_search :: "int \<Rightarrow> int list \<Rightarrow> nat" where
  "Ids_search tokenId s = sort_Search (length s) (\<lambda>i. \<bar>s ! i\<bar> \<ge> \<bar>tokenId\<bar>)"

definition Ids_insert :: "int \<Rightarrow> int list \<Rightarrow> int list" where
  "Ids_insert tokenId s =
     (let i = Ids_search tokenId s in
      if i < length s \<and> \<bar>s ! i\<bar> = \<bar>tokenId\<bar> then s
      else if i = length s then s @ [tokenId]
      else (take (i + 1) s @ drop i s)[i := tokenId])"

definition Ids_remove :: "int \<Rightarrow> int list \<Rightarrow> int list" where
  "Ids_remove tokenId s =
     (let i = Ids_search tokenId s in
      if i < length s \<and> \<bar>s ! i\<bar> = \<bar>tokenId\<bar> then take i s @ drop (i + 1) s else s)"

section \<open>Values of multi tokens\<close>

text \<open>The function that changes a value: \<open>aggregate(s, v)\<close> stores into \<open>s\<close>.\<close>

type_synonym AggregateFn = "int \<Rightarrow> int \<Rightarrow> int"

definition MultiTokenValues_search :: "MultiTokenValue \<Rightarrow> MultiTokenValue list \<Rightarrow> nat" where
  "MultiTokenValues_search m s = sort_Search (length s) (\<lambda>i. \<bar>mtv_Id (s ! i)\<bar> \<ge> \<bar>mtv_Id m\<bar>)"

definition MultiTokenValues_upsert ::
  "MultiTokenValue \<Rightarrow> int \<Rightarrow> AggregateFn \<Rightarrow> MultiTokenValue list \<Rightarrow> MultiTokenValue list" where
  "MultiTokenValues_upsert m idx aggregate s =
     (let i = MultiTokenValues_search m s in
      if i < length s \<and> \<bar>mtv_Id (s ! i)\<bar> = \<bar>mtv_Id m\<bar> then
        let s = s[i := (s ! i)\<lparr>mtv_Value := aggregate (mtv_Value (s ! i)) (mtv_Value m)\<rparr>] in
        if idx < 0 \<and> mtv_Value (s ! i) = 0 then take i s @ drop (i + 1) s else s
      else if idx \<ge> 0 then
        let elem = \<lparr>mtv_Id = mtv_Id m, mtv_Value = mtv_Value m\<rparr> in
        if i = length s then s @ [elem] else (take (i + 1) s @ drop i s)[i := elem]
      else s)"

section \<open>Rows of the column addressContracts\<close>

record AddrContract =
  ac_Standard :: int
  ac_Contract :: bytes
  ac_Txs :: uint64
  ac_Value :: int
  ac_Ids :: "int list"
  ac_MultiTokenValues :: "MultiTokenValue list"

record AddrContracts =
  acs_TotalTxs :: uint64
  acs_NonContractTxs :: uint64
  acs_InternalTxs :: uint64
  acs_Contracts :: "AddrContract list"

definition packMultiTokenValue :: "MultiTokenValue \<Rightarrow> bytes" where
  "packMultiTokenValue m = packBigint (mtv_Id m) @ packBigint (mtv_Value m)"

definition packAddrContract :: "vlq_lib \<Rightarrow> AddrContract \<Rightarrow> bytes" where
  "packAddrContract v ac =
     ac_Contract ac @ packVaruint v (word_of_int (ac_Standard ac) + push_bit 2 (ac_Txs ac)) @
     (if ac_Standard ac = FungibleToken then packBigint (ac_Value ac)
      else if ac_Standard ac = NonFungibleToken
      then packVaruint v (of_nat (length (ac_Ids ac))) @ concat (map packBigint (ac_Ids ac))
      else packVaruint v (of_nat (length (ac_MultiTokenValues ac))) @ concat (map packMultiTokenValue (ac_MultiTokenValues ac)))"

definition packAddrContractsV6 :: "vlq_lib \<Rightarrow> AddrContracts \<Rightarrow> bytes" where
  "packAddrContractsV6 v acs =
     packVaruint v (acs_TotalTxs acs) @ packVaruint v (acs_NonContractTxs acs) @ packVaruint v (acs_InternalTxs acs) @
     concat (map (packAddrContract v) (acs_Contracts acs))"

definition packAddrContracts :: "vlq_lib \<Rightarrow> AddrContracts \<Rightarrow> bytes" where
  "packAddrContracts v acs =
     packVaruint v (acs_TotalTxs acs) @ packVaruint v (acs_NonContractTxs acs) @ packVaruint v (acs_InternalTxs acs) @
     packVaruint v (of_nat (length (acs_Contracts acs))) @
     concat (map (packAddrContract v) (acs_Contracts acs))"

definition unpackMultiTokenValue :: "bytes \<Rightarrow> (MultiTokenValue \<times> int) option" where
  "unpackMultiTokenValue buf = do {
     (i, l) \<leftarrow> unpackBigint buf;
     b \<leftarrow> slice_from buf l;
     (value, ll) \<leftarrow> unpackBigint b;
     Some (\<lparr>mtv_Id = i, mtv_Value = value\<rparr>, l + ll)
   }"

text \<open>
  One round of the loop over the contracts of a row: the contract and the number of bytes it takes. The check of the
  length is the caller's.
\<close>

definition unpackAddrContract :: "vlq_lib \<Rightarrow> bytes \<Rightarrow> (AddrContract \<times> int) option" where
  "unpackAddrContract v buf = do {
     contract \<leftarrow> slice buf 0 EthereumTypeAddressDescriptorLen;
     b \<leftarrow> slice_from buf EthereumTypeAddressDescriptorLen;
     let (txs, l) = unpackVaruint v b;
     let l = EthereumTypeAddressDescriptorLen + l;
     b \<leftarrow> slice_from buf l;
     let standard = uint (txs AND 3);
     let ac = \<lparr>ac_Standard = standard, ac_Contract = contract, ac_Txs = drop_bit 2 txs, ac_Value = 0, ac_Ids = [],
               ac_MultiTokenValues = []\<rparr>;
     if standard = FungibleToken then do {
       (value, ll) \<leftarrow> unpackBigint b;
       Some (ac\<lparr>ac_Value := value\<rparr>, l + ll)
     } else do {
       let (n, ll) = unpackVaruint v b;
       if standard = NonFungibleToken then do {
         (ids, l) \<leftarrow> unpack_n unpackBigint (unat n) buf (l + ll);
         Some (ac\<lparr>ac_Ids := ids\<rparr>, l)
       } else do {
         (values, l) \<leftarrow> unpack_n unpackMultiTokenValue (unat n) buf (l + ll);
         Some (ac\<lparr>ac_MultiTokenValues := values\<rparr>, l)
       }
     }
   }"

text \<open>
  The loop while bytes are left. Every round consumes at least the address of a contract; the counter, started with the
  length of the row, bounds the number of rounds.
\<close>

fun unpackContractsLoop :: "nat \<Rightarrow> vlq_lib \<Rightarrow> bytes \<Rightarrow> AddrContract list res" where
  "unpackContractsLoop fuel v buf =
     (if length buf > 0 then
        if int (length buf) < EthereumTypeAddressDescriptorLen
        then Inl (ErrMsg ''Invalid data stored in cfAddressContracts'')
        else (case fuel of
            0 \<Rightarrow> Inl Panic
          | Suc fuel \<Rightarrow>
              bindR (of_panic (unpackAddrContract v buf)) (\<lambda>(ac, l).
              bindR (of_panic (slice_from buf l)) (\<lambda>buf.
              bindR (unpackContractsLoop fuel v buf) (\<lambda>acs. Inr (ac # acs)))))
      else Inr [])"

declare unpackContractsLoop.simps [simp del]

definition unpackAddrContractsV6 :: "vlq_lib \<Rightarrow> bytes \<Rightarrow> AddrContracts res" where
  "unpackAddrContractsV6 v buf =
     (let (tt, l) = unpackVaruint v buf in
      bindR (of_panic (slice_from buf l)) (\<lambda>buf. let (nct, l) = unpackVaruint v buf in
      bindR (of_panic (slice_from buf l)) (\<lambda>buf. let (ict, l) = unpackVaruint v buf in
      bindR (of_panic (slice_from buf l)) (\<lambda>buf.
      bindR (unpackContractsLoop (length buf) v buf) (\<lambda>c.
        Inr \<lparr>acs_TotalTxs = tt, acs_NonContractTxs = nct, acs_InternalTxs = ict, acs_Contracts = c\<rparr>)))))"

text \<open>
  The number of contracts is read but only sizes the slice; a number that is too large for an allocation, which no row
  that the index wrote has, is not treated separately.
\<close>

definition unpackAddrContracts :: "vlq_lib \<Rightarrow> bytes \<Rightarrow> AddrContracts res" where
  "unpackAddrContracts v buf =
     (let (tt, l) = unpackVaruint v buf in
      bindR (of_panic (slice_from buf l)) (\<lambda>buf. let (nct, l) = unpackVaruint v buf in
      bindR (of_panic (slice_from buf l)) (\<lambda>buf. let (ict, l) = unpackVaruint v buf in
      bindR (of_panic (slice_from buf l)) (\<lambda>buf. let (cl, l) = unpackVaruint v buf in
      bindR (of_panic (slice_from buf l)) (\<lambda>buf.
      bindR (unpackContractsLoop (length buf) v buf) (\<lambda>c.
        Inr \<lparr>acs_TotalTxs = tt, acs_NonContractTxs = nct, acs_InternalTxs = ict, acs_Contracts = c\<rparr>))))))"

definition unpackVaruintSafe :: "vlq_lib \<Rightarrow> bytes \<Rightarrow> (uint64 \<times> int) option" where
  "unpackVaruintSafe v buf =
     (if length buf = 0 then None
      else let (ui, l) = unpackVaruint v buf in if l \<le> 0 \<or> l > int (length buf) then None else Some (ui, l))"

text \<open>The three counters of a row, without the contracts.\<close>

fun unpackCounters :: "nat \<Rightarrow> vlq_lib \<Rightarrow> bytes \<Rightarrow> uint64 list res" where
  "unpackCounters 0 v buf = Inr []"
| "unpackCounters (Suc n) v buf =
     (case unpackVaruintSafe v buf of
        None \<Rightarrow> Inl (ErrMsg ''Invalid data stored in cfAddressContracts'')
      | Some (c, l) \<Rightarrow>
          bindR (of_panic (slice_from buf l)) (\<lambda>buf. bindR (unpackCounters n v buf) (\<lambda>cs. Inr (c # cs))))"

definition unpackAddrContractsHeader :: "vlq_lib \<Rightarrow> bytes \<Rightarrow> AddrContracts res" where
  "unpackAddrContractsHeader v buf =
     bindR (unpackCounters 3 v buf) (\<lambda>counters.
       Inr \<lparr>acs_TotalTxs = counters ! 0, acs_NonContractTxs = counters ! 1, acs_InternalTxs = counters ! 2,
            acs_Contracts = []\<rparr>)"

definition storeAddressContracts :: "vlq_lib \<Rightarrow> (bytes \<times> AddrContracts option) list \<Rightarrow> wbatch" where
  "storeAddressContracts v acm =
     map (\<lambda>(addrDesc, acs).
       case acs of
         None \<Rightarrow> DeleteCF cfAddressContracts addrDesc
       | Some acs \<Rightarrow>
           if acs_NonContractTxs acs = 0 \<and> acs_InternalTxs acs = 0 \<and> acs_Contracts acs = []
           then DeleteCF cfAddressContracts addrDesc
           else PutCF cfAddressContracts addrDesc (packAddrContracts v acs)) acm"

definition GetAddrDescContracts :: "vlq_lib \<Rightarrow> view \<Rightarrow> bytes \<Rightarrow> bool \<Rightarrow> AddrContracts option res" where
  "GetAddrDescContracts v get addrDesc headerOnly =
     bindR (get cfAddressContracts addrDesc) (\<lambda>val.
       let buf = val_Data val in
       if buf = [] then Inr None
       else if headerOnly then bindR (unpackAddrContractsHeader v buf) (\<lambda>acs. Inr (Some acs))
       else bindR (unpackAddrContracts v buf) (\<lambda>acs. Inr (Some acs)))"

end
