(* ===== verification/Caches.thy ===== *)
theory Caches
  imports InternalState "HOL-Library.Signed_Division"
begin

text \<open>
  The caches with bounded size: the addresses with many lookups (\<open>src/db/address_hotness.go\<close>), the contract metadata
  (\<open>src/db/contract_info_cache.go\<close>) and the verdicts of contract probes (\<open>src/api/probe_cache.go\<close>). All three keep a
  list of the standard library from the most to the least recently used element and a map from keys to the elements of
  the list. An element has an identity, so the map holds references and the list holds the values.
\<close>

section \<open>container/list\<close>

type_synonym 'v golist = "(nat \<times> 'v) list"

definition list_MoveToFront :: "nat \<Rightarrow> 'v golist \<Rightarrow> 'v golist" where
  "list_MoveToFront el order = (case map_of order el of None \<Rightarrow> order | Some v \<Rightarrow> (el, v) # AList.delete el order)"

definition list_Remove :: "nat \<Rightarrow> 'v golist \<Rightarrow> 'v golist" where
  "list_Remove el order = AList.delete el order"

definition list_Back :: "'v golist \<Rightarrow> (nat \<times> 'v) option" where
  "list_Back order = (if order = [] then None else Some (last order))"

text \<open>
  A cache: the capacity, the list, the map, and the identity of the next element. The steps that the three caches
  have in common are the lookup of an element, the push of a new one, and the eviction of the last one when the list
  has become longer than the capacity. \<open>keyOf\<close> reads the key from the value of an element.
\<close>

record ('k, 'v) lruCache =
  lru_capacity :: int
  lru_order :: "'v golist"
  lru_items :: "('k \<times> nat) list"
  lru_next :: nat

definition newLRU :: "int \<Rightarrow> ('k, 'v) lruCache option" where
  "newLRU capacity =
     (if capacity \<le> 0 then None
      else Some \<lparr>lru_capacity = capacity, lru_order = [], lru_items = [], lru_next = 0\<rparr>)"

definition lru_element :: "'k \<Rightarrow> ('k, 'v) lruCache \<Rightarrow> (nat \<times> 'v) option" where
  "lru_element key c =
     (case map_of (lru_items c) key of
        None \<Rightarrow> None
      | Some el \<Rightarrow> map_option (Pair el) (map_of (lru_order c) el))"

definition lru_touch :: "nat \<Rightarrow> ('k, 'v) lruCache \<Rightarrow> ('k, 'v) lruCache" where
  "lru_touch el c = c\<lparr>lru_order := list_MoveToFront el (lru_order c)\<rparr>"

definition lru_drop :: "'k \<Rightarrow> nat \<Rightarrow> ('k, 'v) lruCache \<Rightarrow> ('k, 'v) lruCache" where
  "lru_drop key el c = c\<lparr>lru_order := list_Remove el (lru_order c), lru_items := AList.delete key (lru_items c)\<rparr>"

definition lru_push :: "'k \<Rightarrow> 'v \<Rightarrow> ('k, 'v) lruCache \<Rightarrow> ('k, 'v) lruCache" where
  "lru_push key v c =
     c\<lparr>lru_order := (lru_next c, v) # lru_order c, lru_items := AList.update key (lru_next c) (lru_items c),
       lru_next := lru_next c + 1\<rparr>"

definition lru_evict :: "('v \<Rightarrow> 'k) \<Rightarrow> ('k, 'v) lruCache \<Rightarrow> 'k option \<times> ('k, 'v) lruCache" where
  "lru_evict keyOf c =
     (if int (length (lru_order c)) \<le> lru_capacity c then (None, c)
      else case list_Back (lru_order c) of
        None \<Rightarrow> (None, c)
      | Some (el, v) \<Rightarrow> (Some (keyOf v), lru_drop (keyOf v) el c))"

section \<open>Addresses with many lookups\<close>

type_synonym hotAddressLRU = "(bytes, bytes) lruCache"

definition hotLRU_touch :: "bytes \<Rightarrow> hotAddressLRU option \<Rightarrow> bool \<times> hotAddressLRU option" where
  "hotLRU_touch key l =
     (case l of
        None \<Rightarrow> (False, None)
      | Some l \<Rightarrow>
          (case lru_element key l of
             Some (el, _) \<Rightarrow> (True, Some (lru_touch el l))
           | None \<Rightarrow> (False, Some l)))"

definition hotLRU_add :: "bytes \<Rightarrow> hotAddressLRU option \<Rightarrow> bytes option \<times> hotAddressLRU option" where
  "hotLRU_add key l =
     (case l of
        None \<Rightarrow> (None, None)
      | Some l \<Rightarrow>
          (case lru_element key l of
             Some (el, _) \<Rightarrow> (None, Some (lru_touch el l))
           | None \<Rightarrow> apsnd Some (lru_evict (\<lambda>k. k) (lru_push key key l))))"

text \<open>The function \<open>onEvict\<close> is applied by the caller to the key that is returned.\<close>

record addressHotness =
  ah_minContracts :: int
  ah_minHits :: int
  ah_lru :: "hotAddressLRU option"
  ah_hits :: "(bytes \<times> 16 word) list"
  ah_maxPendingHits :: int
  ah_blockEligibleLookups :: uint64
  ah_blockLRUHits :: uint64
  ah_blockPromotions :: uint64
  ah_blockEvictions :: uint64

definition newAddressHotness :: "int \<Rightarrow> int \<Rightarrow> int \<Rightarrow> addressHotness option" where
  "newAddressHotness minContracts lruSize minHits =
     (if minContracts \<le> 0 \<or> lruSize \<le> 0 \<or> minHits \<le> 0 then None
      else Some \<lparr>ah_minContracts = minContracts, ah_minHits = minHits, ah_lru = newLRU lruSize, ah_hits = [],
                ah_maxPendingHits = lruSize, ah_blockEligibleLookups = 0, ah_blockLRUHits = 0, ah_blockPromotions = 0,
                ah_blockEvictions = 0\<rparr>)"

definition BeginBlock :: "addressHotness option \<Rightarrow> addressHotness option" where
  "BeginBlock h =
     (case h of
        None \<Rightarrow> None
      | Some h \<Rightarrow>
          let h = (if int (length (ah_hits h)) > ah_maxPendingHits h then h\<lparr>ah_hits := []\<rparr> else h) in
          Some (h\<lparr>ah_blockEligibleLookups := 0, ah_blockLRUHits := 0, ah_blockPromotions := 0, ah_blockEvictions := 0\<rparr>))"

definition addressHotnessKeyFromDesc :: "bytes \<Rightarrow> bytes option" where
  "addressHotnessKeyFromDesc addr = (if length addr \<noteq> 20 then None else Some addr)"

text \<open>The verdict, the key that was evicted, and the new state.\<close>

definition ShouldUseIndex :: "bytes \<Rightarrow> int \<Rightarrow> addressHotness option \<Rightarrow> bool \<times> bytes option \<times> addressHotness option" where
  "ShouldUseIndex addrKey contractCount h =
     (case h of
        None \<Rightarrow> (False, None, None)
      | Some h \<Rightarrow>
          if contractCount < ah_minContracts h then (False, None, Some h)
          else
            let h = h\<lparr>ah_blockEligibleLookups := ah_blockEligibleLookups h + 1\<rparr>;
                (touched, lru) = hotLRU_touch addrKey (ah_lru h); h = h\<lparr>ah_lru := lru\<rparr> in
            if touched then (True, None, Some (h\<lparr>ah_blockLRUHits := ah_blockLRUHits h + 1\<rparr>))
            else
              let hits = (case map_of (ah_hits h) addrKey of None \<Rightarrow> 0 | Some n \<Rightarrow> n) + 1 in
              if hits < word_of_int (ah_minHits h)
              then (False, None, Some (h\<lparr>ah_hits := AList.update addrKey hits (ah_hits h)\<rparr>))
              else
                let h = h\<lparr>ah_hits := AList.delete addrKey (ah_hits h)\<rparr> in
                (case ah_lru h of
                   None \<Rightarrow> (True, None, Some h)
                 | Some _ \<Rightarrow>
                     let (evicted, lru) = hotLRU_add addrKey (ah_lru h);
                         h = h\<lparr>ah_lru := lru,
                               ah_blockEvictions := (if evicted = None then ah_blockEvictions h else ah_blockEvictions h + 1),
                               ah_blockPromotions := ah_blockPromotions h + 1\<rparr> in
                     (True, evicted, Some h)))"

definition addressHotness_Stats :: "addressHotness option \<Rightarrow> uint64 \<times> uint64 \<times> uint64 \<times> uint64" where
  "addressHotness_Stats h =
     (case h of
        None \<Rightarrow> (0, 0, 0, 0)
      | Some h \<Rightarrow> (ah_blockEligibleLookups h, ah_blockLRUHits h, ah_blockPromotions h, ah_blockEvictions h))"

section \<open>Contract metadata\<close>

text \<open>The cached value is a reference to a record of contract metadata; \<open>'v\<close> stands for it here.\<close>

definition cachedContractsLRUMaxSize :: int where
  "cachedContractsLRUMaxSize = 50000"

record 'v contractInfoLRUEntry =
  ce_key :: bytes
  ce_value :: 'v
  ce_reorgGen :: uint64
  ce_protocolGen :: uint64

type_synonym 'v contractInfoLRU = "(bytes, 'v contractInfoLRUEntry) lruCache"

definition contractInfoLRU_get :: "bytes \<Rightarrow> uint64 \<Rightarrow> uint64 \<Rightarrow> 'v contractInfoLRU option \<Rightarrow> 'v option \<times> 'v contractInfoLRU option" where
  "contractInfoLRU_get key reorgGen protocolGen c =
     (case c of
        None \<Rightarrow> (None, None)
      | Some c \<Rightarrow>
          (case lru_element key c of
             None \<Rightarrow> (None, Some c)
           | Some (el, entry) \<Rightarrow>
               if ce_reorgGen entry \<noteq> reorgGen \<or> ce_protocolGen entry \<noteq> protocolGen then (None, Some (lru_drop key el c))
               else (Some (ce_value entry), Some (lru_touch el c))))"

definition lru_set :: "nat \<Rightarrow> 'v \<Rightarrow> ('k, 'v) lruCache \<Rightarrow> ('k, 'v) lruCache" where
  "lru_set el v c = c\<lparr>lru_order := AList.update el v (lru_order c)\<rparr>"

definition contractInfoLRU_add ::
  "bytes \<Rightarrow> 'v \<Rightarrow> uint64 \<Rightarrow> uint64 \<Rightarrow> 'v contractInfoLRU option \<Rightarrow> 'v contractInfoLRU option" where
  "contractInfoLRU_add key v reorgGen protocolGen c =
     (case c of
        None \<Rightarrow> None
      | Some c \<Rightarrow>
          (case lru_element key c of
             Some (el, entry) \<Rightarrow>
               Some (lru_touch el
                 (lru_set el (entry\<lparr>ce_value := v, ce_reorgGen := reorgGen, ce_protocolGen := protocolGen\<rparr>) c))
           | None \<Rightarrow>
               let entry = \<lparr>ce_key = key, ce_value = v, ce_reorgGen = reorgGen, ce_protocolGen = protocolGen\<rparr> in
               Some (snd (lru_evict ce_key (lru_push key entry c)))))"

definition contractInfoLRU_reset :: "'v contractInfoLRU option \<Rightarrow> 'v contractInfoLRU option" where
  "contractInfoLRU_reset c = (case c of None \<Rightarrow> None | Some c \<Rightarrow> Some (c\<lparr>lru_order := [], lru_items := []\<rparr>))"

definition contractInfoLRU_delete :: "bytes \<Rightarrow> 'v contractInfoLRU option \<Rightarrow> 'v contractInfoLRU option" where
  "contractInfoLRU_delete key c =
     (case c of
        None \<Rightarrow> None
      | Some c \<Rightarrow> (case lru_element key c of Some (el, _) \<Rightarrow> Some (lru_drop key el c) | None \<Rightarrow> Some c))"

section \<open>Verdicts of contract probes\<close>

record 'v lruEntry =
  le_key :: string
  le_value :: 'v

type_synonym 'v stringLRU = "(string, 'v lruEntry) lruCache"

definition lruCache_get :: "string \<Rightarrow> 'v stringLRU option \<Rightarrow> 'v option \<times> 'v stringLRU option" where
  "lruCache_get key c =
     (case c of
        None \<Rightarrow> (None, None)
      | Some c \<Rightarrow>
          (case lru_element key c of
             None \<Rightarrow> (None, Some c)
           | Some (el, entry) \<Rightarrow> (Some (le_value entry), Some (lru_touch el c))))"

definition lruCache_add :: "string \<Rightarrow> 'v \<Rightarrow> 'v stringLRU option \<Rightarrow> 'v stringLRU option" where
  "lruCache_add key v c =
     (case c of
        None \<Rightarrow> None
      | Some c \<Rightarrow>
          (case lru_element key c of
             Some (el, entry) \<Rightarrow> Some (lru_touch el (lru_set el (entry\<lparr>le_value := v\<rparr>) c))
           | None \<Rightarrow> Some (snd (lru_evict le_key (lru_push key \<lparr>le_key = key, le_value = v\<rparr> c)))))"

definition lruCache_remove :: "string \<Rightarrow> 'v stringLRU option \<Rightarrow> 'v stringLRU option" where
  "lruCache_remove key c =
     (case c of
        None \<Rightarrow> None
      | Some c \<Rightarrow> (case lru_element key c of None \<Rightarrow> Some c | Some (el, _) \<Rightarrow> Some (lru_drop key el c)))"

record negativeProbeCacheEntry =
  np_expireAt :: uint64
  np_reorgGen :: uint64

type_synonym negativeProbeCache = "negativeProbeCacheEntry stringLRU option"

definition newNegativeProbeCache :: "int \<Rightarrow> negativeProbeCache" where
  "newNegativeProbeCache capacity = newLRU capacity"

definition negativeProbeCache_contains :: "string \<Rightarrow> uint32 \<Rightarrow> uint64 \<Rightarrow> negativeProbeCache \<Rightarrow> bool \<times> negativeProbeCache" where
  "negativeProbeCache_contains key currentHeight reorgGen c =
     (if c = None \<or> currentHeight = 0 then (False, c)
      else case lruCache_get key c of
        (None, c) \<Rightarrow> (False, c)
      | (Some entry, c) \<Rightarrow>
          if np_reorgGen entry \<noteq> reorgGen \<or> ucast currentHeight > np_expireAt entry then (False, lruCache_remove key c)
          else (True, c))"

definition negativeProbeCache_add :: "string \<Rightarrow> uint32 \<Rightarrow> uint32 \<Rightarrow> uint64 \<Rightarrow> negativeProbeCache \<Rightarrow> negativeProbeCache" where
  "negativeProbeCache_add key currentHeight ttlBlocks reorgGen c =
     (if c = None \<or> currentHeight = 0 \<or> ttlBlocks = 0 then c
      else lruCache_add key \<lparr>np_expireAt = ucast currentHeight + ucast ttlBlocks, np_reorgGen = reorgGen\<rparr> c)"

definition negativeProbeCache_remove :: "string \<Rightarrow> negativeProbeCache \<Rightarrow> negativeProbeCache" where
  "negativeProbeCache_remove key c = lruCache_remove key c"

text \<open>Durations are nanoseconds in 64 bits; the sum wraps, and the number of blocks is cut to 32 bits.\<close>

definition blocksForDuration :: "int \<Rightarrow> int \<Rightarrow> uint32" where
  "blocksForDuration d blockTime =
     (if d \<le> 0 \<or> blockTime \<le> 0 then 0
      else let n = int64 (d + blockTime - 1) sdiv blockTime in if n < 1 then 1 else word_of_int n)"

lemma blocksForDuration_bounds:
  assumes "0 < d" "0 < blockTime" "d + blockTime \<le> 2 ^ 63" "d \<le> (2 ^ 32 - 1) * blockTime"
  shows "d \<le> uint (blocksForDuration d blockTime) * blockTime" "(uint (blocksForDuration d blockTime) - 1) * blockTime < d"
proof -
  define n where "n = (d + blockTime - 1) div blockTime"
  have i: "int64 (d + blockTime - 1) = d + blockTime - 1"
    unfolding int64_def using assms by (intro signed_take_bit_int_eq_self) simp_all
  have m: "n * blockTime + (d + blockTime - 1) mod blockTime = d + blockTime - 1" by (simp add: n_def)
  have r: "0 \<le> (d + blockTime - 1) mod blockTime" "(d + blockTime - 1) mod blockTime < blockTime" using assms(2) by simp_all
  have le: "d \<le> n * blockTime" "(n - 1) * blockTime < d" using m r by (simp_all add: algebra_simps)
  have "1 \<le> n" using assms(1,2) by (simp add: n_def pos_imp_zdiv_pos_iff int_one_le_iff_zero_less)
  moreover have "n < 2 ^ 32"
  proof (rule ccontr)
    assume "\<not> n < 2 ^ 32"
    then have "(2 ^ 32 - 1) * blockTime \<le> (n - 1) * blockTime" using assms(2) by (intro mult_right_mono) simp_all
    with le(2) assms(4) show False by simp
  qed
  ultimately have "uint (blocksForDuration d blockTime) = n"
    using assms(1,2) i by (simp add: blocksForDuration_def Let_def signed_divide_int_def n_def [symmetric] uint_word_of_int take_bit_eq_mod)
  with le show "d \<le> uint (blocksForDuration d blockTime) * blockTime" "(uint (blocksForDuration d blockTime) - 1) * blockTime < d"
    by simp_all
qed

end
