(* ===== verification/EthLazy.thy ===== *)
theory EthLazy
  imports EthContracts Caches
begin

text \<open>
  The form of the rows of addressContracts that the connection of blocks works on
  (\<open>src/db/rocksdb_ethereumtype.go\<close>): big integers stay packed until they are needed and are decoded in place then.
  A slice that the row shares with the decoded form is the list of its bytes; the row itself is never written to.
\<close>

section \<open>Numbers decoded on demand\<close>

record unpackedBigInt =
  ub_Slice :: bytes
  ub_Value :: "int option"

text \<open>The number, and the field with the decoded number stored.\<close>

definition unpackedBigInt_get :: "unpackedBigInt \<Rightarrow> (int \<times> unpackedBigInt) option" where
  "unpackedBigInt_get b =
     (case ub_Value b of
        Some x \<Rightarrow> Some (x, b)
      | None \<Rightarrow>
          if ub_Slice b = [] then Some (0, b\<lparr>ub_Value := Some 0\<rparr>)
          else do {
            (bi, _) \<leftarrow> unpackBigint (ub_Slice b);
            Some (bi, b\<lparr>ub_Value := Some bi\<rparr>)
          })"

text \<open>\<open>sort.Search\<close> with a condition that changes the slice it looks at.\<close>

function searchLoop :: "(nat \<Rightarrow> 's \<Rightarrow> (bool \<times> 's) option) \<Rightarrow> nat \<Rightarrow> nat \<Rightarrow> 's \<Rightarrow> (nat \<times> 's) option" where
  "searchLoop f i j s =
     (if i < j then
        case f ((i + j) div 2) s of
          None \<Rightarrow> None
        | Some (holds, s) \<Rightarrow> if \<not> holds then searchLoop f ((i + j) div 2 + 1) j s else searchLoop f i ((i + j) div 2) s
      else Some (i, s))"
  by auto
termination by (relation "measure (\<lambda>(f, i, j, s). j - i)") auto

declare searchLoop.simps [simp del]

type_synonym unpackedIds = "unpackedBigInt list"

text \<open>\<open>(*s)[i].get()\<close>\<close>

definition unpackedIds_get :: "nat \<Rightarrow> unpackedIds \<Rightarrow> (int \<times> unpackedIds) option" where
  "unpackedIds_get i s = do {
     b \<leftarrow> index s (int i);
     (x, b) \<leftarrow> unpackedBigInt_get b;
     Some (x, s[i := b])
   }"

definition unpackedIds_search :: "int \<Rightarrow> unpackedIds \<Rightarrow> (nat \<times> unpackedIds) option" where
  "unpackedIds_search tokenId s =
     searchLoop (\<lambda>i s. do { (x, s) \<leftarrow> unpackedIds_get i s; Some (\<bar>x\<bar> \<ge> \<bar>tokenId\<bar>, s) }) 0 (length s) s"

text \<open>The condition \<open>i < len(*s) && (*s)[i].get().CmpAbs(&id) == 0\<close>.\<close>

definition unpackedIds_at :: "nat \<Rightarrow> int \<Rightarrow> unpackedIds \<Rightarrow> (bool \<times> unpackedIds) option" where
  "unpackedIds_at i tokenId s =
     (if i < length s then do { (x, s) \<leftarrow> unpackedIds_get i s; Some (\<bar>x\<bar> = \<bar>tokenId\<bar>, s) } else Some (False, s))"

definition unpackedIds_insert :: "int \<Rightarrow> unpackedIds \<Rightarrow> unpackedIds option" where
  "unpackedIds_insert tokenId s = do {
     (i, s) \<leftarrow> unpackedIds_search tokenId s;
     (found, s) \<leftarrow> unpackedIds_at i tokenId s;
     let elem = \<lparr>ub_Slice = [], ub_Value = Some tokenId\<rparr>;
     if found then Some s
     else if i = length s then Some (s @ [elem])
     else Some ((take (i + 1) s @ drop i s)[i := elem])
   }"

definition unpackedIds_remove :: "int \<Rightarrow> unpackedIds \<Rightarrow> unpackedIds option" where
  "unpackedIds_remove tokenId s = do {
     (i, s) \<leftarrow> unpackedIds_search tokenId s;
     (found, s) \<leftarrow> unpackedIds_at i tokenId s;
     if found then Some (take i s @ drop (i + 1) s) else Some s
   }"

record unpackedMultiTokenValue =
  um_Id :: unpackedBigInt
  um_Value :: unpackedBigInt

type_synonym unpackedMultiTokenValues = "unpackedMultiTokenValue list"

text \<open>\<open>(*s)[i].Id.get()\<close> and \<open>(*s)[i].Value.get()\<close>\<close>

definition unpackedMTV_getId :: "nat \<Rightarrow> unpackedMultiTokenValues \<Rightarrow> (int \<times> unpackedMultiTokenValues) option" where
  "unpackedMTV_getId i s = do {
     m \<leftarrow> index s (int i);
     (x, b) \<leftarrow> unpackedBigInt_get (um_Id m);
     Some (x, s[i := m\<lparr>um_Id := b\<rparr>])
   }"

definition unpackedMTV_getValue :: "nat \<Rightarrow> unpackedMultiTokenValues \<Rightarrow> (int \<times> unpackedMultiTokenValues) option" where
  "unpackedMTV_getValue i s = do {
     m \<leftarrow> index s (int i);
     (x, b) \<leftarrow> unpackedBigInt_get (um_Value m);
     Some (x, s[i := m\<lparr>um_Value := b\<rparr>])
   }"

definition unpackedMTV_search :: "MultiTokenValue \<Rightarrow> unpackedMultiTokenValues \<Rightarrow> (nat \<times> unpackedMultiTokenValues) option" where
  "unpackedMTV_search m s =
     searchLoop (\<lambda>i s. do { (x, s) \<leftarrow> unpackedMTV_getId i s; Some (\<bar>x\<bar> \<ge> \<bar>mtv_Id m\<bar>, s) }) 0 (length s) s"

definition unpackedMTV_at :: "nat \<Rightarrow> int \<Rightarrow> unpackedMultiTokenValues \<Rightarrow> (bool \<times> unpackedMultiTokenValues) option" where
  "unpackedMTV_at i tokenId s =
     (if i < length s then do { (x, s) \<leftarrow> unpackedMTV_getId i s; Some (\<bar>x\<bar> = \<bar>tokenId\<bar>, s) } else Some (False, s))"

text \<open>\<open>aggregate\<close> stores into the decoded value, the packed one stays behind.\<close>

definition unpackedMTV_aggregate ::
  "AggregateFn \<Rightarrow> nat \<Rightarrow> int \<Rightarrow> unpackedMultiTokenValues \<Rightarrow> (int \<times> unpackedMultiTokenValues) option" where
  "unpackedMTV_aggregate aggregate i v s = do {
     (x, s) \<leftarrow> unpackedMTV_getValue i s;
     let y = aggregate x v;
     Some (y, s[i := (s ! i)\<lparr>um_Value := (um_Value (s ! i))\<lparr>ub_Value := Some y\<rparr>\<rparr>])
   }"

definition unpackedMTV_upsert ::
  "MultiTokenValue \<Rightarrow> int \<Rightarrow> AggregateFn \<Rightarrow> unpackedMultiTokenValues \<Rightarrow> unpackedMultiTokenValues option" where
  "unpackedMTV_upsert m idx aggregate s = do {
     (i, s) \<leftarrow> unpackedMTV_search m s;
     (found, s) \<leftarrow> unpackedMTV_at i (mtv_Id m) s;
     if found then do {
       (y, s) \<leftarrow> unpackedMTV_aggregate aggregate i (mtv_Value m) s;
       if idx < 0 \<and> y = 0 then Some (take i s @ drop (i + 1) s) else Some s
     } else if idx \<ge> 0 then do {
       let elem = \<lparr>um_Id = \<lparr>ub_Slice = [], ub_Value = Some (mtv_Id m)\<rparr>,
                   um_Value = \<lparr>ub_Slice = [], ub_Value = Some (mtv_Value m)\<rparr>\<rparr>;
       if i = length s then Some (s @ [elem]) else Some ((take (i + 1) s @ drop i s)[i := elem])
     } else Some s
   }"

section \<open>Rows with numbers decoded on demand\<close>

record unpackedAddrContract =
  uc_Standard :: int
  uc_Contract :: bytes
  uc_Txs :: uint64
  uc_Value :: unpackedBigInt
  uc_Ids :: unpackedIds
  uc_MultiTokenValues :: unpackedMultiTokenValues

text \<open>The index is a map from addresses of 20 bytes, or nil.\<close>

record unpackedAddrContracts =
  uacs_Packed :: bytes
  uacs_TotalTxs :: uint64
  uacs_NonContractTxs :: uint64
  uacs_InternalTxs :: uint64
  uacs_Contracts :: "unpackedAddrContract list"
  uacs_contractIndex :: "(bytes \<times> nat) list option"
  uacs_contractIndexDirty :: bool

definition zeroBigInt :: unpackedBigInt where
  "zeroBigInt = \<lparr>ub_Slice = [], ub_Value = None\<rparr>"

definition emptyContract :: "int \<Rightarrow> bytes \<Rightarrow> uint64 \<Rightarrow> unpackedAddrContract" where
  "emptyContract standard contract txs =
     \<lparr>uc_Standard = standard, uc_Contract = contract, uc_Txs = txs, uc_Value = zeroBigInt, uc_Ids = [],
      uc_MultiTokenValues = []\<rparr>"

definition emptyContracts :: unpackedAddrContracts where
  "emptyContracts =
     \<lparr>uacs_Packed = [], uacs_TotalTxs = 0, uacs_NonContractTxs = 0, uacs_InternalTxs = 0, uacs_Contracts = [],
      uacs_contractIndex = None, uacs_contractIndexDirty = False\<rparr>"

text \<open>\<open>ll := packedBigintLen(buf[index:])\<close> and \<open>buf[index : index+ll]\<close>\<close>

definition takeBigint :: "bytes \<Rightarrow> (unpackedBigInt \<times> int) option" where
  "takeBigint buf = do {
     ll \<leftarrow> packedBigintLen buf;
     b \<leftarrow> slice buf 0 ll;
     Some (\<lparr>ub_Slice = b, ub_Value = None\<rparr>, ll)
   }"

definition takeMultiTokenValue :: "bytes \<Rightarrow> (unpackedMultiTokenValue \<times> int) option" where
  "takeMultiTokenValue buf = do {
     (i, l) \<leftarrow> takeBigint buf;
     b \<leftarrow> slice_from buf l;
     (value, ll) \<leftarrow> takeBigint b;
     Some (\<lparr>um_Id = i, um_Value = value\<rparr>, l + ll)
   }"

definition takeContract :: "vlq_lib \<Rightarrow> bytes \<Rightarrow> (unpackedAddrContract \<times> int) option" where
  "takeContract v buf = do {
     contract \<leftarrow> slice buf 0 EthereumTypeAddressDescriptorLen;
     b \<leftarrow> slice_from buf EthereumTypeAddressDescriptorLen;
     let (txs, l) = unpackVaruint v b;
     let l = EthereumTypeAddressDescriptorLen + l;
     b \<leftarrow> slice_from buf l;
     let standard = uint (txs AND 3);
     let ac = emptyContract standard contract (drop_bit 2 txs);
     if standard = FungibleToken then do {
       (value, ll) \<leftarrow> takeBigint b;
       Some (ac\<lparr>uc_Value := value\<rparr>, l + ll)
     } else do {
       let (n, ll) = unpackVaruint v b;
       if standard = NonFungibleToken then do {
         (ids, l) \<leftarrow> unpack_n takeBigint (unat n) buf (l + ll);
         Some (ac\<lparr>uc_Ids := ids\<rparr>, l)
       } else do {
         (values, l) \<leftarrow> unpack_n takeMultiTokenValue (unat n) buf (l + ll);
         Some (ac\<lparr>uc_MultiTokenValues := values\<rparr>, l)
       }
     }
   }"

text \<open>The loop ends when the index reaches the end of the row; a contract that is cut off is a panic here.\<close>

fun takeContractsLoop :: "nat \<Rightarrow> vlq_lib \<Rightarrow> bytes \<Rightarrow> unpackedAddrContract list option" where
  "takeContractsLoop fuel v buf =
     (if length buf > 0 then
        (case fuel of
           0 \<Rightarrow> None
         | Suc fuel \<Rightarrow> do {
             (ac, l) \<leftarrow> takeContract v buf;
             buf \<leftarrow> slice_from buf l;
             acs \<leftarrow> takeContractsLoop fuel v buf;
             Some (ac # acs)
           })
      else Some [])"

declare takeContractsLoop.simps [simp del]

definition partiallyUnpackAddrContracts :: "vlq_lib \<Rightarrow> bytes \<Rightarrow> unpackedAddrContracts option" where
  "partiallyUnpackAddrContracts v buf = do {
     let (tt, l) = unpackVaruint v buf;
     b \<leftarrow> slice_from buf l;
     let (nct, l) = unpackVaruint v b;
     b \<leftarrow> slice_from b l;
     let (ict, l) = unpackVaruint v b;
     b \<leftarrow> slice_from b l;
     let (cl, l) = unpackVaruint v b;
     b \<leftarrow> slice_from b l;
     c \<leftarrow> takeContractsLoop (length b) v b;
     Some \<lparr>uacs_Packed = buf, uacs_TotalTxs = tt, uacs_NonContractTxs = nct, uacs_InternalTxs = ict, uacs_Contracts = c,
           uacs_contractIndex = None, uacs_contractIndexDirty = False\<rparr>
   }"

definition packUnpackedBigInt :: "unpackedBigInt \<Rightarrow> bytes" where
  "packUnpackedBigInt b = (case ub_Value b of Some x \<Rightarrow> packBigint x | None \<Rightarrow> ub_Slice b)"

definition packUnpackedMultiTokenValue :: "unpackedMultiTokenValue \<Rightarrow> bytes" where
  "packUnpackedMultiTokenValue m = packUnpackedBigInt (um_Id m) @ packUnpackedBigInt (um_Value m)"

definition packUnpackedAddrContract :: "vlq_lib \<Rightarrow> unpackedAddrContract \<Rightarrow> bytes" where
  "packUnpackedAddrContract v ac =
     uc_Contract ac @ packVaruint v (word_of_int (uc_Standard ac) + push_bit 2 (uc_Txs ac)) @
     (if uc_Standard ac = FungibleToken then packUnpackedBigInt (uc_Value ac)
      else if uc_Standard ac = NonFungibleToken
      then packVaruint v (of_nat (length (uc_Ids ac))) @ concat (map packUnpackedBigInt (uc_Ids ac))
      else packVaruint v (of_nat (length (uc_MultiTokenValues ac))) @
           concat (map packUnpackedMultiTokenValue (uc_MultiTokenValues ac)))"

definition packUnpackedAddrContracts :: "vlq_lib \<Rightarrow> unpackedAddrContracts \<Rightarrow> bytes" where
  "packUnpackedAddrContracts v acs =
     packVaruint v (uacs_TotalTxs acs) @ packVaruint v (uacs_NonContractTxs acs) @ packVaruint v (uacs_InternalTxs acs) @
     packVaruint v (of_nat (length (uacs_Contracts acs))) @
     concat (map (packUnpackedAddrContract v) (uacs_Contracts acs))"

section \<open>Looking up a contract\<close>

fun findContractFrom :: "nat \<Rightarrow> bytes \<Rightarrow> unpackedAddrContract list \<Rightarrow> nat option" where
  "findContractFrom i contract [] = None"
| "findContractFrom i contract (c # cs) =
     (if contract = uc_Contract c then Some i else findContractFrom (i + 1) contract cs)"

definition findContractInAddressContracts :: "bytes \<Rightarrow> unpackedAddrContract list \<Rightarrow> nat option" where
  "findContractInAddressContracts contract contracts = findContractFrom 0 contract contracts"

definition contractIndexKeyFromDesc :: "bytes \<Rightarrow> bytes option" where
  "contractIndexKeyFromDesc addr = (if int (length addr) \<noteq> EthereumTypeAddressDescriptorLen then None else Some addr)"

fun buildContractIndex :: "nat \<Rightarrow> unpackedAddrContract list \<Rightarrow> (bytes \<times> nat) list \<Rightarrow> (bytes \<times> nat) list" where
  "buildContractIndex i [] m = m"
| "buildContractIndex i (c # cs) m =
     buildContractIndex (i + 1) cs
       (case contractIndexKeyFromDesc (uc_Contract c) of None \<Rightarrow> m | Some key \<Rightarrow> AList.update key i m)"

definition rebuildContractIndex :: "unpackedAddrContracts \<Rightarrow> unpackedAddrContracts" where
  "rebuildContractIndex acs =
     acs\<lparr>uacs_contractIndex := Some (buildContractIndex 0 (uacs_Contracts acs) []), uacs_contractIndexDirty := False\<rparr>"

definition dropContractIndex :: "unpackedAddrContracts \<Rightarrow> unpackedAddrContracts" where
  "dropContractIndex acs = acs\<lparr>uacs_contractIndex := None, uacs_contractIndexDirty := False\<rparr>"

definition addContractIndex :: "bytes \<Rightarrow> nat \<Rightarrow> unpackedAddrContracts \<Rightarrow> unpackedAddrContracts" where
  "addContractIndex contract idx acs =
     (case uacs_contractIndex acs of
        None \<Rightarrow> acs
      | Some m \<Rightarrow>
          if uacs_contractIndexDirty acs then acs
          else (case contractIndexKeyFromDesc contract of
              None \<Rightarrow> acs\<lparr>uacs_contractIndexDirty := True\<rparr>
            | Some key \<Rightarrow> acs\<lparr>uacs_contractIndex := Some (AList.update key idx m)\<rparr>))"

definition markContractIndexDirty :: "unpackedAddrContracts \<Rightarrow> unpackedAddrContracts" where
  "markContractIndexDirty acs =
     (if uacs_contractIndex acs \<noteq> None then acs\<lparr>uacs_contractIndexDirty := True\<rparr> else acs)"

text \<open>Whether the index is used, the address evicted from the hot ones by that, and the hot addresses.\<close>

definition decideIndex ::
  "bytes \<Rightarrow> nat \<Rightarrow> addressHotness option \<Rightarrow> bool \<times> bytes option \<times> addressHotness option" where
  "decideIndex addrDesc n hot =
     (case hot of
        None \<Rightarrow> (False, None, None)
      | Some h \<Rightarrow>
          if int n \<ge> ah_minContracts h then
            (case addressHotnessKeyFromDesc addrDesc of
               None \<Rightarrow> (False, None, hot)
             | Some addrKey \<Rightarrow> ShouldUseIndex addrKey (int n) hot)
          else (False, None, hot))"

definition lookupContractIndex :: "bool \<Rightarrow> bytes \<Rightarrow> unpackedAddrContracts \<Rightarrow> nat option \<times> unpackedAddrContracts" where
  "lookupContractIndex useIndex contract acs =
     (if useIndex then
        let acs = (if uacs_contractIndex acs = None \<or> uacs_contractIndexDirty acs then rebuildContractIndex acs else acs) in
        (case uacs_contractIndex acs of
           None \<Rightarrow> (findContractInAddressContracts contract (uacs_Contracts acs), acs)
         | Some m \<Rightarrow>
             (case contractIndexKeyFromDesc contract of
                Some key \<Rightarrow> (map_of m key, acs)
              | None \<Rightarrow> (findContractInAddressContracts contract (uacs_Contracts acs), acs)))
      else (findContractInAddressContracts contract (uacs_Contracts acs), acs))"

text \<open>The position of the contract, the address whose index is to be dropped, the hot addresses, and the record.\<close>

definition findContractIndex ::
  "bytes \<Rightarrow> bytes \<Rightarrow> addressHotness option \<Rightarrow> unpackedAddrContracts \<Rightarrow>
   nat option \<times> bytes option \<times> addressHotness option \<times> unpackedAddrContracts" where
  "findContractIndex addrDesc contract hot acs =
     (let (useIndex, evicted, hot) = decideIndex addrDesc (length (uacs_Contracts acs)) hot;
          (i, acs) = lookupContractIndex useIndex contract acs in
      (i, evicted, hot, acs))"

section \<open>A transfer of tokens in the holdings of an address\<close>

definition subtractNonNegative :: AggregateFn where
  "subtractNonNegative s v = (let s = s - v in if s < 0 then 0 else s)"

definition upsertAll ::
  "MultiTokenValue list \<Rightarrow> int \<Rightarrow> AggregateFn \<Rightarrow> unpackedMultiTokenValues \<Rightarrow> unpackedMultiTokenValues option" where
  "upsertAll ms idx aggregate s = fold (\<lambda>m s. s \<bind> unpackedMTV_upsert m idx aggregate) ms (Some s)"

definition zeroFungible :: "unpackedBigInt \<Rightarrow> unpackedBigInt" where
  "zeroFungible b =
     (case ub_Value b of
        None \<Rightarrow> \<lparr>ub_Slice = (if length (ub_Slice b) \<noteq> 0 then [] else ub_Slice b), ub_Value = Some 0\<rparr>
      | Some x \<Rightarrow> if length (ub_Slice b) \<noteq> 0 \<or> x \<noteq> 0 then \<lparr>ub_Slice = [], ub_Value = Some 0\<rparr> else b)"

definition mutateContract :: "int \<Rightarrow> AggregateFn \<Rightarrow> TokenTransfer \<Rightarrow> unpackedAddrContract \<Rightarrow> unpackedAddrContract option" where
  "mutateContract idx aggregate transfer c =
     (if tt_Standard transfer = FungibleToken then Some (c\<lparr>uc_Value := zeroFungible (uc_Value c)\<rparr>)
      else if tt_Standard transfer = NonFungibleToken then do {
        ids \<leftarrow> (if idx < 0 then unpackedIds_remove (tt_Value transfer) (uc_Ids c)
               else unpackedIds_insert (tt_Value transfer) (uc_Ids c));
        Some (c\<lparr>uc_Ids := ids\<rparr>)
      } else do {
        values \<leftarrow> upsertAll (tt_MultiTokenValues transfer) idx aggregate (uc_MultiTokenValues c);
        Some (c\<lparr>uc_MultiTokenValues := values\<rparr>)
      })"

definition addToContract ::
  "unpackedAddrContract \<Rightarrow> nat \<Rightarrow> int \<Rightarrow> TokenTransfer \<Rightarrow> bool \<Rightarrow> bool \<Rightarrow> (int \<times> unpackedAddrContract) option" where
  "addToContract c contractIndex idx transfer addTxCount mutateHoldings =
     (let (idx, aggregate) =
            (if idx < 0 then (NOT (int32 (int contractIndex + ContractIndexOffset)), subtractNonNegative)
             else (int32 (int contractIndex + ContractIndexOffset), (+)));
          count = (\<lambda>c. if addTxCount then c\<lparr>uc_Txs := uc_Txs c + 1\<rparr> else c) in
      if \<not> mutateHoldings then Some (idx, count c)
      else do {
        c \<leftarrow> mutateContract idx aggregate transfer c;
        Some (idx, count c)
      })"

end
