(* ===== verification/EthContractsLaws.thy ===== *)
theory EthContractsLaws
  imports EthContracts CodecLaws Instances
begin

text \<open>
  Laws of the token holdings: the slice of ids is a sorted set, the slice of values of multi tokens is a sorted map, and
  the rows of the column addressContracts decode to what was packed.
\<close>

section \<open>Slices sorted by a key\<close>

definition keysOk :: "('a \<Rightarrow> int) \<Rightarrow> 'a list \<Rightarrow> bool" where
  "keysOk key s \<longleftrightarrow> sorted_wrt (<) (map key s) \<and> list_all (\<lambda>x. 0 \<le> key x) s"

lemma keysOk_Nil [simp]: "keysOk key []"
  by (simp add: keysOk_def)

lemma keysOk_Cons: "keysOk key (x # s) \<longleftrightarrow> 0 \<le> key x \<and> (\<forall>y \<in> set s. key x < key y) \<and> keysOk key s"
  by (auto simp: keysOk_def)

lemma keysOk_append:
  "keysOk key (s @ t) \<longleftrightarrow> keysOk key s \<and> keysOk key t \<and> (\<forall>x \<in> set s. \<forall>y \<in> set t. key x < key y)"
  by (auto simp: keysOk_def sorted_wrt_append)

lemma keysOk_nth_less: "keysOk key s \<Longrightarrow> i < j \<Longrightarrow> j < length s \<Longrightarrow> key (s ! i) < key (s ! j)"
  using sorted_wrt_nth_less [of "(<)" "map key s" i j] by (simp add: keysOk_def)

lemma keysOk_nth: "keysOk key s \<Longrightarrow> i < length s \<Longrightarrow> 0 \<le> key (s ! i)"
  by (simp add: keysOk_def list_all_length)

text \<open>The search splits the slice into the smaller keys and the others.\<close>

lemma search_split:
  assumes s: "keysOk key s" and k: "0 \<le> k" and i: "i = sort_Search (length s) (\<lambda>i. \<bar>key (s ! i)\<bar> \<ge> \<bar>k\<bar>)"
  shows "i \<le> length s" "\<forall>x \<in> set (take i s). key x < k" "\<forall>x \<in> set (drop i s). k \<le> key x"
proof -
  let ?f = "\<lambda>i. \<bar>key (s ! i)\<bar> \<ge> \<bar>k\<bar>"
  show le: "i \<le> length s" using sort_Search_bounds(1) [of "length s" ?f] i by simp
  have below: "key (s ! j) < k" if "j < i" for j
  proof -
    have "\<not> ?f (i - 1)" using sort_Search_bounds(2) [of "length s" ?f] i that by auto
    then have "key (s ! (i - 1)) < k" using keysOk_nth [OF s, of "i - 1"] k that le by simp
    moreover have "key (s ! j) < key (s ! (i - 1))" if "j \<noteq> i - 1"
      using keysOk_nth_less [OF s, of j "i - 1"] that \<open>j < i\<close> le by linarith
    ultimately show ?thesis by (cases "j = i - 1") auto
  qed
  show "\<forall>x \<in> set (take i s). key x < k" using below le by (auto simp: in_set_conv_nth)
  have above: "k \<le> key (s ! j)" if "i \<le> j" "j < length s" for j
  proof -
    have "?f i" using sort_Search_bounds(3) [of "length s" ?f] i that by auto
    then have "k \<le> key (s ! i)" using keysOk_nth [OF s, of i] k that by simp
    then show ?thesis using keysOk_nth_less [OF s, of i j] that by (cases "i = j") auto
  qed
  show "\<forall>x \<in> set (drop i s). k \<le> key x" using above by (auto simp: in_set_conv_nth)
qed

text \<open>The element at the position found decides whether the key is there; an insertion there keeps the order.\<close>

lemma search_split_cases:
  assumes s: "keysOk key s" and k: "0 \<le> k" and i: "i = sort_Search (length s) (\<lambda>i. \<bar>key (s ! i)\<bar> \<ge> \<bar>k\<bar>)"
  obtains (found) a x b where "s = a @ x # b" "i = length a" "key x = k" "\<bar>key (s ! i)\<bar> = \<bar>k\<bar>" "i < length s"
      "k \<notin> key ` set a" "k \<notin> key ` set b"
  | (absent) a b where "s = a @ b" "i = length a" "\<not> (i < length s \<and> \<bar>key (s ! i)\<bar> = \<bar>k\<bar>)"
      "k \<notin> key ` set s" "\<forall>x \<in> set a. key x < k" "\<forall>x \<in> set b. k < key x"
proof -
  note sp = search_split [OF s k i]
  show thesis
  proof (cases "i < length s \<and> \<bar>key (s ! i)\<bar> = \<bar>k\<bar>")
    case True
    then have x: "key (s ! i) = k" using keysOk_nth [OF s, of i] k by simp
    have d: "s = take i s @ s ! i # drop (Suc i) s" using True by (simp add: id_take_nth_drop [symmetric])
    have "\<forall>y \<in> set (drop (Suc i) s). k < key y"
      using s x by (subst (asm) d) (auto simp: keysOk_append keysOk_Cons)
    with sp(2) have "k \<notin> key ` set (take i s)" "k \<notin> key ` set (drop (Suc i) s)" by force+
    with True x d show thesis by (intro found [of "take i s" "s ! i" "drop (Suc i) s"]) auto
  next
    case False
    have "key y \<noteq> k" if "y \<in> set (drop i s)" for y
    proof (cases "drop i s")
      case (Cons z zs)
      then have i': "i < length s" and z: "z = s ! i" by (auto simp: nth_via_drop intro: ccontr)
      have "keysOk key (drop i s)" using s by (metis append_take_drop_id keysOk_append)
      moreover have "k < key z" using False i' z sp(3) Cons k keysOk_nth [OF s, of i] by (auto simp: order_less_le)
      ultimately show ?thesis using that Cons by (auto simp: keysOk_Cons)
    qed (use that in simp)
    moreover have "key y \<noteq> k" if "y \<in> set (take i s)" for y using sp(2) that by auto
    ultimately have nk: "k \<notin> key ` set s" by (metis append_take_drop_id imageE set_append UnE)
    have "\<forall>x \<in> set (drop i s). k < key x" using sp(3) \<open>\<And>y. y \<in> set (drop i s) \<Longrightarrow> key y \<noteq> k\<close> by force
    with False sp nk show thesis by (intro absent [of "take i s" "drop i s"]) auto
  qed
qed

lemma insert_at: "(take (length a + 1) (a @ b) @ b)[length a := x] = a @ x # b" if "b \<noteq> []"
  using that by (cases b) (auto simp: list_update_append)

section \<open>Ids as a set\<close>

lemma Ids_insert_set:
  assumes s: "keysOk (\<lambda>x. x) s" and k: "0 \<le> k"
  shows "keysOk (\<lambda>x. x) (Ids_insert k s) \<and> set (Ids_insert k s) = insert k (set s)"
proof (rule search_split_cases [OF s k refl])
  fix a x b
  assume "s = a @ x # b" "sort_Search (length s) (\<lambda>i. \<bar>k\<bar> \<le> \<bar>s ! i\<bar>) = length a" "x = k"
    "\<bar>s ! sort_Search (length s) (\<lambda>i. \<bar>k\<bar> \<le> \<bar>s ! i\<bar>)\<bar> = \<bar>k\<bar>"
    "sort_Search (length s) (\<lambda>i. \<bar>k\<bar> \<le> \<bar>s ! i\<bar>) < length s"
  then have "Ids_insert k s = s" by (simp add: Ids_insert_def Ids_search_def Let_def)
  with s \<open>s = _\<close> \<open>x = k\<close> show ?thesis by auto
next
  fix a b
  let ?i = "sort_Search (length s) (\<lambda>i. \<bar>k\<bar> \<le> \<bar>s ! i\<bar>)"
  assume ab: "s = a @ b" "?i = length a" "\<not> (?i < length s \<and> \<bar>s ! ?i\<bar> = \<bar>k\<bar>)"
    "\<forall>x \<in> set a. x < k" "\<forall>x \<in> set b. k < x"
  have "Ids_insert k s = a @ k # b"
    using ab(2,3) insert_at [of b a k] by (cases "b = []") (auto simp: Ids_insert_def Ids_search_def Let_def ab(1))
  moreover have "keysOk (\<lambda>x. x) (a @ k # b)" using s k ab(1,4,5) by (force simp: keysOk_append keysOk_Cons)
  ultimately show ?thesis using ab(1) by auto
qed

lemma Ids_remove_set:
  assumes s: "keysOk (\<lambda>x. x) s" and k: "0 \<le> k"
  shows "keysOk (\<lambda>x. x) (Ids_remove k s) \<and> set (Ids_remove k s) = set s - {k}"
proof (rule search_split_cases [OF s k refl])
  fix a x b
  let ?i = "sort_Search (length s) (\<lambda>i. \<bar>k\<bar> \<le> \<bar>s ! i\<bar>)"
  assume ab: "s = a @ x # b" "?i = length a" "x = k" "\<bar>s ! ?i\<bar> = \<bar>k\<bar>" "?i < length s"
    "k \<notin> (\<lambda>x. x) ` set a" "k \<notin> (\<lambda>x. x) ` set b"
  have "Ids_remove k s = a @ b"
    using ab(2,4,5) by (simp add: Ids_remove_def Ids_search_def Let_def ab(1))
  moreover have "keysOk (\<lambda>x. x) (a @ b)" using s ab(1) by (auto simp: keysOk_append keysOk_Cons)
  ultimately show ?thesis using ab(1,3,6,7) by auto
next
  fix a b
  let ?i = "sort_Search (length s) (\<lambda>i. \<bar>k\<bar> \<le> \<bar>s ! i\<bar>)"
  assume ab: "\<not> (?i < length s \<and> \<bar>s ! ?i\<bar> = \<bar>k\<bar>)" "k \<notin> (\<lambda>x. x) ` set s"
  then have "Ids_remove k s = s" by (auto simp: Ids_remove_def Ids_search_def Let_def)
  with ab s show ?thesis by auto
qed

section \<open>Values of multi tokens as a map\<close>

definition mtvMap :: "MultiTokenValue list \<Rightarrow> int \<rightharpoonup> int" where
  "mtvMap s = map_of (map (\<lambda>m. (mtv_Id m, mtv_Value m)) s)"

definition mtvUpsert :: "MultiTokenValue \<Rightarrow> int \<Rightarrow> AggregateFn \<Rightarrow> (int \<rightharpoonup> int) \<Rightarrow> int \<rightharpoonup> int" where
  "mtvUpsert m idx aggregate f =
     f(mtv_Id m :=
       case f (mtv_Id m) of
         Some x \<Rightarrow> let y = aggregate x (mtv_Value m) in if idx < 0 \<and> y = 0 then None else Some y
       | None \<Rightarrow> if idx \<ge> 0 then Some (mtv_Value m) else None)"

lemma mtvMap_None: "k \<notin> mtv_Id ` set s \<Longrightarrow> mtvMap s k = None"
  by (force simp: mtvMap_def map_of_eq_None_iff)

lemma mtvMap_append: "mtvMap (a @ b) = mtvMap b ++ mtvMap a"
  by (simp add: mtvMap_def)

lemma mtvMap_Cons: "mtvMap (m # b) = (mtvMap b)(mtv_Id m \<mapsto> mtv_Value m)"
  by (simp add: mtvMap_def)

lemma mtvMap_insert:
  assumes "mtv_Id m \<notin> mtv_Id ` set a"
  shows "mtvMap (a @ m # b) = (mtvMap (a @ b))(mtv_Id m \<mapsto> mtv_Value m)"
  using mtvMap_None [OF assms] by (auto simp: fun_eq_iff mtvMap_append mtvMap_Cons map_add_def split: option.splits)

lemma upsert_map:
  assumes s: "keysOk mtv_Id s" and k: "0 \<le> mtv_Id m"
  shows "keysOk mtv_Id (MultiTokenValues_upsert m idx aggregate s) \<and>
    mtvMap (MultiTokenValues_upsert m idx aggregate s) = mtvUpsert m idx aggregate (mtvMap s)"
proof (rule search_split_cases [OF s k refl])
  fix a x b
  let ?i = "sort_Search (length s) (\<lambda>i. \<bar>mtv_Id m\<bar> \<le> \<bar>mtv_Id (s ! i)\<bar>)"
  assume ab: "s = a @ x # b" "?i = length a" "mtv_Id x = mtv_Id m" "\<bar>mtv_Id (s ! ?i)\<bar> = \<bar>mtv_Id m\<bar>" "?i < length s"
    "mtv_Id m \<notin> mtv_Id ` set a" "mtv_Id m \<notin> mtv_Id ` set b"
  define x' where "x' = x\<lparr>mtv_Value := aggregate (mtv_Value x) (mtv_Value m)\<rparr>"
  have u: "MultiTokenValues_upsert m idx aggregate s = (if idx < 0 \<and> mtv_Value x' = 0 then a @ b else a @ x' # b)"
    using ab(2-5) by (simp add: MultiTokenValues_upsert_def MultiTokenValues_search_def Let_def ab(1) x'_def)
  have "keysOk mtv_Id (a @ b)" "keysOk mtv_Id (a @ x' # b)"
    using s ab(1) by (auto simp: keysOk_append keysOk_Cons x'_def)
  moreover have "mtvMap (a @ b) (mtv_Id m) = None" using ab(6,7) by (intro mtvMap_None) auto
  moreover have "mtvMap s = (mtvMap (a @ b))(mtv_Id m \<mapsto> mtv_Value x)" using mtvMap_insert [of x a b] ab(1,3,6) by simp
  moreover have "mtvMap (a @ x' # b) = (mtvMap (a @ b))(mtv_Id m \<mapsto> mtv_Value x')"
    using mtvMap_insert [of x' a b] ab(3,6) by (simp add: x'_def)
  moreover have "mtv_Value x' = aggregate (mtv_Value x) (mtv_Value m)" by (simp add: x'_def)
  ultimately show ?thesis unfolding u by (simp add: mtvUpsert_def Let_def fun_eq_iff)
next
  fix a b
  let ?i = "sort_Search (length s) (\<lambda>i. \<bar>mtv_Id m\<bar> \<le> \<bar>mtv_Id (s ! i)\<bar>)"
  assume ab: "s = a @ b" "?i = length a" "\<not> (?i < length s \<and> \<bar>mtv_Id (s ! ?i)\<bar> = \<bar>mtv_Id m\<bar>)"
    "mtv_Id m \<notin> mtv_Id ` set s" "\<forall>x \<in> set a. mtv_Id x < mtv_Id m" "\<forall>x \<in> set b. mtv_Id m < mtv_Id x"
  define x where "x = \<lparr>mtv_Id = mtv_Id m, mtv_Value = mtv_Value m\<rparr>"
  have u: "MultiTokenValues_upsert m idx aggregate s = (if idx \<ge> 0 then a @ x # b else s)"
    using ab(2,3) insert_at [of b a x]
    by (cases "b = []") (auto simp: MultiTokenValues_upsert_def MultiTokenValues_search_def Let_def ab(1) x_def)
  have "keysOk mtv_Id (a @ x # b)" using s k ab(1,5,6) by (force simp: keysOk_append keysOk_Cons x_def)
  moreover have "mtvMap (a @ x # b) = (mtvMap s)(mtv_Id m \<mapsto> mtv_Value m)"
    using mtvMap_insert [of x a b] ab(1,4) by (simp add: x_def image_Un)
  ultimately show ?thesis
    unfolding u using s mtvMap_None [OF ab(4)] by (simp add: mtvUpsert_def fun_upd_idem)
qed

section \<open>Rows\<close>

lemma standard_txs:
  fixes txs :: uint64
  assumes "0 \<le> s" "s < 4" "uint txs < 2 ^ 62"
  shows "uint ((word_of_int s + push_bit 2 txs) AND 3) = s" "drop_bit 2 (word_of_int s + push_bit 2 txs) = txs"
proof -
  let ?w = "word_of_int s + push_bit 2 txs"
  have "uint (push_bit 2 txs) = 4 * uint txs"
    using assms(3) by (simp add: uint_word_ariths push_bit_eq_mult uint_mult_ge0 mod_pos_pos_trivial take_bit_eq_mod)
  moreover have "uint (word_of_int s :: uint64) = s" using assms by (simp add: uint_word_of_int take_bit_eq_mod)
  ultimately have w: "uint ?w = s + 4 * uint txs"
    using assms uint_ge_0 [of txs] by (simp add: uint_word_ariths mod_pos_pos_trivial)
  have "uint (?w AND 3) = uint ?w AND 3" by (simp add: uint_and)
  also have "\<dots> = uint ?w mod 4" using take_bit_eq_mask [of 2 "uint ?w"] by (simp add: mask_eq_exp_minus_1 take_bit_eq_mod)
  finally show "uint (?w AND 3) = s" using w assms by simp
  have "uint (drop_bit 2 ?w) = uint ?w div 4" by (simp add: drop_bit_eq_div uint_div)
  then show "drop_bit 2 ?w = txs" using w assms by (simp add: word_uint_eq_iff)
qed

definition mtvOk :: "MultiTokenValue \<Rightarrow> bool" where
  "mtvOk m \<longleftrightarrow> amount (mtv_Id m) \<and> amount (mtv_Value m)"

lemma unpackMultiTokenValue_pack:
  "mtvOk m \<Longrightarrow> unpackMultiTokenValue (packMultiTokenValue m @ rest) = Some (m, int (length (packMultiTokenValue m)))"
  by (simp add: mtvOk_def unpackMultiTokenValue_def packMultiTokenValue_def codec_simps)

interpretation mtv: exact_codec packMultiTokenValue unpackMultiTokenValue mtvOk id
  by unfold_locales (simp_all add: unpackMultiTokenValue_pack)

text \<open>A contract as the index keeps it: only the field of its standard is in use.\<close>

definition contractOk :: "AddrContract \<Rightarrow> bool" where
  "contractOk ac \<longleftrightarrow>
     length (ac_Contract ac) = 20 \<and> 0 \<le> ac_Standard ac \<and> ac_Standard ac < 4 \<and> uint (ac_Txs ac) < 2 ^ 62 \<and>
     (if ac_Standard ac = FungibleToken then amount (ac_Value ac) else ac_Value ac = 0) \<and>
     (if ac_Standard ac = NonFungibleToken then list_all amount (ac_Ids ac) \<and> length (ac_Ids ac) < 2 ^ 64
      else ac_Ids ac = []) \<and>
     (if ac_Standard ac \<in> {FungibleToken, NonFungibleToken} then ac_MultiTokenValues ac = []
      else list_all mtvOk (ac_MultiTokenValues ac) \<and> length (ac_MultiTokenValues ac) < 2 ^ 64)"

lemma slice_front: "length xs = n \<Longrightarrow> slice (xs @ ys) 0 (int n) = Some xs"
  by (simp add: slice_def)

lemma unat_of_nat_64: "n < 2 ^ 64 \<Longrightarrow> unat (of_nat n :: uint64) = n"
  by (simp add: unat_of_nat take_bit_eq_mod)

lemma unpackAddrContract_pack:
  assumes v: "vlq_ok v" and ok: "contractOk ac"
  shows "unpackAddrContract v (packAddrContract v ac @ rest) = Some (ac, int (length (packAddrContract v ac)))"
proof -
  define t where "t = word_of_int (ac_Standard ac) + push_bit 2 (ac_Txs ac)"
  have t: "uint (t AND 3) = ac_Standard ac" "drop_bit 2 t = ac_Txs ac"
    using standard_txs [of "ac_Standard ac" "ac_Txs ac"] ok by (simp_all add: contractOk_def t_def)
  have c: "length (ac_Contract ac) = 20" using ok by (simp add: contractOk_def)
  define pre where "pre = ac_Contract ac @ packVaruint v t"
  have pre: "int (length pre) = 20 + int (length (packVaruint v t))" by (simp add: pre_def c)
  have head: "slice (ac_Contract ac @ xs) 0 20 = Some (ac_Contract ac)"
    "slice_from (ac_Contract ac @ xs) 20 = Some xs"
    "slice_from (ac_Contract ac @ packVaruint v t @ xs) (20 + int (length (packVaruint v t))) = Some xs" for xs
    using slice_front [OF c, of xs] c pre by (simp_all add: slice_from_def nat_add_distrib)
  have pk: "packAddrContract v ac = ac_Contract ac @ packVaruint v t @
      (if ac_Standard ac = FungibleToken then packBigint (ac_Value ac)
       else if ac_Standard ac = NonFungibleToken
       then packVaruint v (of_nat (length (ac_Ids ac))) @ concat (map packBigint (ac_Ids ac))
       else packVaruint v (of_nat (length (ac_MultiTokenValues ac))) @ concat (map packMultiTokenValue (ac_MultiTokenValues ac)))"
    by (simp add: packAddrContract_def t_def)
  consider "ac_Standard ac = FungibleToken" | "ac_Standard ac = NonFungibleToken"
    | "ac_Standard ac \<noteq> FungibleToken" "ac_Standard ac \<noteq> NonFungibleToken" by blast
  then show ?thesis
  proof cases
    case 1
    with ok v show ?thesis
      by (simp add: unpackAddrContract_def pk EthereumTypeAddressDescriptorLen_def head codec_simps
          Let_def t contractOk_def NonFungibleToken_def FungibleToken_def)
  next
    case 2
    then have ids: "list_all amount (ac_Ids ac)" "length (ac_Ids ac) < 2 ^ 64" using ok by (simp_all add: contractOk_def)
    define p where "p = pre @ packVaruint v (of_nat (length (ac_Ids ac)))"
    have "unpack_n unpackBigint (length (ac_Ids ac)) (p @ concat (map packBigint (ac_Ids ac)) @ rest) (int (length p)) =
        Some (map canonBigint (ac_Ids ac), int (length p) + int (length (concat (map packBigint (ac_Ids ac)))))"
      by (rule amounts.unpack_n_pack) (use ids(1) in \<open>simp add: list_all_iff\<close>)
    moreover have "map canonBigint (ac_Ids ac) = ac_Ids ac" using ids(1) by (simp add: list_all_iff map_idI)
    ultimately show ?thesis using ok v 2
      by (simp add: unpackAddrContract_def pk EthereumTypeAddressDescriptorLen_def head codec_simps
          Let_def t contractOk_def NonFungibleToken_def FungibleToken_def p_def pre_def c
          unat_of_nat_64 [OF ids(2)] add.assoc)
  next
    case 3
    then have ms: "list_all mtvOk (ac_MultiTokenValues ac)" "length (ac_MultiTokenValues ac) < 2 ^ 64"
      using ok by (simp_all add: contractOk_def)
    define p where "p = pre @ packVaruint v (of_nat (length (ac_MultiTokenValues ac)))"
    have "unpack_n unpackMultiTokenValue (length (ac_MultiTokenValues ac))
        (p @ concat (map packMultiTokenValue (ac_MultiTokenValues ac)) @ rest) (int (length p)) =
        Some (map id (ac_MultiTokenValues ac),
          int (length p) + int (length (concat (map packMultiTokenValue (ac_MultiTokenValues ac)))))"
      by (rule mtv.unpack_n_pack) (use ms(1) in \<open>simp add: list_all_iff\<close>)
    with ok v 3 show ?thesis
      by (simp add: unpackAddrContract_def pk EthereumTypeAddressDescriptorLen_def head codec_simps
          Let_def t contractOk_def p_def pre_def c unat_of_nat_64 [OF ms(2)] add.assoc)
  qed
qed

lemma length_packAddrContract: "contractOk ac \<Longrightarrow> 20 \<le> length (packAddrContract v ac)"
  by (simp add: contractOk_def packAddrContract_def)

lemma unpackContractsLoop_pack:
  assumes v: "vlq_ok v"
  shows "list_all contractOk cs \<Longrightarrow> length cs \<le> fuel \<Longrightarrow>
    unpackContractsLoop fuel v (concat (map (packAddrContract v) cs)) = Inr cs"
proof (induction cs arbitrary: fuel)
  case Nil
  show ?case by (subst unpackContractsLoop.simps) simp
next
  case (Cons ac cs)
  then obtain fuel' where f: "fuel = Suc fuel'" "length cs \<le> fuel'" by (cases fuel) auto
  have l: "20 \<le> length (packAddrContract v ac)" using Cons.prems by (simp add: length_packAddrContract)
  then have "0 < length (packAddrContract v ac)" by linarith
  then have ne: "packAddrContract v ac \<noteq> []" by simp
  from Cons f l ne v show ?case
    by (subst unpackContractsLoop.simps)
      (simp add: unpackAddrContract_pack EthereumTypeAddressDescriptorLen_def codec_simps)
qed

lemma length_contracts: "list_all contractOk cs \<Longrightarrow> length cs \<le> length (concat (map (packAddrContract v) cs))"
proof (induction cs)
  case (Cons ac cs)
  then show ?case using length_packAddrContract [of ac v] by simp
qed simp

definition contractsOk :: "AddrContracts \<Rightarrow> bool" where
  "contractsOk acs \<longleftrightarrow> list_all contractOk (acs_Contracts acs)"

lemma unpackAddrContracts_pack:
  "vlq_ok v \<Longrightarrow> contractsOk acs \<Longrightarrow> unpackAddrContracts v (packAddrContracts v acs) = Inr acs"
  by (simp add: unpackAddrContracts_def packAddrContracts_def codec_simps contractsOk_def unpackContractsLoop_pack
      length_contracts del: length_concat)

lemma unpackAddrContractsV6_pack:
  "vlq_ok v \<Longrightarrow> contractsOk acs \<Longrightarrow> unpackAddrContractsV6 v (packAddrContractsV6 v acs) = Inr acs"
  by (simp add: unpackAddrContractsV6_def packAddrContractsV6_def codec_simps contractsOk_def unpackContractsLoop_pack
      length_contracts del: length_concat)

lemma unpackVaruintSafe_pack:
  "vlq_ok v \<Longrightarrow> unpackVaruintSafe v (packVaruint v x @ rest) = Some (x, int (length (packVaruint v x)))"
  by (simp add: unpackVaruintSafe_def codec_simps)

lemma unpackAddrContractsHeader_pack:
  "vlq_ok v \<Longrightarrow> unpackAddrContractsHeader v (packAddrContracts v acs) = Inr (acs\<lparr>acs_Contracts := []\<rparr>)"
  by (simp add: unpackAddrContractsHeader_def packAddrContracts_def numeral_3_eq_3 unpackVaruintSafe_pack)

section \<open>Storing and reading holdings\<close>

definition emptyRow :: "AddrContracts \<Rightarrow> bool" where
  "emptyRow acs \<longleftrightarrow> acs_NonContractTxs acs = 0 \<and> acs_InternalTxs acs = 0 \<and> acs_Contracts acs = []"

lemma storeAddressContracts_effect:
  assumes "distinct (map fst acm)"
  shows "batch_effect cfAddressContracts k (storeAddressContracts v acm) =
    map_option (\<lambda>acs. case acs of None \<Rightarrow> None
      | Some acs \<Rightarrow> if emptyRow acs then None else Some (packAddrContracts v acs)) (map_of acm k)"
  unfolding storeAddressContracts_def by (rule batch_effect_keyed [OF assms]) (auto simp: emptyRow_def split: option.splits)

lemma packAddrContracts_not_Nil: "vlq_ok v \<Longrightarrow> packAddrContracts v acs \<noteq> []"
  by (simp add: packAddrContracts_def)

text \<open>C14: After the batch of \<open>storeAddressContracts\<close> is applied, reading the holdings of an address returns the record
  written for it, an address without transactions and contracts has no row, and every other address reads as before.
  With \<open>headerOnly\<close> the same counters come back and no contracts.\<close>

theorem address_contracts_lookup:
  assumes "vlq_ok v" and "distinct (map fst acm)" and "\<forall>k acs. (k, Some acs) \<in> set acm \<longrightarrow> contractsOk acs"
  shows "GetAddrDescContracts v (after get (storeAddressContracts v acm)) a headerOnly =
    (case map_of acm a of
       None \<Rightarrow> GetAddrDescContracts v get a headerOnly
     | Some None \<Rightarrow> Inr None
     | Some (Some acs) \<Rightarrow>
         Inr (if acs_NonContractTxs acs = 0 \<and> acs_InternalTxs acs = 0 \<and> acs_Contracts acs = [] then None
              else if headerOnly then Some (acs\<lparr>acs_Contracts := []\<rparr>) else Some acs))"
proof (cases "map_of acm a")
  case None
  then show ?thesis by (simp add: GetAddrDescContracts_def after_def storeAddressContracts_effect [OF assms(2)])
next
  case (Some b)
  show ?thesis
  proof (cases b)
    case None
    with Some show ?thesis
      by (simp add: GetAddrDescContracts_def after_def storeAddressContracts_effect [OF assms(2)] val_Data_def)
  next
    case (Some acs)
    with \<open>map_of acm a = Some b\<close> have "(a, Some acs) \<in> set acm" by (auto dest: map_of_SomeD)
    with assms(3) have "contractsOk acs" by blast
    with Some \<open>map_of acm a = Some b\<close> assms(1) show ?thesis
      by (auto simp: GetAddrDescContracts_def after_def storeAddressContracts_effect [OF assms(2)] val_Data_def
          emptyRow_def packAddrContracts_not_Nil unpackAddrContracts_pack unpackAddrContractsHeader_pack)
  qed
qed

definition demoHoldings :: AddrContracts where
  "demoHoldings =
     \<lparr>acs_TotalTxs = 7, acs_NonContractTxs = 2, acs_InternalTxs = 1, acs_Contracts =
       [\<lparr>ac_Standard = 0, ac_Contract = replicate 20 1, ac_Txs = 3, ac_Value = 0, ac_Ids = [], ac_MultiTokenValues = []\<rparr>,
        \<lparr>ac_Standard = 1, ac_Contract = replicate 20 2, ac_Txs = 2, ac_Value = 0, ac_Ids = [5, 300],
         ac_MultiTokenValues = []\<rparr>,
        \<lparr>ac_Standard = 2, ac_Contract = replicate 20 3, ac_Txs = 1, ac_Value = 0, ac_Ids = [],
         ac_MultiTokenValues = [\<lparr>mtv_Id = 9, mtv_Value = 1000\<rparr>]\<rparr>]\<rparr>"

lemma contractsOk_demo: "contractsOk demoHoldings"
  by (simp add: demoHoldings_def contractsOk_def contractOk_def amount_def mtvOk_def FungibleToken_def NonFungibleToken_def)

theorem address_contracts_lookup_witness:
  "GetAddrDescContracts leb_vlq (after (\<lambda>_ _. Inr None) (storeAddressContracts leb_vlq [([1], Some demoHoldings), ([2], None)]))
     [1] False = Inr (Some demoHoldings)"
proof -
  have "\<forall>k acs. (k, Some acs) \<in> set [([1], Some demoHoldings), ([2 :: byte], None)] \<longrightarrow> contractsOk acs"
    using contractsOk_demo by simp
  moreover have "acs_NonContractTxs demoHoldings \<noteq> 0" by (simp add: demoHoldings_def)
  ultimately show ?thesis
    using address_contracts_lookup [of leb_vlq "[([1], Some demoHoldings), ([2], None)]" "\<lambda>_ _. Inr None" "[1]" False]
    by (simp add: vlq_ok_leb)
qed

section \<open>The loop over the contracts of a row ends\<close>

lemma unpack_n_le:
  "\<forall>b x ll. u b = Some (x, ll) \<longrightarrow> 0 \<le> ll \<Longrightarrow> unpack_n u n buf l = Some (xs, l') \<Longrightarrow> l \<le> l'"
proof (induction n arbitrary: l xs)
  case (Suc n)
  then obtain b x ll ys where "u b = Some (x, ll)" "unpack_n u n buf (l + ll) = Some (ys, l')"
    by (auto split: bind_splits)
  with Suc.IH [of "l + ll" ys] Suc.prems(1) have "l + ll \<le> l'" "0 \<le> ll" by blast+
  then show ?case by simp
qed simp

lemma unpackBigint_le: "unpackBigint b = Some (x, ll) \<Longrightarrow> 0 \<le> ll"
  by (auto simp: unpackBigint_def Let_def split: bind_splits)

lemma unpackMultiTokenValue_le: "unpackMultiTokenValue b = Some (x, ll) \<Longrightarrow> 0 \<le> ll"
  by (auto simp: unpackMultiTokenValue_def dest!: unpackBigint_le split: bind_splits)

lemma unpackAddrContract_le:
  assumes v: "\<And>b. 0 \<le> snd (unpackVaruint v b)" and u: "unpackAddrContract v buf = Some (ac, l)"
  shows "20 \<le> l"
proof -
  obtain b where "slice_from buf 20 = Some b"
    using u by (auto simp: unpackAddrContract_def EthereumTypeAddressDescriptorLen_def split: bind_splits)
  obtain txs l1 where l1: "unpackVaruint v b = (txs, l1)" by fastforce
  obtain b2 where b2: "slice_from buf (20 + l1) = Some b2"
    using u \<open>slice_from buf 20 = Some b\<close> l1
    by (cases "slice_from buf (20 + l1)")
      (auto simp: unpackAddrContract_def EthereumTypeAddressDescriptorLen_def Let_def split: bind_splits)
  obtain n l2 where l2: "unpackVaruint v b2 = (n, l2)" by fastforce
  have "0 \<le> l1" "0 \<le> l2" using v [of b] v [of b2] l1 l2 by simp_all
  moreover have "(\<exists>x ll. unpackBigint b2 = Some (x, ll) \<and> l = 20 + l1 + ll) \<or>
      (\<exists>xs. unpack_n unpackBigint (unat n) buf (20 + l1 + l2) = Some (xs, l)) \<or>
      (\<exists>xs. unpack_n unpackMultiTokenValue (unat n) buf (20 + l1 + l2) = Some (xs, l))"
    using u \<open>slice_from buf 20 = Some b\<close> l1 b2 l2
    by (auto simp: unpackAddrContract_def EthereumTypeAddressDescriptorLen_def Let_def split: bind_splits if_splits)
  ultimately show ?thesis
    using unpackBigint_le unpackMultiTokenValue_le unpack_n_le [of unpackBigint "unat n" buf "20 + l1 + l2" _ l]
      unpack_n_le [of unpackMultiTokenValue "unat n" buf "20 + l1 + l2" _ l]
    by fastforce
qed



end
