(* ===== verification/EthLazyLaws.thy ===== *)
theory EthLazyLaws
  imports EthLazy EthContractsLaws
begin

text \<open>
  Laws of the lazily decoded holdings: decoding on demand does what the operations on decoded numbers do, the index of
  contracts finds what the scan finds, and packing gives the row of the decoded holdings.
\<close>

section \<open>Numbers decoded on demand\<close>

definition absInt :: "unpackedBigInt \<Rightarrow> int" where
  "absInt b =
     (case ub_Value b of
        Some x \<Rightarrow> x
      | None \<Rightarrow> (case unpackBigint (ub_Slice b) of Some (x, _) \<Rightarrow> x | None \<Rightarrow> 0))"

text \<open>A number is decoded, or its slice holds a packed amount.\<close>

definition biOk :: "unpackedBigInt \<Rightarrow> bool" where
  "biOk b \<longleftrightarrow> ub_Value b \<noteq> None \<or> (\<exists>x. amount x \<and> ub_Slice b = packBigint x)"

lemma unpackBigint_packed: "amount x \<Longrightarrow> unpackBigint (packBigint x) = Some (x, int (length (packBigint x)))"
  using unpackBigint_pack [of x "[]"] by simp

lemma biOk_simps [simp]:
  "biOk \<lparr>ub_Slice = s, ub_Value = Some x\<rparr>" "absInt \<lparr>ub_Slice = s, ub_Value = Some x\<rparr> = x"
  "amount x \<Longrightarrow> biOk \<lparr>ub_Slice = packBigint x, ub_Value = v\<rparr>"
  "amount x \<Longrightarrow> absInt \<lparr>ub_Slice = packBigint x, ub_Value = None\<rparr> = x"
  by (auto simp: biOk_def absInt_def unpackBigint_packed)

lemma get_refines:
  assumes "biOk b"
  obtains b' where "unpackedBigInt_get b = Some (absInt b, b')" "biOk b'" "absInt b' = absInt b" "ub_Value b' = Some (absInt b)"
proof (cases "ub_Value b")
  case None
  with assms obtain x where x: "amount x" "ub_Slice b = packBigint x" by (auto simp: biOk_def)
  with None show thesis
    by (intro that [of "b\<lparr>ub_Value := Some x\<rparr>"]) (simp_all add: unpackedBigInt_get_def absInt_def unpackBigint_packed biOk_def)
next
  case (Some x)
  with assms show thesis by (intro that [of b]) (simp_all add: unpackedBigInt_get_def absInt_def)
qed

lemma packUnpackedBigInt_abs: "biOk b \<Longrightarrow> packUnpackedBigInt b = packBigint (absInt b)"
  by (auto simp: packUnpackedBigInt_def absInt_def biOk_def unpackBigint_packed split: option.splits)

text \<open>A search whose condition decodes as it goes is the search of the decoded slice.\<close>

lemma searchLoop_refines:
  assumes step: "\<And>h s. P s \<Longrightarrow> h < n \<Longrightarrow> \<exists>s'. f h s = Some (g h, s') \<and> P s'"
  shows "P s \<Longrightarrow> j \<le> n \<Longrightarrow> \<exists>s'. searchLoop f i j s = Some (sort_Search_loop g i j, s') \<and> P s'"
proof (induction "j - i" arbitrary: i j s rule: less_induct)
  case less
  show ?case
  proof (cases "i < j")
    case True
    let ?h = "(i + j) div 2"
    have h: "?h < n" "?h < j" "i \<le> ?h" using True less.prems by simp_all
    obtain s' where s': "f ?h s = Some (g ?h, s')" "P s'" using step [OF less.prems(1) h(1)] by blast
    have "\<exists>s''. searchLoop f i j s = Some (sort_Search_loop g (if g ?h then i else ?h + 1) (if g ?h then ?h else j), s'') \<and> P s''"
    proof (cases "g ?h")
      case True
      with less.hyps [of ?h i s'] s' h \<open>i < j\<close> less.prems show ?thesis by (subst searchLoop.simps) simp
    next
      case False
      with less.hyps [of j "?h + 1" s'] s' h \<open>i < j\<close> less.prems show ?thesis by (subst searchLoop.simps) simp
    qed
    moreover have "sort_Search_loop g i j = sort_Search_loop g (if g ?h then i else ?h + 1) (if g ?h then ?h else j)"
      using True by (subst sort_Search_loop.simps) (simp add: Let_def)
    ultimately show ?thesis by simp
  next
    case False
    with less.prems show ?thesis by (subst searchLoop.simps, subst sort_Search_loop.simps) simp
  qed
qed

section \<open>Changes of a slice\<close>

lemma list_all2_insertAt:
  "list_all2 R s xs \<Longrightarrow> R b x \<Longrightarrow> list_all2 R ((take (i + 1) s @ drop i s)[i := b]) ((take (i + 1) xs @ drop i xs)[i := x])"
  by (intro list_all2_update_cong list_all2_appendI list_all2_takeI list_all2_dropI)

lemma list_all2_removeAt:
  "list_all2 R s xs \<Longrightarrow> list_all2 R (take i s @ drop (i + 1) s) (take i xs @ drop (i + 1) xs)"
  by (intro list_all2_appendI list_all2_takeI list_all2_dropI)

lemma list_all2_snoc: "list_all2 R s xs \<Longrightarrow> R b x \<Longrightarrow> list_all2 R (s @ [b]) (xs @ [x])"
  by (intro list_all2_appendI) simp_all

lemmas slice_changes = list_all2_insertAt list_all2_removeAt list_all2_snoc

section \<open>Ids\<close>

definition biAbs :: "unpackedBigInt \<Rightarrow> int \<Rightarrow> bool" where
  "biAbs b x \<longleftrightarrow> biOk b \<and> absInt b = x"

lemma get_abs: "biAbs b x \<Longrightarrow> \<exists>b'. unpackedBigInt_get b = Some (x, b') \<and> biAbs b' x \<and> ub_Value b' = Some x"
  by (auto simp: biAbs_def elim: get_refines)

lemma biAbs_value [simp]: "biAbs \<lparr>ub_Slice = s, ub_Value = Some x\<rparr> y \<longleftrightarrow> x = y"
  by (simp add: biAbs_def)

lemma unpackedIds_get_refines:
  assumes "list_all2 biAbs s xs" "i < length xs"
  shows "\<exists>s'. unpackedIds_get i s = Some (xs ! i, s') \<and> list_all2 biAbs s' xs"
proof -
  have i: "i < length s" and x: "biAbs (s ! i) (xs ! i)"
    using assms list_all2_lengthD by (fastforce intro: list_all2_nthD2)+
  obtain b where b: "unpackedBigInt_get (s ! i) = Some (xs ! i, b)" "biAbs b (xs ! i)" using get_abs [OF x] by blast
  have "list_all2 biAbs (s[i := b]) (xs[i := xs ! i])" using assms(1) b(2) by (rule list_all2_update_cong)
  with i b(1) show ?thesis by (simp add: unpackedIds_get_def index_def)
qed

lemma unpackedIds_search_refines:
  assumes "list_all2 biAbs s xs"
  shows "\<exists>s'. unpackedIds_search k s = Some (Ids_search k xs, s') \<and> list_all2 biAbs s' xs"
  unfolding unpackedIds_search_def Ids_search_def sort_Search_def list_all2_lengthD [OF assms]
proof (rule searchLoop_refines [where n = "length xs"])
  fix h s assume "list_all2 biAbs s xs" "h < length xs"
  from unpackedIds_get_refines [OF this]
  show "\<exists>s'. (unpackedIds_get h s \<bind> (\<lambda>(x, s). Some (\<bar>k\<bar> \<le> \<bar>x\<bar>, s))) = Some (\<bar>k\<bar> \<le> \<bar>xs ! h\<bar>, s') \<and> list_all2 biAbs s' xs"
    by auto
qed (use assms in simp_all)

lemma unpackedIds_at_refines:
  assumes "list_all2 biAbs s xs"
  shows "\<exists>s'. unpackedIds_at i k s = Some (i < length xs \<and> \<bar>xs ! i\<bar> = \<bar>k\<bar>, s') \<and> list_all2 biAbs s' xs"
  using assms unpackedIds_get_refines [OF assms, of i] list_all2_lengthD [OF assms] by (auto simp: unpackedIds_at_def)

lemma unpackedIds_find_refines:
  assumes "list_all2 biAbs s xs"
  obtains s1 s2 where "unpackedIds_search k s = Some (Ids_search k xs, s1)"
    "unpackedIds_at (Ids_search k xs) k s1 = Some (Ids_search k xs < length xs \<and> \<bar>xs ! Ids_search k xs\<bar> = \<bar>k\<bar>, s2)"
    "list_all2 biAbs s2 xs" "length s2 = length xs"
  using unpackedIds_search_refines [OF assms, of k] unpackedIds_at_refines list_all2_lengthD by metis

lemma unpackedIds_insert_refines:
  assumes "list_all2 biAbs s xs"
  shows "\<exists>s'. unpackedIds_insert k s = Some s' \<and> list_all2 biAbs s' (Ids_insert k xs)"
proof (rule unpackedIds_find_refines [OF assms, of k])
  fix s1 s2
  assume s: "unpackedIds_search k s = Some (Ids_search k xs, s1)"
    "unpackedIds_at (Ids_search k xs) k s1 = Some (Ids_search k xs < length xs \<and> \<bar>xs ! Ids_search k xs\<bar> = \<bar>k\<bar>, s2)"
    "list_all2 biAbs s2 xs" "length s2 = length xs"
  then show ?thesis
    using slice_changes(1,3) [OF s(3), of "\<lparr>ub_Slice = [], ub_Value = Some k\<rparr>" k]
    by (simp add: unpackedIds_insert_def Ids_insert_def Let_def)
qed

lemma unpackedIds_remove_refines:
  assumes "list_all2 biAbs s xs"
  shows "\<exists>s'. unpackedIds_remove k s = Some s' \<and> list_all2 biAbs s' (Ids_remove k xs)"
proof (rule unpackedIds_find_refines [OF assms, of k])
  fix s1 s2
  assume s: "unpackedIds_search k s = Some (Ids_search k xs, s1)"
    "unpackedIds_at (Ids_search k xs) k s1 = Some (Ids_search k xs < length xs \<and> \<bar>xs ! Ids_search k xs\<bar> = \<bar>k\<bar>, s2)"
    "list_all2 biAbs s2 xs" "length s2 = length xs"
  then show ?thesis
    using slice_changes(2) [OF s(3)] by (simp add: unpackedIds_remove_def Ids_remove_def Let_def)
qed

section \<open>Values of multi tokens\<close>

definition umAbs :: "unpackedMultiTokenValue \<Rightarrow> MultiTokenValue \<Rightarrow> bool" where
  "umAbs u m \<longleftrightarrow> biAbs (um_Id u) (mtv_Id m) \<and> biAbs (um_Value u) (mtv_Value m)"

lemma unpackedMTV_getId_refines:
  assumes "list_all2 umAbs s xs" "i < length xs"
  shows "\<exists>s'. unpackedMTV_getId i s = Some (mtv_Id (xs ! i), s') \<and> list_all2 umAbs s' xs"
proof -
  have i: "i < length s" and x: "umAbs (s ! i) (xs ! i)"
    using assms list_all2_lengthD by (fastforce intro: list_all2_nthD2)+
  then obtain b where b: "unpackedBigInt_get (um_Id (s ! i)) = Some (mtv_Id (xs ! i), b)" "biAbs b (mtv_Id (xs ! i))"
    using get_abs [of "um_Id (s ! i)"] by (auto simp: umAbs_def)
  have "list_all2 umAbs (s[i := (s ! i)\<lparr>um_Id := b\<rparr>]) (xs[i := xs ! i])"
    using assms(1) by (rule list_all2_update_cong) (use b(2) x in \<open>simp add: umAbs_def\<close>)
  with i b(1) show ?thesis by (simp add: unpackedMTV_getId_def index_def)
qed

lemma unpackedMTV_search_refines:
  assumes "list_all2 umAbs s xs"
  shows "\<exists>s'. unpackedMTV_search m s = Some (MultiTokenValues_search m xs, s') \<and> list_all2 umAbs s' xs"
  unfolding unpackedMTV_search_def MultiTokenValues_search_def sort_Search_def list_all2_lengthD [OF assms]
proof (rule searchLoop_refines [where n = "length xs"])
  fix h s assume "list_all2 umAbs s xs" "h < length xs"
  from unpackedMTV_getId_refines [OF this]
  show "\<exists>s'. (unpackedMTV_getId h s \<bind> (\<lambda>(x, s). Some (\<bar>mtv_Id m\<bar> \<le> \<bar>x\<bar>, s))) =
      Some (\<bar>mtv_Id m\<bar> \<le> \<bar>mtv_Id (xs ! h)\<bar>, s') \<and> list_all2 umAbs s' xs" by auto
qed (use assms in simp_all)

lemma unpackedMTV_at_refines:
  assumes "list_all2 umAbs s xs"
  shows "\<exists>s'. unpackedMTV_at i k s = Some (i < length xs \<and> \<bar>mtv_Id (xs ! i)\<bar> = \<bar>k\<bar>, s') \<and> list_all2 umAbs s' xs"
  using assms unpackedMTV_getId_refines [OF assms, of i] list_all2_lengthD [OF assms] by (auto simp: unpackedMTV_at_def)

lemma unpackedMTV_aggregate_refines:
  assumes "list_all2 umAbs s xs" "i < length xs"
  shows "\<exists>s'. unpackedMTV_aggregate f i v s = Some (f (mtv_Value (xs ! i)) v, s') \<and>
    list_all2 umAbs s' (xs[i := (xs ! i)\<lparr>mtv_Value := f (mtv_Value (xs ! i)) v\<rparr>])"
proof -
  have i: "i < length s" and x: "umAbs (s ! i) (xs ! i)"
    using assms list_all2_lengthD by (fastforce intro: list_all2_nthD2)+
  then obtain b where b: "unpackedBigInt_get (um_Value (s ! i)) = Some (mtv_Value (xs ! i), b)"
    using get_abs [of "um_Value (s ! i)"] by (auto simp: umAbs_def)
  let ?y = "f (mtv_Value (xs ! i)) v"
  have "biAbs (b\<lparr>ub_Value := Some ?y\<rparr>) ?y" by (simp add: biAbs_def biOk_def absInt_def)
  then have "list_all2 umAbs (s[i := (s ! i)\<lparr>um_Value := b\<lparr>ub_Value := Some ?y\<rparr>\<rparr>]) (xs[i := (xs ! i)\<lparr>mtv_Value := ?y\<rparr>])"
    using x by (intro list_all2_update_cong [OF assms(1)]) (simp add: umAbs_def)
  with i b(1) show ?thesis by (simp add: unpackedMTV_aggregate_def unpackedMTV_getValue_def index_def Let_def)
qed

lemma unpackedMTV_upsert_refines:
  assumes "list_all2 umAbs s xs"
  shows "\<exists>s'. unpackedMTV_upsert m idx f s = Some s' \<and> list_all2 umAbs s' (MultiTokenValues_upsert m idx f xs)"
proof -
  let ?i = "MultiTokenValues_search m xs"
  obtain s1 where s1: "unpackedMTV_search m s = Some (?i, s1)" "list_all2 umAbs s1 xs"
    using unpackedMTV_search_refines [OF assms] by blast
  obtain s2 where s2: "unpackedMTV_at ?i (mtv_Id m) s1 = Some (?i < length xs \<and> \<bar>mtv_Id (xs ! ?i)\<bar> = \<bar>mtv_Id m\<bar>, s2)"
      "list_all2 umAbs s2 xs" using unpackedMTV_at_refines [OF s1(2)] by blast
  have l: "length s2 = length xs" using s2(2) by (rule list_all2_lengthD)
  let ?e = "\<lparr>um_Id = \<lparr>ub_Slice = [], ub_Value = Some (mtv_Id m)\<rparr>, um_Value = \<lparr>ub_Slice = [], ub_Value = Some (mtv_Value m)\<rparr>\<rparr>"
  show ?thesis
  proof (cases "?i < length xs \<and> \<bar>mtv_Id (xs ! ?i)\<bar> = \<bar>mtv_Id m\<bar>")
    case True
    let ?y = "f (mtv_Value (xs ! ?i)) (mtv_Value m)"
    obtain s3 where s3: "unpackedMTV_aggregate f ?i (mtv_Value m) s2 = Some (?y, s3)"
        "list_all2 umAbs s3 (xs[?i := (xs ! ?i)\<lparr>mtv_Value := ?y\<rparr>])"
      using unpackedMTV_aggregate_refines [OF s2(2), of ?i] True by blast
    with True s1 s2 slice_changes(2) [OF s3(2), of ?i] show ?thesis
      by (simp add: unpackedMTV_upsert_def MultiTokenValues_upsert_def Let_def)
  next
    case False
    have "umAbs ?e \<lparr>mtv_Id = mtv_Id m, mtv_Value = mtv_Value m\<rparr>" by (simp add: umAbs_def)
    note ins = slice_changes(1,3) [OF s2(2) this]
    from False s1 s2 l ins show ?thesis
      by (auto simp: unpackedMTV_upsert_def MultiTokenValues_upsert_def Let_def)
  qed
qed

section \<open>The index of contracts\<close>

text \<open>The scan finds the first position of the contract.\<close>

lemma findContractFrom_cases:
  "(\<exists>i. findContractFrom n k cs = Some (n + i) \<and> i < length cs \<and> uc_Contract (cs ! i) = k) \<or>
   findContractFrom n k cs = None \<and> k \<notin> uc_Contract ` set cs"
proof (induction cs arbitrary: n)
  case (Cons c cs)
  show ?case
  proof (cases "k = uc_Contract c")
    case False
    from Cons [of "n + 1"] show ?thesis
    proof
      assume "\<exists>i. findContractFrom (n + 1) k cs = Some (n + 1 + i) \<and> i < length cs \<and> uc_Contract (cs ! i) = k"
      then obtain i where "findContractFrom (n + 1) k cs = Some (n + 1 + i)" "i < length cs" "uc_Contract (cs ! i) = k" by blast
      with False show ?thesis by (intro disjI1 exI [of _ "i + 1"]) simp
    qed (use False in simp)
  qed simp
qed simp

lemma findContract_cases:
  obtains i where "findContractInAddressContracts k cs = Some i" "i < length cs" "uc_Contract (cs ! i) = k"
  | "findContractInAddressContracts k cs = None" "k \<notin> uc_Contract ` set cs"
  using findContractFrom_cases [of 0 k cs] unfolding findContractInAddressContracts_def by auto

lemma findContract_distinct:
  assumes "distinct (map uc_Contract cs)"
  shows "findContractInAddressContracts k cs = Some i \<longleftrightarrow> i < length cs \<and> uc_Contract (cs ! i) = k"
proof (rule findContract_cases [of k cs])
  fix j assume "findContractInAddressContracts k cs = Some j" "j < length cs" "uc_Contract (cs ! j) = k"
  with assms show ?thesis using nth_eq_iff_index_eq [of "map uc_Contract cs" i j] by auto
qed (auto dest: nth_mem)

text \<open>The index, where it is in use, maps every contract to its position.\<close>

definition indexOf :: "unpackedAddrContract list \<Rightarrow> (bytes \<times> nat) list \<Rightarrow> bool" where
  "indexOf cs m \<longleftrightarrow>
     (\<forall>k i. length k = 20 \<longrightarrow> (map_of m k = Some i \<longleftrightarrow> i < length cs \<and> uc_Contract (cs ! i) = k))"

definition indexOk :: "unpackedAddrContracts \<Rightarrow> bool" where
  "indexOk acs \<longleftrightarrow>
     distinct (map uc_Contract (uacs_Contracts acs)) \<and>
     (\<forall>m. uacs_contractIndex acs = Some m \<longrightarrow> uacs_contractIndexDirty acs \<or> indexOf (uacs_Contracts acs) m)"

lemma indexKey: "contractIndexKeyFromDesc k = (if length k = 20 then Some k else None)"
  by (auto simp: contractIndexKeyFromDesc_def EthereumTypeAddressDescriptorLen_def)

lemma indexOf_snoc:
  assumes m: "indexOf cs m" and new: "uc_Contract c \<notin> uc_Contract ` set cs"
  shows "indexOf (cs @ [c]) (case contractIndexKeyFromDesc (uc_Contract c) of None \<Rightarrow> m
    | Some key \<Rightarrow> AList.update key (length cs) m)"
proof -
  have "uc_Contract (cs ! i) \<noteq> uc_Contract c" if "i < length cs" for i using new that by (metis image_eqI nth_mem)
  with m show ?thesis
    by (auto simp: indexOf_def indexKey AList.update_conv' nth_append less_Suc_eq simp del: map_of_eq_Some_iff)
qed

lemma buildContractIndex_indexOf:
  "distinct (map uc_Contract (cs @ cs')) \<Longrightarrow> indexOf cs m \<Longrightarrow> indexOf (cs @ cs') (buildContractIndex (length cs) cs' m)"
proof (induction cs' arbitrary: cs m)
  case (Cons c cs')
  have "indexOf ((cs @ [c]) @ cs') (buildContractIndex (length (cs @ [c])) cs'
      (case contractIndexKeyFromDesc (uc_Contract c) of None \<Rightarrow> m | Some key \<Rightarrow> AList.update key (length cs) m))"
    by (rule Cons.IH) (use Cons.prems indexOf_snoc [of cs m c] in simp_all)
  then show ?case by simp
qed simp

lemma indexOk_rebuild: "indexOk acs \<Longrightarrow> indexOk (rebuildContractIndex acs)"
  using buildContractIndex_indexOf [of "[]" "uacs_Contracts acs" "[]"]
  by (simp add: indexOk_def rebuildContractIndex_def) (simp add: indexOf_def)

lemma lookupContractIndex_laws:
  assumes ok: "indexOk acs"
  shows "fst (lookupContractIndex use k acs) = findContractInAddressContracts k (uacs_Contracts acs)"
    "indexOk (snd (lookupContractIndex use k acs))"
    "uacs_Contracts (snd (lookupContractIndex use k acs)) = uacs_Contracts acs"
proof -
  have d: "distinct (map uc_Contract (uacs_Contracts acs))" using ok by (simp add: indexOk_def)
  define acs' where "acs' = (if uacs_contractIndex acs = None \<or> uacs_contractIndexDirty acs then rebuildContractIndex acs else acs)"
  have ok': "indexOk acs'" using ok indexOk_rebuild by (simp add: acs'_def)
  have cs: "uacs_Contracts acs' = uacs_Contracts acs" by (simp add: acs'_def rebuildContractIndex_def)
  obtain m where m: "uacs_contractIndex acs' = Some m" "\<not> uacs_contractIndexDirty acs'"
    by (cases "uacs_contractIndex acs = None \<or> uacs_contractIndexDirty acs") (auto simp: acs'_def rebuildContractIndex_def)
  then have "indexOf (uacs_Contracts acs) m" using ok' cs by (simp add: indexOk_def)
  then have "map_of m k = findContractInAddressContracts k (uacs_Contracts acs)" if "length k = 20"
  proof -
    have "map_of m k = Some i \<longleftrightarrow> findContractInAddressContracts k (uacs_Contracts acs) = Some i" for i
      using \<open>indexOf _ m\<close> that unfolding indexOf_def findContract_distinct [OF d] by blast
    then show ?thesis by (metis not_Some_eq)
  qed
  then have "lookupContractIndex True k acs = (findContractInAddressContracts k (uacs_Contracts acs), acs')"
    using m(1) cs by (simp add: lookupContractIndex_def acs'_def [symmetric] Let_def indexKey)
  moreover have "lookupContractIndex False k acs = (findContractInAddressContracts k (uacs_Contracts acs), acs)"
    by (simp add: lookupContractIndex_def)
  ultimately show "fst (lookupContractIndex use k acs) = findContractInAddressContracts k (uacs_Contracts acs)"
    "indexOk (snd (lookupContractIndex use k acs))"
    "uacs_Contracts (snd (lookupContractIndex use k acs)) = uacs_Contracts acs"
    using ok ok' cs by (cases use; simp)+
qed

text \<open>
  What happens to a record of holdings in memory: it is loaded without an index, contracts are looked up, a contract that
  was not found is appended, a contract changes, a contract is removed by a rollback, counters change, and the index is
  dropped when the address is no longer hot.
\<close>

inductive holdingsReach :: "unpackedAddrContracts \<Rightarrow> bool" where
  loaded: "uacs_contractIndex acs = None \<Longrightarrow> distinct (map uc_Contract (uacs_Contracts acs)) \<Longrightarrow> holdingsReach acs"
| lookedUp: "holdingsReach acs \<Longrightarrow> findContractIndex addrDesc contract hot acs = (i, evicted, hot', acs') \<Longrightarrow>
    holdingsReach acs'"
| appended: "holdingsReach acs \<Longrightarrow> findContractIndex addrDesc contract hot acs = (None, evicted, hot', acs') \<Longrightarrow>
    uc_Contract c = contract \<Longrightarrow>
    holdingsReach (addContractIndex contract (length (uacs_Contracts acs')) (acs'\<lparr>uacs_Contracts := uacs_Contracts acs' @ [c]\<rparr>))"
| changed: "holdingsReach acs \<Longrightarrow> i < length (uacs_Contracts acs) \<Longrightarrow> uc_Contract c = uc_Contract (uacs_Contracts acs ! i) \<Longrightarrow>
    holdingsReach (acs\<lparr>uacs_Contracts := (uacs_Contracts acs)[i := c]\<rparr>)"
| removed: "holdingsReach acs \<Longrightarrow>
    holdingsReach (markContractIndexDirty (acs\<lparr>uacs_Contracts := take i (uacs_Contracts acs) @ drop (i + 1) (uacs_Contracts acs)\<rparr>))"
| counted: "holdingsReach acs \<Longrightarrow>
    holdingsReach (acs\<lparr>uacs_TotalTxs := t, uacs_NonContractTxs := n, uacs_InternalTxs := x\<rparr>)"
| dropped: "holdingsReach acs \<Longrightarrow> holdingsReach (dropContractIndex acs)"

lemma findContractIndex_lookup:
  "findContractIndex addrDesc contract hot acs =
     (let (use, evicted, hot') = decideIndex addrDesc (length (uacs_Contracts acs)) hot in
      (fst (lookupContractIndex use contract acs), evicted, hot', snd (lookupContractIndex use contract acs)))"
  by (simp add: findContractIndex_def Let_def split: prod.splits)

lemma findContractIndex_laws:
  assumes "indexOk acs" "findContractIndex addrDesc contract hot acs = (i, evicted, hot', acs')"
  shows "i = findContractInAddressContracts contract (uacs_Contracts acs)" "indexOk acs'"
    "uacs_Contracts acs' = uacs_Contracts acs"
  using assms(2) lookupContractIndex_laws [OF assms(1)] by (auto simp: findContractIndex_lookup split: prod.splits)

lemma indexOk_append:
  assumes ok: "indexOk acs" and new: "uc_Contract c \<notin> uc_Contract ` set (uacs_Contracts acs)"
  shows "indexOk (addContractIndex (uc_Contract c) (length (uacs_Contracts acs)) (acs\<lparr>uacs_Contracts := uacs_Contracts acs @ [c]\<rparr>))"
proof -
  have "indexOf (uacs_Contracts acs @ [c]) (AList.update (uc_Contract c) (length (uacs_Contracts acs)) m)"
    if "indexOf (uacs_Contracts acs) m" "length (uc_Contract c) = 20" for m
    using indexOf_snoc [OF that(1) new] that(2) by (simp add: indexKey)
  with ok new show ?thesis by (auto simp: indexOk_def addContractIndex_def indexKey split: option.splits)
qed

lemma distinct_removeAt: "distinct xs \<Longrightarrow> distinct (take i xs @ drop (i + 1) xs)"
  using set_take_disj_set_drop_if_distinct [of xs i "i + 1"] by simp

lemma indexOk_update:
  assumes "indexOk acs" and "i < length (uacs_Contracts acs)" and "uc_Contract c = uc_Contract (uacs_Contracts acs ! i)"
  shows "indexOk (acs\<lparr>uacs_Contracts := (uacs_Contracts acs)[i := c]\<rparr>)"
proof -
  have "map uc_Contract ((uacs_Contracts acs)[i := c]) = map uc_Contract (uacs_Contracts acs)"
    using assms(2,3) by (simp add: map_update) (metis list_update_id nth_map)
  moreover from this have "indexOf ((uacs_Contracts acs)[i := c]) m \<longleftrightarrow> indexOf (uacs_Contracts acs) m" for m
    unfolding indexOf_def by (metis length_list_update nth_map)
  ultimately show ?thesis using assms(1) by (simp add: indexOk_def)
qed

lemma indexOk_remove:
  assumes "indexOk acs"
  shows "indexOk (markContractIndexDirty
    (acs\<lparr>uacs_Contracts := take i (uacs_Contracts acs) @ drop (i + 1) (uacs_Contracts acs)\<rparr>))"
proof -
  have "distinct (map uc_Contract (take i (uacs_Contracts acs) @ drop (i + 1) (uacs_Contracts acs)))"
    using assms distinct_removeAt [of "map uc_Contract (uacs_Contracts acs)" i]
    by (simp add: indexOk_def take_map drop_map)
  with assms show ?thesis by (auto simp: indexOk_def markContractIndexDirty_def)
qed

lemma holdingsReach_indexOk: "holdingsReach acs \<Longrightarrow> indexOk acs"
proof (induction rule: holdingsReach.induct)
  case (appended acs addrDesc contract hot evicted hot' acs' c)
  note laws = findContractIndex_laws [OF appended.IH appended.hyps(2)]
  have "contract \<notin> uc_Contract ` set (uacs_Contracts acs)"
    by (rule findContract_cases [of contract "uacs_Contracts acs"]) (use laws(1) in simp_all)
  then have "contract \<notin> uc_Contract ` set (uacs_Contracts acs')" by (simp only: laws(3) not_False_eq_True)
  with indexOk_append [OF laws(2), of c] appended.hyps(3) show ?case by simp
next
  case (changed acs i c)
  show ?case by (rule indexOk_update [OF changed.IH changed.hyps(2,3)])
next
  case (removed acs i)
  show ?case by (rule indexOk_remove [OF removed.IH])
next
  case (lookedUp acs addrDesc contract hot i evicted hot' acs')
  show ?case by (rule findContractIndex_laws(2) [OF lookedUp.IH lookedUp.hyps(2)])
qed (simp_all add: indexOk_def dropContractIndex_def)

text \<open>C8: Whatever happened to the holdings of an address in memory before, and whichever addresses are hot, looking a
  contract up gives the position that the scan of all contracts gives: the index of contracts is never used when it is
  out of date, and it agrees with the scan after appended and removed contracts.\<close>

theorem contract_index_agrees:
  assumes "holdingsReach acs"
  shows "fst (findContractIndex addrDesc contract hot acs) = findContractInAddressContracts contract (uacs_Contracts acs)"
  using findContractIndex_laws(1) [OF holdingsReach_indexOk [OF assms], of addrDesc contract hot]
  by (metis prod.collapse)

theorem contract_index_agrees_witness:
  "fst (findContractIndex (replicate 20 9) (replicate 20 2) (newAddressHotness 1 1 1)
     (emptyContracts\<lparr>uacs_Contracts := [emptyContract 0 (replicate 20 1) 5, emptyContract 1 (replicate 20 2) 6]\<rparr>)) = Some 1"
proof -
  let ?acs = "emptyContracts\<lparr>uacs_Contracts := [emptyContract 0 (replicate 20 1) 5, emptyContract 1 (replicate 20 2) 6]\<rparr>"
  have "holdingsReach ?acs" by (rule holdingsReach.loaded) (simp_all add: emptyContracts_def emptyContract_def)
  from contract_index_agrees [OF this, of "replicate 20 9" "replicate 20 2" "newAddressHotness 1 1 1"] show ?thesis
    by (simp add: findContractInAddressContracts_def emptyContracts_def emptyContract_def)
qed

section \<open>The effect of a transfer on holdings\<close>

text \<open>The decoded holdings of a contract, and their order.\<close>

definition absMtv :: "unpackedMultiTokenValue \<Rightarrow> MultiTokenValue" where
  "absMtv u = \<lparr>mtv_Id = absInt (um_Id u), mtv_Value = absInt (um_Value u)\<rparr>"

definition idsOf :: "unpackedAddrContract \<Rightarrow> int list" where
  "idsOf c = map absInt (uc_Ids c)"

definition valuesOf :: "unpackedAddrContract \<Rightarrow> MultiTokenValue list" where
  "valuesOf c = map absMtv (uc_MultiTokenValues c)"

definition holdingOk :: "unpackedAddrContract \<Rightarrow> bool" where
  "holdingOk c \<longleftrightarrow>
     list_all biOk (uc_Ids c) \<and> list_all (\<lambda>u. biOk (um_Id u) \<and> biOk (um_Value u)) (uc_MultiTokenValues c) \<and>
     keysOk (\<lambda>x. x) (idsOf c) \<and> keysOk mtv_Id (valuesOf c)"

lemma list_all2_biAbs: "list_all2 biAbs s xs \<longleftrightarrow> list_all biOk s \<and> map absInt s = xs"
  by (induction s xs rule: list_induct2') (auto simp: biAbs_def)

lemma list_all2_umAbs:
  "list_all2 umAbs s xs \<longleftrightarrow> list_all (\<lambda>u. biOk (um_Id u) \<and> biOk (um_Value u)) s \<and> map absMtv s = xs"
proof (induction s xs rule: list_induct2')
  case (4 u us m ms)
  then show ?case by (cases m) (auto simp: umAbs_def biAbs_def absMtv_def)
qed auto

lemma holdingOk_insert:
  assumes "holdingOk c" "0 \<le> k"
  obtains ids where "unpackedIds_insert k (uc_Ids c) = Some ids" "holdingOk (c\<lparr>uc_Ids := ids\<rparr>)"
    "set (idsOf (c\<lparr>uc_Ids := ids\<rparr>)) = insert k (set (idsOf c))"
proof -
  have "list_all2 biAbs (uc_Ids c) (idsOf c)" using assms by (simp add: list_all2_biAbs holdingOk_def idsOf_def)
  from unpackedIds_insert_refines [OF this, of k] obtain ids
    where "unpackedIds_insert k (uc_Ids c) = Some ids" "list_all2 biAbs ids (Ids_insert k (idsOf c))" by blast
  moreover have "keysOk (\<lambda>x. x) (Ids_insert k (idsOf c)) \<and> set (Ids_insert k (idsOf c)) = insert k (set (idsOf c))"
    using assms by (intro Ids_insert_set) (simp_all add: holdingOk_def)
  ultimately show thesis
    using assms by (intro that [of ids]) (simp_all add: list_all2_biAbs holdingOk_def idsOf_def valuesOf_def)
qed

lemma holdingOk_remove:
  assumes "holdingOk c" "0 \<le> k"
  obtains ids where "unpackedIds_remove k (uc_Ids c) = Some ids" "holdingOk (c\<lparr>uc_Ids := ids\<rparr>)"
    "set (idsOf (c\<lparr>uc_Ids := ids\<rparr>)) = set (idsOf c) - {k}"
proof -
  have "list_all2 biAbs (uc_Ids c) (idsOf c)" using assms by (simp add: list_all2_biAbs holdingOk_def idsOf_def)
  from unpackedIds_remove_refines [OF this, of k] obtain ids
    where "unpackedIds_remove k (uc_Ids c) = Some ids" "list_all2 biAbs ids (Ids_remove k (idsOf c))" by blast
  moreover have "keysOk (\<lambda>x. x) (Ids_remove k (idsOf c)) \<and> set (Ids_remove k (idsOf c)) = set (idsOf c) - {k}"
    using assms by (intro Ids_remove_set) (simp_all add: holdingOk_def)
  ultimately show thesis
    using assms by (intro that [of ids]) (simp_all add: list_all2_biAbs holdingOk_def idsOf_def valuesOf_def)
qed

lemma upsertAll_refines:
  assumes "list_all (\<lambda>m. 0 \<le> mtv_Id m) ms" "list_all2 umAbs s xs" "keysOk mtv_Id xs"
  shows "\<exists>s' xs'. upsertAll ms idx f s = Some s' \<and> list_all2 umAbs s' xs' \<and> keysOk mtv_Id xs' \<and>
    mtvMap xs' = fold (\<lambda>m. mtvUpsert m idx f) ms (mtvMap xs)"
  using assms
proof (induction ms arbitrary: s xs)
  case (Cons m ms)
  obtain s1 where s1: "unpackedMTV_upsert m idx f s = Some s1" "list_all2 umAbs s1 (MultiTokenValues_upsert m idx f xs)"
    using unpackedMTV_upsert_refines [OF Cons.prems(2)] by blast
  have x1: "keysOk mtv_Id (MultiTokenValues_upsert m idx f xs)"
    "mtvMap (MultiTokenValues_upsert m idx f xs) = mtvUpsert m idx f (mtvMap xs)"
    using upsert_map [OF Cons.prems(3), of m idx f] Cons.prems(1) by simp_all
  from Cons.IH [OF _ s1(2) x1(1)] Cons.prems(1) s1(1) x1(2) show ?case by (simp add: upsertAll_def)
qed (auto simp: upsertAll_def)

lemma holdingOk_upsert:
  assumes "holdingOk c" "list_all (\<lambda>m. 0 \<le> mtv_Id m) ms"
  obtains s where "upsertAll ms idx f (uc_MultiTokenValues c) = Some s" "holdingOk (c\<lparr>uc_MultiTokenValues := s\<rparr>)"
    "mtvMap (valuesOf (c\<lparr>uc_MultiTokenValues := s\<rparr>)) = fold (\<lambda>m. mtvUpsert m idx f) ms (mtvMap (valuesOf c))"
proof -
  have "list_all2 umAbs (uc_MultiTokenValues c) (valuesOf c)" "keysOk mtv_Id (valuesOf c)"
    using assms by (simp_all add: list_all2_umAbs holdingOk_def valuesOf_def)
  from upsertAll_refines [OF assms(2) this, of idx f] obtain s xs where
    "upsertAll ms idx f (uc_MultiTokenValues c) = Some s" "list_all2 umAbs s xs" "keysOk mtv_Id xs"
    "mtvMap xs = fold (\<lambda>m. mtvUpsert m idx f) ms (mtvMap (valuesOf c))" by blast
  with assms(1) show thesis by (intro that [of s]) (simp_all add: list_all2_umAbs holdingOk_def idsOf_def valuesOf_def)
qed

definition transferOk :: "TokenTransfer \<Rightarrow> bool" where
  "transferOk t \<longleftrightarrow> 0 \<le> tt_Value t \<and> list_all (\<lambda>m. 0 \<le> mtv_Id m) (tt_MultiTokenValues t)"

text \<open>What a transfer does to the set of token ids and to the map of values.\<close>

definition idsAfter :: "int \<Rightarrow> TokenTransfer \<Rightarrow> int set \<Rightarrow> int set" where
  "idsAfter idx t A =
     (if tt_Standard t = NonFungibleToken then if idx < 0 then A - {tt_Value t} else insert (tt_Value t) A else A)"

definition valuesAfter :: "int \<Rightarrow> TokenTransfer \<Rightarrow> (int \<rightharpoonup> int) \<Rightarrow> int \<rightharpoonup> int" where
  "valuesAfter idx t f =
     (if tt_Standard t = FungibleToken \<or> tt_Standard t = NonFungibleToken then f
      else fold (\<lambda>m. mtvUpsert m idx (if idx < 0 then subtractNonNegative else (+))) (tt_MultiTokenValues t) f)"

lemma mtvUpsert_sign: "idx < 0 \<longleftrightarrow> idx' < 0 \<Longrightarrow> mtvUpsert m idx f = mtvUpsert m idx' f"
  by (auto simp: mtvUpsert_def fun_eq_iff not_less [symmetric] split: option.splits)

lemma mutateContract_effect:
  assumes c: "holdingOk c" and t: "transferOk t"
  shows "\<exists>c'. mutateContract idx (if idx < 0 then subtractNonNegative else (+)) t c = Some c' \<and> holdingOk c' \<and>
    uc_Contract c' = uc_Contract c \<and> uc_Standard c' = uc_Standard c \<and> uc_Txs c' = uc_Txs c \<and>
    set (idsOf c') = idsAfter idx t (set (idsOf c)) \<and> mtvMap (valuesOf c') = valuesAfter idx t (mtvMap (valuesOf c))"
proof -
  consider "tt_Standard t = FungibleToken" | "tt_Standard t \<noteq> FungibleToken" "tt_Standard t = NonFungibleToken" "idx < 0"
    | "tt_Standard t \<noteq> FungibleToken" "tt_Standard t = NonFungibleToken" "\<not> idx < 0"
    | "tt_Standard t \<noteq> FungibleToken" "tt_Standard t \<noteq> NonFungibleToken" by blast
  then show ?thesis
  proof cases
    case 1
    with c show ?thesis
      by (auto simp: mutateContract_def idsAfter_def valuesAfter_def holdingOk_def idsOf_def valuesOf_def
          FungibleToken_def NonFungibleToken_def)
  next
    case 2
    obtain ids where "unpackedIds_remove (tt_Value t) (uc_Ids c) = Some ids" "holdingOk (c\<lparr>uc_Ids := ids\<rparr>)"
        "set (idsOf (c\<lparr>uc_Ids := ids\<rparr>)) = set (idsOf c) - {tt_Value t}"
      by (rule holdingOk_remove [OF c, of "tt_Value t"]) (use t in \<open>simp_all add: transferOk_def\<close>)
    with 2 show ?thesis by (simp add: mutateContract_def idsAfter_def valuesAfter_def valuesOf_def)
  next
    case 3
    obtain ids where "unpackedIds_insert (tt_Value t) (uc_Ids c) = Some ids" "holdingOk (c\<lparr>uc_Ids := ids\<rparr>)"
        "set (idsOf (c\<lparr>uc_Ids := ids\<rparr>)) = insert (tt_Value t) (set (idsOf c))"
      by (rule holdingOk_insert [OF c, of "tt_Value t"]) (use t in \<open>simp_all add: transferOk_def\<close>)
    with 3 show ?thesis by (simp add: mutateContract_def idsAfter_def valuesAfter_def valuesOf_def)
  next
    case 4
    let ?f = "if idx < 0 then subtractNonNegative else (+)"
    obtain s where "upsertAll (tt_MultiTokenValues t) idx ?f (uc_MultiTokenValues c) = Some s"
        "holdingOk (c\<lparr>uc_MultiTokenValues := s\<rparr>)"
        "mtvMap (valuesOf (c\<lparr>uc_MultiTokenValues := s\<rparr>)) = fold (\<lambda>m. mtvUpsert m idx ?f) (tt_MultiTokenValues t) (mtvMap (valuesOf c))"
      by (rule holdingOk_upsert [OF c, of "tt_MultiTokenValues t"]) (use t in \<open>simp_all add: transferOk_def\<close>)
    with 4 show ?thesis by (simp add: mutateContract_def idsAfter_def valuesAfter_def idsOf_def)
  qed
qed

lemma addToContract_effect:
  assumes "holdingOk c" and "transferOk t" and "int i + 2 < 2 ^ 31"
  shows "\<exists>c'. addToContract c i idx t addTxCount mutateHoldings = Some (if idx < 0 then - (int i + 3) else int i + 2, c') \<and>
    holdingOk c' \<and> uc_Contract c' = uc_Contract c \<and> uc_Standard c' = uc_Standard c \<and>
    uc_Txs c' = uc_Txs c + (if addTxCount then 1 else 0) \<and>
    set (idsOf c') = (if mutateHoldings then idsAfter idx t (set (idsOf c)) else set (idsOf c)) \<and>
    mtvMap (valuesOf c') = (if mutateHoldings then valuesAfter idx t (mtvMap (valuesOf c)) else mtvMap (valuesOf c))"
proof -
  define j where "j = (if idx < 0 then - (int i + 3) else int i + 2)"
  define count where "count = (\<lambda>c :: unpackedAddrContract. if addTxCount then c\<lparr>uc_Txs := uc_Txs c + 1\<rparr> else c)"
  have i32: "int32 (int i + 2) = int i + 2" using assms(3) by (simp add: int32_id is_int32_def)
  have nt: "NOT (int i + 2) = - (int i + 3)" by (simp add: not_int_def)
  have sign: "j < 0 \<longleftrightarrow> idx < 0" by (simp add: j_def)
  have a: "addToContract c i idx t addTxCount mutateHoldings =
      (if \<not> mutateHoldings then Some (j, count c)
       else mutateContract j (if j < 0 then subtractNonNegative else (+)) t c \<bind> (\<lambda>c. Some (j, count c)))"
    by (simp add: addToContract_def Let_def ContractIndexOffset_def i32 j_def count_def nt)
  have after: "idsAfter j t = idsAfter idx t" "valuesAfter j t = valuesAfter idx t"
    by (intro ext, simp add: idsAfter_def valuesAfter_def mtvUpsert_sign [OF sign] sign)+
  have cnt: "holdingOk (count c) = holdingOk c" "idsOf (count c) = idsOf c" "valuesOf (count c) = valuesOf c"
    "uc_Contract (count c) = uc_Contract c" "uc_Standard (count c) = uc_Standard c"
    "uc_Txs (count c) = uc_Txs c + (if addTxCount then 1 else 0)" for c
    by (simp_all add: count_def holdingOk_def idsOf_def valuesOf_def)
  show ?thesis
    using mutateContract_effect [OF assms(1,2), of j] assms(1) unfolding a j_def [symmetric] after
    by (cases mutateHoldings) (auto simp: cnt)
qed


definition demoContract :: unpackedAddrContract where
  "demoContract = (emptyContract 1 (replicate 20 7) 4)\<lparr>uc_Ids :=
     [\<lparr>ub_Slice = packBigint 5, ub_Value = None\<rparr>, \<lparr>ub_Slice = [], ub_Value = Some 300\<rparr>]\<rparr>"

definition demoTransfer :: TokenTransfer where
  "demoTransfer = \<lparr>tt_Standard = 1, tt_Contract = '''', tt_From = '''', tt_To = '''', tt_Value = 5, tt_MultiTokenValues = []\<rparr>"


section \<open>Rows\<close>

definition packedInt :: "unpackedBigInt \<Rightarrow> bool" where
  "packedInt b \<longleftrightarrow> ub_Value b = None \<and> (\<exists>x. amount x \<and> ub_Slice b = packBigint x)"

definition packedMtv :: "unpackedMultiTokenValue \<Rightarrow> bool" where
  "packedMtv u \<longleftrightarrow> packedInt (um_Id u) \<and> packedInt (um_Value u)"

lemma takeBigint_pack:
  "packedInt b \<Longrightarrow> takeBigint (packUnpackedBigInt b @ rest) = Some (b, int (length (packUnpackedBigInt b)))"
  by (auto simp: packedInt_def takeBigint_def packUnpackedBigInt_def codec_simps slice_front)

interpretation lazyInt: exact_codec packUnpackedBigInt takeBigint packedInt id
  by unfold_locales (simp_all add: takeBigint_pack)

lemma takeMultiTokenValue_pack:
  "packedMtv u \<Longrightarrow> takeMultiTokenValue (packUnpackedMultiTokenValue u @ rest) = Some (u, int (length (packUnpackedMultiTokenValue u)))"
  by (simp add: packedMtv_def takeMultiTokenValue_def packUnpackedMultiTokenValue_def takeBigint_pack)

interpretation lazyMtv: exact_codec packUnpackedMultiTokenValue takeMultiTokenValue packedMtv id
  by unfold_locales (simp_all add: takeMultiTokenValue_pack)

text \<open>A contract as it is loaded: all numbers are packed.\<close>

definition lazyOk :: "unpackedAddrContract \<Rightarrow> bool" where
  "lazyOk c \<longleftrightarrow>
     length (uc_Contract c) = 20 \<and> 0 \<le> uc_Standard c \<and> uc_Standard c < 4 \<and> uint (uc_Txs c) < 2 ^ 62 \<and>
     (if uc_Standard c = FungibleToken then packedInt (uc_Value c) else uc_Value c = zeroBigInt) \<and>
     (if uc_Standard c = NonFungibleToken then list_all packedInt (uc_Ids c) \<and> length (uc_Ids c) < 2 ^ 64
      else uc_Ids c = []) \<and>
     (if uc_Standard c \<in> {FungibleToken, NonFungibleToken} then uc_MultiTokenValues c = []
      else list_all packedMtv (uc_MultiTokenValues c) \<and> length (uc_MultiTokenValues c) < 2 ^ 64)"

lemma takeContract_pack:
  assumes v: "vlq_ok v" and ok: "lazyOk c"
  shows "takeContract v (packUnpackedAddrContract v c @ rest) = Some (c, int (length (packUnpackedAddrContract v c)))"
proof -
  define t where "t = word_of_int (uc_Standard c) + push_bit 2 (uc_Txs c)"
  have t: "uint (t AND 3) = uc_Standard c" "drop_bit 2 t = uc_Txs c"
    using standard_txs [of "uc_Standard c" "uc_Txs c"] ok by (simp_all add: lazyOk_def t_def)
  have c: "length (uc_Contract c) = 20" using ok by (simp add: lazyOk_def)
  define pre where "pre = uc_Contract c @ packVaruint v t"
  have pre: "int (length pre) = 20 + int (length (packVaruint v t))" by (simp add: pre_def c)
  have head: "slice (uc_Contract c @ xs) 0 20 = Some (uc_Contract c)" "slice_from (uc_Contract c @ xs) 20 = Some xs"
    "slice_from (uc_Contract c @ packVaruint v t @ xs) (20 + int (length (packVaruint v t))) = Some xs" for xs
    using slice_front [OF c, of xs] c pre by (simp_all add: slice_from_def nat_add_distrib)
  have pk: "packUnpackedAddrContract v c = uc_Contract c @ packVaruint v t @
      (if uc_Standard c = FungibleToken then packUnpackedBigInt (uc_Value c)
       else if uc_Standard c = NonFungibleToken
       then packVaruint v (of_nat (length (uc_Ids c))) @ concat (map packUnpackedBigInt (uc_Ids c))
       else packVaruint v (of_nat (length (uc_MultiTokenValues c))) @ concat (map packUnpackedMultiTokenValue (uc_MultiTokenValues c)))"
    by (simp add: packUnpackedAddrContract_def t_def)
  have defs: "EthereumTypeAddressDescriptorLen = 20" by (simp add: EthereumTypeAddressDescriptorLen_def)
  consider "uc_Standard c = FungibleToken" | "uc_Standard c = NonFungibleToken" "uc_Standard c \<noteq> FungibleToken"
    | "uc_Standard c \<noteq> FungibleToken" "uc_Standard c \<noteq> NonFungibleToken" by blast
  then show ?thesis
  proof cases
    case 1
    with ok v show ?thesis
      by (simp add: takeContract_def pk defs head codec_simps takeBigint_pack Let_def t lazyOk_def emptyContract_def
          NonFungibleToken_def FungibleToken_def)
  next
    case 2
    then have ids: "list_all packedInt (uc_Ids c)" "length (uc_Ids c) < 2 ^ 64" using ok by (simp_all add: lazyOk_def)
    define p where "p = pre @ packVaruint v (of_nat (length (uc_Ids c)))"
    have "unpack_n takeBigint (length (uc_Ids c)) (p @ concat (map packUnpackedBigInt (uc_Ids c)) @ rest) (int (length p)) =
        Some (map id (uc_Ids c), int (length p) + int (length (concat (map packUnpackedBigInt (uc_Ids c)))))"
      by (rule lazyInt.unpack_n_pack) (use ids(1) in \<open>simp add: list_all_iff\<close>)
    with ok v 2 show ?thesis
      by (simp add: takeContract_def pk defs head codec_simps Let_def t lazyOk_def emptyContract_def NonFungibleToken_def
          FungibleToken_def p_def pre_def c unat_of_nat_64 [OF ids(2)] add.assoc)
  next
    case 3
    then have ms: "list_all packedMtv (uc_MultiTokenValues c)" "length (uc_MultiTokenValues c) < 2 ^ 64"
      using ok by (simp_all add: lazyOk_def)
    define p where "p = pre @ packVaruint v (of_nat (length (uc_MultiTokenValues c)))"
    have "unpack_n takeMultiTokenValue (length (uc_MultiTokenValues c))
        (p @ concat (map packUnpackedMultiTokenValue (uc_MultiTokenValues c)) @ rest) (int (length p)) =
        Some (map id (uc_MultiTokenValues c),
          int (length p) + int (length (concat (map packUnpackedMultiTokenValue (uc_MultiTokenValues c)))))"
      by (rule lazyMtv.unpack_n_pack) (use ms(1) in \<open>simp add: list_all_iff\<close>)
    with ok v 3 show ?thesis
      by (simp add: takeContract_def pk defs head codec_simps Let_def t lazyOk_def emptyContract_def
          p_def pre_def c unat_of_nat_64 [OF ms(2)] add.assoc)
  qed
qed

lemma takeContractsLoop_pack:
  assumes v: "vlq_ok v"
  shows "list_all lazyOk cs \<Longrightarrow> length cs \<le> fuel \<Longrightarrow>
    takeContractsLoop fuel v (concat (map (packUnpackedAddrContract v) cs)) = Some cs"
proof (induction cs arbitrary: fuel)
  case Nil
  show ?case by (subst takeContractsLoop.simps) simp
next
  case (Cons c cs)
  then obtain fuel' where f: "fuel = Suc fuel'" "length cs \<le> fuel'" by (cases fuel) auto
  have "length (packUnpackedAddrContract v c) \<noteq> 0" using Cons.prems by (simp add: packUnpackedAddrContract_def lazyOk_def)
  then have "packUnpackedAddrContract v c \<noteq> []" by simp
  with Cons f v show ?case by (subst takeContractsLoop.simps) (simp add: takeContract_pack)
qed

text \<open>The decoded holdings.\<close>

definition absContract :: "unpackedAddrContract \<Rightarrow> AddrContract" where
  "absContract c =
     \<lparr>ac_Standard = uc_Standard c, ac_Contract = uc_Contract c, ac_Txs = uc_Txs c,
      ac_Value = (if uc_Standard c = FungibleToken then absInt (uc_Value c) else 0),
      ac_Ids = idsOf c, ac_MultiTokenValues = valuesOf c\<rparr>"

definition absContracts :: "unpackedAddrContracts \<Rightarrow> AddrContracts" where
  "absContracts u =
     \<lparr>acs_TotalTxs = uacs_TotalTxs u, acs_NonContractTxs = uacs_NonContractTxs u, acs_InternalTxs = uacs_InternalTxs u,
      acs_Contracts = map absContract (uacs_Contracts u)\<rparr>"

definition numbersOk :: "unpackedAddrContract \<Rightarrow> bool" where
  "numbersOk c \<longleftrightarrow>
     (uc_Standard c = FungibleToken \<longrightarrow> biOk (uc_Value c)) \<and> list_all biOk (uc_Ids c) \<and>
     list_all (\<lambda>u. biOk (um_Id u) \<and> biOk (um_Value u)) (uc_MultiTokenValues c)"

lemma packUnpackedAddrContract_abs:
  assumes "numbersOk c"
  shows "packUnpackedAddrContract v c = packAddrContract v (absContract c)"
proof -
  have "concat (map packUnpackedBigInt (uc_Ids c)) = concat (map (packBigint \<circ> absInt) (uc_Ids c))"
    using assms by (intro arg_cong [where f = concat] map_cong) (simp_all add: numbersOk_def list_all_iff packUnpackedBigInt_abs)
  moreover have "concat (map packUnpackedMultiTokenValue (uc_MultiTokenValues c)) =
      concat (map (packMultiTokenValue \<circ> absMtv) (uc_MultiTokenValues c))"
    using assms by (intro arg_cong [where f = concat] map_cong)
      (simp_all add: numbersOk_def list_all_iff packUnpackedBigInt_abs packUnpackedMultiTokenValue_def
        packMultiTokenValue_def absMtv_def)
  ultimately show ?thesis
    using assms by (simp add: packUnpackedAddrContract_def packAddrContract_def absContract_def numbersOk_def
        packUnpackedBigInt_abs idsOf_def valuesOf_def)
qed

lemma packUnpackedAddrContracts_abs:
  assumes "list_all numbersOk (uacs_Contracts u)"
  shows "packUnpackedAddrContracts v u = packAddrContracts v (absContracts u)"
proof -
  have "concat (map (packUnpackedAddrContract v) (uacs_Contracts u)) =
      concat (map (packAddrContract v \<circ> absContract) (uacs_Contracts u))"
    using assms by (intro arg_cong [where f = concat] map_cong) (simp_all add: list_all_iff packUnpackedAddrContract_abs)
  then show ?thesis by (simp add: packUnpackedAddrContracts_def packAddrContracts_def absContracts_def)
qed

text \<open>The packed form of decoded holdings.\<close>

definition lazyInt :: "int \<Rightarrow> unpackedBigInt" where
  "lazyInt x = \<lparr>ub_Slice = packBigint x, ub_Value = None\<rparr>"

definition lazyContract :: "AddrContract \<Rightarrow> unpackedAddrContract" where
  "lazyContract ac =
     \<lparr>uc_Standard = ac_Standard ac, uc_Contract = ac_Contract ac, uc_Txs = ac_Txs ac,
      uc_Value = (if ac_Standard ac = FungibleToken then lazyInt (ac_Value ac) else zeroBigInt),
      uc_Ids = map lazyInt (ac_Ids ac),
      uc_MultiTokenValues = map (\<lambda>m. \<lparr>um_Id = lazyInt (mtv_Id m), um_Value = lazyInt (mtv_Value m)\<rparr>) (ac_MultiTokenValues ac)\<rparr>"

lemma lazyInt_laws: "amount x \<Longrightarrow> absInt (lazyInt x) = x" "amount x \<Longrightarrow> biOk (lazyInt x)" "amount x \<Longrightarrow> packedInt (lazyInt x)"
  by (auto simp: lazyInt_def packedInt_def)

lemma lazyContract_laws:
  assumes "contractOk ac"
  shows "lazyOk (lazyContract ac)" "numbersOk (lazyContract ac)" "absContract (lazyContract ac) = ac"
proof -
  have ids: "\<forall>x \<in> set (ac_Ids ac). amount x" and ms: "\<forall>m \<in> set (ac_MultiTokenValues ac). mtvOk m"
    using assms by (auto simp: contractOk_def list_all_iff split: if_splits)
  show "lazyOk (lazyContract ac)" using assms ids ms
    by (simp add: contractOk_def lazyOk_def lazyContract_def lazyInt_laws list_all_iff packedMtv_def mtvOk_def split: if_splits)
  show "numbersOk (lazyContract ac)" using assms ids ms
    by (simp add: contractOk_def numbersOk_def lazyContract_def lazyInt_laws list_all_iff mtvOk_def)
  have "map (absInt \<circ> lazyInt) (ac_Ids ac) = ac_Ids ac" using ids by (simp add: lazyInt_laws map_idI)
  moreover have "map (\<lambda>m. absMtv \<lparr>um_Id = lazyInt (mtv_Id m), um_Value = lazyInt (mtv_Value m)\<rparr>) (ac_MultiTokenValues ac) =
      ac_MultiTokenValues ac"
    using ms by (intro map_idI) (simp add: absMtv_def mtvOk_def lazyInt_laws)
  ultimately show "absContract (lazyContract ac) = ac"
    using assms by (cases ac) (simp add: absContract_def lazyContract_def idsOf_def valuesOf_def comp_def contractOk_def
        lazyInt_laws split: if_splits)
qed

lemma partiallyUnpack_pack:
  assumes v: "vlq_ok v" and ok: "contractsOk acs"
  shows "partiallyUnpackAddrContracts v (packAddrContracts v acs) =
    Some \<lparr>uacs_Packed = packAddrContracts v acs, uacs_TotalTxs = acs_TotalTxs acs,
      uacs_NonContractTxs = acs_NonContractTxs acs, uacs_InternalTxs = acs_InternalTxs acs,
      uacs_Contracts = map lazyContract (acs_Contracts acs), uacs_contractIndex = None, uacs_contractIndexDirty = False\<rparr>"
proof -
  let ?cs = "map lazyContract (acs_Contracts acs)"
  have ac: "contractOk ac" if "ac \<in> set (acs_Contracts acs)" for ac using ok that by (simp add: contractsOk_def list_all_iff)
  have b: "concat (map (packAddrContract v) (acs_Contracts acs)) = concat (map (packUnpackedAddrContract v) ?cs)"
    unfolding map_map by (intro arg_cong [where f = concat] map_cong)
      (simp_all add: ac packUnpackedAddrContract_abs lazyContract_laws)
  have "length ?cs \<le> length (concat (map (packAddrContract v) (acs_Contracts acs)))"
    using ok length_contracts [of "acs_Contracts acs" v] by (simp add: contractsOk_def)
  moreover have "list_all lazyOk ?cs" using ac by (simp add: list_all_iff lazyContract_laws)
  ultimately have "takeContractsLoop (length (concat (map (packAddrContract v) (acs_Contracts acs)))) v
      (concat (map (packAddrContract v) (acs_Contracts acs))) = Some ?cs"
    unfolding b by (intro takeContractsLoop_pack [OF v])
  with v show ?thesis
    by (simp add: partiallyUnpackAddrContracts_def packAddrContracts_def codec_simps del: length_concat)
qed



end
