(* ===== verification/EthRegistry.thy ===== *)
theory EthRegistry
  imports EthContracts Caches Strings
begin

text \<open>
  The registry of contracts of an Ethereum-type chain (\<open>src/db/rocksdb_contracts.go\<close>) and the detections of token
  protocols (\<open>src/db/rocksdb_protocols.go\<close>): the rows of the columns contracts and ercProtocols, the cache in front of
  them with its two generations, the lifecycle of contracts, and their repair after a failed fetch. Strings that are
  only stored are bytes. A parser returns an address descriptor or an error, never nil without an error.
\<close>

section \<open>Contract metadata\<close>

record ContractInfo =
  ci_Type :: bytes
  ci_Standard :: bytes
  ci_Contract :: string
  ci_Name :: bytes
  ci_Symbol :: bytes
  ci_Decimals :: int
  ci_CreatedInBlock :: uint32
  ci_DestructedInBlock :: uint32
  ci_IsErc4626 :: bool
  ci_Erc4626AssetContract :: bytes

definition UnknownTokenStandard :: bytes where
  "UnknownTokenStandard = []"

definition UnhandledTokenStandard :: bytes where
  "UnhandledTokenStandard = bytes_of_string ''-''"

definition zeroContractInfo :: ContractInfo where
  "zeroContractInfo =
     \<lparr>ci_Type = [], ci_Standard = [], ci_Contract = [], ci_Name = [], ci_Symbol = [], ci_Decimals = 0, ci_CreatedInBlock = 0,
      ci_DestructedInBlock = 0, ci_IsErc4626 = False, ci_Erc4626AssetContract = []\<rparr>"

definition maxContractNameSymbolBytes :: nat where
  "maxContractNameSymbolBytes = 256"

text \<open>
  \<open>utf8.ValidString\<close>: every rune is encoded in its shortest form, is not a surrogate and is at most U+10FFFF. The ranges
  of the second byte are those of the table of the standard library.
\<close>

definition utf8Cont :: "byte \<Rightarrow> bool" where
  "utf8Cont b \<longleftrightarrow> 0x80 \<le> b \<and> b \<le> 0xBF"

fun utf8Valid :: "bytes \<Rightarrow> bool" where
  "utf8Valid [] = True"
| "utf8Valid (b # bs) =
     (if b < 0x80 then utf8Valid bs
      else if 0xC2 \<le> b \<and> b \<le> 0xDF then (case bs of c # bs \<Rightarrow> utf8Cont c \<and> utf8Valid bs | _ \<Rightarrow> False)
      else if 0xE0 \<le> b \<and> b \<le> 0xEF then
        (case bs of
           c # d # bs \<Rightarrow>
             (if b = 0xE0 then 0xA0 \<le> c \<and> c \<le> 0xBF else if b = 0xED then 0x80 \<le> c \<and> c \<le> 0x9F else utf8Cont c) \<and>
             utf8Cont d \<and> utf8Valid bs
         | _ \<Rightarrow> False)
      else if 0xF0 \<le> b \<and> b \<le> 0xF4 then
        (case bs of
           c # d # e # bs \<Rightarrow>
             (if b = 0xF0 then 0x90 \<le> c \<and> c \<le> 0xBF else if b = 0xF4 then 0x80 \<le> c \<and> c \<le> 0x8F else utf8Cont c) \<and>
             utf8Cont d \<and> utf8Cont e \<and> utf8Valid bs
         | _ \<Rightarrow> False)
      else False)"

function clampLoop :: "bytes \<Rightarrow> bytes" where
  "clampLoop s = (if s \<noteq> [] \<and> \<not> utf8Valid s then clampLoop (butlast s) else s)"
  by auto
termination by (relation "measure length") auto

declare clampLoop.simps [simp del]

definition clampUTF8 :: "bytes \<Rightarrow> nat \<Rightarrow> bytes" where
  "clampUTF8 s maxLen = (if length s \<le> maxLen then s else clampLoop (take maxLen s))"

definition packContractInfo :: "vlq_lib \<Rightarrow> ContractInfo \<Rightarrow> bytes" where
  "packContractInfo v ci =
     packString v (clampUTF8 (ci_Name ci) maxContractNameSymbolBytes) @
     packString v (clampUTF8 (ci_Symbol ci) maxContractNameSymbolBytes) @ packString v (ci_Standard ci) @
     packVaruint v (word_of_int (ci_Decimals ci)) @ packVaruint v (ucast (ci_CreatedInBlock ci)) @
     packVaruint v (ucast (ci_DestructedInBlock ci))"

definition unpackContractInfo :: "vlq_lib \<Rightarrow> bytes \<Rightarrow> ContractInfo option" where
  "unpackContractInfo v buf = do {
     (name, l) \<leftarrow> unpackString v buf;
     buf \<leftarrow> slice_from buf l;
     (symbol, l) \<leftarrow> unpackString v buf;
     buf \<leftarrow> slice_from buf l;
     (s, l) \<leftarrow> unpackString v buf;
     buf \<leftarrow> slice_from buf l;
     let (decimals, l) = unpackVaruint v buf;
     buf \<leftarrow> slice_from buf l;
     let (created, l) = unpackVaruint v buf;
     buf \<leftarrow> slice_from buf l;
     let (destructed, l) = unpackVaruint v buf;
     Some (zeroContractInfo\<lparr>ci_Name := name, ci_Symbol := symbol, ci_Standard := s, ci_Type := s,
       ci_Decimals := sint decimals, ci_CreatedInBlock := ucast created, ci_DestructedInBlock := ucast destructed\<rparr>)
   }"

definition unpackStringSafe :: "vlq_lib \<Rightarrow> bytes \<Rightarrow> (bytes \<times> int) option" where
  "unpackStringSafe v buf =
     (if length buf = 0 then None
      else case unpackVaruintSafe v buf of
        None \<Rightarrow> None
      | Some (sl, l) \<Rightarrow>
          let so = int64 (l + sint sl) in
          if so < l \<or> so > int (length buf) then None else Some (take (nat (so - l)) (drop (nat l) buf), so))"

section \<open>Rows of token protocols\<close>

definition ercProtocolKeyByContract :: byte where
  "ercProtocolKeyByContract = 0"

definition ercProtocolKeyByHeight :: byte where
  "ercProtocolKeyByHeight = 1"

definition ErcProtocolErc4626 :: byte where
  "ErcProtocolErc4626 = 1"

definition protocolByContractKey :: "byte \<Rightarrow> bytes \<Rightarrow> bytes" where
  "protocolByContractKey protocolID addrDesc = [ercProtocolKeyByContract, protocolID] @ addrDesc"

definition protocolByHeightKey :: "byte \<Rightarrow> uint32 \<Rightarrow> bytes \<Rightarrow> bytes" where
  "protocolByHeightKey protocolID height addrDesc = [ercProtocolKeyByHeight, protocolID] @ packUint height @ addrDesc"

definition packErcProtocolValue :: "vlq_lib \<Rightarrow> uint32 \<Rightarrow> bytes \<Rightarrow> bytes" where
  "packErcProtocolValue v persistHeight payload = packVaruint v (ucast persistHeight) @ payload"

definition unpackErcProtocolValue :: "vlq_lib \<Rightarrow> bytes \<Rightarrow> (uint32 \<times> bytes) option" where
  "unpackErcProtocolValue v buf =
     (case unpackVaruintSafe v buf of None \<Rightarrow> None | Some (h, l) \<Rightarrow> Some (ucast h, drop (nat l) buf))"

definition GetErcProtocol :: "vlq_lib \<Rightarrow> view \<Rightarrow> bytes \<Rightarrow> byte \<Rightarrow> (bytes \<times> uint32) option res" where
  "GetErcProtocol v get addrDesc protocolID =
     (if length addrDesc = 0 then Inr None
      else bindR (get cfErcProtocols (protocolByContractKey protocolID addrDesc)) (\<lambda>val.
        let buf = val_Data val in
        if length buf = 0 then Inr None
        else Inr (map_option (\<lambda>(h, p). (p, h)) (unpackErcProtocolValue v buf))))"

definition GetContractInfoErc4626Vault :: "vlq_lib \<Rightarrow> view \<Rightarrow> bytes \<Rightarrow> bytes option res" where
  "GetContractInfoErc4626Vault v get contract =
     bindR (GetErcProtocol v get contract ErcProtocolErc4626) (\<lambda>r.
       case r of
         None \<Rightarrow> Inr None
       | Some (payload, _) \<Rightarrow> Inr (map_option fst (unpackStringSafe v payload)))"

section \<open>The registry\<close>

text \<open>The database, the cache of the process, and the two generations under which entries of the cache are valid.\<close>

record 'db registry =
  rg_db :: 'db
  rg_cached :: "ContractInfo contractInfoLRU option"
  rg_reorgGen :: uint64
  rg_protocolGen :: uint64

definition firstAddress :: "RocksDB \<Rightarrow> bytes \<Rightarrow> string option" where
  "firstAddress d addrDesc =
     (case p_GetAddressesFromAddrDesc (d_chainParser d) addrDesc of
        Inr (a # _, _) \<Rightarrow> Some a
      | _ \<Rightarrow> None)"

definition withAddress :: "RocksDB \<Rightarrow> bytes \<Rightarrow> ContractInfo \<Rightarrow> ContractInfo" where
  "withAddress d addrDesc ci = (case firstAddress d addrDesc of None \<Rightarrow> ci | Some a \<Rightarrow> ci\<lparr>ci_Contract := a\<rparr>)"

text \<open>A read that misses the cache. The standard from the context is written to the row at once.\<close>

definition loadContractInfo ::
  "RocksDB \<Rightarrow> 'db store \<Rightarrow> bytes \<Rightarrow> bytes \<Rightarrow> 'db \<Rightarrow> ContractInfo option res \<times> 'db" where
  "loadContractInfo d st contract standardFromContext db =
     (case s_GetCF st db cfContracts contract of
        Inl e \<Rightarrow> (Inl e, db)
      | Inr val \<Rightarrow>
          let buf = val_Data val in
          if length buf = 0 then (Inr None, db)
          else (case unpackContractInfo (d_vlq d) buf of
              None \<Rightarrow> (Inl Panic, db)
            | Some ci \<Rightarrow>
                let ci = withAddress d contract ci;
                    update = standardFromContext \<noteq> UnknownTokenStandard \<and> ci_Standard ci = UnknownTokenStandard;
                    ci = (if update then ci\<lparr>ci_Standard := standardFromContext, ci_Type := standardFromContext\<rparr> else ci) in
                (case (if update then s_Write st db [PutCF cfContracts contract (packContractInfo (d_vlq d) ci)] else Inr db) of
                   Inl e \<Rightarrow> (Inl e, db)
                 | Inr db \<Rightarrow>
                     (case GetContractInfoErc4626Vault (d_vlq d) (s_GetCF st db) contract of
                        Inl e \<Rightarrow> (Inl e, db)
                      | Inr None \<Rightarrow> (Inr (Some ci), db)
                      | Inr (Some asset) \<Rightarrow>
                          (Inr (Some (ci\<lparr>ci_IsErc4626 := True, ci_Erc4626AssetContract := asset\<rparr>)), db)))))"

definition GetContractInfo ::
  "RocksDB \<Rightarrow> 'db store \<Rightarrow> bytes \<Rightarrow> bytes \<Rightarrow> 'db registry \<Rightarrow> ContractInfo option res \<times> 'db registry" where
  "GetContractInfo d st contract standardFromContext r =
     (case contractInfoLRU_get contract (rg_reorgGen r) (rg_protocolGen r) (rg_cached r) of
        (Some ci, cached) \<Rightarrow> (Inr (Some ci), r\<lparr>rg_cached := cached\<rparr>)
      | (None, cached) \<Rightarrow>
          let r = r\<lparr>rg_cached := cached\<rparr> in
          (case loadContractInfo d st contract standardFromContext (rg_db r) of
             (Inr (Some ci), db) \<Rightarrow>
               (Inr (Some ci), r\<lparr>rg_db := db,
                  rg_cached := contractInfoLRU_add contract ci (rg_reorgGen r) (rg_protocolGen r) (rg_cached r)\<rparr>)
           | (result, db) \<Rightarrow> (result, r\<lparr>rg_db := db\<rparr>)))"

definition GetContractInfoForAddress ::
  "RocksDB \<Rightarrow> 'db store \<Rightarrow> string \<Rightarrow> 'db registry \<Rightarrow> ContractInfo option res \<times> 'db registry" where
  "GetContractInfoForAddress d st address r =
     (case p_GetAddrDescFromAddress (d_chainParser d) address of
        Inl e \<Rightarrow> (Inl e, r)
      | Inr contract \<Rightarrow> GetContractInfo d st contract [] r)"

section \<open>Lifecycle of contracts\<close>

text \<open>
  A record of a block is merged into what is known of the contract: a destruction sets one field of it, everything else
  replaces it. \<open>inBatch\<close> holds the records the batch already contains, or is nil.
\<close>

definition isDestruction :: "ContractInfo \<Rightarrow> bool" where
  "isDestruction ci \<longleftrightarrow> ci_CreatedInBlock ci = 0 \<and> ci_DestructedInBlock ci \<noteq> 0"

definition storeContractInfo ::
  "RocksDB \<Rightarrow> 'db store \<Rightarrow> ContractInfo \<Rightarrow> (bytes \<times> ContractInfo) list option \<Rightarrow> 'db registry \<Rightarrow>
   (wbatch \<times> (bytes \<times> ContractInfo) list option) res \<times> 'db registry" where
  "storeContractInfo d st contractInfo inBatch r =
     (if ci_Contract contractInfo = [] then (Inr ([], inBatch), r)
      else case p_GetAddrDescFromAddress (d_chainParser d) (ci_Contract contractInfo) of
        Inl e \<Rightarrow> (Inl e, r)
      | Inr key \<Rightarrow>
          let put = (\<lambda>ci r.
            (Inr ([PutCF cfContracts key (packContractInfo (d_vlq d) ci)], map_option (AList.update key ci) inBatch),
             r\<lparr>rg_cached := contractInfoLRU_delete key (rg_cached r)\<rparr>)) in
          if isDestruction contractInfo then
            (case (case inBatch of None \<Rightarrow> None | Some m \<Rightarrow> map_of m key) of
               Some storedCI \<Rightarrow> put (storedCI\<lparr>ci_DestructedInBlock := ci_DestructedInBlock contractInfo\<rparr>) r
             | None \<Rightarrow>
                 (case GetContractInfo d st key [] r of
                    (Inl e, r) \<Rightarrow> (Inl e, r)
                  | (Inr None, r) \<Rightarrow> (Inr ([], inBatch), r)
                  | (Inr (Some ci), r) \<Rightarrow> put (ci\<lparr>ci_DestructedInBlock := ci_DestructedInBlock contractInfo\<rparr>) r))
          else put contractInfo r)"

definition StoreContractInfo :: "RocksDB \<Rightarrow> 'db store \<Rightarrow> ContractInfo \<Rightarrow> 'db registry \<Rightarrow> unit res \<times> 'db registry" where
  "StoreContractInfo d st contractInfo r =
     (case storeContractInfo d st contractInfo None r of
        (Inl e, r) \<Rightarrow> (Inl e, r)
      | (Inr (wb, _), r) \<Rightarrow>
          (case s_Write st (rg_db r) wb of
             Inl e \<Rightarrow> (Inl e, r)
           | Inr db \<Rightarrow> (Inr (), r\<lparr>rg_db := db\<rparr>)))"

text \<open>The record, and whether the event applies.\<close>

definition applyHealedCreation :: "ContractInfo \<Rightarrow> uint32 \<Rightarrow> bool \<times> ContractInfo" where
  "applyHealedCreation ci height =
     (if height < ci_CreatedInBlock ci then (False, ci)
      else
        let ci = ci\<lparr>ci_CreatedInBlock := height\<rparr> in
        (True, if ci_DestructedInBlock ci \<le> height then ci\<lparr>ci_DestructedInBlock := 0\<rparr> else ci))"

definition applyHealedDestruction :: "ContractInfo \<Rightarrow> uint32 \<Rightarrow> bool \<times> ContractInfo" where
  "applyHealedDestruction ci height =
     (if height < ci_CreatedInBlock ci \<or> height \<le> ci_DestructedInBlock ci then (False, ci)
      else (True, ci\<lparr>ci_DestructedInBlock := height\<rparr>))"

definition healRecord :: "ContractInfo \<Rightarrow> bool \<times> ContractInfo \<Rightarrow> bool \<times> ContractInfo" where
  "healRecord ci hc =
     (let (changed, info) = hc;
          (created, info) = (if ci_CreatedInBlock ci \<noteq> 0 then applyHealedCreation info (ci_CreatedInBlock ci) else (False, info));
          (destructed, info) =
            (if ci_DestructedInBlock ci \<noteq> 0 then applyHealedDestruction info (ci_DestructedInBlock ci) else (False, info)) in
      (changed \<or> created \<or> destructed, info))"

definition healedContractInfo :: "RocksDB \<Rightarrow> 'db store \<Rightarrow> bytes \<Rightarrow> 'db registry \<Rightarrow> ContractInfo res \<times> 'db registry" where
  "healedContractInfo d st addrDesc r =
     (case GetContractInfo d st addrDesc [] r of
        (Inl e, r) \<Rightarrow> (Inl e, r)
      | (Inr (Some stored), r) \<Rightarrow> (Inr stored, r)
      | (Inr None, r) \<Rightarrow>
          (Inr (withAddress d addrDesc
             (zeroContractInfo\<lparr>ci_Standard := UnhandledTokenStandard, ci_Type := UnhandledTokenStandard\<rparr>)), r))"

text \<open>The healed records by address, in the order of their first appearance.\<close>

fun healLoop ::
  "RocksDB \<Rightarrow> 'db store \<Rightarrow> ContractInfo list \<Rightarrow> (bytes \<times> bool \<times> ContractInfo) list \<Rightarrow> 'db registry \<Rightarrow>
   (bytes \<times> bool \<times> ContractInfo) list res \<times> 'db registry" where
  "healLoop d st [] healed r = (Inr healed, r)"
| "healLoop d st (ci # contracts) healed r =
     (if ci_Contract ci = [] then healLoop d st contracts healed r
      else case p_GetAddrDescFromAddress (d_chainParser d) (ci_Contract ci) of
        Inl e \<Rightarrow> (Inl e, r)
      | Inr addrDesc \<Rightarrow>
          if length addrDesc = 0 then healLoop d st contracts healed r
          else (case map_of healed addrDesc of
              Some hc \<Rightarrow> healLoop d st contracts (AList.update addrDesc (healRecord ci hc) healed) r
            | None \<Rightarrow>
                (case healedContractInfo d st addrDesc r of
                   (Inl e, r) \<Rightarrow> (Inl e, r)
                 | (Inr info, r) \<Rightarrow>
                     healLoop d st contracts (AList.update addrDesc (healRecord ci (False, info)) healed) r)))"

definition storeHealedContractInfos ::
  "RocksDB \<Rightarrow> 'db store \<Rightarrow> ContractInfo list \<Rightarrow> 'db registry \<Rightarrow> wbatch res \<times> 'db registry" where
  "storeHealedContractInfos d st contracts r =
     (case healLoop d st contracts [] r of
        (Inl e, r) \<Rightarrow> (Inl e, r)
      | (Inr healed, r) \<Rightarrow>
          let changed = filter (\<lambda>(key, changed, info). changed) healed in
          (Inr (map (\<lambda>(key, _, info). PutCF cfContracts key (packContractInfo (d_vlq d) info)) changed),
           r\<lparr>rg_cached := fold (\<lambda>(key, _). contractInfoLRU_delete key) changed (rg_cached r)\<rparr>))"

section \<open>Listing and deletion\<close>

fun listRows ::
  "RocksDB \<Rightarrow> nat \<Rightarrow> (bytes \<times> bytes) list \<Rightarrow> ContractInfo list \<Rightarrow> (ContractInfo list \<times> string) res" where
  "listRows d limit [] contracts = Inr (contracts, [])"
| "listRows d limit ((key, val) # rows) contracts =
     bindR (p_GetAddressesFromAddrDesc (d_chainParser d) key) (\<lambda>(addresses, _).
       case addresses of
         [] \<Rightarrow> Inl (ErrMsg ''no address for contract descriptor'')
       | a # _ \<Rightarrow>
           if length contracts = limit then Inr (contracts, a)
           else bindR (of_panic (unpackContractInfo (d_vlq d) val)) (\<lambda>ci.
             listRows d limit rows (contracts @ [ci\<lparr>ci_Contract := a\<rparr>])))"

definition ListContractInfos ::
  "RocksDB \<Rightarrow> 'db store \<Rightarrow> 'db \<Rightarrow> string \<Rightarrow> nat \<Rightarrow> (ContractInfo list \<times> string) res" where
  "ListContractInfos d st db start limit =
     bindR (if start \<noteq> [] then bindR (p_GetAddrDescFromAddress (d_chainParser d) start) (\<lambda>key. Inr (Some key)) else Inr None)
       (\<lambda>key.
         let rows = s_Rows st db cfContracts in
         listRows d limit (case key of Some key \<Rightarrow> seek key rows | None \<Rightarrow> rows) [])"

definition DeleteContractInfoForAddress ::
  "RocksDB \<Rightarrow> 'db store \<Rightarrow> string \<Rightarrow> 'db registry \<Rightarrow> ContractInfo option res \<times> 'db registry" where
  "DeleteContractInfoForAddress d st address r =
     (case p_GetAddrDescFromAddress (d_chainParser d) address of
        Inl e \<Rightarrow> (Inl e, r)
      | Inr contract \<Rightarrow>
          (case s_GetCF st (rg_db r) cfContracts contract of
             Inl e \<Rightarrow> (Inl e, r)
           | Inr val \<Rightarrow>
               let buf = val_Data val in
               if length buf = 0 then (Inr None, r)
               else (case unpackContractInfo (d_vlq d) buf of
                   None \<Rightarrow> (Inl Panic, r)
                 | Some ci \<Rightarrow>
                     (case s_Write st (rg_db r) [DeleteCF cfContracts contract] of
                        Inl e \<Rightarrow> (Inl e, r)
                      | Inr db \<Rightarrow>
                          (Inr (Some (withAddress d contract ci)),
                           r\<lparr>rg_db := db, rg_protocolGen := rg_protocolGen r + 1,
                             rg_cached := contractInfoLRU_delete contract (rg_cached r)\<rparr>)))))"

section \<open>Detections of token protocols\<close>

definition SetErcProtocol ::
  "RocksDB \<Rightarrow> 'db store \<Rightarrow> bytes \<Rightarrow> byte \<Rightarrow> bytes \<Rightarrow> uint32 \<Rightarrow> string \<Rightarrow> uint64 \<Rightarrow> 'db registry \<Rightarrow> unit res \<times> 'db registry" where
  "SetErcProtocol d st addrDesc protocolID payload persistHeight observedBlockHash observedReorgGen r =
     (let v = d_vlq d; get = s_GetCF st (rg_db r); byContract = protocolByContractKey protocolID addrDesc;
          cleared = r\<lparr>rg_cached := contractInfoLRU_delete addrDesc (rg_cached r)\<rparr> in
      if length addrDesc = 0 \<or> persistHeight = 0 then (Inr (), r)
      else if rg_reorgGen r \<noteq> observedReorgGen then (Inr (), r)
      else case (if observedBlockHash \<noteq> [] then
                   bindR (GetBlockHash d get persistHeight) (\<lambda>currentHash. Inr (currentHash = observedBlockHash))
                 else Inr True) of
        Inl e \<Rightarrow> (Inl e, r)
      | Inr False \<Rightarrow> (Inr (), r)
      | Inr True \<Rightarrow>
          (case get cfErcProtocols byContract of
             Inl e \<Rightarrow> (Inl e, r)
           | Inr val \<Rightarrow>
               if length (val_Data val) > 0 \<and> unpackErcProtocolValue v (val_Data val) \<noteq> None then (Inr (), cleared)
               else (case s_Write st (rg_db r)
                     [PutCF cfErcProtocols byContract (packErcProtocolValue v persistHeight payload),
                      PutCF cfErcProtocols (protocolByHeightKey protocolID persistHeight addrDesc) []] of
                   Inl e \<Rightarrow> (Inl e, r)
                 | Inr db \<Rightarrow> (Inr (), cleared\<lparr>rg_db := db, rg_protocolGen := rg_protocolGen r + 1\<rparr>))))"

definition SetContractInfoErc4626Vault ::
  "RocksDB \<Rightarrow> 'db store \<Rightarrow> string \<Rightarrow> bytes \<Rightarrow> uint32 \<Rightarrow> string \<Rightarrow> uint64 \<Rightarrow> 'db registry \<Rightarrow> unit res \<times> 'db registry" where
  "SetContractInfoErc4626Vault d st address assetContract persistHeight observedBlockHash observedReorgGen r =
     (case p_GetAddrDescFromAddress (d_chainParser d) address of
        Inl e \<Rightarrow> (Inl e, r)
      | Inr contract \<Rightarrow>
          SetErcProtocol d st contract ErcProtocolErc4626 (packString (d_vlq d) assetContract) persistHeight
            observedBlockHash observedReorgGen r)"

text \<open>The rows of the range, by the index over heights: the keys of both rows, and the address for the cache.\<close>

fun disconnectProtocolRows :: "byte \<Rightarrow> bytes \<Rightarrow> (bytes \<times> bytes) list \<Rightarrow> wbatch \<times> bytes list" where
  "disconnectProtocolRows protocolID endKey [] = ([], [])"
| "disconnectProtocolRows protocolID endKey ((key, val) # rows) =
     (if key \<ge> endKey then ([], [])
      else
        let (wb, addrs) = disconnectProtocolRows protocolID endKey rows in
        if length key \<le> 2 + 4 then (wb, addrs)
        else
          let addrDesc = drop (2 + 4) key in
          (DeleteCF cfErcProtocols (protocolByContractKey protocolID addrDesc) # DeleteCF cfErcProtocols key # wb,
           addrDesc # addrs))"

definition disconnectErcProtocolRange ::
  "'db store \<Rightarrow> byte \<Rightarrow> uint32 \<Rightarrow> uint32 \<Rightarrow> 'db registry \<Rightarrow> wbatch \<times> 'db registry" where
  "disconnectErcProtocolRange st protocolID lower higher r =
     (let startKey = [ercProtocolKeyByHeight, protocolID] @ packUint lower;
          endKey = [ercProtocolKeyByHeight, protocolID] @ packUint (higher + 1);
          (wb, addrs) = disconnectProtocolRows protocolID endKey (seek startKey (s_Rows st (rg_db r) cfErcProtocols)) in
      (wb, r\<lparr>rg_cached := fold contractInfoLRU_delete addrs (rg_cached r)\<rparr>))"

definition disconnectErcProtocols :: "'db store \<Rightarrow> uint32 \<Rightarrow> uint32 \<Rightarrow> 'db registry \<Rightarrow> wbatch \<times> 'db registry" where
  "disconnectErcProtocols st lower higher r = disconnectErcProtocolRange st ErcProtocolErc4626 lower higher r"

end
