(* ===== verification/CachesLaws.thy ===== *)
theory CachesLaws
  imports Caches
begin

text \<open>
  Laws of the caches. The map and the list of a cache stay consistent; what a cache holds is a list of keys and values
  in the order of use. The locale \<open>recency\<close> is the contract of a cache over this list, and its lemmas say how long an
  entry stays.
\<close>

lemma mem_alist_update:
  "distinct (map fst al) \<Longrightarrow>
   (k', v') \<in> set (AList.update k v al) \<longleftrightarrow> (if k' = k then v' = v else (k', v') \<in> set al)"
  by (induction al) force+

lemma delete_last: "distinct (map fst (xs @ [(k, v)])) \<Longrightarrow> AList.delete k (xs @ [(k, v)]) = xs"
  by (induction xs) auto

section \<open>Consistency of the list and the map\<close>

definition lruInv :: "('v \<Rightarrow> 'k) \<Rightarrow> ('k, 'v) lruCache \<Rightarrow> bool" where
  "lruInv keyOf c \<longleftrightarrow>
     distinct (map fst (lru_order c)) \<and> distinct (map fst (lru_items c)) \<and>
     (\<forall>k el. (k, el) \<in> set (lru_items c) \<longleftrightarrow> (\<exists>v. (el, v) \<in> set (lru_order c) \<and> keyOf v = k)) \<and>
     list_all (\<lambda>(el, v). el < lru_next c) (lru_order c)"

definition lruView :: "('v \<Rightarrow> 'k) \<Rightarrow> ('k, 'v) lruCache \<Rightarrow> ('k \<times> 'v) list" where
  "lruView keyOf c = map (\<lambda>(el, v). (keyOf v, v)) (lru_order c)"

lemma lruInvD:
  assumes "lruInv keyOf c"
  shows "distinct (map fst (lru_order c))" "distinct (map fst (lru_items c))"
    "(k, el) \<in> set (lru_items c) \<longleftrightarrow> (\<exists>v. (el, v) \<in> set (lru_order c) \<and> keyOf v = k)"
    "(el, v) \<in> set (lru_order c) \<Longrightarrow> el < lru_next c"
  using assms by (auto simp: lruInv_def list_all_iff)

lemma lruInv_new: "newLRU capacity = Some c \<Longrightarrow> lruInv keyOf c \<and> lruView keyOf c = []"
  by (auto simp: newLRU_def lruInv_def lruView_def split: if_splits)

lemma lru_key_unique:
  assumes inv: "lruInv keyOf c" and "(el, v) \<in> set (lru_order c)" "(el', v') \<in> set (lru_order c)"
  shows "keyOf v = keyOf v' \<longleftrightarrow> el = el'"
proof
  assume "keyOf v = keyOf v'"
  then have "(keyOf v, el) \<in> set (lru_items c)" "(keyOf v, el') \<in> set (lru_items c)"
    using lruInvD(3) [OF inv] assms(2,3) by metis+
  with lruInvD(2) [OF inv] show "el = el'" by (rule eq_key_imp_eq_value)
next
  assume "el = el'"
  with assms lruInvD(1) [OF inv] show "keyOf v = keyOf v'" by (metis eq_key_imp_eq_value)
qed

lemma distinct_lruView:
  assumes inv: "lruInv keyOf c"
  shows "distinct (map fst (lruView keyOf c))"
proof -
  have "distinct (lru_order c)" using lruInvD(1) [OF inv] by (simp add: distinct_map)
  moreover have "inj_on (\<lambda>p. keyOf (snd p)) (set (lru_order c))"
  proof (rule inj_onI, clarsimp)
    fix el v el' v'
    assume "(el, v) \<in> set (lru_order c)" "(el', v') \<in> set (lru_order c)" "keyOf v = keyOf v'"
    moreover from this have "el = el'" using lru_key_unique [OF inv] by blast
    ultimately show "el = el' \<and> v = v'" using lruInvD(1) [OF inv] by (metis eq_key_imp_eq_value)
  qed
  ultimately show ?thesis by (simp add: lruView_def distinct_map comp_def case_prod_beta)
qed

lemma lru_element_Some:
  assumes inv: "lruInv keyOf c"
  shows "lru_element k c = Some (el, v) \<longleftrightarrow> (el, v) \<in> set (lru_order c) \<and> keyOf v = k"
proof -
  note d = lruInvD(1,2) [OF inv]
  have "lru_element k c = Some (el, v) \<longleftrightarrow> (k, el) \<in> set (lru_items c) \<and> (el, v) \<in> set (lru_order c)"
    using d by (force simp: lru_element_def split: option.splits dest: eq_key_imp_eq_value)
  then show ?thesis using lruInvD(3) [OF inv, of k el] d(1) by (metis eq_key_imp_eq_value)
qed

lemma lru_element_view:
  assumes inv: "lruInv keyOf c"
  shows "map_option snd (lru_element k c) = map_of (lruView keyOf c) k"
proof (cases "lru_element k c")
  case None
  then have "k \<notin> fst ` set (lruView keyOf c)"
    using lru_element_Some [OF inv, of k] by (force simp: lruView_def)
  then have "map_of (lruView keyOf c) k = None" by (simp add: map_of_eq_None_iff)
  with None show ?thesis by simp
next
  case (Some p)
  then obtain el v where "lru_element k c = Some (el, v)" by (cases p) auto
  moreover from this have "(k, v) \<in> set (lruView keyOf c)" using lru_element_Some [OF inv] by (force simp: lruView_def)
  ultimately show ?thesis using distinct_lruView [OF inv] by simp
qed

text \<open>Removing an element from the list is removing its key from the view.\<close>

lemma lruView_delete:
  assumes inv: "lruInv keyOf c" and el: "(el, v) \<in> set (lru_order c)"
  shows "map (\<lambda>(el, v). (keyOf v, v)) (AList.delete el (lru_order c)) = AList.delete (keyOf v) (lruView keyOf c)"
proof -
  have "filter (\<lambda>p. el \<noteq> fst p) (lru_order c) = filter (\<lambda>p. keyOf v \<noteq> keyOf (snd p)) (lru_order c)"
    by (rule filter_cong) (simp, metis lru_key_unique [OF inv el] prod.collapse)
  then show ?thesis by (simp add: AList.delete_eq lruView_def filter_map comp_def case_prod_beta')
qed

section \<open>The steps of a cache on the view\<close>

lemma lruInv_reorder:
  assumes inv: "lruInv keyOf c" and "set order = set (lru_order c)" "distinct (map fst order)"
  shows "lruInv keyOf (c\<lparr>lru_order := order\<rparr>)"
  using assms by (simp add: lruInv_def list_all_iff)

lemma lru_touch_view:
  assumes inv: "lruInv keyOf c" and e: "lru_element k c = Some (el, v)"
  shows "lruInv keyOf (lru_touch el c)"
    "lruView keyOf (lru_touch el c) = (k, v) # AList.delete k (lruView keyOf c)"
proof -
  have el: "(el, v) \<in> set (lru_order c)" "keyOf v = k" using e lru_element_Some [OF inv] by simp_all
  then have m: "list_MoveToFront el (lru_order c) = (el, v) # AList.delete el (lru_order c)"
    using lruInvD(1) [OF inv] by (simp add: list_MoveToFront_def)
  have "set ((el, v) # AList.delete el (lru_order c)) = set (lru_order c)"
    using el lruInvD(1) [OF inv] by (auto simp: AList.delete_eq dest: eq_key_imp_eq_value)
  moreover have "distinct (map fst ((el, v) # AList.delete el (lru_order c)))"
    using lruInvD(1) [OF inv] by (auto simp: AList.delete_eq distinct_map_filter)
  ultimately show "lruInv keyOf (lru_touch el c)" unfolding lru_touch_def m by (rule lruInv_reorder [OF inv])
  show "lruView keyOf (lru_touch el c) = (k, v) # AList.delete k (lruView keyOf c)"
    using lruView_delete [OF inv el(1)] el(2) by (simp add: lru_touch_def m lruView_def)
qed

lemma lru_drop_view:
  assumes inv: "lruInv keyOf c" and e: "lru_element k c = Some (el, v)"
  shows "lruInv keyOf (lru_drop k el c)" "lruView keyOf (lru_drop k el c) = AList.delete k (lruView keyOf c)"
proof -
  have el: "(el, v) \<in> set (lru_order c)" "keyOf v = k" using e lru_element_Some [OF inv] by simp_all
  have "(k', el') \<in> set (AList.delete k (lru_items c)) \<longleftrightarrow>
      (\<exists>v'. (el', v') \<in> set (AList.delete el (lru_order c)) \<and> keyOf v' = k')" for k' el'
    using lru_key_unique [OF inv el(1)] el(2) lruInvD(3) [OF inv, of k' el'] by (auto simp: AList.delete_eq)
  then show "lruInv keyOf (lru_drop k el c)"
    using lruInvD(1,2,4) [OF inv] by (simp add: lruInv_def lru_drop_def list_Remove_def list_all_iff distinct_delete)
      (auto simp: AList.delete_eq)
  show "lruView keyOf (lru_drop k el c) = AList.delete k (lruView keyOf c)"
    using lruView_delete [OF inv el(1)] el(2) by (simp add: lru_drop_def list_Remove_def lruView_def)
qed

lemma lru_set_view:
  assumes inv: "lruInv keyOf c" and e: "lru_element k c = Some (el, v)" and k: "keyOf v' = k"
  shows "lruInv keyOf (lru_set el v' c)" "lru_element k (lru_set el v' c) = Some (el, v')"
    "AList.delete k (lruView keyOf (lru_set el v' c)) = AList.delete k (lruView keyOf c)"
proof -
  have el: "(el, v) \<in> set (lru_order c)" "keyOf v = k" using e lru_element_Some [OF inv] by simp_all
  let ?o = "AList.update el v' (lru_order c)"
  have dom: "map fst ?o = map fst (lru_order c)" using el by (force simp: AList.update_keys)
  note mem = mem_alist_update [OF lruInvD(1) [OF inv]]
  have "(k', el') \<in> set (lru_items c) \<longleftrightarrow> (\<exists>w. (el', w) \<in> set ?o \<and> keyOf w = k')" for k' el'
    using el k lruInvD(1) [OF inv] lruInvD(3) [OF inv, of k' el'] by (auto simp: mem dest: eq_key_imp_eq_value)
  moreover have "el' < lru_next c" if "(el', w) \<in> set ?o" for el' w
    using that lruInvD(4) [OF inv] el by (auto simp: mem split: if_splits)
  ultimately show inv': "lruInv keyOf (lru_set el v' c)"
    using lruInvD(1,2) [OF inv] dom by (simp add: lruInv_def lru_set_def list_all_iff) blast
  have "(el, v') \<in> set (lru_order (lru_set el v' c))" by (simp add: lru_set_def mem)
  then show "lru_element k (lru_set el v' c) = Some (el, v')" using lru_element_Some [OF inv'] k by simp
  have "AList.delete el ?o = AList.delete el (lru_order c)" by (simp add: AList.delete_update_same)
  then show "AList.delete k (lruView keyOf (lru_set el v' c)) = AList.delete k (lruView keyOf c)"
    using lruView_delete [OF inv el(1)] lruView_delete [OF inv' \<open>(el, v') \<in> _\<close>] el(2) k
    by (simp add: lru_set_def)
qed

lemma lru_push_view:
  assumes inv: "lruInv keyOf c" and e: "lru_element k c = None" and k: "keyOf v = k"
  shows "lruInv keyOf (lru_push k v c)" "lruView keyOf (lru_push k v c) = (k, v) # lruView keyOf c"
proof -
  note d = lruInvD(1,2) [OF inv]
  have nk: "(k, el) \<notin> set (lru_items c)" for el using e lru_element_Some [OF inv, of k] lruInvD(3) [OF inv] by fastforce
  have new: "(lru_next c, w) \<notin> set (lru_order c)" for w using lruInvD(4) [OF inv, of "lru_next c" w] by blast
  let ?i = "AList.update k (lru_next c) (lru_items c)"
  have di: "distinct (map fst ?i)" using d by (simp add: distinct_update)
  have "(k', el') \<in> set ?i \<longleftrightarrow> (k', el') = (k, lru_next c) \<or> (k', el') \<in> set (lru_items c)" for k' el'
    using mem_alist_update [OF d(2)] nk by auto
  then have "(k', el') \<in> set ?i \<longleftrightarrow> (\<exists>w. (el', w) \<in> set ((lru_next c, v) # lru_order c) \<and> keyOf w = k')" for k' el'
    using k lruInvD(3) [OF inv, of k' el'] by auto
  then show "lruInv keyOf (lru_push k v c)"
    using d di new lruInvD(4) [OF inv] by (auto simp: lruInv_def lru_push_def list_all_iff less_Suc_eq)
  show "lruView keyOf (lru_push k v c) = (k, v) # lruView keyOf c" using k by (simp add: lru_push_def lruView_def)
qed

lemma lru_evict_view:
  assumes inv: "lruInv keyOf c" and l: "int (length (lruView keyOf c)) \<le> lru_capacity c + 1" and "0 < lru_capacity c"
  shows "lruInv keyOf (snd (lru_evict keyOf c))"
    "lruView keyOf (snd (lru_evict keyOf c)) = take (nat (lru_capacity c)) (lruView keyOf c)"
    "lru_capacity (snd (lru_evict keyOf c)) = lru_capacity c"
proof -
  have len: "length (lruView keyOf c) = length (lru_order c)" by (simp add: lruView_def)
  have "lruInv keyOf (snd (lru_evict keyOf c)) \<and>
    lruView keyOf (snd (lru_evict keyOf c)) = take (nat (lru_capacity c)) (lruView keyOf c) \<and>
    lru_capacity (snd (lru_evict keyOf c)) = lru_capacity c"
  proof (cases "int (length (lru_order c)) \<le> lru_capacity c")
    case True
    with inv len show ?thesis by (simp add: lru_evict_def)
  next
    case False
    then have ne: "lru_order c \<noteq> []" using assms(3) by auto
    obtain el v where last: "last (lru_order c) = (el, v)" by fastforce
    have mem: "(el, v) \<in> set (lru_order c)" using ne last by (metis last_in_set)
    then have el: "lru_element (keyOf v) c = Some (el, v)" using lru_element_Some [OF inv] by simp
    have view: "lruView keyOf c = butlast (lruView keyOf c) @ [(keyOf v, v)]"
      using append_butlast_last_id [of "lruView keyOf c"] ne last by (simp add: lruView_def last_map)
    then have "AList.delete (keyOf v) (lruView keyOf c) = butlast (lruView keyOf c)"
      using distinct_lruView [OF inv]
      by (metis delete_last)
    then have "lruView keyOf (snd (lru_evict keyOf c)) = butlast (lruView keyOf c)"
      using lru_drop_view(2) [OF inv el] False ne last by (simp add: lru_evict_def list_Back_def)
    moreover have "butlast (lruView keyOf c) = take (nat (lru_capacity c)) (lruView keyOf c)"
      using False l len by (simp add: butlast_conv_take) (rule arg_cong [where f = "\<lambda>n. take n _"], linarith)
    ultimately show ?thesis
      using lru_drop_view(1) [OF inv el] False ne last by (simp add: lru_evict_def list_Back_def lru_drop_def)
  qed
  then show "lruInv keyOf (snd (lru_evict keyOf c))"
    "lruView keyOf (snd (lru_evict keyOf c)) = take (nat (lru_capacity c)) (lruView keyOf c)"
    "lru_capacity (snd (lru_evict keyOf c)) = lru_capacity c" by simp_all
qed

section \<open>The contract of a cache\<close>

text \<open>
  What a cache holds is a list of keys and entries, the most recently used first. A lookup compares the entry with the
  generation \<open>g\<close> of its caller, drops an entry that does not match, and moves one that matches to the front.
\<close>

definition recencyGet :: "('g \<Rightarrow> 'e \<Rightarrow> bool) \<Rightarrow> 'g \<Rightarrow> 'k \<Rightarrow> ('k \<times> 'e) list \<Rightarrow> ('k \<times> 'e) list" where
  "recencyGet valid g k xs =
     (case map_of xs k of
        None \<Rightarrow> xs
      | Some e \<Rightarrow> if valid g e then (k, e) # AList.delete k xs else AList.delete k xs)"

definition recencyFind :: "('g \<Rightarrow> 'e \<Rightarrow> bool) \<Rightarrow> 'g \<Rightarrow> 'k \<Rightarrow> ('k \<times> 'e) list \<Rightarrow> 'e option" where
  "recencyFind valid g k xs =
     (case map_of xs k of None \<Rightarrow> None | Some e \<Rightarrow> if valid g e then Some e else None)"

lemma recencyGet_cases:
  obtains "recencyGet valid g k xs = xs" | "recencyGet valid g k xs = AList.delete k xs"
    | x where "recencyGet valid g k xs = (k, x) # AList.delete k xs"
proof (cases "map_of xs k")
  case (Some e)
  with that(2,3) show thesis by (cases "valid g e") (simp_all add: recencyGet_def)
qed (use that(1) in \<open>simp add: recencyGet_def\<close>)

lemma map_of_take: "map_of (take n xs) k = Some e \<Longrightarrow> distinct (map fst xs) \<Longrightarrow> map_of xs k = Some e"
  by (drule map_of_SomeD, drule in_set_takeD) simp

datatype ('g, 'k, 'a) cacheOp = GetOp 'g 'k | AddOp 'k 'a | RemoveOp 'k

fun opKey :: "('g, 'k, 'a) cacheOp \<Rightarrow> 'k" where
  "opKey (GetOp g k) = k"
| "opKey (AddOp k a) = k"
| "opKey (RemoveOp k) = k"

text \<open>The entry that was added last for a key and not removed since.\<close>

fun lastAdded :: "('k \<Rightarrow> 'a \<Rightarrow> 'e) \<Rightarrow> 'k \<Rightarrow> ('g, 'k, 'a) cacheOp \<Rightarrow> 'e option \<Rightarrow> 'e option" where
  "lastAdded entry k (GetOp g k') e = e"
| "lastAdded entry k (AddOp k' a) e = (if k' = k then Some (entry k a) else e)"
| "lastAdded entry k (RemoveOp k') e = (if k' = k then None else e)"

locale recency =
  fixes inv :: "'c \<Rightarrow> bool"
    and cap :: "'c \<Rightarrow> nat"
    and view :: "'c \<Rightarrow> ('k \<times> 'e) list"
    and valid :: "'g \<Rightarrow> 'e \<Rightarrow> bool"
    and result :: "'e option \<Rightarrow> 'r"
    and entry :: "'k \<Rightarrow> 'a \<Rightarrow> 'e"
    and get :: "'g \<Rightarrow> 'k \<Rightarrow> 'c \<Rightarrow> 'r \<times> 'c"
    and add :: "'k \<Rightarrow> 'a \<Rightarrow> 'c \<Rightarrow> 'c"
    and remove :: "'k \<Rightarrow> 'c \<Rightarrow> 'c"
  assumes inv_view: "inv c \<Longrightarrow> distinct (map fst (view c)) \<and> length (view c) \<le> cap c \<and> 0 < cap c"
    and get_result: "inv c \<Longrightarrow> fst (get g k c) = result (recencyFind valid g k (view c))"
    and get_state: "inv c \<Longrightarrow> inv (snd (get g k c)) \<and> cap (snd (get g k c)) = cap c \<and>
      view (snd (get g k c)) = recencyGet valid g k (view c)"
    and add_state: "inv c \<Longrightarrow> inv (add k a c) \<and> cap (add k a c) = cap c \<and>
      view (add k a c) = take (cap c) ((k, entry k a) # AList.delete k (view c))"
    and remove_state: "inv c \<Longrightarrow> inv (remove k c) \<and> cap (remove k c) = cap c \<and> view (remove k c) = AList.delete k (view c)"
begin

definition step :: "('g, 'k, 'a) cacheOp \<Rightarrow> 'c \<Rightarrow> 'c" where
  "step op c = (case op of GetOp g k \<Rightarrow> snd (get g k c) | AddOp k a \<Rightarrow> add k a c | RemoveOp k \<Rightarrow> remove k c)"

lemma step_inv: "inv c \<Longrightarrow> inv (step op c) \<and> cap (step op c) = cap c"
  by (cases op) (auto simp: step_def get_state add_state remove_state)

lemma run_inv: "inv c \<Longrightarrow> inv (fold step ops c) \<and> cap (fold step ops c) = cap c"
proof (induction ops arbitrary: c)
  case (Cons op ops)
  then show ?case using step_inv [of c op] by simp
qed simp

lemma size_bound: "inv c \<Longrightarrow> length (view (fold step ops c)) \<le> cap c"
  using run_inv [of c ops] inv_view [of "fold step ops c"] by simp

text \<open>Nothing is found but what was added last.\<close>

lemma step_fresh:
  assumes c: "inv c" and found: "map_of (view (step op c)) k = Some e"
    and old: "\<forall>e'. map_of (view c) k = Some e' \<longrightarrow> lst = Some e'"
  shows "lastAdded entry k op lst = Some e"
proof (cases op)
  case (GetOp g k')
  have "map_of (recencyGet valid g k' (view c)) k = Some e \<Longrightarrow> map_of (view c) k = Some e"
    by (auto simp: recencyGet_def AList.delete_conv' split: option.splits if_splits)
  with found old c GetOp show ?thesis by (simp add: step_def get_state del: map_of_eq_Some_iff)
next
  case (AddOp k' a)
  have "distinct (map fst ((k', entry k' a) # AList.delete k' (view c)))"
    using inv_view [OF c] by (simp add: distinct_delete delete_notin_dom)
  then have "map_of ((k', entry k' a) # AList.delete k' (view c)) k = Some e"
    using found c AddOp map_of_take [of "cap c" "(k', entry k' a) # AList.delete k' (view c)" k e]
    by (simp only: step_def add_state cacheOp.case)
  with old AddOp show ?thesis by (auto simp: AList.delete_conv' split: if_splits simp del: map_of_eq_Some_iff)
next
  case (RemoveOp k')
  with found old c show ?thesis
    by (auto simp: step_def remove_state AList.delete_conv' split: if_splits simp del: map_of_eq_Some_iff)
qed

lemma run_fresh:
  assumes "inv c" "map_of (view (fold step ops c)) k = Some e" "\<forall>e'. map_of (view c) k = Some e' \<longrightarrow> lst = Some e'"
  shows "fold (lastAdded entry k) ops lst = Some e"
  using assms
proof (induction ops arbitrary: c lst)
  case (Cons op ops)
  have "\<forall>e'. map_of (view (step op c)) k = Some e' \<longrightarrow> lastAdded entry k op lst = Some e'"
    using step_fresh [OF Cons.prems(1) _ Cons.prems(3)] by blast
  with Cons.IH [of "step op c"] Cons.prems step_inv [of c op] show ?case by simp
qed simp

text \<open>An entry stays while fewer other keys are used than the cache has places.\<close>

lemma step_keeps:
  assumes c: "inv c" and v: "view c = a @ (k, e) # b" and op: "opKey op \<noteq> k"
    and K: "fst ` set a \<subseteq> K" "opKey op \<in> K" "finite K" "card K < cap c"
  obtains a' b' where "view (step op c) = a' @ (k, e) # b'" "fst ` set a' \<subseteq> K"
proof -
  let ?k = "opKey op"
  have d: "AList.delete ?k (view c) = AList.delete ?k a @ (k, e) # AList.delete ?k b"
    using op by (simp add: v AList.delete_eq)
  have sub: "fst ` set (AList.delete ?k a) \<subseteq> K" using K(1) dom_delete_subset [of ?k a] by blast
  have dist: "distinct (map fst (AList.delete ?k a))" using inv_view [OF c] v by (simp add: distinct_delete)
  show thesis
  proof (cases op)
    case (GetOp g k')
    then have vs: "view (step op c) = recencyGet valid g ?k (view c)" using c by (simp add: step_def get_state)
    show thesis
    proof (rule recencyGet_cases [of valid g ?k "view c"])
      fix x
      assume "recencyGet valid g ?k (view c) = (?k, x) # AList.delete ?k (view c)"
      with vs sub K(2) d show thesis by (intro that [of "(?k, x) # AList.delete ?k a"]) auto
    next
      assume "recencyGet valid g ?k (view c) = view c"
      with vs v K(1) that [of a b] show thesis by simp
    next
      assume "recencyGet valid g ?k (view c) = AList.delete ?k (view c)"
      with vs d sub that [of "AList.delete ?k a" "AList.delete ?k b"] show thesis by simp
    qed
  next
    case (AddOp k' x)
    have "length (AList.delete ?k a) = card (fst ` set (AList.delete ?k a))"
      using dist by (metis distinct_card length_map set_map)
    moreover have "?k \<notin> fst ` set (AList.delete ?k a)" by (rule delete_notin_dom)
    then have "card (insert ?k (fst ` set (AList.delete ?k a))) = card (fst ` set (AList.delete ?k a)) + 1" by simp
    moreover have "card (insert ?k (fst ` set (AList.delete ?k a))) \<le> card K" using K sub by (intro card_mono) auto
    ultimately have l: "length (AList.delete ?k a) + 1 < cap c" using K(4) by linarith
    define n where "n = cap c - (length (AList.delete ?k a) + 2)"
    have "cap c = Suc (length (AList.delete ?k a)) + Suc n" using l by (simp add: n_def)
    then have "view (step op c) = ((?k, entry ?k x) # AList.delete ?k a) @ (k, e) # take n (AList.delete ?k b)"
      using c AddOp d by (simp add: step_def add_state)
    with sub K(2) that [of "(?k, entry ?k x) # AList.delete ?k a" "take n (AList.delete ?k b)"] show thesis by simp
  next
    case (RemoveOp k')
    then have "view (step op c) = AList.delete ?k (view c)" using c by (simp add: step_def remove_state)
    with d sub that [of "AList.delete ?k a" "AList.delete ?k b"] show thesis by simp
  qed
qed

lemma run_keeps:
  assumes "inv c" "view c = a @ (k, e) # b" "k \<notin> opKey ` set ops" "fst ` set a \<union> opKey ` set ops \<subseteq> K" "finite K"
    "card K < cap c"
  shows "map_of (view (fold step ops c)) k = Some e"
  using assms
proof (induction ops arbitrary: c a b)
  case Nil
  with inv_view [OF Nil.prems(1)] have "map_of a k = None" by (simp add: map_of_eq_None_iff)
  with Nil.prems(2) show ?case by (simp add: map_add_def)
next
  case (Cons op ops)
  obtain a' b' where "view (step op c) = a' @ (k, e) # b'" "fst ` set a' \<subseteq> K"
    by (rule step_keeps [OF Cons.prems(1,2), of op K]) (use Cons.prems in auto)
  with Cons step_inv [OF Cons.prems(1), of op] show ?case by simp
qed

lemma added_stays:
  assumes "inv c" "k \<notin> opKey ` set ops" "card (opKey ` set ops) < cap c"
  shows "map_of (view (fold step ops (add k a c))) k = Some (entry k a)"
proof (rule run_keeps [where K = "opKey ` set ops"])
  have "0 < cap c" using inv_view [OF assms(1)] by simp
  then show "view (add k a c) = [] @ (k, entry k a) # take (cap c - 1) (AList.delete k (view c))"
    using assms(1) by (cases "cap c") (simp_all add: add_state)
qed (use assms in \<open>simp_all add: add_state\<close>)

end

section \<open>The three caches keep the contract\<close>

definition cacheOk :: "('v \<Rightarrow> 'k) \<Rightarrow> ('k, 'v) lruCache option \<Rightarrow> bool" where
  "cacheOk keyOf c =
     (case c of
        None \<Rightarrow> False
      | Some c \<Rightarrow> lruInv keyOf c \<and> int (length (lruView keyOf c)) \<le> lru_capacity c \<and> 0 < lru_capacity c)"

definition cacheView :: "('v \<Rightarrow> 'k) \<Rightarrow> ('k, 'v) lruCache option \<Rightarrow> ('k \<times> 'v) list" where
  "cacheView keyOf c = (case c of None \<Rightarrow> [] | Some c \<Rightarrow> lruView keyOf c)"

definition cacheCap :: "('k, 'v) lruCache option \<Rightarrow> nat" where
  "cacheCap c = (case c of None \<Rightarrow> 0 | Some c \<Rightarrow> nat (lru_capacity c))"

lemma cacheOk_new:
  fixes keyOf :: "'v \<Rightarrow> 'k"
  shows "0 < capacity \<Longrightarrow> cacheOk keyOf (newLRU capacity) \<and> cacheView keyOf (newLRU capacity) = [] \<and>
    cacheCap (newLRU capacity :: ('k, 'v) lruCache option) = nat capacity"
  by (auto simp: newLRU_def lruInv_def lruView_def cacheOk_def cacheView_def cacheCap_def)

lemma length_delete_less: "k \<in> fst ` set xs \<Longrightarrow> length (AList.delete k xs) < length xs"
proof (induction xs)
  case (Cons x xs)
  then show ?case using length_delete_le [of k xs] by (cases "fst x = k") auto
qed simp

lemma lru_steps_capacity [simp]:
  "lru_capacity (lru_touch el c) = lru_capacity c" "lru_capacity (lru_drop k el c) = lru_capacity c"
  "lru_capacity (lru_set el v c) = lru_capacity c" "lru_capacity (lru_push k v c) = lru_capacity c"
  by (simp_all add: lru_touch_def lru_drop_def lru_set_def lru_push_def)

lemma cache_touch:
  assumes "cacheOk keyOf (Some c)" "lru_element k c = Some (el, v)"
  shows "cacheOk keyOf (Some (lru_touch el c))"
    "cacheView keyOf (Some (lru_touch el c)) = (k, v) # AList.delete k (cacheView keyOf (Some c))"
proof -
  have inv: "lruInv keyOf c" using assms(1) by (simp add: cacheOk_def)
  have "map_of (lruView keyOf c) k = Some v" using lru_element_view [OF inv, of k] assms(2) by simp
  then have "k \<in> fst ` set (lruView keyOf c)" by (force dest: map_of_SomeD)
  then have "length (AList.delete k (lruView keyOf c)) < length (lruView keyOf c)" by (rule length_delete_less)
  with lru_touch_view [OF inv assms(2)] assms(1)
  show "cacheOk keyOf (Some (lru_touch el c))"
    "cacheView keyOf (Some (lru_touch el c)) = (k, v) # AList.delete k (cacheView keyOf (Some c))"
    by (simp_all add: cacheOk_def cacheView_def)
qed

lemma cache_drop:
  assumes "cacheOk keyOf (Some c)" "lru_element k c = Some (el, v)"
  shows "cacheOk keyOf (Some (lru_drop k el c))"
    "cacheView keyOf (Some (lru_drop k el c)) = AList.delete k (cacheView keyOf (Some c))"
proof -
  have inv: "lruInv keyOf c" using assms(1) by (simp add: cacheOk_def)
  with lru_drop_view [OF inv assms(2)] assms(1) length_delete_le [of k "lruView keyOf c"]
  show "cacheOk keyOf (Some (lru_drop k el c))"
    "cacheView keyOf (Some (lru_drop k el c)) = AList.delete k (cacheView keyOf (Some c))"
    by (simp_all add: cacheOk_def cacheView_def)
qed

lemma cache_set_touch:
  assumes c: "cacheOk keyOf (Some c)" and e: "lru_element k c = Some (el, v)" and k: "keyOf v' = k"
  shows "cacheOk keyOf (Some (lru_touch el (lru_set el v' c)))"
    "cacheView keyOf (Some (lru_touch el (lru_set el v' c))) =
       take (cacheCap (Some c)) ((k, v') # AList.delete k (cacheView keyOf (Some c)))"
proof -
  have inv: "lruInv keyOf c" using c by (simp add: cacheOk_def)
  note st = lru_set_view [OF inv e k]
  have "length (lruView keyOf (lru_set el v' c)) = length (lru_order (lru_set el v' c))" by (simp add: lruView_def)
  also have "\<dots> = length (map fst (lru_order c))"
    using e lru_element_Some [OF inv] by (simp add: lru_set_def) (metis AList.update_keys fst_conv image_eqI length_map set_map)
  finally have l: "length (lruView keyOf (lru_set el v' c)) = length (lruView keyOf c)" by (simp add: lruView_def)
  then have ok: "cacheOk keyOf (Some (lru_set el v' c))" using c st(1) by (simp add: cacheOk_def)
  note t = cache_touch [OF ok st(2)]
  show "cacheOk keyOf (Some (lru_touch el (lru_set el v' c)))" by (rule t(1))
  then have "int (length (lruView keyOf (lru_touch el (lru_set el v' c)))) \<le> lru_capacity c" by (simp add: cacheOk_def)
  with t(2) st(3) show "cacheView keyOf (Some (lru_touch el (lru_set el v' c))) =
       take (cacheCap (Some c)) ((k, v') # AList.delete k (cacheView keyOf (Some c)))"
    by (simp add: cacheView_def cacheCap_def)
qed

lemma cache_push_evict:
  assumes c: "cacheOk keyOf (Some c)" and e: "lru_element k c = None" and k: "keyOf v = k"
  shows "cacheOk keyOf (Some (snd (lru_evict keyOf (lru_push k v c))))"
    "cacheView keyOf (Some (snd (lru_evict keyOf (lru_push k v c)))) =
       take (cacheCap (Some c)) ((k, v) # AList.delete k (cacheView keyOf (Some c)))"
    "lru_capacity (snd (lru_evict keyOf (lru_push k v c))) = lru_capacity c"
proof -
  have inv: "lruInv keyOf c" using c by (simp add: cacheOk_def)
  note p = lru_push_view [OF inv e k]
  have "map_of (lruView keyOf c) k = None" using lru_element_view [OF inv, of k] e by simp
  then have d: "AList.delete k (lruView keyOf c) = lruView keyOf c" by (simp add: map_of_eq_None_iff)
  have "int (length (lruView keyOf (lru_push k v c))) \<le> lru_capacity (lru_push k v c) + 1" "0 < lru_capacity (lru_push k v c)"
    using c p(2) by (simp_all add: cacheOk_def)
  note ev = lru_evict_view [OF p(1) this]
  show "cacheOk keyOf (Some (snd (lru_evict keyOf (lru_push k v c))))" using ev c by (auto simp: cacheOk_def min_def)
  show "cacheView keyOf (Some (snd (lru_evict keyOf (lru_push k v c)))) =
       take (cacheCap (Some c)) ((k, v) # AList.delete k (cacheView keyOf (Some c)))"
    "lru_capacity (snd (lru_evict keyOf (lru_push k v c))) = lru_capacity c"
    using ev p(2) d by (simp_all add: cacheView_def cacheCap_def)
qed

lemma cache_find:
  assumes "cacheOk keyOf (Some c)"
  shows "map_of (cacheView keyOf (Some c)) k = map_option snd (lru_element k c)"
  using assms lru_element_view [of keyOf c k] by (simp add: cacheOk_def cacheView_def)

lemma cacheOk_view:
  assumes "cacheOk keyOf c"
  shows "distinct (map fst (cacheView keyOf c)) \<and> length (cacheView keyOf c) \<le> cacheCap c \<and> 0 < cacheCap c"
  using assms distinct_lruView by (fastforce simp: cacheOk_def cacheView_def cacheCap_def split: option.splits)

lemma cacheOk_Some: "cacheOk keyOf c \<Longrightarrow> \<exists>l. c = Some l"
  by (simp add: cacheOk_def split: option.splits)

lemma cacheCap_steps [simp]:
  "cacheCap (Some (lru_touch el c)) = cacheCap (Some c)" "cacheCap (Some (lru_drop k el c)) = cacheCap (Some c)"
  "cacheCap (Some (lru_set el v c)) = cacheCap (Some c)"
  by (simp_all add: cacheCap_def)

lemma element_None_delete:
  assumes "cacheOk keyOf (Some c)" "lru_element k c = None"
  shows "AList.delete k (cacheView keyOf (Some c)) = cacheView keyOf (Some c)"
proof -
  have "map_of (cacheView keyOf (Some c)) k = None" using cache_find [OF assms(1), of k] assms(2) by simp
  then show ?thesis by (simp add: map_of_eq_None_iff)
qed

lemmas cache_laws = cache_find cache_touch cache_drop cache_set_touch cache_push_evict element_None_delete

interpretation contractCache: recency "cacheOk ce_key" cacheCap "cacheView ce_key"
  "\<lambda>(rg, pg) e. ce_reorgGen e = rg \<and> ce_protocolGen e = pg" "map_option ce_value"
  "\<lambda>k (v, rg, pg). \<lparr>ce_key = k, ce_value = v, ce_reorgGen = rg, ce_protocolGen = pg\<rparr>"
  "\<lambda>(rg, pg) k. contractInfoLRU_get k rg pg" "\<lambda>k (v, rg, pg). contractInfoLRU_add k v rg pg" contractInfoLRU_delete
proof (unfold_locales, goal_cases)
  case (1 c)
  then show ?case by (rule cacheOk_view)
next
  case (2 c g k)
  then obtain l where "c = Some l" by (blast dest: cacheOk_Some)
  with 2 show ?case
    by (cases "lru_element k l") (auto simp: contractInfoLRU_get_def recencyFind_def cache_laws split: prod.splits)
next
  case (3 c g k)
  then obtain l where "c = Some l" by (blast dest: cacheOk_Some)
  with 3 show ?case
    by (cases "lru_element k l") (auto simp: contractInfoLRU_get_def recencyGet_def cache_laws split: prod.splits)
next
  case (4 c k a)
  then obtain l where l: "c = Some l" by (blast dest: cacheOk_Some)
  obtain v rg pg where a: "a = (v, rg, pg)" by (cases a)
  show ?case
  proof (cases "lru_element k l")
    case None
    with 4 l show ?thesis by (simp add: a contractInfoLRU_add_def cache_laws cacheCap_def)
  next
    case (Some p)
    then obtain el e where e: "lru_element k l = Some (el, e)" by (cases p) auto
    then have "ce_key e = k" using 4 l lru_element_Some [of ce_key l k el e] by (simp add: cacheOk_def)
    then have "e\<lparr>ce_value := v, ce_reorgGen := rg, ce_protocolGen := pg\<rparr> =
        \<lparr>ce_key = k, ce_value = v, ce_reorgGen = rg, ce_protocolGen = pg\<rparr>" by (cases e) simp
    with 4 l e show ?thesis by (simp add: a contractInfoLRU_add_def cache_set_touch [where k = k and v = e])
  qed
next
  case (5 c k)
  then obtain l where "c = Some l" by (blast dest: cacheOk_Some)
  with 5 show ?case
    by (cases "lru_element k l") (auto simp: contractInfoLRU_delete_def cache_laws)
qed

interpretation stringCache: recency "cacheOk le_key" cacheCap "cacheView le_key"
  "\<lambda>_ _. True" "map_option le_value" "\<lambda>k v. \<lparr>le_key = k, le_value = v\<rparr>"
  "\<lambda>_ :: unit. lruCache_get" lruCache_add lruCache_remove
proof (unfold_locales, goal_cases)
  case (1 c)
  then show ?case by (rule cacheOk_view)
next
  case (2 c g k)
  then obtain l where "c = Some l" by (blast dest: cacheOk_Some)
  with 2 show ?case by (cases "lru_element k l") (auto simp: lruCache_get_def recencyFind_def cache_laws)
next
  case (3 c g k)
  then obtain l where "c = Some l" by (blast dest: cacheOk_Some)
  with 3 show ?case by (cases "lru_element k l") (auto simp: lruCache_get_def recencyGet_def cache_laws)
next
  case (4 c k v)
  then obtain l where l: "c = Some l" by (blast dest: cacheOk_Some)
  show ?case
  proof (cases "lru_element k l")
    case None
    with 4 l show ?thesis by (simp add: lruCache_add_def cache_laws cacheCap_def)
  next
    case (Some p)
    then obtain el e where e: "lru_element k l = Some (el, e)" by (cases p) auto
    then have "le_key e = k" using 4 l lru_element_Some [of le_key l k el e] by (simp add: cacheOk_def)
    then have "e\<lparr>le_value := v\<rparr> = \<lparr>le_key = k, le_value = v\<rparr>" by (cases e) simp
    with 4 l e show ?thesis by (simp add: lruCache_add_def cache_set_touch [where k = k and v = e])
  qed
next
  case (5 c k)
  then obtain l where "c = Some l" by (blast dest: cacheOk_Some)
  with 5 show ?case by (cases "lru_element k l") (auto simp: lruCache_remove_def cache_laws)
qed

text \<open>No address is ever removed from the hot addresses but by eviction.\<close>

interpretation hotCache: recency "cacheOk (\<lambda>k. k)" cacheCap "cacheView (\<lambda>k. k)"
  "\<lambda>_ _. True" "\<lambda>e. e \<noteq> None" "\<lambda>k _. k" "\<lambda>_ :: unit. hotLRU_touch" "\<lambda>k _ :: unit. snd \<circ> hotLRU_add k"
  "\<lambda>k c. case c of None \<Rightarrow> None
    | Some c \<Rightarrow> (case lru_element k c of None \<Rightarrow> Some c | Some (el, _) \<Rightarrow> Some (lru_drop k el c))"
proof (unfold_locales, goal_cases)
  case (1 c)
  then show ?case by (rule cacheOk_view)
next
  case (2 c g k)
  then obtain l where "c = Some l" by (blast dest: cacheOk_Some)
  with 2 show ?case by (cases "lru_element k l") (auto simp: hotLRU_touch_def recencyFind_def cache_laws)
next
  case (3 c g k)
  then obtain l where "c = Some l" by (blast dest: cacheOk_Some)
  with 3 show ?case by (cases "lru_element k l") (auto simp: hotLRU_touch_def recencyGet_def cache_laws)
next
  case (4 c k a)
  then obtain l where l: "c = Some l" by (blast dest: cacheOk_Some)
  show ?case
  proof (cases "lru_element k l")
    case None
    with 4 l show ?thesis by (simp add: hotLRU_add_def cache_laws cacheCap_def)
  next
    case (Some p)
    then obtain el e where e: "lru_element k l = Some (el, e)" by (cases p) auto
    then have "e = k" using 4 l lru_element_Some [of "\<lambda>k. k" l k el e] by (simp add: cacheOk_def)
    moreover have "cacheOk (\<lambda>k. k) (Some (lru_touch el l))" using 4 l e by (simp add: cache_touch)
    then have "length (cacheView (\<lambda>k. k) (Some (lru_touch el l))) \<le> cacheCap (Some (lru_touch el l))"
      using cacheOk_view [of "\<lambda>k. k" "Some (lru_touch el l)"] by blast
    ultimately show ?thesis using 4 l e cache_touch [of "\<lambda>k. k" l k el e] by (simp add: hotLRU_add_def)
  qed
next
  case (5 c k)
  then obtain l where "c = Some l" by (blast dest: cacheOk_Some)
  with 5 show ?case by (cases "lru_element k l") (auto simp: cache_laws)
qed

section \<open>What a reader of the contract cache gets\<close>

text \<open>An operation of the cache of contract metadata, and a run from the empty cache.\<close>

definition contractCacheRun :: "int \<Rightarrow> (uint64 \<times> uint64, bytes, 'v \<times> uint64 \<times> uint64) cacheOp list \<Rightarrow> 'v contractInfoLRU option" where
  "contractCacheRun capacity ops =
     fold (\<lambda>op c. case op of
         GetOp (rg, pg) k \<Rightarrow> snd (contractInfoLRU_get k rg pg c)
       | AddOp k (v, rg, pg) \<Rightarrow> contractInfoLRU_add k v rg pg c
       | RemoveOp k \<Rightarrow> contractInfoLRU_delete k c) ops (newLRU capacity)"

lemma contractCacheRun_step: "contractCacheRun capacity ops = fold contractCache.step ops (newLRU capacity)"
  unfolding contractCacheRun_def
  by (rule fold_cong) (auto simp: fun_eq_iff contractCache.step_def split: cacheOp.splits prod.splits)

definition lastContract :: "bytes \<Rightarrow> (uint64 \<times> uint64, bytes, 'v \<times> uint64 \<times> uint64) cacheOp list \<Rightarrow> ('v \<times> uint64 \<times> uint64) option" where
  "lastContract k ops = fold (lastAdded (\<lambda>k a. a) k) ops None"

lemma lastAdded_map:
  "fold (lastAdded f k) ops (map_option (f k) e) = map_option (f k) (fold (lastAdded (\<lambda>k a. a) k) ops e)"
proof (induction ops arbitrary: e)
  case (Cons op ops)
  have "lastAdded f k op (map_option (f k) e) = map_option (f k) (lastAdded (\<lambda>k a. a) k op e)" by (cases op) auto
  with Cons show ?case by simp
qed simp

text \<open>C17: The cache of contract metadata, after any sequence of lookups, insertions and deletions: a lookup returns a
  value only when it is the one inserted last for the key, was not deleted since, and was inserted under the same two
  generations that the reader observes. A value that was inserted stays readable under these generations as long as
  fewer other keys are used than the cache has places, and the cache never holds more than its capacity.\<close>

theorem contract_cache_exact:
  assumes "0 < capacity"
  shows "(fst (contractInfoLRU_get k rg pg (contractCacheRun capacity ops)) = Some v \<longrightarrow> lastContract k ops = Some (v, rg, pg)) \<and>
    (ops = before @ AddOp k (v, rg, pg) # since \<and> k \<notin> opKey ` set since \<and> int (card (opKey ` set since)) < capacity \<longrightarrow>
       fst (contractInfoLRU_get k rg pg (contractCacheRun capacity ops)) = Some v) \<and>
    (\<exists>c. contractCacheRun capacity ops = Some c \<and> int (length (lru_order c)) \<le> capacity)"
proof (intro conjI impI)
  let ?entry = "\<lambda>k (v, rg, pg). \<lparr>ce_key = k, ce_value = v, ce_reorgGen = rg, ce_protocolGen = pg\<rparr>"
  let ?c0 = "newLRU capacity :: 'a contractInfoLRU option"
  have new: "cacheOk ce_key ?c0" "cacheView ce_key ?c0 = []" "cacheCap ?c0 = nat capacity"
    using cacheOk_new [OF assms, of "ce_key :: 'a contractInfoLRUEntry \<Rightarrow> bytes"] by simp_all
  have run: "cacheOk ce_key (fold contractCache.step ops ?c0)" "cacheCap (fold contractCache.step ops ?c0) = nat capacity" for ops
    using contractCache.run_inv [of ?c0 ops] new by simp_all
  have get: "fst (contractInfoLRU_get k rg pg (contractCacheRun capacity ops)) =
      map_option ce_value (recencyFind (\<lambda>(rg, pg) e. ce_reorgGen e = rg \<and> ce_protocolGen e = pg) (rg, pg) k
        (cacheView ce_key (fold contractCache.step ops ?c0)))" for ops
    using contractCache.get_result [OF run(1), of "(rg, pg)" k ops] by (simp add: contractCacheRun_step)
  show "lastContract k ops = Some (v, rg, pg)"
    if found: "fst (contractInfoLRU_get k rg pg (contractCacheRun capacity ops)) = Some v"
  proof -
    obtain e where e: "map_of (cacheView ce_key (fold contractCache.step ops ?c0)) k = Some e" "ce_reorgGen e = rg"
        "ce_protocolGen e = pg" "ce_value e = v"
      using found unfolding get by (auto simp: recencyFind_def simp del: map_of_eq_Some_iff split: option.splits if_splits)
    have "fold (lastAdded ?entry k) ops None = Some e"
      using contractCache.run_fresh [of ?c0 ops k e None] e(1) new(1) by (simp add: new(2) del: map_of_eq_Some_iff)
    then have "map_option (?entry k) (lastContract k ops) = Some e"
      using lastAdded_map [of ?entry k ops None] by (simp add: lastContract_def)
    with e show ?thesis by (cases e) (auto split: prod.splits)
  qed
  show "fst (contractInfoLRU_get k rg pg (contractCacheRun capacity ops)) = Some v"
    if "ops = before @ AddOp k (v, rg, pg) # since \<and> k \<notin> opKey ` set since \<and> int (card (opKey ` set since)) < capacity"
  proof -
    have "card (opKey ` set since) < nat capacity" using that by linarith
    then have "map_of (cacheView ce_key (fold contractCache.step ops ?c0)) k = Some (?entry k (v, rg, pg))"
      using that contractCache.added_stays [OF run(1), of k since before "(v, rg, pg)"] run(2)
      by (simp add: contractCache.step_def)
    then show ?thesis unfolding get by (simp add: recencyFind_def del: map_of_eq_Some_iff)
  qed
  show "\<exists>c. contractCacheRun capacity ops = Some c \<and> int (length (lru_order c)) \<le> capacity"
    using run [of ops] by (auto simp: contractCacheRun_step cacheOk_def cacheCap_def lruView_def split: option.splits)
qed

theorem contract_cache_exact_witness:
  "fst (contractInfoLRU_get [1] 7 2
     (contractCacheRun 2 [AddOp [1] (''old'', 6, 2), AddOp [1] (''new'', 7, 2), AddOp [2] (''other'', 7, 2)])) = Some ''new''"
  using contract_cache_exact [of 2 "[1]" 7 2
      "[AddOp [1] (''old'', 6, 2), AddOp [1] (''new'', 7, 2), AddOp [2] (''other'', 7, 2)]" "''new''"
      "[AddOp [1] (''old'', 6, 2)]" "[AddOp [2] (''other'', 7, 2)]"]
  by simp

end
