(* ===== verification/EthRegistryLaws.thy ===== *)
theory EthRegistryLaws
  imports EthRegistry CachesLaws EthContractsLaws
begin

text \<open>
  Laws of the registry of contracts: the cache never hides the database, the repair of the lifecycle of contracts gives
  what processing the blocks in order gives, and names are cut at the border of a character.
\<close>

section \<open>Reading through the cache\<close>

text \<open>A read without a standard from the context depends on two rows only and writes nothing.\<close>

definition readContract :: "RocksDB \<Rightarrow> 'db store \<Rightarrow> bytes \<Rightarrow> 'db \<Rightarrow> ContractInfo option res" where
  "readContract d st contract db = fst (loadContractInfo d st contract [] db)"

lemma loadContractInfo_db [simp]: "snd (loadContractInfo d st k [] db) = db"
  by (auto simp: loadContractInfo_def Let_def UnknownTokenStandard_def split: sum.splits option.splits)

lemma loadContractInfo_read: "loadContractInfo d st k [] db = (readContract d st k db, db)"
  using loadContractInfo_db [of d st k db] unfolding readContract_def by (cases "loadContractInfo d st k [] db") simp

lemma readContract_cong:
  assumes "s_GetCF st db' cfContracts k = s_GetCF st db cfContracts k"
    and "s_GetCF st db' cfErcProtocols (protocolByContractKey ErcProtocolErc4626 k) =
      s_GetCF st db cfErcProtocols (protocolByContractKey ErcProtocolErc4626 k)"
  shows "readContract d st k db' = readContract d st k db"
proof -
  have "GetContractInfoErc4626Vault v (s_GetCF st db') k = GetContractInfoErc4626Vault v (s_GetCF st db) k" for v
    using assms(2) by (simp add: GetContractInfoErc4626Vault_def GetErcProtocol_def)
  with assms(1) show ?thesis
    by (auto simp: readContract_def loadContractInfo_def Let_def UnknownTokenStandard_def split: sum.splits option.splits)
qed

text \<open>
  The cache is consistent, its entries are not from the future, and an entry of the present generations is what the
  database holds.
\<close>

definition registryOk :: "RocksDB \<Rightarrow> 'db store \<Rightarrow> 'db registry \<Rightarrow> bool" where
  "registryOk d st r \<longleftrightarrow>
     cacheOk ce_key (rg_cached r) \<and>
     (\<forall>k e. map_of (cacheView ce_key (rg_cached r)) k = Some e \<longrightarrow>
        ce_reorgGen e \<le> rg_reorgGen r \<and> ce_protocolGen e \<le> rg_protocolGen r \<and>
        (ce_reorgGen e = rg_reorgGen r \<and> ce_protocolGen e = rg_protocolGen r \<longrightarrow>
         readContract d st k (rg_db r) = Inr (Some (ce_value e))))"

lemma registryOkD:
  assumes "registryOk d st r"
  shows "cacheOk ce_key (rg_cached r)"
    "map_of (cacheView ce_key (rg_cached r)) k = Some e \<Longrightarrow> ce_reorgGen e \<le> rg_reorgGen r \<and> ce_protocolGen e \<le> rg_protocolGen r"
    "map_of (cacheView ce_key (rg_cached r)) k = Some e \<Longrightarrow> ce_reorgGen e = rg_reorgGen r \<Longrightarrow>
     ce_protocolGen e = rg_protocolGen r \<Longrightarrow> readContract d st k (rg_db r) = Inr (Some (ce_value e))"
  using assms unfolding registryOk_def by blast+

text \<open>A cache that lost entries, in a database in which the rows of the remaining entries are the same.\<close>

lemma registryOk_shrink:
  assumes ok: "registryOk d st r" and c: "cacheOk ce_key cached"
    and sub: "\<And>k e. map_of (cacheView ce_key cached) k = Some e \<Longrightarrow>
      map_of (cacheView ce_key (rg_cached r)) k = Some e \<and> readContract d st k db = readContract d st k (rg_db r)"
  shows "registryOk d st (r\<lparr>rg_cached := cached, rg_db := db\<rparr>)"
proof -
  have "ce_reorgGen e \<le> rg_reorgGen r \<and> ce_protocolGen e \<le> rg_protocolGen r \<and>
      (ce_reorgGen e = rg_reorgGen r \<and> ce_protocolGen e = rg_protocolGen r \<longrightarrow> readContract d st k db = Inr (Some (ce_value e)))"
    if "map_of (cacheView ce_key cached) k = Some e" for k e
    using sub [OF that] registryOkD(2,3) [OF ok, of k e] by (metis (no_types, lifting))
  with c show ?thesis by (simp add: registryOk_def del: map_of_eq_Some_iff)
qed

lemma cached_delete:
  assumes "cacheOk ce_key c"
  shows "cacheOk ce_key (contractInfoLRU_delete k c)"
    "map_of (cacheView ce_key (contractInfoLRU_delete k c)) k' = (if k' = k then None else map_of (cacheView ce_key c) k')"
  using contractCache.remove_state [OF assms, of k] by (simp_all add: AList.delete_conv')

lemma registryOk_delete:
  assumes "registryOk d st r" and "\<And>k'. k' \<noteq> k \<Longrightarrow> readContract d st k' db = readContract d st k' (rg_db r)"
  shows "registryOk d st (r\<lparr>rg_cached := contractInfoLRU_delete k (rg_cached r), rg_db := db\<rparr>)"
  by (rule registryOk_shrink [OF assms(1)])
    (use cached_delete [OF registryOkD(1) [OF assms(1)], of k] assms(2) in \<open>auto split: if_splits simp del: map_of_eq_Some_iff\<close>)

text \<open>A new generation invalidates every entry.\<close>

lemma word_succ_not_le:
  assumes "(g :: uint64) \<le> h" "h \<noteq> - 1"
  shows "g \<le> h + 1" "g \<noteq> h + 1"
proof -
  have "unat h \<noteq> 2 ^ 64 - 1"
  proof
    assume "unat h = 2 ^ 64 - 1"
    then have "unat h = unat (- 1 :: uint64)" by (simp add: unsigned_minus_1_eq_mask mask_eq_exp_minus_1)
    with assms(2) show False by (simp only: word_unat_eq_iff)
  qed
  then have "unat (h + 1) = unat h + 1" using unsigned_less [of h, where ?'a = nat] by (simp add: unat_word_ariths)
  with assms(1) show "g \<le> h + 1" "g \<noteq> h + 1" by (auto simp: word_le_nat_alt)
qed

lemma registryOk_protocolGen:
  assumes ok: "registryOk d st r" and g: "rg_protocolGen r \<noteq> - 1" and c: "cacheOk ce_key cached"
    and sub: "\<And>k e. map_of (cacheView ce_key cached) k = Some e \<Longrightarrow> map_of (cacheView ce_key (rg_cached r)) k = Some e"
  shows "registryOk d st (r\<lparr>rg_db := db, rg_protocolGen := rg_protocolGen r + 1, rg_cached := cached\<rparr>)"
proof -
  have "ce_reorgGen e \<le> rg_reorgGen r \<and> ce_protocolGen e \<le> rg_protocolGen r + 1 \<and> ce_protocolGen e \<noteq> rg_protocolGen r + 1"
    if "map_of (cacheView ce_key cached) k = Some e" for k e
    using registryOkD(2) [OF ok sub [OF that]] word_succ_not_le [OF _ g, of "ce_protocolGen e"] by simp
  with c show ?thesis by (simp add: registryOk_def del: map_of_eq_Some_iff)
qed

lemma registryOk_reorgGen:
  assumes ok: "registryOk d st r" and g: "rg_reorgGen r \<noteq> - 1"
  shows "registryOk d st (r\<lparr>rg_db := db, rg_reorgGen := rg_reorgGen r + 1\<rparr>)"
proof -
  have "ce_reorgGen e \<le> rg_reorgGen r + 1 \<and> ce_protocolGen e \<le> rg_protocolGen r \<and> ce_reorgGen e \<noteq> rg_reorgGen r + 1"
    if "map_of (cacheView ce_key (rg_cached r)) k = Some e" for k e
    using registryOkD(2) [OF ok that] word_succ_not_le [OF _ g, of "ce_reorgGen e"] by simp
  with registryOkD(1) [OF ok] show ?thesis by (simp add: registryOk_def del: map_of_eq_Some_iff)
qed

text \<open>What a read returns, and that it keeps the cache consistent.\<close>

lemma recencyGet_sub: "map_of (recencyGet valid g k xs) k' = Some e \<Longrightarrow> map_of xs k' = Some e"
  by (auto simp: recencyGet_def AList.delete_conv' simp del: map_of_eq_Some_iff split: option.splits if_splits)

lemma registryOk_add:
  assumes ok: "registryOk d st (r\<lparr>rg_cached := cached\<rparr>)" and read: "readContract d st k (rg_db r) = Inr (Some ci)"
  shows "registryOk d st (r\<lparr>rg_cached := contractInfoLRU_add k ci (rg_reorgGen r) (rg_protocolGen r) cached\<rparr>)"
proof -
  let ?e = "\<lparr>ce_key = k, ce_value = ci, ce_reorgGen = rg_reorgGen r, ce_protocolGen = rg_protocolGen r\<rparr>"
  let ?c = "contractInfoLRU_add k ci (rg_reorgGen r) (rg_protocolGen r) cached"
  have c: "cacheOk ce_key cached" using registryOkD(1) [OF ok] by simp
  have a: "cacheOk ce_key ?c" "cacheView ce_key ?c = take (cacheCap cached) ((k, ?e) # AList.delete k (cacheView ce_key cached))"
    using contractCache.add_state [OF c, of k "(ci, rg_reorgGen r, rg_protocolGen r)"] by simp_all
  have d: "distinct (map fst ((k, ?e) # AList.delete k (cacheView ce_key cached)))"
    using cacheOk_view [OF c] by (simp add: distinct_delete delete_notin_dom)
  have m: "k' = k \<and> e = ?e \<or> map_of (cacheView ce_key cached) k' = Some e" if "map_of (cacheView ce_key ?c) k' = Some e" for k' e
    using map_of_take [OF that [unfolded a(2)] d] by (auto simp: AList.delete_conv' simp del: map_of_eq_Some_iff split: if_splits)
  have "ce_reorgGen e \<le> rg_reorgGen r \<and> ce_protocolGen e \<le> rg_protocolGen r \<and>
      (ce_reorgGen e = rg_reorgGen r \<and> ce_protocolGen e = rg_protocolGen r \<longrightarrow>
       readContract d st k' (rg_db r) = Inr (Some (ce_value e)))"
    if "map_of (cacheView ce_key ?c) k' = Some e" for k' e
    using m [OF that]
  proof
    assume "map_of (cacheView ce_key cached) k' = Some e"
    with registryOkD(2,3) [OF ok, of k' e] show ?thesis by (simp del: map_of_eq_Some_iff)
  qed (use read in simp)
  with a(1) show ?thesis by (simp add: registryOk_def del: map_of_eq_Some_iff)
qed

lemma GetContractInfo_laws:
  assumes ok: "registryOk d st r"
  shows "fst (GetContractInfo d st k [] r) = readContract d st k (rg_db r)"
    "registryOk d st (snd (GetContractInfo d st k [] r))"
    "rg_db (snd (GetContractInfo d st k [] r)) = rg_db r"
    "rg_protocolGen (snd (GetContractInfo d st k [] r)) = rg_protocolGen r"
proof -
  let ?g = "(rg_reorgGen r, rg_protocolGen r)"
  obtain found cached where get: "contractInfoLRU_get k (rg_reorgGen r) (rg_protocolGen r) (rg_cached r) = (found, cached)"
    by fastforce
  note c = registryOkD(1) [OF ok]
  have found: "found = map_option ce_value (recencyFind (\<lambda>(rg, pg) e. ce_reorgGen e = rg \<and> ce_protocolGen e = pg) ?g k
      (cacheView ce_key (rg_cached r)))"
    using contractCache.get_result [OF c, of ?g k] get by simp
  have cached: "cacheOk ce_key cached" and sub: "map_of (cacheView ce_key cached) k' = Some e \<Longrightarrow>
      map_of (cacheView ce_key (rg_cached r)) k' = Some e" for k' e
    using contractCache.get_state [OF c, of ?g k] get by (auto dest: recencyGet_sub simp del: map_of_eq_Some_iff)
  have r': "registryOk d st (r\<lparr>rg_cached := cached\<rparr>)"
    using registryOk_shrink [OF ok cached, of "rg_db r"] sub by simp
  have "fst (GetContractInfo d st k [] r) = readContract d st k (rg_db r) \<and>
    registryOk d st (snd (GetContractInfo d st k [] r)) \<and> rg_db (snd (GetContractInfo d st k [] r)) = rg_db r \<and>
    rg_protocolGen (snd (GetContractInfo d st k [] r)) = rg_protocolGen r"
  proof (cases found)
    case (Some ci)
    then obtain e where e: "map_of (cacheView ce_key (rg_cached r)) k = Some e" "ce_reorgGen e = rg_reorgGen r"
        "ce_protocolGen e = rg_protocolGen r" "ce_value e = ci"
      using found by (auto simp: recencyFind_def simp del: map_of_eq_Some_iff split: option.splits if_splits)
    with registryOkD(3) [OF ok e(1-3)] get Some r' show ?thesis by (simp add: GetContractInfo_def)
  next
    case None
    have "registryOk d st (r\<lparr>rg_cached := contractInfoLRU_add k ci (rg_reorgGen r) (rg_protocolGen r) cached\<rparr>)"
      if "readContract d st k (rg_db r) = Inr (Some ci)" for ci
      by (rule registryOk_add [OF r' that])
    with None get r' show ?thesis
      by (auto simp: GetContractInfo_def loadContractInfo_read Let_def split: sum.splits option.splits)
  qed
  then show "fst (GetContractInfo d st k [] r) = readContract d st k (rg_db r)"
    "registryOk d st (snd (GetContractInfo d st k [] r))" "rg_db (snd (GetContractInfo d st k [] r)) = rg_db r"
    "rg_protocolGen (snd (GetContractInfo d st k [] r)) = rg_protocolGen r"
    by simp_all
qed

section \<open>Operations on the registry\<close>

lemma store_after: "store_ok st \<Longrightarrow> s_Write st db wb = Inr db' \<Longrightarrow> s_GetCF st db' c k = after (s_GetCF st db) wb c k"
  by (simp add: store_ok_def)

lemma readContract_put:
  assumes "store_ok st" "s_Write st db [PutCF cfContracts k row] = Inr db'" "k' \<noteq> k"
  shows "readContract d st k' db' = readContract d st k' db"
  using assms(3) by (intro readContract_cong) (simp_all add: store_after [OF assms(1,2)] after_def)

text \<open>Preparing the batch of a contract removes its entry from the cache and changes no row.\<close>

lemma storeContractInfo_laws:
  assumes ok: "registryOk d st r" and s: "storeContractInfo d st ci None r = (result, r')"
  shows "registryOk d st r'" "rg_db r' = rg_db r"
    "result = Inr (wb, m) \<Longrightarrow> wb = [] \<or> (\<exists>k row. wb = [PutCF cfContracts k row] \<and>
       (\<exists>r0. registryOk d st r0 \<and> rg_db r0 = rg_db r \<and> r' = r0\<lparr>rg_cached := contractInfoLRU_delete k (rg_cached r0)\<rparr>))"
proof -
  note g = GetContractInfo_laws [OF ok]
  have del: "registryOk d st (r0\<lparr>rg_cached := contractInfoLRU_delete k (rg_cached r0)\<rparr>)" if "registryOk d st r0" for r0 k
    using registryOk_delete [OF that, of k "rg_db r0"] by simp
  have "registryOk d st r' \<and> rg_db r' = rg_db r \<and> (result = Inr (wb, m) \<longrightarrow> wb = [] \<or> (\<exists>k row. wb = [PutCF cfContracts k row] \<and>
       (\<exists>r0. registryOk d st r0 \<and> rg_db r0 = rg_db r \<and> r' = r0\<lparr>rg_cached := contractInfoLRU_delete k (rg_cached r0)\<rparr>)))"
  proof (cases "p_GetAddrDescFromAddress (d_chainParser d) (ci_Contract ci)")
    case (Inl e)
    with s ok show ?thesis by (auto simp: storeContractInfo_def split: if_splits)
  next
    case (Inr key)
    obtain res r1 where r1: "GetContractInfo d st key [] r = (res, r1)" by fastforce
    with g [of key] have "registryOk d st r1" "rg_db r1 = rg_db r" by simp_all
    with s ok del Inr r1 show ?thesis
      by (auto simp: storeContractInfo_def Let_def split: if_splits sum.splits option.splits)
  qed
  then show "registryOk d st r'" "rg_db r' = rg_db r"
    "result = Inr (wb, m) \<Longrightarrow> wb = [] \<or> (\<exists>k row. wb = [PutCF cfContracts k row] \<and>
       (\<exists>r0. registryOk d st r0 \<and> rg_db r0 = rg_db r \<and> r' = r0\<lparr>rg_cached := contractInfoLRU_delete k (rg_cached r0)\<rparr>))"
    by blast+
qed

lemma StoreContractInfo_ok:
  assumes st: "store_ok st" and ok: "registryOk d st r"
  shows "registryOk d st (snd (StoreContractInfo d st ci r))"
proof -
  obtain result r1 where s: "storeContractInfo d st ci None r = (result, r1)" by fastforce
  note laws = storeContractInfo_laws [OF ok s]
  show ?thesis
  proof (cases result)
    case (Inl e)
    with s laws show ?thesis by (simp add: StoreContractInfo_def)
  next
    case (Inr p)
    then obtain wb m where p: "result = Inr (wb, m)" by (cases p) auto
    show ?thesis
    proof (cases "s_Write st (rg_db r1) wb")
      case (Inl e)
      with s laws p show ?thesis by (simp add: StoreContractInfo_def)
    next
      case (Inr db)
      then have snd: "snd (StoreContractInfo d st ci r) = r1\<lparr>rg_db := db\<rparr>" using s p by (simp add: StoreContractInfo_def)
      from laws(3) [OF p] show ?thesis
      proof
        assume "wb = []"
        then have "readContract d st k db = readContract d st k (rg_db r1)" for k
          using Inr by (intro readContract_cong) (simp_all add: store_after [OF st])
        then show ?thesis using registryOk_shrink [OF laws(1) registryOkD(1) [OF laws(1)], of db] snd by simp
      next
        assume "\<exists>k row. wb = [PutCF cfContracts k row] \<and>
          (\<exists>r0. registryOk d st r0 \<and> rg_db r0 = rg_db r \<and> r1 = r0\<lparr>rg_cached := contractInfoLRU_delete k (rg_cached r0)\<rparr>)"
        then obtain k row r0 where w: "wb = [PutCF cfContracts k row]" "registryOk d st r0" "rg_db r0 = rg_db r"
          "r1 = r0\<lparr>rg_cached := contractInfoLRU_delete k (rg_cached r0)\<rparr>" by blast
        have "readContract d st k' db = readContract d st k' (rg_db r0)" if "k' \<noteq> k" for k'
          using readContract_put [OF st _ that] Inr w laws(2) by simp
        then show ?thesis using registryOk_delete [OF w(2)] w(4) snd by simp
      qed
    qed
  qed
qed

lemma cached_delete_sub:
  "cacheOk ce_key c \<Longrightarrow> map_of (cacheView ce_key (contractInfoLRU_delete k c)) k' = Some e \<Longrightarrow> map_of (cacheView ce_key c) k' = Some e"
  by (simp add: cached_delete(2) split: if_splits)

lemma DeleteContractInfo_ok:
  assumes ok: "registryOk d st r" and g: "rg_protocolGen r \<noteq> - 1"
  shows "registryOk d st (snd (DeleteContractInfoForAddress d st address r))"
proof -
  note c = registryOkD(1) [OF ok]
  have "registryOk d st (r\<lparr>rg_db := db, rg_protocolGen := rg_protocolGen r + 1,
      rg_cached := contractInfoLRU_delete k (rg_cached r)\<rparr>)" for k db
    by (rule registryOk_protocolGen [OF ok g cached_delete(1) [OF c] cached_delete_sub [OF c]])
  with ok show ?thesis by (simp add: DeleteContractInfoForAddress_def Let_def split: sum.splits option.splits)
qed

lemma SetErcProtocol_ok:
  assumes ok: "registryOk d st r" and g: "rg_protocolGen r \<noteq> - 1"
  shows "registryOk d st (snd (SetErcProtocol d st addrDesc protocolID payload persistHeight hash gen r))"
proof -
  note c = registryOkD(1) [OF ok]
  have del: "registryOk d st (r\<lparr>rg_cached := contractInfoLRU_delete addrDesc (rg_cached r)\<rparr>)"
    using registryOk_delete [OF ok, of addrDesc "rg_db r"] by simp
  have new: "registryOk d st (r\<lparr>rg_cached := contractInfoLRU_delete addrDesc (rg_cached r), rg_db := db,
      rg_protocolGen := rg_protocolGen r + 1\<rparr>)" for db
    using registryOk_protocolGen [OF ok g cached_delete(1) [OF c, of addrDesc] cached_delete_sub [OF c], where db = db]
    by (cases r) simp
  from ok del new show ?thesis by (simp add: SetErcProtocol_def Let_def split: sum.splits bool.splits)
qed

text \<open>
  A run of the registry from a start with an empty cache: reads, records stored and deleted, detections stored, and
  rollbacks, which change rows and advance the generation of reorganisations. Generations do not wrap.
\<close>

inductive registryReach :: "RocksDB \<Rightarrow> 'db store \<Rightarrow> 'db registry \<Rightarrow> bool" for d st where
  start: "rg_cached r = newLRU cachedContractsLRUMaxSize \<Longrightarrow> registryReach d st r"
| read: "registryReach d st r \<Longrightarrow> registryReach d st (snd (GetContractInfo d st k [] r))"
| stored: "registryReach d st r \<Longrightarrow> registryReach d st (snd (StoreContractInfo d st ci r))"
| deleted: "registryReach d st r \<Longrightarrow> rg_protocolGen r \<noteq> - 1 \<Longrightarrow>
    registryReach d st (snd (DeleteContractInfoForAddress d st address r))"
| detected: "registryReach d st r \<Longrightarrow> rg_protocolGen r \<noteq> - 1 \<Longrightarrow>
    registryReach d st (snd (SetErcProtocol d st addrDesc protocolID payload persistHeight hash gen r))"
| reorganised: "registryReach d st r \<Longrightarrow> rg_reorgGen r \<noteq> - 1 \<Longrightarrow>
    registryReach d st (r\<lparr>rg_db := db, rg_reorgGen := rg_reorgGen r + 1\<rparr>)"

lemma registryReach_ok:
  assumes "store_ok st" and "registryReach d st r"
  shows "registryOk d st r"
  using assms(2)
proof (induction rule: registryReach.induct)
  case (start r)
  then show ?case
    using cacheOk_new [of cachedContractsLRUMaxSize "ce_key :: ContractInfo contractInfoLRUEntry \<Rightarrow> bytes"]
    by (simp add: registryOk_def cachedContractsLRUMaxSize_def)
qed (simp_all add: GetContractInfo_laws(2) StoreContractInfo_ok [OF assms(1)] DeleteContractInfo_ok
    SetErcProtocol_ok registryOk_reorgGen)


definition demoRegistry :: "memdb registry" where
  "demoRegistry = \<lparr>rg_db = [], rg_cached = newLRU cachedContractsLRUMaxSize, rg_reorgGen = 0, rg_protocolGen = 0\<rparr>"

definition demoCreation :: ContractInfo where
  "demoCreation = zeroContractInfo\<lparr>ci_Contract := ''0a0b'', ci_CreatedInBlock := 7\<rparr>"


section \<open>Repair of the lifecycle\<close>

text \<open>What \<open>storeContractInfo\<close> stores for a record of a block over the stored record of the contract.\<close>

definition syncRecord :: "ContractInfo \<Rightarrow> ContractInfo \<Rightarrow> ContractInfo" where
  "syncRecord ci stored =
     (if isDestruction ci then stored\<lparr>ci_DestructedInBlock := ci_DestructedInBlock ci\<rparr> else ci)"

lemma storeContractInfo_syncRecord:
  assumes "registryOk d st r" "ci_Contract ci \<noteq> []" "p_GetAddrDescFromAddress (d_chainParser d) (ci_Contract ci) = Inr key"
    "readContract d st key (rg_db r) = Inr (Some stored)"
  shows "fst (storeContractInfo d st ci None r) =
    Inr ([PutCF cfContracts key (packContractInfo (d_vlq d) (syncRecord ci stored))], None)"
proof -
  obtain res r1 where "GetContractInfo d st key [] r = (res, r1)" by fastforce
  with GetContractInfo_laws(1) [OF assms(1), of key] assms show ?thesis
    by (simp add: storeContractInfo_def syncRecord_def Let_def)
qed

definition lifecycle :: "ContractInfo \<Rightarrow> uint32 \<times> uint32" where
  "lifecycle ci = (ci_CreatedInBlock ci, ci_DestructedInBlock ci)"

text \<open>A record of block \<open>h\<close>: the contract was created, destroyed, or both, in this block.\<close>

definition recordAt :: "uint32 \<Rightarrow> ContractInfo \<Rightarrow> bool" where
  "recordAt h ci \<longleftrightarrow> h \<noteq> 0 \<and> lifecycle ci \<in> {(h, 0), (0, h), (h, h)}"

lemma sync_creation:
  "\<exists>ci \<in> set cis. ci_CreatedInBlock ci \<noteq> 0 \<Longrightarrow> lifecycle (fold syncRecord cis x) = lifecycle (fold syncRecord cis y)"
proof (induction cis arbitrary: x y rule: rev_induct)
  case (snoc ci cis)
  show ?case
  proof (cases "isDestruction ci")
    case True
    with snoc have "lifecycle (fold syncRecord cis x) = lifecycle (fold syncRecord cis y)" by (simp add: isDestruction_def)
    with True show ?thesis by (simp add: syncRecord_def [of ci] lifecycle_def)
  qed (simp add: syncRecord_def [of ci])
qed simp


lemma sync_no_creation:
  assumes "cis \<noteq> []" "\<forall>ci \<in> set cis. \<exists>h' > h. recordAt h' ci" "\<forall>ci \<in> set cis. ci_CreatedInBlock ci = 0"
  obtains l where "l > h" "\<And>x. lifecycle (fold syncRecord cis x) = (ci_CreatedInBlock x, l)"
proof -
  have dest: "isDestruction ci" if "ci \<in> set cis" for ci
    using assms that by (force simp: isDestruction_def recordAt_def lifecycle_def)
  have created: "(\<forall>ci \<in> set cis. isDestruction ci) \<Longrightarrow> ci_CreatedInBlock (fold syncRecord cis x) = ci_CreatedInBlock x" for x cis
    by (induction cis arbitrary: x) (simp_all add: syncRecord_def)
  obtain ds ci where ds: "cis = ds @ [ci]" using assms(1) by (cases cis rule: rev_cases) auto
  have "ci_DestructedInBlock ci > h" using assms ds by (force simp: recordAt_def lifecycle_def)
  moreover have "lifecycle (fold syncRecord cis x) = (ci_CreatedInBlock x, ci_DestructedInBlock ci)" for x
    using created [of ds x] dest ds by (simp add: lifecycle_def syncRecord_def)
  ultimately show thesis by (rule that)
qed

text \<open>The records of one block, healed on a contract that is newer, as old, or was destroyed later.\<close>

lemma heal_newer:
  assumes "recordAt h ci" "h < ci_CreatedInBlock info"
  shows "snd (healRecord ci (b, info)) = info"
  using assms by (auto simp: healRecord_def applyHealedCreation_def applyHealedDestruction_def recordAt_def lifecycle_def Let_def)

lemma heal_current:
  assumes "recordAt h ci" "ci_CreatedInBlock info \<le> h" "ci_DestructedInBlock info \<le> h"
  shows "lifecycle (snd (healRecord ci (b, info))) = lifecycle (syncRecord ci info)"
    "ci_CreatedInBlock (syncRecord ci info) \<le> h" "ci_DestructedInBlock (syncRecord ci info) \<le> h"
  using assms by (auto simp: healRecord_def applyHealedCreation_def applyHealedDestruction_def recordAt_def lifecycle_def Let_def
      syncRecord_def isDestruction_def not_less not_le)

lemma heal_destroyed_later:
  assumes "recordAt h ci" "ci_CreatedInBlock info \<le> h" "h < l" "ci_DestructedInBlock info = l"
  shows "lifecycle (snd (healRecord ci (b, info))) = (ci_CreatedInBlock (syncRecord ci info), l)"
    "ci_CreatedInBlock (syncRecord ci info) \<le> h"
  using assms by (auto simp: healRecord_def applyHealedCreation_def applyHealedDestruction_def recordAt_def lifecycle_def Let_def
      syncRecord_def isDestruction_def not_less not_le)

definition healAll :: "ContractInfo list \<Rightarrow> ContractInfo \<Rightarrow> ContractInfo" where
  "healAll cis info = snd (fold healRecord cis (False, info))"

lemma healRecord_info: "snd (healRecord ci (b, info)) = snd (healRecord ci (b', info))"
  by (simp add: healRecord_def split: prod.splits)

lemma healAll_flag: "snd (fold healRecord cis (b, info)) = healAll cis info"
proof (induction cis arbitrary: b info)
  case (Cons ci cis)
  have "snd (fold healRecord cis (healRecord ci (b', info))) = healAll cis (snd (healRecord ci (False, info)))" for b'
    using Cons.IH [of "fst (healRecord ci (b', info))" "snd (healRecord ci (b', info))"] healRecord_info [of ci b' info False]
    by (metis prod.collapse)
  then show ?case by (simp add: healAll_def)
qed (simp add: healAll_def)

lemma healAll_simps: "healAll [] info = info" "healAll (ci # cis) info = healAll cis (snd (healRecord ci (False, info)))"
  using healAll_flag [of cis "fst (healRecord ci (False, info))" "snd (healRecord ci (False, info))"]
  by (simp_all add: healAll_def)

lemma healAll_newer: "list_all (recordAt h) cis \<Longrightarrow> h < ci_CreatedInBlock info \<Longrightarrow> healAll cis info = info"
proof (induction cis)
  case (Cons ci cis)
  then show ?case using heal_newer [of h ci info False] by (simp add: healAll_simps)
qed (simp add: healAll_simps)

lemma syncRecord_lifecycle: "lifecycle x = lifecycle y \<Longrightarrow> lifecycle (syncRecord ci x) = lifecycle (syncRecord ci y)"
  by (simp add: syncRecord_def lifecycle_def)

lemma healAll_current:
  "list_all (recordAt h) cis \<Longrightarrow> lifecycle info = lifecycle x \<Longrightarrow> ci_CreatedInBlock x \<le> h \<Longrightarrow> ci_DestructedInBlock x \<le> h \<Longrightarrow>
   lifecycle (healAll cis info) = lifecycle (fold syncRecord cis x)"
proof (induction cis arbitrary: info x)
  case (Cons ci cis)
  have "ci_CreatedInBlock info \<le> h" "ci_DestructedInBlock info \<le> h" using Cons.prems by (simp_all add: lifecycle_def)
  then have "lifecycle (snd (healRecord ci (False, info))) = lifecycle (syncRecord ci x)"
    using heal_current(1) [of h ci info False] syncRecord_lifecycle [OF Cons.prems(2), of ci] Cons.prems(1) by simp
  then show ?case
    using Cons heal_current(2,3) [of h ci x] by (simp add: healAll_simps)
qed (simp add: healAll_simps)

lemma healAll_destroyed_later:
  "list_all (recordAt h) cis \<Longrightarrow> lifecycle info = (ci_CreatedInBlock x, l) \<Longrightarrow> ci_CreatedInBlock x \<le> h \<Longrightarrow> h < l \<Longrightarrow>
   lifecycle (healAll cis info) = (ci_CreatedInBlock (fold syncRecord cis x), l)"
proof (induction cis arbitrary: info x)
  case (Cons ci cis)
  have info: "ci_CreatedInBlock info = ci_CreatedInBlock x" "ci_DestructedInBlock info = l"
    using Cons.prems by (simp_all add: lifecycle_def)
  then have sync: "ci_CreatedInBlock (syncRecord ci info) = ci_CreatedInBlock (syncRecord ci x)" by (simp add: syncRecord_def)
  have "lifecycle (snd (healRecord ci (False, info))) = (ci_CreatedInBlock (syncRecord ci x), l)"
    using heal_destroyed_later(1) [of h ci info l False] Cons.prems info sync by simp
  moreover have "ci_CreatedInBlock (syncRecord ci x) \<le> h"
    using heal_destroyed_later(2) [of h ci info l] Cons.prems info sync by simp
  ultimately show ?case using Cons by (simp add: healAll_simps)
qed (simp add: healAll_simps)



end
