(* ===== verification/EthConnect.thy ===== *)
theory EthConnect
  imports EthLazy EthRegistry
begin

text \<open>
  Connection of blocks of an Ethereum-type chain (\<open>src/db/rocksdb_ethereumtype.go\<close>).

  The record of an address is shared: the map of the block in progress and the cache of large records hold pointers to
  it, and a change through one is seen through the other. So records live in a heap, a list that only grows, and the
  two maps hold positions. What is in memory changes also where an operation fails later, so the operations return the
  new state next to the result. Maps that are local variables of a connection or disconnection are fields of the state.
  Counters of hits, metrics, log lines and the cache of formatted aliases are left out.
\<close>

section \<open>Data\<close>

definition CALL :: int where "CALL = 0"
definition CREATE :: int where "CREATE = 1"
definition SELFDESTRUCT :: int where "SELFDESTRUCT = 2"

record EthereumInternalTransfer =
  eit_Type :: int
  eit_From :: string
  eit_To :: string
  eit_Value :: int

record EthereumInternalData =
  eid_Type :: int
  eid_Contract :: string
  eid_Transfers :: "EthereumInternalTransfer list"
  eid_Error :: string

text \<open>A transaction with the part of its coin-specific data that the index reads itself; logs are read by the parser.\<close>

record EthTx =
  etx_Tx :: Tx
  etx_InternalData :: "EthereumInternalData option"

record AddressAliasRecord =
  aar_Address :: string
  aar_Name :: string

record EthereumBlockSpecificData =
  ebs_InternalDataError :: string
  ebs_AddressAliasRecords :: "AddressAliasRecord list"
  ebs_Contracts :: "ContractInfo list"

text \<open>\<open>eb_Block\<close> holds the header; the transactions are in \<open>eb_Txs\<close>, with their specific data.\<close>

record EthBlock =
  eb_Block :: Block
  eb_Txs :: "EthTx list"
  eb_CoinSpecificData :: "EthereumBlockSpecificData option"

record ethBlockTxContract =
  bc_from :: bytes
  bc_to :: bytes
  bc_contract :: bytes
  bc_transferStandard :: int
  bc_value :: int
  bc_idValues :: "MultiTokenValue list"

record ethInternalTransfer =
  it_internalType :: int
  it_from :: bytes
  it_to :: bytes
  it_value :: int

record ethInternalData =
  id_internalType :: int
  id_contract :: bytes
  id_transfers :: "ethInternalTransfer list"
  id_errorMsg :: string

record ethBlockTx =
  ebt_btxID :: bytes
  ebt_from :: bytes
  ebt_to :: bytes
  ebt_contracts :: "ethBlockTxContract list"
  ebt_internalData :: "ethInternalData option"

definition emptyBlockTx :: "bytes \<Rightarrow> ethBlockTx" where
  "emptyBlockTx b = \<lparr>ebt_btxID = b, ebt_from = [], ebt_to = [], ebt_contracts = [], ebt_internalData = None\<rparr>"

section \<open>State\<close>

record 'db ethConf =
  ec_d :: RocksDB
  ec_store :: "'db store"
  ec_tokenTransfers :: "EthTx \<Rightarrow> TokenTransfer list res"
  ec_minSize :: int
  ec_maxBytes :: int

text \<open>What a disconnection collects: the transactions of every address, the rows of contracts to write or to delete, and
  the heights at which a destruction was rolled back.\<close>

record ethRollback =
  er_addresses :: "(bytes \<times> bytes list) list"
  er_rows :: "(bytes \<times> ContractInfo option) list"
  er_destroyedAt :: "(bytes \<times> uint32) list"

record 'db ethState =
  eth_reg :: "'db registry"
  eth_is :: InternalState
  eth_heap :: "unpackedAddrContracts list"
  eth_cache :: "(bytes \<times> nat) list"
  eth_cacheBytes :: int
  eth_lastStore :: int
  eth_hot :: "addressHotness option"
  eth_addresses :: addressesMap
  eth_contracts :: "(bytes \<times> nat) list"
  eth_rollback :: ethRollback

abbreviation eth_db :: "'db ethState \<Rightarrow> 'db" where
  "eth_db s \<equiv> rg_db (eth_reg s)"

definition setDb :: "'db \<Rightarrow> 'db ethState \<Rightarrow> 'db ethState" where
  "setDb db s = s\<lparr>eth_reg := (eth_reg s)\<lparr>rg_db := db\<rparr>\<rparr>"

definition eth_get :: "'db ethConf \<Rightarrow> 'db ethState \<Rightarrow> view" where
  "eth_get c s = s_GetCF (ec_store c) (eth_db s)"

definition eth_vlq :: "'db ethConf \<Rightarrow> vlq_lib" where
  "eth_vlq c = d_vlq (ec_d c)"

definition eth_parser :: "'db ethConf \<Rightarrow> BlockChainParser" where
  "eth_parser c = d_chainParser (ec_d c)"

text \<open>Steps that return early with an error, with the state reached so far.\<close>

type_synonym ('a, 's) step = "'s \<Rightarrow> 'a res \<times> 's"

definition bindS :: "('a, 's) step \<Rightarrow> ('a \<Rightarrow> ('b, 's) step) \<Rightarrow> ('b, 's) step" where
  "bindS m f s = (case m s of (Inl e, s) \<Rightarrow> (Inl e, s) | (Inr x, s) \<Rightarrow> f x s)"

definition returnS :: "'a \<Rightarrow> ('a, 's) step" where
  "returnS x s = (Inr x, s)"

fun mapS :: "('a \<Rightarrow> ('b, 's) step) \<Rightarrow> 'a list \<Rightarrow> ('b list, 's) step" where
  "mapS f [] = returnS []"
| "mapS f (x # xs) = bindS (f x) (\<lambda>y. bindS (mapS f xs) (\<lambda>ys. returnS (y # ys)))"

section \<open>The cache of large records\<close>

definition addrContractsCacheMinSize :: int where
  "addrContractsCacheMinSize = 300000"

definition packedCache :: "'db ethConf \<Rightarrow> (bytes \<times> nat) list \<Rightarrow> 'db ethState \<Rightarrow> wbatch" where
  "packedCache c cache s =
     map (\<lambda>(addrDesc, p). PutCF cfAddressContracts addrDesc (packUnpackedAddrContracts (eth_vlq c) (eth_heap s ! p))) cache"

text \<open>A failed write is only logged.\<close>

definition writeContractsCacheSnapshot :: "'db ethConf \<Rightarrow> (bytes \<times> nat) list \<Rightarrow> 'db ethState \<Rightarrow> 'db ethState" where
  "writeContractsCacheSnapshot c cache s =
     (case s_Write (ec_store c) (eth_db s) (packedCache c cache s) of Inl _ \<Rightarrow> s | Inr db \<Rightarrow> setDb db s)"

definition flushAddrContractsCache :: "'db ethConf \<Rightarrow> 'db ethState \<Rightarrow> 'db ethState" where
  "flushAddrContractsCache c s =
     (let cache = eth_cache s; s = s\<lparr>eth_cache := [], eth_cacheBytes := 0\<rparr> in
      if length cache > 0 then writeContractsCacheSnapshot c cache s else s)"

definition flushAddrContractsCacheIfOverCap :: "'db ethConf \<Rightarrow> 'db ethState \<Rightarrow> 'db ethState" where
  "flushAddrContractsCacheIfOverCap c s =
     (if ec_maxBytes c \<le> 0 then s
      else if eth_cacheBytes s > ec_maxBytes c then flushAddrContractsCache c s else s)"

definition storeAddrContractsCache :: "'db ethConf \<Rightarrow> 'db ethState \<Rightarrow> 'db ethState" where
  "storeAddrContractsCache c s =
     (if length (eth_cache s) > 0 then writeContractsCacheSnapshot c (eth_cache s) s else s)"

definition addrContractsCacheStorePeriod :: int where
  "addrContractsCacheStorePeriod = 5 * 60 * 1000000000"

definition storeAddrContractsCacheIfDue :: "'db ethConf \<Rightarrow> int \<Rightarrow> 'db ethState \<Rightarrow> 'db ethState" where
  "storeAddrContractsCacheIfDue c now s =
     (if now - eth_lastStore s < addrContractsCacheStorePeriod then s
      else storeAddrContractsCache c (s\<lparr>eth_lastStore := now\<rparr>))"

text \<open>A pointer to the record, or nil. The flush stores records that the block in progress may have changed already.\<close>

definition getUnpackedAddrDescContracts :: "'db ethConf \<Rightarrow> bytes \<Rightarrow> (nat option, 'db ethState) step" where
  "getUnpackedAddrDescContracts c addrDesc s =
     (case map_of (eth_cache s) addrDesc of
        Some p \<Rightarrow> (Inr (Some p), s)
      | None \<Rightarrow>
          (case eth_get c s cfAddressContracts addrDesc of
             Inl e \<Rightarrow> (Inl e, s)
           | Inr val \<Rightarrow>
               let buf = val_Data val in
               if length buf = 0 then (Inr None, s)
               else (case partiallyUnpackAddrContracts (eth_vlq c) buf of
                   None \<Rightarrow> (Inl Panic, s)
                 | Some rv \<Rightarrow>
                     let p = length (eth_heap s); s = s\<lparr>eth_heap := eth_heap s @ [rv]\<rparr>;
                         minSize = (if ec_minSize c \<le> 0 then addrContractsCacheMinSize else ec_minSize c) in
                     if int (length buf) > minSize then
                       let s = s\<lparr>eth_cache := AList.update addrDesc p (eth_cache s),
                                 eth_cacheBytes := int64 (eth_cacheBytes s + int (length buf))\<rparr> in
                       (Inr (Some p),
                        if ec_maxBytes c > 0 \<and> eth_cacheBytes s > ec_maxBytes c then flushAddrContractsCache c s else s)
                     else (Inr (Some p), s))))"

definition storeUnpackedAddressContracts :: "'db ethConf \<Rightarrow> 'db ethState \<Rightarrow> wbatch" where
  "storeUnpackedAddressContracts c s =
     concat (map (\<lambda>(addrDesc, p).
       let acs = eth_heap s ! p in
       if uacs_NonContractTxs acs = 0 \<and> uacs_InternalTxs acs = 0 \<and> length (uacs_Contracts acs) = 0
       then [DeleteCF cfAddressContracts addrDesc]
       else if map_of (eth_cache s) addrDesc = None
       then [PutCF cfAddressContracts addrDesc (packUnpackedAddrContracts (eth_vlq c) acs)]
       else []) (eth_contracts s))"

section \<open>One address in one transaction\<close>

definition isZeroAddress :: "bytes \<Rightarrow> bool" where
  "isZeroAddress addrDesc = list_all (\<lambda>b. b = 0) addrDesc"

definition transferTo :: int where "transferTo = 0"
definition transferFrom :: int where "transferFrom = NOT 0"
definition internalTransferTo :: int where "internalTransferTo = 1"
definition internalTransferFrom :: int where "internalTransferFrom = NOT 1"

fun appendIndexOnce :: "bytes \<Rightarrow> int \<Rightarrow> txIndexes list \<Rightarrow> txIndexes list option" where
  "appendIndexOnce b i [] = None"
| "appendIndexOnce b i (t # at) =
     (if b = btxID t then Some ((if i \<in> set (indexes t) then t else t\<lparr>indexes := indexes t @ [i]\<rparr>) # at)
      else map_option ((#) t) (appendIndexOnce b i at))"

definition addToAddressesMapEthereumType :: "addressesMap \<Rightarrow> bytes \<Rightarrow> bytes \<Rightarrow> int \<Rightarrow> addressesMap \<times> bool" where
  "addToAddressesMapEthereumType addresses strAddrDesc b i =
     (let at = (case map_of addresses strAddrDesc of None \<Rightarrow> [] | Some at \<Rightarrow> at) in
      case appendIndexOnce b i at of
        Some at' \<Rightarrow> (AList.update strAddrDesc at' addresses, True)
      | None \<Rightarrow> (AList.update strAddrDesc (at @ [\<lparr>btxID = b, indexes = [i]\<rparr>]) addresses, False))"

definition isNFTSelfTransfer :: "bytes \<Rightarrow> bytes \<Rightarrow> int \<Rightarrow> bool" where
  "isNFTSelfTransfer from to standard = (standard = NonFungibleToken \<and> from = to)"

definition dropAddrContractsContractIndex :: "bytes option \<Rightarrow> 'db ethState \<Rightarrow> 'db ethState" where
  "dropAddrContractsContractIndex evicted s =
     (case evicted of
        None \<Rightarrow> s
      | Some addrKey \<Rightarrow>
          (case map_of (eth_cache s) addrKey of
             None \<Rightarrow> s
           | Some p \<Rightarrow> s\<lparr>eth_heap := (eth_heap s)[p := dropContractIndex (eth_heap s ! p)]\<rparr>))"

text \<open>The record of the address in the map of the block, read or created at the first use.\<close>

definition blockContracts :: "'db ethConf \<Rightarrow> bytes \<Rightarrow> (nat, 'db ethState) step" where
  "blockContracts c addrDesc s =
     (case map_of (eth_contracts s) addrDesc of
        Some p \<Rightarrow> (Inr p, s)
      | None \<Rightarrow>
          bindS (getUnpackedAddrDescContracts c addrDesc) (\<lambda>ac s.
            let (p, s) = (case ac of
                  Some p \<Rightarrow> (p, s)
                | None \<Rightarrow> (length (eth_heap s), s\<lparr>eth_heap := eth_heap s @ [emptyContracts]\<rparr>)) in
            (Inr p, s\<lparr>eth_contracts := AList.update addrDesc p (eth_contracts s)\<rparr>)) s)"

text \<open>The lookup, with the call from the list of hot addresses that drops the index of the evicted one.\<close>

definition findContractIndexAt ::
  "bytes \<Rightarrow> bytes \<Rightarrow> addressHotness option \<Rightarrow> nat \<Rightarrow> 'db ethState \<Rightarrow>
   nat option \<times> unpackedAddrContracts \<times> addressHotness option \<times> 'db ethState" where
  "findContractIndexAt addrDesc contract hot p s =
     (let (useIndex, evicted, hot) = decideIndex addrDesc (length (uacs_Contracts (eth_heap s ! p))) hot;
          s = dropAddrContractsContractIndex evicted s;
          (i, ac) = lookupContractIndex useIndex contract (eth_heap s ! p) in
      (i, ac, hot, s))"

text \<open>The index under which the transaction is recorded, after the change of the holdings.\<close>

definition addTransfer ::
  "bytes \<Rightarrow> int \<Rightarrow> bytes \<Rightarrow> TokenTransfer \<Rightarrow> bool \<Rightarrow> bool \<Rightarrow> nat \<Rightarrow> (int, 'db ethState) step" where
  "addTransfer addrDesc idx contract transfer addTxCount mutateHoldings p s =
     (if isZeroAddress addrDesc then (Inr (if idx < 0 then transferFrom else transferTo), s)
      else
        let (found, ac, hot, s) = findContractIndexAt addrDesc contract (eth_hot s) p s;
            s = s\<lparr>eth_hot := hot\<rparr>;
            (contractIndex, ac) = (case found of
               Some i \<Rightarrow> (i, ac)
             | None \<Rightarrow>
                 let n = length (uacs_Contracts ac) in
                 (n, addContractIndex contract n
                       (ac\<lparr>uacs_Contracts := uacs_Contracts ac @ [emptyContract (tt_Standard transfer) contract 0]\<rparr>))) in
        (case index (uacs_Contracts ac) (int contractIndex) \<bind>
              (\<lambda>ct. addToContract ct contractIndex idx transfer addTxCount mutateHoldings) of
           None \<Rightarrow> (Inl Panic, s\<lparr>eth_heap := (eth_heap s)[p := ac]\<rparr>)
         | Some (idx, ct) \<Rightarrow>
             (Inr idx, s\<lparr>eth_heap := (eth_heap s)[p := ac\<lparr>uacs_Contracts := (uacs_Contracts ac)[contractIndex := ct]\<rparr>]\<rparr>)))"

definition countTx :: "int \<Rightarrow> unpackedAddrContracts \<Rightarrow> unpackedAddrContracts" where
  "countTx idx ac =
     (if idx = internalTransferFrom \<or> idx = internalTransferTo then ac\<lparr>uacs_InternalTxs := uacs_InternalTxs ac + 1\<rparr>
      else ac\<lparr>uacs_NonContractTxs := uacs_NonContractTxs ac + 1\<rparr>)"

text \<open>Without a transfer of tokens the contract is nil.\<close>

definition addToAddressesAndContractsEthereumType ::
  "'db ethConf \<Rightarrow> bytes \<Rightarrow> bytes \<Rightarrow> int \<Rightarrow> (bytes \<times> TokenTransfer) option \<Rightarrow> bool \<Rightarrow> bool \<Rightarrow> (unit, 'db ethState) step" where
  "addToAddressesAndContractsEthereumType c addrDesc b idx transfer addTxCount mutateHoldings =
     bindS (blockContracts c addrDesc) (\<lambda>p.
     bindS (\<lambda>s. case transfer of
         None \<Rightarrow> (Inr idx, if addTxCount then s\<lparr>eth_heap := (eth_heap s)[p := countTx idx (eth_heap s ! p)]\<rparr> else s)
       | Some (contract, t) \<Rightarrow> addTransfer addrDesc idx contract t addTxCount mutateHoldings p s) (\<lambda>idx s.
     let (addresses, counted) = addToAddressesMapEthereumType (eth_addresses s) addrDesc b idx;
         s = s\<lparr>eth_addresses := addresses\<rparr>; ac = eth_heap s ! p in
     (Inr (), if counted then s else s\<lparr>eth_heap := (eth_heap s)[p := ac\<lparr>uacs_TotalTxs := uacs_TotalTxs ac + 1\<rparr>]\<rparr>)))"

section \<open>The transactions of a block\<close>

text \<open>The address of a transaction that has exactly one; \<open>nil\<close> where there is none or it does not parse.\<close>

definition processBaseTxData :: "'db ethConf \<Rightarrow> ethBlockTx \<Rightarrow> EthTx \<Rightarrow> (ethBlockTx, 'db ethState) step" where
  "processBaseTxData c blockTx tx =
     (let single = (\<lambda>a. case a of [a] \<Rightarrow> p_GetAddrDescFromAddress (eth_parser c) a | _ \<Rightarrow> Inl ErrAddressMissing);
          outAddresses = (case tx_Vout (etx_Tx tx) of [vout] \<Rightarrow> vout_ScriptPubKeyAddresses vout | _ \<Rightarrow> []);
          inAddresses = (case tx_Vin (etx_Tx tx) of [vin] \<Rightarrow> vin_Addresses vin | _ \<Rightarrow> []);
          b = ebt_btxID blockTx;
          add = addToAddressesAndContractsEthereumType c in
      bindS (case single outAddresses of
          Inl _ \<Rightarrow> returnS blockTx
        | Inr to \<Rightarrow> bindS (add to b transferTo None True True) (\<lambda>_. returnS (blockTx\<lparr>ebt_to := to\<rparr>))) (\<lambda>blockTx.
      case single inAddresses of
        Inl _ \<Rightarrow> returnS blockTx
      | Inr from \<Rightarrow>
          bindS (add from b transferFrom None (from \<noteq> ebt_to blockTx) True) (\<lambda>_. returnS (blockTx\<lparr>ebt_from := from\<rparr>))))"

definition setAddressTxIndexesToAddressMap :: "'db ethConf \<Rightarrow> bytes \<Rightarrow> uint32 \<Rightarrow> (unit, 'db ethState) step" where
  "setAddressTxIndexesToAddressMap c addrDesc height s =
     (case map_of (eth_addresses s) addrDesc of
        Some _ \<Rightarrow> (Inr (), s)
      | None \<Rightarrow>
          (case getTxIndexesForAddressAndBlock (ec_d c) (eth_get c s) addrDesc height of
             Inl e \<Rightarrow> (Inl e, s)
           | Inr txi \<Rightarrow>
               (Inr (), if length txi > 0 then s\<lparr>eth_addresses := AList.update addrDesc txi (eth_addresses s)\<rparr> else s)))"

text \<open>One address of the internal data; the descriptor is nil where it does not parse.\<close>

definition addInternal ::
  "'db ethConf \<Rightarrow> bytes \<Rightarrow> uint32 \<Rightarrow> bool \<Rightarrow> string \<Rightarrow> int \<Rightarrow> (bytes \<Rightarrow> bool) \<Rightarrow> (bytes option, 'db ethState) step" where
  "addInternal c b height existingBlock address idx addTxCount =
     (case p_GetAddrDescFromAddress (eth_parser c) address of
        Inl _ \<Rightarrow> returnS None
      | Inr desc \<Rightarrow>
          bindS (if existingBlock then setAddressTxIndexesToAddressMap c desc height else returnS ()) (\<lambda>_.
          bindS (addToAddressesAndContractsEthereumType c desc b idx None (addTxCount desc) True) (\<lambda>_.
          returnS (Some desc))))"

definition orNil :: "bytes option \<Rightarrow> bytes" where
  "orNil a = (case a of None \<Rightarrow> [] | Some a \<Rightarrow> a)"

definition processInternalTransfer ::
  "'db ethConf \<Rightarrow> bytes \<Rightarrow> uint32 \<Rightarrow> bool \<Rightarrow> EthereumInternalTransfer \<Rightarrow> (ethInternalTransfer, 'db ethState) step" where
  "processInternalTransfer c b height existingBlock iti =
     bindS (addInternal c b height existingBlock (eit_To iti) internalTransferTo (\<lambda>_. True)) (\<lambda>to.
     bindS (addInternal c b height existingBlock (eit_From iti) internalTransferFrom (\<lambda>from. from \<noteq> orNil to)) (\<lambda>from.
     returnS \<lparr>it_internalType = eit_Type iti, it_from = orNil from, it_to = orNil to, it_value = eit_Value iti\<rparr>))"

text \<open>\<open>height\<close> is the height in the transaction; it is used only for a block that is already indexed.\<close>

definition processInternalData ::
  "'db ethConf \<Rightarrow> ethBlockTx \<Rightarrow> uint32 \<Rightarrow> EthereumInternalData \<Rightarrow> bool \<Rightarrow> (ethBlockTx, 'db ethState) step" where
  "processInternalData c blockTx height eid existingBlock =
     (let b = ebt_btxID blockTx in
      bindS (if eid_Type eid = CREATE
             then addInternal c b height existingBlock (eid_Contract eid) internalTransferTo (\<lambda>_. True)
             else returnS None) (\<lambda>contract.
      let internalType = (if eid_Type eid = CREATE \<and> contract = None then CALL else eid_Type eid) in
      bindS (mapS (processInternalTransfer c b height existingBlock) (eid_Transfers eid)) (\<lambda>transfers.
      returnS (blockTx\<lparr>ebt_internalData := Some \<lparr>id_internalType = internalType, id_contract = orNil contract,
        id_transfers = transfers, id_errorMsg = eid_Error eid\<rparr>\<rparr>))))"

definition emptyBlockTxContract :: ethBlockTxContract where
  "emptyBlockTxContract =
     \<lparr>bc_from = [], bc_to = [], bc_contract = [], bc_transferStandard = 0, bc_value = 0, bc_idValues = []\<rparr>"

text \<open>A transfer with an address that does not parse leaves its element of the slice empty.\<close>

definition processTokenTransfer ::
  "'db ethConf \<Rightarrow> bytes \<Rightarrow> nat \<times> TokenTransfer \<Rightarrow> (ethBlockTxContract, 'db ethState) step" where
  "processTokenTransfer c b it =
     (let (i, t) = it; parse = p_GetAddrDescFromAddress (eth_parser c) in
      case bindR (parse (tt_Contract t)) (\<lambda>contract.
           bindR (parse (tt_From t)) (\<lambda>from.
           bindR (parse (tt_To t)) (\<lambda>to. Inr (contract, from, to)))) of
        Inl _ \<Rightarrow> returnS emptyBlockTxContract
      | Inr (contract, from, to) \<Rightarrow>
          let mutateHoldings = (\<not> isNFTSelfTransfer from to (tt_Standard t));
              add = addToAddressesAndContractsEthereumType c in
          bindS (add to b (int32 (int i)) (Some (contract, t)) True mutateHoldings) (\<lambda>_.
          bindS (add from b (NOT (int32 (int i))) (Some (contract, t)) (from \<noteq> to) mutateHoldings) (\<lambda>_.
          returnS \<lparr>bc_from = from, bc_to = to, bc_contract = contract, bc_transferStandard = tt_Standard t,
            bc_value = tt_Value t, bc_idValues = tt_MultiTokenValues t\<rparr>)))"

definition processContractTransfers :: "'db ethConf \<Rightarrow> ethBlockTx \<Rightarrow> EthTx \<Rightarrow> (ethBlockTx, 'db ethState) step" where
  "processContractTransfers c blockTx tx =
     (let tokenTransfers = (case ec_tokenTransfers c tx of Inl _ \<Rightarrow> [] | Inr ts \<Rightarrow> ts) in
      bindS (mapS (processTokenTransfer c (ebt_btxID blockTx)) (enumerate 0 tokenTransfers)) (\<lambda>contracts.
      returnS (blockTx\<lparr>ebt_contracts := contracts\<rparr>)))"

definition processTx :: "'db ethConf \<Rightarrow> EthTx \<Rightarrow> (ethBlockTx, 'db ethState) step" where
  "processTx c tx =
     (case p_PackTxid (eth_parser c) (tx_Txid (etx_Tx tx)) of
        Inl e \<Rightarrow> (\<lambda>s. (Inl e, s))
      | Inr b \<Rightarrow>
          bindS (processBaseTxData c (emptyBlockTx b) tx) (\<lambda>blockTx.
          bindS (case etx_InternalData tx of
              None \<Rightarrow> returnS blockTx
            | Some eid \<Rightarrow> processInternalData c blockTx (tx_BlockHeight (etx_Tx tx)) eid False) (\<lambda>blockTx.
          processContractTransfers c blockTx tx)))"

definition processAddressesEthereumType :: "'db ethConf \<Rightarrow> EthTx list \<Rightarrow> (ethBlockTx list, 'db ethState) step" where
  "processAddressesEthereumType c txs s = mapS (processTx c) txs (s\<lparr>eth_hot := BeginBlock (eth_hot s)\<rparr>)"

section \<open>Rows of a block\<close>

definition ethZeroAddress :: bytes where
  "ethZeroAddress = replicate 20 0"

definition appendAddress :: "bytes \<Rightarrow> bytes" where
  "appendAddress a = (if int (length a) \<noteq> EthereumTypeAddressDescriptorLen then ethZeroAddress else a)"

definition packEthInternalData :: "vlq_lib \<Rightarrow> ethInternalData \<Rightarrow> bytes" where
  "packEthInternalData v data =
     packVaruint v ((word_of_int (id_internalType data) AND 1) + push_bit 1 (of_nat (length (id_transfers data)))) @
     (if id_internalType data = CREATE then appendAddress (id_contract data) else []) @
     concat (map (\<lambda>t. word_of_int (it_internalType t) # appendAddress (it_from t) @ appendAddress (it_to t) @
       packBigint (it_value t)) (id_transfers data)) @
     bytes_of_string (id_errorMsg data)"

definition storeInternalDataEthereumType :: "'db ethConf \<Rightarrow> ethBlockTx list \<Rightarrow> wbatch" where
  "storeInternalDataEthereumType c blockTxs =
     concat (map (\<lambda>blockTx. case ebt_internalData blockTx of
       None \<Rightarrow> []
     | Some data \<Rightarrow> [PutCF cfInternalData (ebt_btxID blockTx) (packEthInternalData (eth_vlq c) data)]) blockTxs)"

definition packBlockTxContract :: "vlq_lib \<Rightarrow> ethBlockTxContract \<Rightarrow> bytes" where
  "packBlockTxContract v ct =
     appendAddress (bc_from ct) @ appendAddress (bc_to ct) @ appendAddress (bc_contract ct) @
     packVaruint v (word_of_int (bc_transferStandard ct)) @
     (if bc_transferStandard ct = MultiToken
      then packVaruint v (of_nat (length (bc_idValues ct))) @
        concat (map (\<lambda>m. packBigint (mtv_Id m) @ packBigint (mtv_Value m)) (bc_idValues ct))
      else packBigint (bc_value ct))"

definition eth_packBlockTx :: "vlq_lib \<Rightarrow> ethBlockTx \<Rightarrow> bytes" where
  "eth_packBlockTx v blockTx =
     ebt_btxID blockTx @ appendAddress (ebt_from blockTx) @ appendAddress (ebt_to blockTx) @
     packVaruint v (of_nat (length (ebt_contracts blockTx))) @
     concat (map (packBlockTxContract v) (ebt_contracts blockTx))"

definition storeAndCleanupBlockTxsEthereumType :: "'db ethConf \<Rightarrow> 'db ethState \<Rightarrow> Block \<Rightarrow> ethBlockTx list \<Rightarrow> wbatch res" where
  "storeAndCleanupBlockTxsEthereumType c s block blockTxs =
     bindR (cleanupBlockTxs (ec_d c) (eth_get c s) block) (\<lambda>wb.
       Inr (PutCF cfBlockTxs (packUint (block_Height block)) (concat (map (eth_packBlockTx (eth_vlq c)) blockTxs)) # wb))"

section \<open>The queue of blocks without internal data\<close>

definition StoreBlockInternalDataErrorEthereumType ::
  "'db ethConf \<Rightarrow> uint32 \<Rightarrow> string \<Rightarrow> string \<Rightarrow> byte \<Rightarrow> wbatch res" where
  "StoreBlockInternalDataErrorEthereumType c height hash message retryCount =
     bindR (p_PackTxid (eth_parser c) hash) (\<lambda>txid.
       Inr [PutCF cfBlockInternalDataErrors (packUint height) (txid @ [retryCount] @ bytes_of_string message)])"

definition unpackBlockInternalDataError :: "'db ethConf \<Rightarrow> bytes \<Rightarrow> (string \<times> byte \<times> string) res" where
  "unpackBlockInternalDataError c val =
     (let n = p_PackedTxidLen (eth_parser c) in
      if int (length val) > n + 1 then
        bindR (p_UnpackTxid (eth_parser c) (take (nat n) val)) (\<lambda>hash.
          let val = drop (nat n) val in Inr (hash, hd val, string_of_bytes (tl val)))
      else Inr ([], 0, []))"

definition UpdateBlockInternalDataErrorEthereumType ::
  "'db ethConf \<Rightarrow> uint32 \<Rightarrow> string \<Rightarrow> string \<Rightarrow> byte \<Rightarrow> (unit, 'db ethState) step" where
  "UpdateBlockInternalDataErrorEthereumType c height hash message retryCount s =
     (if hash = [] then (Inr (), s)
      else
        (case bindR (eth_get c s cfBlockInternalDataErrors (packUint height)) (\<lambda>val.
              bindR (unpackBlockInternalDataError c (val_Data val)) (\<lambda>(storedHash, _, _).
                if storedHash \<noteq> hash then Inr None
                else bindR (StoreBlockInternalDataErrorEthereumType c height hash message retryCount) (\<lambda>wb.
                  bindR (s_Write (ec_store c) (eth_db s) wb) (\<lambda>db. Inr (Some db))))) of
           Inl e \<Rightarrow> (Inl e, s)
         | Inr None \<Rightarrow> (Inr (), s)
         | Inr (Some db) \<Rightarrow> (Inr (), setDb db s)))"

record BlockInternalDataError =
  bie_Height :: uint32
  bie_Hash :: string
  bie_Retries :: byte
  bie_ErrorMessage :: string

text \<open>Rows that do not unpack are skipped.\<close>

definition GetBlockInternalDataErrorsEthereumType :: "'db ethConf \<Rightarrow> 'db ethState \<Rightarrow> BlockInternalDataError list res" where
  "GetBlockInternalDataErrorsEthereumType c s =
     (if p_GetChainType (eth_parser c) = ChainEthereumType then
        bindR (mapR (\<lambda>(key, val). bindR (of_panic (unpackUint key)) (\<lambda>height.
            case unpackBlockInternalDataError c val of
              Inl Panic \<Rightarrow> Inl Panic
            | Inl _ \<Rightarrow> Inr []
            | Inr (hash, retries, message) \<Rightarrow>
                Inr [\<lparr>bie_Height = height, bie_Hash = hash, bie_Retries = retries, bie_ErrorMessage = message\<rparr>]))
          (s_Rows (ec_store c) (eth_db s) cfBlockInternalDataErrors)) (\<lambda>rows. Inr (concat rows))
      else Inr [])"

section \<open>Connection of a block\<close>

definition storeAddressAliasRecords :: "'db ethConf \<Rightarrow> AddressAliasRecord list \<Rightarrow> wbatch" where
  "storeAddressAliasRecords c records =
     (if p_UseAddressAliases (eth_parser c) then
        concat (map (\<lambda>r. if length (aar_Name r) > 0
          then [PutCF cfAddressAliases (bytes_of_string (aar_Address r)) (bytes_of_string (aar_Name r))] else []) records)
      else [])"

text \<open>The contracts that a block creates or destroys, with the records already put into the batch.\<close>

fun storeContractInfos ::
  "'db ethConf \<Rightarrow> ContractInfo list \<Rightarrow> (bytes \<times> ContractInfo) list option \<Rightarrow> (wbatch, 'db ethState) step" where
  "storeContractInfos c [] inBatch s = (Inr [], s)"
| "storeContractInfos c (ci # cis) inBatch s =
     (case storeContractInfo (ec_d c) (ec_store c) ci inBatch (eth_reg s) of
        (Inl e, r) \<Rightarrow> (Inl e, s\<lparr>eth_reg := r\<rparr>)
      | (Inr (wb, inBatch), r) \<Rightarrow>
          bindS (storeContractInfos c cis inBatch) (\<lambda>wbs. returnS (wb @ wbs)) (s\<lparr>eth_reg := r\<rparr>))"

definition storeBlockSpecificDataEthereumType :: "'db ethConf \<Rightarrow> EthBlock \<Rightarrow> (wbatch, 'db ethState) step" where
  "storeBlockSpecificDataEthereumType c block s =
     (case eb_CoinSpecificData block of
        None \<Rightarrow> (Inr [], s)
      | Some bsd \<Rightarrow>
          (case (if ebs_InternalDataError bsd \<noteq> []
                 then StoreBlockInternalDataErrorEthereumType c (block_Height (eb_Block block)) (block_Hash (eb_Block block))
                   (ebs_InternalDataError bsd) 0
                 else Inr []) of
             Inl e \<Rightarrow> (Inl e, s)
           | Inr wbError \<Rightarrow>
               bindS (storeContractInfos c (ebs_Contracts bsd) (Some [])) (\<lambda>wbContracts.
                 returnS (wbError @ storeAddressAliasRecords c (ebs_AddressAliasRecords bsd) @ wbContracts)) s))"

definition writeBatch :: "'db ethConf \<Rightarrow> wbatch \<Rightarrow> (unit, 'db ethState) step" where
  "writeBatch c wb s = (case s_Write (ec_store c) (eth_db s) wb of Inl e \<Rightarrow> (Inl e, s) | Inr db \<Rightarrow> (Inr (), setDb db s))"

text \<open>\<open>ConnectBlock\<close> for an Ethereum-type chain. The number of transactions in the header row is that of \<open>eb_Txs\<close>.\<close>

definition connectBlockEthereumType :: "'db ethConf \<Rightarrow> int \<Rightarrow> EthBlock \<Rightarrow> (unit, 'db ethState) step" where
  "connectBlockEthereumType c now block s =
     (let header = eb_Block block; height = block_Height header in
      case writeHeightFromBlock (ec_d c) (header\<lparr>block_Txs := map etx_Tx (eb_Txs block)\<rparr>) opInsert of
        Inl e \<Rightarrow> (Inl e, s)
      | Inr (wbHeight, best) \<Rightarrow>
          bindS (processAddressesEthereumType c (eb_Txs block)) (\<lambda>blockTxs s.
          let wbHoldings = storeUnpackedAddressContracts c s in
          bindS (storeBlockSpecificDataEthereumType c block) (\<lambda>wbSpecific s.
          case storeAndCleanupBlockTxsEthereumType c s header blockTxs of
            Inl e \<Rightarrow> (Inl e, s)
          | Inr wbTxs \<Rightarrow>
              bindS (writeBatch c (wbHeight @ wbHoldings @ storeInternalDataEthereumType c blockTxs @ wbSpecific @ wbTxs @
                storeAddresses (ec_d c) height (eth_addresses s))) (\<lambda>_ s.
              let s = storeAddrContractsCacheIfDue c now s in
              (Inr (), s\<lparr>eth_is := SetBlockTime height (word_of_int (block_Time header)) (eth_is s)\<rparr>)) s) s)
            (s\<lparr>eth_is := UpdateBestHeight now best (eth_is s), eth_addresses := [], eth_contracts := []\<rparr>))"

definition hasEthereumInternalData :: "'db ethConf \<Rightarrow> bytes \<Rightarrow> 'db ethState \<Rightarrow> bool res" where
  "hasEthereumInternalData c b s = bindR (eth_get c s cfInternalData b) (\<lambda>val. Inr (length (val_Data val) > 0))"

text \<open>A transaction without internal data, or whose internal data are stored already, is left out.\<close>

definition reconnectTx :: "'db ethConf \<Rightarrow> uint32 \<Rightarrow> EthTx \<Rightarrow> (ethBlockTx list, 'db ethState) step" where
  "reconnectTx c height tx s =
     (case etx_InternalData tx of
        None \<Rightarrow> (Inr [], s)
      | Some eid \<Rightarrow>
          (case bindR (p_PackTxid (eth_parser c) (tx_Txid (etx_Tx tx))) (\<lambda>b.
                bindR (hasEthereumInternalData c b s) (\<lambda>stored. Inr (b, stored))) of
             Inl e \<Rightarrow> (Inl e, s)
           | Inr (b, stored) \<Rightarrow>
               if stored then (Inr [], s)
               else bindS (processInternalData c (emptyBlockTx b) height eid True) (\<lambda>blockTx. returnS [blockTx]) s))"

definition ReconnectInternalDataToBlockEthereumType :: "'db ethConf \<Rightarrow> EthBlock \<Rightarrow> (unit, 'db ethState) step" where
  "ReconnectInternalDataToBlockEthereumType c block s =
     (let header = eb_Block block; height = block_Height header in
      if p_GetChainType (eth_parser c) \<noteq> ChainEthereumType then (Inl (ErrMsg ''Unsupported chain type''), s)
      else case GetBlockHash (ec_d c) (eth_get c s) height of
        Inl e \<Rightarrow> (Inl e, s)
      | Inr indexedHash \<Rightarrow>
          if indexedHash \<noteq> block_Hash header
          then (Inl (ErrMsg ''block %d hash changed from %s to %s, possible reorg, skipping''), s)
          else
            bindS (mapS (reconnectTx c height) (eb_Txs block)) (\<lambda>blockTxs s.
            let wb = storeUnpackedAddressContracts c s @ storeInternalDataEthereumType c (concat blockTxs) @
                  storeAddresses (ec_d c) height (eth_addresses s) in
            case (case eb_CoinSpecificData block of
                None \<Rightarrow> (Inr [], eth_reg s)
              | Some bsd \<Rightarrow> storeHealedContractInfos (ec_d c) (ec_store c) (ebs_Contracts bsd) (eth_reg s)) of
              (Inl e, r) \<Rightarrow> (Inl e, s\<lparr>eth_reg := r\<rparr>)
            | (Inr wbContracts, r) \<Rightarrow>
                writeBatch c (wb @ wbContracts @ [DeleteCF cfBlockInternalDataErrors (packUint height)]) (s\<lparr>eth_reg := r\<rparr>))
              (s\<lparr>eth_hot := BeginBlock (eth_hot s), eth_addresses := [], eth_contracts := []\<rparr>))"

end
