(* ===== verification/EthDisconnect.thy ===== *)
theory EthDisconnect
  imports EthConnect Disconnect
begin

text \<open>
  Disconnection of blocks of an Ethereum-type chain (\<open>src/db/rocksdb_ethereumtype.go\<close>): the rows written for a block are
  read back, the counters and holdings of its addresses are undone in memory, and one batch removes or rewrites the
  rows of the whole range. A position in a row is the rest of the row from there.
\<close>

section \<open>Internal data of a transaction\<close>

definition UnpackInternalTransactionError :: "bytes \<Rightarrow> string" where
  "UnpackInternalTransactionError data =
     TrimSpace (concat (map (\<lambda>ch.
       if of_char ch = (1 :: nat) then ''Reverted. ''
       else if of_char ch = (2 :: nat) then ''Out of gas. ''
       else if of_char ch = (3 :: nat) then ''Contract creation code storage out of gas. ''
       else if of_char ch = (4 :: nat) then ''Max code size exceeded. ''
       else [ch]) (string_of_bytes data)))"

text \<open>The address at a position of the row, empty where the parser has none for it.\<close>

definition unpackAddress :: "RocksDB \<Rightarrow> bytes \<Rightarrow> string option" where
  "unpackAddress d buf = do {
     a \<leftarrow> slice buf 0 EthereumTypeAddressDescriptorLen;
     Some (case firstAddress d a of None \<Rightarrow> [] | Some address \<Rightarrow> address)
   }"

definition unpackInternalTransfer :: "RocksDB \<Rightarrow> bytes \<Rightarrow> (EthereumInternalTransfer \<times> int) option" where
  "unpackInternalTransfer d buf = do {
     ty \<leftarrow> index buf 0;
     b \<leftarrow> slice_from buf 1;
     from \<leftarrow> unpackAddress d b;
     b \<leftarrow> slice_from buf 21;
     to \<leftarrow> unpackAddress d b;
     b \<leftarrow> slice_from buf 41;
     (value, ll) \<leftarrow> unpackBigint b;
     Some (\<lparr>eit_Type = uint ty, eit_From = from, eit_To = to, eit_Value = value\<rparr>, 41 + ll)
   }"

definition unpackEthInternalData :: "RocksDB \<Rightarrow> bytes \<Rightarrow> EthereumInternalData option" where
  "unpackEthInternalData d buf = do {
     let (n, l) = unpackVaruint (d_vlq d) buf;
     let ty = uint (n AND 1);
     (contract, l) \<leftarrow> (if ty = CREATE then do {
         b \<leftarrow> slice_from buf l;
         contract \<leftarrow> unpackAddress d b;
         Some (contract, l + EthereumTypeAddressDescriptorLen)
       } else Some ([], l));
     (transfers, l) \<leftarrow> unpack_n (unpackInternalTransfer d) (unat (drop_bit 1 n)) buf l;
     b \<leftarrow> slice_from buf l;
     Some \<lparr>eid_Type = ty, eid_Contract = contract, eid_Transfers = transfers,
           eid_Error = UnpackInternalTransactionError b\<rparr>
   }"

definition getEthereumInternalData :: "'db ethConf \<Rightarrow> bytes \<Rightarrow> 'db ethState \<Rightarrow> EthereumInternalData option res" where
  "getEthereumInternalData c b s =
     bindR (eth_get c s cfInternalData b) (\<lambda>val.
       let buf = val_Data val in
       if length buf = 0 then Inr None
       else bindR (of_panic (unpackEthInternalData (ec_d c) buf)) (\<lambda>data. Inr (Some data)))"

section \<open>Transactions of a block\<close>

definition getAddress :: "bytes \<Rightarrow> (bytes \<times> bytes) res" where
  "getAddress buf =
     (if int (length buf) < EthereumTypeAddressDescriptorLen then Inl (ErrMsg ''Inconsistent data in blockTxs'')
      else Inr (take 20 buf, drop 20 buf))"

definition readVaruint :: "vlq_lib \<Rightarrow> bytes \<Rightarrow> (uint64 \<times> bytes) res" where
  "readVaruint v buf = (let (x, l) = unpackVaruint v buf in of_panic (do { b \<leftarrow> slice_from buf l; Some (x, b) }))"

definition readBigint :: "bytes \<Rightarrow> (int \<times> bytes) res" where
  "readBigint buf = of_panic (do { (x, l) \<leftarrow> unpackBigint buf; b \<leftarrow> slice_from buf l; Some (x, b) })"

fun readN :: "(bytes \<Rightarrow> ('a \<times> bytes) res) \<Rightarrow> nat \<Rightarrow> bytes \<Rightarrow> ('a list \<times> bytes) res" where
  "readN f 0 buf = Inr ([], buf)"
| "readN f (Suc n) buf = bindR (f buf) (\<lambda>(x, buf). bindR (readN f n buf) (\<lambda>(xs, buf). Inr (x # xs, buf)))"

definition readIdValue :: "bytes \<Rightarrow> (MultiTokenValue \<times> bytes) res" where
  "readIdValue buf =
     bindR (readBigint buf) (\<lambda>(i, buf). bindR (readBigint buf) (\<lambda>(value, buf). Inr (\<lparr>mtv_Id = i, mtv_Value = value\<rparr>, buf)))"

definition unpackBlockTxContract :: "vlq_lib \<Rightarrow> bytes \<Rightarrow> (ethBlockTxContract \<times> bytes) res" where
  "unpackBlockTxContract v buf =
     bindR (getAddress buf) (\<lambda>(from, buf).
     bindR (getAddress buf) (\<lambda>(to, buf).
     bindR (getAddress buf) (\<lambda>(contract, buf).
     bindR (readVaruint v buf) (\<lambda>(cc, buf).
     let ct = \<lparr>bc_from = from, bc_to = to, bc_contract = contract, bc_transferStandard = sint cc, bc_value = 0,
               bc_idValues = []\<rparr> in
     if bc_transferStandard ct = MultiToken then
       bindR (readVaruint v buf) (\<lambda>(cc, buf).
       bindR (readN readIdValue (unat cc) buf) (\<lambda>(idValues, buf). Inr (ct\<lparr>bc_idValues := idValues\<rparr>, buf)))
     else bindR (readBigint buf) (\<lambda>(value, buf). Inr (ct\<lparr>bc_value := value\<rparr>, buf))))))"

definition eth_unpackBlockTx :: "vlq_lib \<Rightarrow> bytes \<Rightarrow> (ethBlockTx \<times> bytes) res" where
  "eth_unpackBlockTx v buf =
     (if int (length buf) < EthereumTypeTxidLen then Inl (ErrMsg ''Inconsistent data in blockTxs'')
      else
        let txid = take 32 buf in
        bindR (getAddress (drop 32 buf)) (\<lambda>(from, buf).
        bindR (getAddress buf) (\<lambda>(to, buf).
        bindR (readVaruint v buf) (\<lambda>(cc, buf).
        bindR (readN (unpackBlockTxContract v) (unat cc) buf) (\<lambda>(contracts, buf).
          Inr ((emptyBlockTx txid)\<lparr>ebt_from := from, ebt_to := to, ebt_contracts := contracts\<rparr>, buf))))))"

text \<open>Every transaction takes at least 32 bytes, so the length of the row is enough fuel.\<close>

fun unpackBlockTxs :: "nat \<Rightarrow> vlq_lib \<Rightarrow> bytes \<Rightarrow> ethBlockTx list res" where
  "unpackBlockTxs fuel v buf =
     (if length buf > 0 then
        (case fuel of
           0 \<Rightarrow> Inl Panic
         | Suc fuel \<Rightarrow>
             bindR (eth_unpackBlockTx v buf) (\<lambda>(btx, buf).
             bindR (unpackBlockTxs fuel v buf) (\<lambda>bt. Inr (btx # bt))))
      else Inr [])"

declare unpackBlockTxs.simps [simp del]

text \<open>\<open>None\<close>: there is no row for the height.\<close>

definition getBlockTxsEthereumType :: "'db ethConf \<Rightarrow> 'db ethState \<Rightarrow> uint32 \<Rightarrow> ethBlockTx list option res" where
  "getBlockTxsEthereumType c s height =
     bindR (eth_get c s cfBlockTxs (packUint height)) (\<lambda>val.
       case val of
         None \<Rightarrow> Inr None
       | Some buf \<Rightarrow> bindR (unpackBlockTxs (length buf) (eth_vlq c) buf) (\<lambda>bt. Inr (Some bt)))"

section \<open>One address of a transaction\<close>

text \<open>Whether the transaction was encountered at the address before.\<close>

definition markTx :: "bytes \<Rightarrow> bytes \<Rightarrow> ethRollback \<Rightarrow> bool \<times> ethRollback" where
  "markTx addrDesc b r =
     (case map_of (er_addresses r) addrDesc of
        None \<Rightarrow> (False, r\<lparr>er_addresses := AList.update addrDesc [b] (er_addresses r)\<rparr>)
      | Some mtx \<Rightarrow>
          if b \<in> set mtx then (True, r)
          else (False, r\<lparr>er_addresses := AList.update addrDesc (b # mtx) (er_addresses r)\<rparr>))"

definition undoTransfer :: "bytes \<Rightarrow> ethBlockTxContract \<Rightarrow> nat \<Rightarrow> unpackedAddrContract \<Rightarrow> unpackedAddrContract option" where
  "undoTransfer addrDesc bc contractIndex ct =
     (let transfer = \<lparr>tt_Standard = bc_transferStandard bc, tt_Contract = [], tt_From = [], tt_To = [],
            tt_Value = bc_value bc, tt_MultiTokenValues = bc_idValues bc\<rparr>;
          add = (\<lambda>idx ct. map_option snd (addToContract ct contractIndex idx transfer False True)) in
      if bc_from bc = bc_to bc then
        if isNFTSelfTransfer (bc_from bc) (bc_to bc) (bc_transferStandard bc) then Some ct
        else add transferTo ct \<bind> add transferFrom
      else add (if addrDesc = bc_to bc then transferFrom else transferTo) ct)"

definition disconnectContract :: "bytes \<Rightarrow> ethBlockTxContract \<Rightarrow> unpackedAddrContracts \<Rightarrow> unpackedAddrContracts option" where
  "disconnectContract addrDesc bc ac =
     (let (found, _, _, ac) = findContractIndex addrDesc (bc_contract bc) None ac in
      case found of
        None \<Rightarrow> Some ac
      | Some contractIndex \<Rightarrow> do {
          ct \<leftarrow> index (uacs_Contracts ac) (int contractIndex);
          if uc_Txs ct > 0 then do {
            let ct = ct\<lparr>uc_Txs := uc_Txs ct - 1\<rparr>;
            if uc_Txs ct = 0
            then Some (markContractIndexDirty (ac\<lparr>uacs_Contracts :=
              take contractIndex (uacs_Contracts ac) @ drop (contractIndex + 1) (uacs_Contracts ac)\<rparr>))
            else do {
              ct \<leftarrow> undoTransfer addrDesc bc contractIndex ct;
              Some (ac\<lparr>uacs_Contracts := (uacs_Contracts ac)[contractIndex := ct]\<rparr>)
            }
          } else Some ac
        })"

definition disconnectRecord ::
  "bytes \<Rightarrow> bool \<Rightarrow> bool \<Rightarrow> ethBlockTxContract option \<Rightarrow> unpackedAddrContracts \<Rightarrow> unpackedAddrContracts option" where
  "disconnectRecord addrDesc internal ftx btxContract ac =
     (let ac = (if ftx then ac else ac\<lparr>uacs_TotalTxs := uacs_TotalTxs ac - 1\<rparr>) in
      case btxContract of
        None \<Rightarrow> Some (if internal
          then (if uacs_InternalTxs ac > 0 then ac\<lparr>uacs_InternalTxs := uacs_InternalTxs ac - 1\<rparr> else ac)
          else (if uacs_NonContractTxs ac > 0 then ac\<lparr>uacs_NonContractTxs := uacs_NonContractTxs ac - 1\<rparr> else ac))
      | Some bc \<Rightarrow> disconnectContract addrDesc bc ac)"

definition disconnectAddress ::
  "'db ethConf \<Rightarrow> bytes \<Rightarrow> bool \<Rightarrow> bytes \<Rightarrow> ethBlockTxContract option \<Rightarrow> (unit, 'db ethState) step" where
  "disconnectAddress c b internal addrDesc btxContract s =
     (if addrDesc = [] then (Inr (), s)
      else
        let (ftx, rb) = markTx addrDesc b (eth_rollback s); s = s\<lparr>eth_rollback := rb\<rparr> in
        bindS (\<lambda>s. case map_of (eth_contracts s) addrDesc of
            Some p \<Rightarrow> (Inr (Some p), s)
          | None \<Rightarrow>
              bindS (getUnpackedAddrDescContracts c addrDesc) (\<lambda>ac s. case ac of
                  None \<Rightarrow> (Inr None, s)
                | Some p \<Rightarrow> (Inr (Some p), s\<lparr>eth_contracts := AList.update addrDesc p (eth_contracts s)\<rparr>)) s) (\<lambda>ac s.
        case ac of
          None \<Rightarrow> (Inr (), s)
        | Some p \<Rightarrow>
            (case disconnectRecord addrDesc internal ftx btxContract (eth_heap s ! p) of
               None \<Rightarrow> (Inl Panic, s)
             | Some ac \<Rightarrow> (Inr (), s\<lparr>eth_heap := (eth_heap s)[p := ac]\<rparr>))) s)"

section \<open>Contracts created and destroyed\<close>

definition rollbackRow :: "bytes \<Rightarrow> uint32 \<Rightarrow> bool \<Rightarrow> ContractInfo \<Rightarrow> ethRollback \<Rightarrow> ethRollback" where
  "rollbackRow key height destroyed ci rb =
     (let setRow = (\<lambda>row rb. rb\<lparr>er_rows := AList.update key row (er_rows rb)\<rparr>) in
      if destroyed then
        let rb = rb\<lparr>er_destroyedAt := AList.update key height (er_destroyedAt rb)\<rparr> in
        if ci_DestructedInBlock ci = height then setRow (Some (ci\<lparr>ci_DestructedInBlock := 0\<rparr>)) rb else rb
      else if ci_CreatedInBlock ci = height \<and> map_of (er_destroyedAt rb) key \<noteq> Some height then setRow None rb
      else rb)"

definition rollbackContractRegistryRow :: "'db ethConf \<Rightarrow> bytes \<Rightarrow> uint32 \<Rightarrow> bool \<Rightarrow> (unit, 'db ethState) step" where
  "rollbackContractRegistryRow c addrDesc height destroyed =
     bindS (\<lambda>s. case map_of (er_rows (eth_rollback s)) addrDesc of
         Some pending \<Rightarrow> (Inr pending, s)
       | None \<Rightarrow>
           (case GetContractInfo (ec_d c) (ec_store c) addrDesc UnknownTokenStandard (eth_reg s) of
              (ci, r) \<Rightarrow> (ci, s\<lparr>eth_reg := r\<rparr>))) (\<lambda>ci s.
     case ci of
       None \<Rightarrow> (Inr (), s)
     | Some ci \<Rightarrow> (Inr (), s\<lparr>eth_rollback := rollbackRow addrDesc height destroyed ci (eth_rollback s)\<rparr>))"

definition disconnectInternalTransfer ::
  "'db ethConf \<Rightarrow> bytes \<Rightarrow> uint32 \<Rightarrow> EthereumInternalTransfer \<Rightarrow> (unit, 'db ethState) step" where
  "disconnectInternalTransfer c b height t =
     (case bindR (p_GetAddrDescFromAddress (eth_parser c) (eit_From t)) (\<lambda>from.
           bindR (p_GetAddrDescFromAddress (eth_parser c) (eit_To t)) (\<lambda>to. Inr (from, to))) of
        Inl e \<Rightarrow> (\<lambda>s. (Inl e, s))
      | Inr (from, to) \<Rightarrow>
          bindS (disconnectAddress c b True from None) (\<lambda>_.
          bindS (if from \<noteq> to then disconnectAddress c b True to None else returnS ()) (\<lambda>_.
          if eit_Type t = CREATE then rollbackContractRegistryRow c to height False
          else if eit_Type t = SELFDESTRUCT then rollbackContractRegistryRow c from height True
          else returnS ())))"

definition disconnectInternalData :: "'db ethConf \<Rightarrow> bytes \<Rightarrow> uint32 \<Rightarrow> (unit, 'db ethState) step" where
  "disconnectInternalData c b height =
     bindS (\<lambda>s. (getEthereumInternalData c b s, s)) (\<lambda>data.
     case data of
       None \<Rightarrow> returnS ()
     | Some data \<Rightarrow>
         bindS (if eid_Type data = CREATE then
             (case p_GetAddrDescFromAddress (eth_parser c) (eid_Contract data) of
                Inl e \<Rightarrow> (\<lambda>s. (Inl e, s))
              | Inr contract \<Rightarrow>
                  bindS (disconnectAddress c b True contract None) (\<lambda>_.
                  rollbackContractRegistryRow c contract height False))
           else returnS ()) (\<lambda>_.
         bindS (mapS (disconnectInternalTransfer c b height) (eid_Transfers data)) (\<lambda>_. returnS ())))"

section \<open>Disconnection of a block\<close>

definition disconnectBaseTx :: "'db ethConf \<Rightarrow> uint32 \<Rightarrow> ethBlockTx \<Rightarrow> (wbatch, 'db ethState) step" where
  "disconnectBaseTx c height blockTx =
     (let b = ebt_btxID blockTx in
      bindS (disconnectAddress c b False (ebt_from blockTx) None) (\<lambda>_.
      bindS (if ebt_from blockTx \<noteq> ebt_to blockTx then disconnectAddress c b False (ebt_to blockTx) None else returnS ()) (\<lambda>_.
      bindS (disconnectInternalData c b height) (\<lambda>_.
      returnS [DeleteCF cfTransactions b, DeleteCF cfInternalData b]))))"

definition disconnectTokenTransfer :: "'db ethConf \<Rightarrow> bytes \<times> ethBlockTxContract \<Rightarrow> (unit, 'db ethState) step" where
  "disconnectTokenTransfer c bct =
     (let (b, ct) = bct in
      bindS (disconnectAddress c b False (bc_from ct) (Some ct)) (\<lambda>_.
      if bc_from ct \<noteq> bc_to ct then disconnectAddress c b False (bc_to ct) (Some ct) else returnS ()))"

text \<open>The transfers of tokens are undone from the last one of the block to the first.\<close>

definition disconnectBlockTxsEthereumType ::
  "'db ethConf \<Rightarrow> uint32 \<Rightarrow> ethBlockTx list \<Rightarrow> (wbatch, 'db ethState) step" where
  "disconnectBlockTxsEthereumType c height blockTxs s =
     bindS (mapS (disconnectBaseTx c height) blockTxs) (\<lambda>wbs.
     bindS (mapS (disconnectTokenTransfer c)
       (rev (concat (map (\<lambda>blockTx. map (Pair (ebt_btxID blockTx)) (ebt_contracts blockTx)) blockTxs)))) (\<lambda>_ s.
     (Inr (concat wbs @ map (\<lambda>(a, _). DeleteCF cfAddresses (packAddressKey a height)) (er_addresses (eth_rollback s))), s)))
       (s\<lparr>eth_rollback := (eth_rollback s)\<lparr>er_addresses := []\<rparr>\<rparr>)"

section \<open>Disconnection of a range of blocks\<close>

function eth_collectBlocks ::
  "'db ethConf \<Rightarrow> 'db ethState \<Rightarrow> uint32 \<Rightarrow> uint32 \<Rightarrow> uint32 \<Rightarrow> ethBlockTx list list res" where
  "eth_collectBlocks c s lower higher height =
     (if height \<le> higher then
        bindR (getBlockTxsEthereumType c s height) (\<lambda>bts.
          case bts of
            None \<Rightarrow>
              Inl (ErrMsg ''Cannot disconnect blocks with height %v and lower. It is necessary to rebuild index.'')
          | Some bts \<Rightarrow>
              if height - lower < higher - lower + 1 then
                bindR (eth_collectBlocks c s lower higher (height + 1)) (\<lambda>blocks. Inr (bts # blocks))
              else Inl Panic)
      else Inr [])"
  by pat_completeness auto
termination eth_collectBlocks
proof (relation "measure (\<lambda>(c, s, lower, higher, height). unat (higher - lower + 1) - unat (height - lower))", goal_cases)
  case (2 c s lower higher height)
  have "unat (height + 1 - lower) = unat (height - lower) + 1"
    using word_succ_below [OF 2(2)] by (simp add: algebra_simps)
  with 2(2) show ?case by (simp add: word_less_nat_alt)
qed simp

declare eth_collectBlocks.simps [simp del]

function eth_disconnectBlocks ::
  "'db ethConf \<Rightarrow> uint32 \<Rightarrow> uint32 \<Rightarrow> ethBlockTx list list \<Rightarrow> uint32 \<Rightarrow> (wbatch, 'db ethState) step" where
  "eth_disconnectBlocks c lower n blocks height s =
     (if height \<ge> lower then
        if height - lower < n then
          (case disconnectBlockTxsEthereumType c height (blocks ! unat (height - lower)) s of
             (Inl e, s) \<Rightarrow> (Inl e, s)
           | (Inr wb, s) \<Rightarrow>
               (case eth_disconnectBlocks c lower n blocks (height - 1) s of
                  (Inl e, s) \<Rightarrow> (Inl e, s)
                | (Inr wbs, s) \<Rightarrow>
                    let key = packUint height in
                    (Inr (wb @ [DeleteCF cfBlockTxs key, DeleteCF cfHeight key, DeleteCF cfBlockInternalDataErrors key] @ wbs),
                     s)))
        else (Inl Panic, s)
      else (Inr [], s))"
  by pat_completeness auto
termination eth_disconnectBlocks
proof (relation "measure (\<lambda>(c, lower, n, blocks, height, s).
    if height - lower < n then unat (height - lower) + 1 else 0)", goal_cases)
  case (2 c lower n blocks height s)
  have eq: "height - 1 - lower = height - lower - 1" by (simp add: algebra_simps)
  show ?case
    using word_pred_measure [OF 2(2)] 2(2) by (simp add: eq split: if_splits)
qed simp

declare eth_disconnectBlocks.simps [simp del]

definition registryRows :: "'db ethConf \<Rightarrow> (bytes \<times> ContractInfo option) list \<Rightarrow> wbatch" where
  "registryRows c rows =
     map (\<lambda>(key, ci). case ci of
       None \<Rightarrow> DeleteCF cfContracts key
     | Some ci \<Rightarrow> PutCF cfContracts key (packContractInfo (eth_vlq c) ci)) rows"

definition DisconnectBlockRangeEthereumType :: "'db ethConf \<Rightarrow> uint32 \<Rightarrow> uint32 \<Rightarrow> (unit, 'db ethState) step" where
  "DisconnectBlockRangeEthereumType c lower higher s =
     (case eth_collectBlocks c s lower higher lower of
        Inl e \<Rightarrow> (Inl e, s)
      | Inr blocks \<Rightarrow>
          bindS (eth_disconnectBlocks c lower (higher - lower + 1) blocks higher) (\<lambda>wb s.
          let wbHoldings = storeUnpackedAddressContracts c s;
              wbRegistry = registryRows c (er_rows (eth_rollback s));
              (wbProtocols, r) = disconnectErcProtocols (ec_store c) lower higher (eth_reg s) in
          bindS (writeBatch c (wb @ wbHoldings @ wbRegistry @ wbProtocols)) (\<lambda>_ s.
            case RemoveLastBlockTimes (int (unat (higher - lower)) + 1) (eth_is s) of
              None \<Rightarrow> (Inl Panic, s)
            | Some is \<Rightarrow>
                (Inr (), s\<lparr>eth_is := is, eth_reg := (eth_reg s)\<lparr>rg_reorgGen := rg_reorgGen (eth_reg s) + 1\<rparr>\<rparr>))
            (s\<lparr>eth_reg := r\<rparr>))
            (s\<lparr>eth_contracts := [], eth_rollback := \<lparr>er_addresses = [], er_rows = [], er_destroyedAt = []\<rparr>\<rparr>))"

end
