(* ===== verification/EthConnectLaws.thy ===== *)
theory EthConnectLaws
  imports EthConnect EthLazyLaws EthRegistryLaws
begin

text \<open>
  The records of addresses while blocks are connected: what is in memory stays well-formed, nothing panics, and the
  effect of a block on the view of every address, wherever its record lives: in the map of the block, in the cache, or
  in a row of the database. The statements are about a cache without a cap on its size; with a cap, records of the cache
  may be written to the database within a block.
\<close>

section \<open>Steps\<close>

lemma bindS_Inr:
  "bindS m f s = (Inr y, s'') \<longleftrightarrow> (\<exists>x s'. m s = (Inr x, s') \<and> f x s' = (Inr y, s''))"
  by (auto simp: bindS_def split: prod.splits sum.splits)

lemma returnS_Inr [simp]: "returnS x s = (Inr y, s') \<longleftrightarrow> y = x \<and> s' = s"
  by (auto simp: returnS_def)

section \<open>Views of an address\<close>

record tokenView =
  tv_Txs :: uint64
  tv_Ids :: "int set"
  tv_Values :: "int \<rightharpoonup> int"

record addrView =
  av_TotalTxs :: uint64
  av_NonContractTxs :: uint64
  av_InternalTxs :: uint64
  av_Tokens :: "bytes \<rightharpoonup> tokenView"

definition tokenOf :: "unpackedAddrContract \<Rightarrow> tokenView" where
  "tokenOf ct = \<lparr>tv_Txs = uc_Txs ct, tv_Ids = set (idsOf ct), tv_Values = mtvMap (valuesOf ct)\<rparr>"

definition tokensOf :: "unpackedAddrContract list \<Rightarrow> bytes \<rightharpoonup> tokenView" where
  "tokensOf cs = map_of (map (\<lambda>ct. (uc_Contract ct, tokenOf ct)) cs)"

definition viewOf :: "unpackedAddrContracts \<Rightarrow> addrView" where
  "viewOf u = \<lparr>av_TotalTxs = uacs_TotalTxs u, av_NonContractTxs = uacs_NonContractTxs u,
     av_InternalTxs = uacs_InternalTxs u, av_Tokens = tokensOf (uacs_Contracts u)\<rparr>"

definition emptyView :: addrView where
  "emptyView = \<lparr>av_TotalTxs = 0, av_NonContractTxs = 0, av_InternalTxs = 0, av_Tokens = Map.empty\<rparr>"

text \<open>The record of an address in memory, and its view wherever it lives.\<close>

definition pointer :: "'db ethState \<Rightarrow> bytes \<Rightarrow> nat option" where
  "pointer s a = (case map_of (eth_contracts s) a of Some p \<Rightarrow> Some p | None \<Rightarrow> map_of (eth_cache s) a)"

definition rowView :: "'db ethConf \<Rightarrow> 'db \<Rightarrow> bytes \<Rightarrow> addrView" where
  "rowView c db a =
     (case s_GetCF (ec_store c) db cfAddressContracts a of
        Inl e \<Rightarrow> emptyView
      | Inr val \<Rightarrow>
          if val_Data val = [] then emptyView
          else (case partiallyUnpackAddrContracts (eth_vlq c) (val_Data val) of None \<Rightarrow> emptyView | Some u \<Rightarrow> viewOf u))"

definition viewAt :: "'db ethConf \<Rightarrow> 'db ethState \<Rightarrow> bytes \<Rightarrow> addrView" where
  "viewAt c s a = (case pointer s a of Some p \<Rightarrow> viewOf (eth_heap s ! p) | None \<Rightarrow> rowView c (eth_db s) a)"

text \<open>Well-formed records with at most \<open>n\<close> contracts; rows that decode to such records; memory that holds such records,
  one for each address.\<close>

definition recordOk :: "nat \<Rightarrow> unpackedAddrContracts \<Rightarrow> bool" where
  "recordOk n u \<longleftrightarrow> indexOk u \<and> list_all holdingOk (uacs_Contracts u) \<and> length (uacs_Contracts u) \<le> n"

definition rowsOk :: "nat \<Rightarrow> 'db ethConf \<Rightarrow> 'db \<Rightarrow> bool" where
  "rowsOk n c db \<longleftrightarrow>
     (\<forall>a val. s_GetCF (ec_store c) db cfAddressContracts a = Inr val \<longrightarrow> val_Data val \<noteq> [] \<longrightarrow>
        (\<exists>u. partiallyUnpackAddrContracts (eth_vlq c) (val_Data val) = Some u \<and> recordOk n u)) \<and>
     (\<forall>a. s_GetCF (ec_store c) db cfAddressContracts a \<noteq> Inl Panic)"

definition memoryOk :: "nat \<Rightarrow> 'db ethState \<Rightarrow> bool" where
  "memoryOk n s \<longleftrightarrow>
     (\<forall>a p. pointer s a = Some p \<longrightarrow> p < length (eth_heap s)) \<and>
     (\<forall>a a' p. pointer s a = Some p \<longrightarrow> pointer s a' = Some p \<longrightarrow> a = a') \<and>
     (\<forall>a p q. map_of (eth_contracts s) a = Some p \<longrightarrow> map_of (eth_cache s) a = Some q \<longrightarrow> p = q) \<and>
     list_all (recordOk n) (eth_heap s)"

definition uncapped :: "'db ethConf \<Rightarrow> bool" where
  "uncapped c \<longleftrightarrow> ec_maxBytes c \<le> 0"

lemma recordOk_mono: "recordOk n u \<Longrightarrow> n \<le> m \<Longrightarrow> recordOk m u"
  by (simp add: recordOk_def)

lemma memoryOk_mono: "memoryOk n s \<Longrightarrow> n \<le> m \<Longrightarrow> memoryOk m s"
  unfolding memoryOk_def list_all_iff using recordOk_mono by blast

lemma rowsOk_mono: "rowsOk n c db \<Longrightarrow> n \<le> m \<Longrightarrow> rowsOk m c db"
  unfolding rowsOk_def using recordOk_mono by blast

lemma viewOf_emptyContracts [simp]: "viewOf emptyContracts = emptyView"
  by (simp add: viewOf_def emptyContracts_def emptyView_def tokensOf_def)

lemma recordOk_emptyContracts [simp]: "recordOk n emptyContracts"
  by (simp add: recordOk_def indexOk_def emptyContracts_def)

lemma pointer_other [simp]:
  "pointer (s\<lparr>eth_hot := h\<rparr>) = pointer s" "pointer (s\<lparr>eth_addresses := m\<rparr>) = pointer s"
  "pointer (s\<lparr>eth_rollback := rb\<rparr>) = pointer s" "pointer (s\<lparr>eth_reg := g\<rparr>) = pointer s"
  by (simp_all add: pointer_def fun_eq_iff split: option.split)

lemma viewAt_other [simp]:
  "viewAt c (s\<lparr>eth_hot := h\<rparr>) = viewAt c s" "viewAt c (s\<lparr>eth_addresses := m\<rparr>) = viewAt c s"
  "viewAt c (s\<lparr>eth_rollback := rb\<rparr>) = viewAt c s"
  "rg_db g = eth_db s \<Longrightarrow> viewAt c (s\<lparr>eth_reg := g\<rparr>) = viewAt c s"
  by (simp_all add: viewAt_def fun_eq_iff split: option.split)

lemma memoryOk_other [simp]:
  "memoryOk n (s\<lparr>eth_hot := h\<rparr>) = memoryOk n s" "memoryOk n (s\<lparr>eth_addresses := m\<rparr>) = memoryOk n s"
  "memoryOk n (s\<lparr>eth_rollback := rb\<rparr>) = memoryOk n s" "memoryOk n (s\<lparr>eth_reg := g\<rparr>) = memoryOk n s"
  by (simp_all add: memoryOk_def)

text \<open>Storing a record through its pointer changes the view of its address only.\<close>

lemma store_record:
  assumes "memoryOk n s" and "pointer s a = Some p" and "recordOk n u"
  shows "memoryOk n (s\<lparr>eth_heap := (eth_heap s)[p := u]\<rparr>)"
    "viewAt c (s\<lparr>eth_heap := (eth_heap s)[p := u]\<rparr>) = (viewAt c s)(a := viewOf u)"
proof -
  have ptr: "pointer (s\<lparr>eth_heap := h\<rparr>) = pointer s" for h by (simp add: pointer_def fun_eq_iff split: option.split)
  have p: "p < length (eth_heap s)" using assms(1,2) by (auto simp: memoryOk_def)
  show "memoryOk n (s\<lparr>eth_heap := (eth_heap s)[p := u]\<rparr>)"
    using assms by (auto simp: memoryOk_def ptr list_all_iff dest: set_update_subset_insert [THEN subsetD])
  show "viewAt c (s\<lparr>eth_heap := (eth_heap s)[p := u]\<rparr>) = (viewAt c s)(a := viewOf u)"
  proof
    fix a'
    show "viewAt c (s\<lparr>eth_heap := (eth_heap s)[p := u]\<rparr>) a' = ((viewAt c s)(a := viewOf u)) a'"
    proof (cases "a' = a")
      case True
      with assms(2) p show ?thesis by (simp add: viewAt_def ptr)
    next
      case False
      with assms(1,2) have "pointer s a' \<noteq> Some p" by (auto simp: memoryOk_def)
      with False show ?thesis by (auto simp: viewAt_def ptr split: option.split)
    qed
  qed
qed

section \<open>Loading the record of an address\<close>

text \<open>A new record at the end of the heap, entered into a map under an address without a record.\<close>

lemma pointer_update [simp]:
  "pointer (s\<lparr>eth_contracts := AList.update a p (eth_contracts s)\<rparr>) = (pointer s)(a \<mapsto> p)"
  "map_of (eth_contracts s) a = None \<Longrightarrow>
     pointer (s\<lparr>eth_cache := AList.update a p (eth_cache s), eth_cacheBytes := x\<rparr>) = (pointer s)(a \<mapsto> p)"
  "pointer (s\<lparr>eth_heap := h\<rparr>) = pointer s"
  by (auto simp: pointer_def fun_eq_iff update_conv' split: option.split)

lemma alloc_record:
  assumes "memoryOk n s" and "recordOk n u"
  shows "memoryOk n (s\<lparr>eth_heap := eth_heap s @ [u]\<rparr>)" "viewAt c (s\<lparr>eth_heap := eth_heap s @ [u]\<rparr>) = viewAt c s"
    "pointer s a \<noteq> Some (length (eth_heap s))"
proof -
  show l: "pointer s a \<noteq> Some (length (eth_heap s))" for a using assms(1) by (auto simp: memoryOk_def)
  show "memoryOk n (s\<lparr>eth_heap := eth_heap s @ [u]\<rparr>)" using assms by (fastforce simp: memoryOk_def)
  have "p < length (eth_heap s)" if "pointer s a = Some p" for a p using assms(1) that by (auto simp: memoryOk_def)
  then show "viewAt c (s\<lparr>eth_heap := eth_heap s @ [u]\<rparr>) = viewAt c s"
    by (auto simp: viewAt_def fun_eq_iff nth_append split: option.split)
qed

lemma enter_record:
  assumes "memoryOk n s" and "p < length (eth_heap s)" and "\<And>a'. a' \<noteq> a \<Longrightarrow> pointer s a' \<noteq> Some p"
    and "map_of (eth_cache s) a = None \<or> map_of (eth_cache s) a = Some p"
  shows "memoryOk n (s\<lparr>eth_contracts := AList.update a p (eth_contracts s)\<rparr>)"
    "viewAt c (s\<lparr>eth_contracts := AList.update a p (eth_contracts s)\<rparr>) = (viewAt c s)(a := viewOf (eth_heap s ! p))"
proof -
  show "memoryOk n (s\<lparr>eth_contracts := AList.update a p (eth_contracts s)\<rparr>)"
    using assms unfolding memoryOk_def pointer_update by (auto simp: update_conv')
  show "viewAt c (s\<lparr>eth_contracts := AList.update a p (eth_contracts s)\<rparr>) = (viewAt c s)(a := viewOf (eth_heap s ! p))"
    by (auto simp: viewAt_def fun_eq_iff split: option.split)
qed

lemma cache_record:
  assumes "memoryOk n s" and "p < length (eth_heap s)" and "\<And>a'. pointer s a' \<noteq> Some p" and "map_of (eth_contracts s) a = None"
  shows "memoryOk n (s\<lparr>eth_cache := AList.update a p (eth_cache s), eth_cacheBytes := x\<rparr>)"
    "viewAt c (s\<lparr>eth_cache := AList.update a p (eth_cache s), eth_cacheBytes := x\<rparr>) = (viewAt c s)(a := viewOf (eth_heap s ! p))"
proof -
  show "memoryOk n (s\<lparr>eth_cache := AList.update a p (eth_cache s), eth_cacheBytes := x\<rparr>)"
    using assms unfolding memoryOk_def pointer_update(2) [OF assms(4)] by (auto simp: update_conv')
  show "viewAt c (s\<lparr>eth_cache := AList.update a p (eth_cache s), eth_cacheBytes := x\<rparr>) = (viewAt c s)(a := viewOf (eth_heap s ! p))"
    using pointer_update(2) [OF assms(4), where p = p and x = x] by (auto simp: viewAt_def fun_eq_iff split: option.split)
qed

text \<open>What a step leaves alone apart from records.\<close>

definition otherwiseSame :: "'db ethState \<Rightarrow> 'db ethState \<Rightarrow> bool" where
  "otherwiseSame s s' \<longleftrightarrow>
     eth_db s' = eth_db s \<and> eth_addresses s' = eth_addresses s \<and> eth_rollback s' = eth_rollback s"

lemma getUnpacked_laws:
  assumes c: "uncapped c" "rowsOk n c (eth_db s)" and s: "memoryOk n s" "map_of (eth_contracts s) a = None"
    and get: "getUnpackedAddrDescContracts c a s = (r, s')"
  shows "r \<noteq> Inl Panic \<and> memoryOk n s' \<and> viewAt c s' = viewAt c s \<and> otherwiseSame s s' \<and> eth_contracts s' = eth_contracts s \<and>
    (r = Inr None \<longrightarrow> viewAt c s a = emptyView \<and> pointer s' a = None) \<and>
    (\<forall>p. r = Inr (Some p) \<longrightarrow> p < length (eth_heap s') \<and> viewOf (eth_heap s' ! p) = viewAt c s a \<and>
       (\<forall>a'. a' \<noteq> a \<longrightarrow> pointer s' a' \<noteq> Some p) \<and> (map_of (eth_cache s') a = None \<or> map_of (eth_cache s') a = Some p))"
proof (cases "map_of (eth_cache s) a")
  case (Some p)
  then have "pointer s a = Some p" using s(2) by (simp add: pointer_def)
  with Some get s show ?thesis
    by (auto simp: getUnpackedAddrDescContracts_def otherwiseSame_def viewAt_def memoryOk_def)
next
  case None
  then have ptr: "pointer s a = None" using s(2) by (simp add: pointer_def)
  then have view: "viewAt c s a = rowView c (eth_db s) a" by (simp add: viewAt_def)
  show ?thesis
  proof (cases "eth_get c s cfAddressContracts a")
    case (Inl e)
    then show ?thesis
      using None get s c(2) by (auto simp: getUnpackedAddrDescContracts_def otherwiseSame_def rowsOk_def eth_get_def)
  next
    case (Inr val)
    show ?thesis
    proof (cases "val_Data val = []")
      case True
      with Inr None get s ptr view show ?thesis
        by (auto simp: getUnpackedAddrDescContracts_def otherwiseSame_def rowView_def eth_get_def)
    next
      case False
      with Inr c(2) obtain u where u: "partiallyUnpackAddrContracts (eth_vlq c) (val_Data val) = Some u" "recordOk n u"
        unfolding rowsOk_def eth_get_def by blast
      let ?p = "length (eth_heap s)"
      define s1 where "s1 = s\<lparr>eth_heap := eth_heap s @ [u]\<rparr>"
      define x where "x = int64 (eth_cacheBytes s + int (length (val_Data val)))"
      have uv: "viewOf u = viewAt c s a" using view Inr False u(1) by (simp add: rowView_def eth_get_def)
      have m1: "memoryOk n s1" "viewAt c s1 = viewAt c s" "\<And>a. pointer s1 a \<noteq> Some ?p" "?p < length (eth_heap s1)"
        "map_of (eth_contracts s1) a = None" "eth_heap s1 ! ?p = u" "pointer s1 a = None"
        using alloc_record [OF s(1) u(2)] s(2) ptr by (simp_all add: s1_def)
      have "(r, s') = (Inr (Some ?p), s1) \<or>
          (r, s') = (Inr (Some ?p), s1\<lparr>eth_cache := AList.update a ?p (eth_cache s1), eth_cacheBytes := x\<rparr>)"
        using get None Inr False u(1) c(1)
        by (auto simp: getUnpackedAddrDescContracts_def Let_def s1_def x_def uncapped_def split: if_splits)
      then show ?thesis
      proof
        assume "(r, s') = (Inr (Some ?p), s1)"
        with m1 uv None show ?thesis by (simp add: otherwiseSame_def s1_def)
      next
        assume e: "(r, s') = (Inr (Some ?p), s1\<lparr>eth_cache := AList.update a ?p (eth_cache s1), eth_cacheBytes := x\<rparr>)"
        have "viewAt c s' = viewAt c s"
          using e cache_record(2) [OF m1(1,4,3,5), where x = x and c = c] m1(2,6) uv by simp
        moreover have "memoryOk n s'" using e cache_record(1) [OF m1(1,4,3,5), where x = x] by simp
        moreover have "pointer s' = (pointer s1)(a \<mapsto> ?p)" using e pointer_update(2) [OF m1(5), where p = ?p and x = x] by simp
        ultimately show ?thesis
          using e m1(3,4,6) uv by (auto simp: otherwiseSame_def s1_def update_conv')
      qed
    qed
  qed
qed

lemma pointer_None: "pointer s a = None \<Longrightarrow> map_of (eth_cache s) a = None"
  by (simp add: pointer_def split: option.splits)

lemma blockContracts_laws:
  assumes c: "uncapped c" "rowsOk n c (eth_db s)" and s: "memoryOk n s" and b: "blockContracts c a s = (r, s')"
  shows "r \<noteq> Inl Panic \<and> memoryOk n s' \<and> viewAt c s' = viewAt c s \<and> otherwiseSame s s' \<and>
    (\<forall>p. r = Inr p \<longrightarrow> map_of (eth_contracts s') a = Some p)"
proof (cases "map_of (eth_contracts s) a")
  case (Some p)
  with b s show ?thesis by (auto simp: blockContracts_def otherwiseSame_def)
next
  case None
  obtain r1 s1 where g: "getUnpackedAddrDescContracts c a s = (r1, s1)" by fastforce
  note laws = getUnpacked_laws [OF c s None g]
  show ?thesis
  proof (cases r1)
    case (Inl e)
    with b None g laws show ?thesis by (auto simp: blockContracts_def bindS_def)
  next
    case r1: (Inr ac)
    define p s2 where "p = (case ac of Some p \<Rightarrow> p | None \<Rightarrow> length (eth_heap s1))"
      and "s2 = (case ac of Some _ \<Rightarrow> s1 | None \<Rightarrow> s1\<lparr>eth_heap := eth_heap s1 @ [emptyContracts]\<rparr>)"
    have e: "r = Inr p" "s' = s2\<lparr>eth_contracts := AList.update a p (eth_contracts s2)\<rparr>"
      using b None g r1 by (auto simp: blockContracts_def bindS_def p_def s2_def Let_def split: option.splits)
    have s2: "memoryOk n s2" "viewAt c s2 = viewAt c s" "otherwiseSame s1 s2" "p < length (eth_heap s2)"
      "viewOf (eth_heap s2 ! p) = viewAt c s a" "\<And>a'. a' \<noteq> a \<Longrightarrow> pointer s2 a' \<noteq> Some p"
      "map_of (eth_cache s2) a = None \<or> map_of (eth_cache s2) a = Some p"
      using laws r1 alloc_record [of n s1 emptyContracts] pointer_None [of s1 a]
      by (cases ac; simp add: p_def s2_def otherwiseSame_def)+
    note new = enter_record [OF s2(1,4,6,7)]
    have "viewAt c s' = viewAt c s" using new(2) [of c] s2(2,5) e(2) by simp
    moreover have "memoryOk n s'" using new(1) e(2) by simp
    ultimately show ?thesis using e laws s2(3) by (simp add: otherwiseSame_def update_conv')
  qed
qed

section \<open>A transfer of tokens at one address\<close>

lemma pointer_contracts: "map_of (eth_contracts s) a = Some p \<Longrightarrow> pointer s a = Some p"
  by (simp add: pointer_def)

lemma pointer_cache: "memoryOk n s \<Longrightarrow> map_of (eth_cache s) a = Some p \<Longrightarrow> pointer s a = Some p"
  by (auto simp: pointer_def memoryOk_def split: option.split)

lemma viewAt_pointer: "pointer s a = Some p \<Longrightarrow> viewAt c s a = viewOf (eth_heap s ! p)"
  by (simp add: viewAt_def)

lemma recordOk_heap: "memoryOk n s \<Longrightarrow> pointer s a = Some p \<Longrightarrow> recordOk n (eth_heap s ! p)"
  by (auto simp: memoryOk_def list_all_length)

lemma dropIndex_laws:
  assumes s: "memoryOk n s"
  shows "memoryOk n (dropAddrContractsContractIndex k s) \<and> viewAt c (dropAddrContractsContractIndex k s) = viewAt c s \<and>
    otherwiseSame s (dropAddrContractsContractIndex k s) \<and>
    eth_contracts (dropAddrContractsContractIndex k s) = eth_contracts s \<and>
    pointer (dropAddrContractsContractIndex k s) = pointer s"
proof (cases "\<exists>key p. k = Some key \<and> map_of (eth_cache s) key = Some p")
  case True
  then obtain key p where k: "k = Some key" "map_of (eth_cache s) key = Some p" by blast
  have p: "pointer s key = Some p" using pointer_cache [OF s k(2)] .
  have u: "recordOk n (dropContractIndex (eth_heap s ! p))" "viewOf (dropContractIndex (eth_heap s ! p)) = viewAt c s key"
    using recordOk_heap [OF s p] viewAt_pointer [OF p, of c]
    by (simp_all add: recordOk_def indexOk_def dropContractIndex_def viewOf_def)
  have "dropAddrContractsContractIndex k s = s\<lparr>eth_heap := (eth_heap s)[p := dropContractIndex (eth_heap s ! p)]\<rparr>"
    using k by (simp add: dropAddrContractsContractIndex_def)
  with store_record [OF s p u(1)] u(2) show ?thesis by (simp add: otherwiseSame_def)
next
  case False
  then have "dropAddrContractsContractIndex k s = s"
    by (auto simp: dropAddrContractsContractIndex_def split: option.split)
  with s show ?thesis by (simp add: otherwiseSame_def)
qed

lemma lookup_view: "viewOf (snd (lookupContractIndex use k u)) = viewOf u"
  by (auto simp: lookupContractIndex_def Let_def rebuildContractIndex_def viewOf_def split: option.split)

lemma findContractIndexAt_laws:
  assumes s: "memoryOk n s" and p: "pointer s a = Some p" and f: "findContractIndexAt a k hot p s = (i, ac, hot', s')"
  shows "memoryOk n s' \<and> viewAt c s' = viewAt c s \<and> otherwiseSame s s' \<and> pointer s' = pointer s \<and> recordOk n ac \<and>
    viewOf ac = viewAt c s a \<and> i = findContractInAddressContracts k (uacs_Contracts ac)"
proof -
  obtain use ev where d: "decideIndex a (length (uacs_Contracts (eth_heap s ! p))) hot = (use, ev, hot')"
    and s': "s' = dropAddrContractsContractIndex ev s" and l: "lookupContractIndex use k (eth_heap s' ! p) = (i, ac)"
    using f by (auto simp: findContractIndexAt_def Let_def split: prod.splits)
  note drop = dropIndex_laws [OF s, of ev c, folded s']
  have ok: "recordOk n (eth_heap s' ! p)" using drop p by (intro recordOk_heap [of n s' a p]) auto
  then have ix: "indexOk (eth_heap s' ! p)" by (simp add: recordOk_def)
  have "viewOf (eth_heap s' ! p) = viewAt c s a" using drop p viewAt_pointer [of s' a p c] by simp
  with drop ok lookupContractIndex_laws [OF ix, of use k] l lookup_view [of use k "eth_heap s' ! p"]
  show ?thesis by (simp add: recordOk_def)
qed

lemma tokensOf_at:
  "distinct (map uc_Contract cs) \<Longrightarrow> i < length cs \<Longrightarrow> tokensOf cs (uc_Contract (cs ! i)) = Some (tokenOf (cs ! i))"
  by (auto simp: tokensOf_def map_of_eq_Some_iff comp_def intro!: image_eqI [of _ _ "cs ! i"])

lemma tokensOf_None: "tokensOf cs k = None \<longleftrightarrow> k \<notin> uc_Contract ` set cs"
  by (force simp: tokensOf_def map_of_eq_None_iff)

lemma tokensOf_snoc:
  "uc_Contract ct \<notin> uc_Contract ` set cs \<Longrightarrow> tokensOf (cs @ [ct]) = (tokensOf cs)(uc_Contract ct \<mapsto> tokenOf ct)"
  using tokensOf_None [of cs "uc_Contract ct"]
  by (auto simp: tokensOf_def fun_eq_iff map_add_def split: option.splits)

lemma tokensOf_update:
  assumes "distinct (map uc_Contract cs)" and "i < length cs" and "uc_Contract ct = uc_Contract (cs ! i)"
  shows "tokensOf (cs[i := ct]) = (tokensOf cs)(uc_Contract ct \<mapsto> tokenOf ct)"
proof -
  define xs ys where "xs = take i cs" and "ys = drop (Suc i) cs"
  have cs: "cs = xs @ cs ! i # ys" using assms(2) by (simp add: xs_def ys_def id_take_nth_drop [symmetric])
  have l: "length xs = i" using assms(2) by (simp add: xs_def)
  then have up: "cs[i := ct] = xs @ ct # ys" by (subst cs) (simp add: list_update_append)
  have "uc_Contract ct \<notin> uc_Contract ` set xs" using assms(1,3) by (subst (asm) cs) auto
  then have "tokensOf xs (uc_Contract ct) = None" by (simp add: tokensOf_None)
  moreover have "tokensOf (xs @ z # ys) = tokensOf ys ++ [uc_Contract z \<mapsto> tokenOf z] ++ tokensOf xs" for z
    by (simp add: tokensOf_def map_add_def fun_eq_iff split: option.split)
  ultimately show ?thesis
    unfolding up by (subst cs) (auto simp: fun_eq_iff map_add_def assms(3) split: option.split)
qed

text \<open>What a transfer does to the view of a contract.\<close>

definition emptyToken :: tokenView where
  "emptyToken = \<lparr>tv_Txs = 0, tv_Ids = {}, tv_Values = Map.empty\<rparr>"

definition tokenAfter :: "int \<Rightarrow> TokenTransfer \<Rightarrow> bool \<Rightarrow> bool \<Rightarrow> tokenView \<Rightarrow> tokenView" where
  "tokenAfter idx t addTxCount mutateHoldings tv =
     \<lparr>tv_Txs = tv_Txs tv + (if addTxCount then 1 else 0),
      tv_Ids = (if mutateHoldings then idsAfter idx t (tv_Ids tv) else tv_Ids tv),
      tv_Values = (if mutateHoldings then valuesAfter idx t (tv_Values tv) else tv_Values tv)\<rparr>"

definition orEmpty :: "tokenView option \<Rightarrow> tokenView" where
  "orEmpty tv = (case tv of None \<Rightarrow> emptyToken | Some tv \<Rightarrow> tv)"

definition addToken :: "int \<Rightarrow> bytes \<Rightarrow> TokenTransfer \<Rightarrow> bool \<Rightarrow> bool \<Rightarrow> addrView \<Rightarrow> addrView" where
  "addToken idx k t addTxCount mutateHoldings v =
     v\<lparr>av_Tokens := (av_Tokens v)(k \<mapsto> tokenAfter idx t addTxCount mutateHoldings (orEmpty (av_Tokens v k)))\<rparr>"

lemma tokenOf_emptyContract [simp]: "tokenOf (emptyContract standard k 0) = emptyToken"
  "holdingOk (emptyContract standard k txs)" "uc_Contract (emptyContract standard k txs) = k"
  by (simp_all add: tokenOf_def emptyContract_def emptyToken_def idsOf_def valuesOf_def mtvMap_def holdingOk_def)

text \<open>The contract at a position changes.\<close>

lemma changeContract_laws:
  assumes ac: "recordOk n ac" and i: "i < length (uacs_Contracts ac)" "uc_Contract (uacs_Contracts ac ! i) = k"
    and t: "transferOk t" "n + 3 < 2 ^ 31"
  shows "\<exists>j ct. addToContract (uacs_Contracts ac ! i) i idx t addTxCount mutateHoldings = Some (j, ct) \<and>
    recordOk n (ac\<lparr>uacs_Contracts := (uacs_Contracts ac)[i := ct]\<rparr>) \<and>
    viewOf (ac\<lparr>uacs_Contracts := (uacs_Contracts ac)[i := ct]\<rparr>) =
      (viewOf ac)\<lparr>av_Tokens := (av_Tokens (viewOf ac))(k \<mapsto>
        tokenAfter idx t addTxCount mutateHoldings (tokenOf (uacs_Contracts ac ! i)))\<rparr>"
proof -
  have h: "holdingOk (uacs_Contracts ac ! i)" using ac i by (auto simp: recordOk_def list_all_length)
  have b: "int i + 2 < 2 ^ 31" using ac i t(2) by (simp add: recordOk_def)
  obtain j ct where a: "addToContract (uacs_Contracts ac ! i) i idx t addTxCount mutateHoldings = Some (j, ct)"
    and ct: "holdingOk ct" "uc_Contract ct = k"
      "tokenOf ct = tokenAfter idx t addTxCount mutateHoldings (tokenOf (uacs_Contracts ac ! i))"
    using addToContract_effect [OF h t(1) b, of idx addTxCount mutateHoldings] i(2)
    by (auto simp: tokenOf_def tokenAfter_def)
  have "recordOk n (ac\<lparr>uacs_Contracts := (uacs_Contracts ac)[i := ct]\<rparr>)"
    using ac ct i indexOk_update [of ac i ct]
    by (auto simp: recordOk_def list_all_iff dest: set_update_subset_insert [THEN subsetD])
  moreover have "tokensOf ((uacs_Contracts ac)[i := ct]) = (tokensOf (uacs_Contracts ac))(k \<mapsto> tokenOf ct)"
    using tokensOf_update [of "uacs_Contracts ac" i ct] ac i ct(2) by (simp add: recordOk_def indexOk_def)
  ultimately show ?thesis using a ct(3) by (auto simp: viewOf_def)
qed

lemma recordOk_append:
  assumes ac: "recordOk n ac" and new: "k \<notin> uc_Contract ` set (uacs_Contracts ac)"
    and ac': "ac' = addContractIndex k (length (uacs_Contracts ac))
      (ac\<lparr>uacs_Contracts := uacs_Contracts ac @ [emptyContract standard k 0]\<rparr>)"
  shows "recordOk (Suc n) ac'" "uacs_Contracts ac' = uacs_Contracts ac @ [emptyContract standard k 0]"
    "viewOf ac' = (viewOf ac)\<lparr>av_Tokens := (av_Tokens (viewOf ac))(k \<mapsto> emptyToken)\<rparr>"
proof -
  have cs: "uacs_Contracts (addContractIndex k i u) = uacs_Contracts u" "uacs_TotalTxs (addContractIndex k i u) = uacs_TotalTxs u"
    "uacs_NonContractTxs (addContractIndex k i u) = uacs_NonContractTxs u"
    "uacs_InternalTxs (addContractIndex k i u) = uacs_InternalTxs u" for i u
    by (simp_all add: addContractIndex_def split: option.split)
  show "recordOk (Suc n) ac'" "uacs_Contracts ac' = uacs_Contracts ac @ [emptyContract standard k 0]"
    using ac indexOk_append [of ac "emptyContract standard k 0"] new by (simp_all add: recordOk_def ac' cs)
  show "viewOf ac' = (viewOf ac)\<lparr>av_Tokens := (av_Tokens (viewOf ac))(k \<mapsto> emptyToken)\<rparr>"
    using tokensOf_snoc [of "emptyContract standard k 0" "uacs_Contracts ac"] new by (simp add: viewOf_def ac' cs)
qed

lemma addTransfer_laws:
  assumes s: "memoryOk n s" and p: "pointer s a = Some p" and t: "transferOk t" "n + 4 < 2 ^ 31" and nz: "\<not> isZeroAddress a"
    and add: "addTransfer a idx k t addTxCount mutateHoldings p s = (r, s')"
  shows "\<exists>j. r = Inr j \<and> memoryOk (Suc n) s' \<and> otherwiseSame s s' \<and> pointer s' = pointer s \<and>
    viewAt c s' = (viewAt c s)(a := addToken idx k t addTxCount mutateHoldings (viewAt c s a))"
proof -
  obtain i ac hot s1 where f: "findContractIndexAt a k (eth_hot s) p s = (i, ac, hot, s1)" by (metis surj_pair)
  note laws = findContractIndexAt_laws [OF s p f, of c]
  define s2 where "s2 = s1\<lparr>eth_hot := hot\<rparr>"
  have ptr: "pointer s2 = pointer s" and v2: "viewAt c s2 = viewAt c s"
    using laws by (simp_all add: s2_def)
  then have s2: "memoryOk n s2" "otherwiseSame s s2"
    using laws by (simp_all add: s2_def otherwiseSame_def)
  define m ac' where "m = (case i of Some i \<Rightarrow> i | None \<Rightarrow> length (uacs_Contracts ac))"
    and "ac' = (case i of Some i \<Rightarrow> ac | None \<Rightarrow> addContractIndex k (length (uacs_Contracts ac))
      (ac\<lparr>uacs_Contracts := uacs_Contracts ac @ [emptyContract (tt_Standard t) k 0]\<rparr>))"
  have ac': "recordOk (Suc n) ac'" "m < length (uacs_Contracts ac')" "uc_Contract (uacs_Contracts ac' ! m) = k"
    "tokenOf (uacs_Contracts ac' ! m) = orEmpty (av_Tokens (viewOf ac) k)"
    "(viewOf ac')\<lparr>av_Tokens := (av_Tokens (viewOf ac'))(k \<mapsto> tv)\<rparr> = (viewOf ac)\<lparr>av_Tokens := (av_Tokens (viewOf ac))(k \<mapsto> tv)\<rparr>" for tv
  proof (atomize (full), rule findContract_cases [of k "uacs_Contracts ac"], goal_cases)
    case (1 j)
    with laws have i: "i = Some j" "recordOk n ac" by simp_all
    then have "distinct (map uc_Contract (uacs_Contracts ac))" by (simp add: recordOk_def indexOk_def)
    from tokensOf_at [OF this 1(2)] 1 i recordOk_mono [OF i(2), of "Suc n"] show ?case
      by (simp add: m_def ac'_def orEmpty_def viewOf_def)
  next
    case 2
    with laws have i: "i = None" "recordOk n ac" by simp_all
    note app = recordOk_append [OF i(2) 2(2) refl, of "tt_Standard t"]
    have "tokensOf (uacs_Contracts ac) k = None" using 2(2) by (simp add: tokensOf_None)
    with app i(1) show ?case by (simp add: m_def ac'_def orEmpty_def viewOf_def)
  qed
  have lim: "Suc n + 3 < 2 ^ 31" using t(2) by simp
  obtain j ct where ct: "addToContract (uacs_Contracts ac' ! m) m idx t addTxCount mutateHoldings = Some (j, ct)"
      "recordOk (Suc n) (ac'\<lparr>uacs_Contracts := (uacs_Contracts ac')[m := ct]\<rparr>)"
      "viewOf (ac'\<lparr>uacs_Contracts := (uacs_Contracts ac')[m := ct]\<rparr>) =
        (viewOf ac')\<lparr>av_Tokens := (av_Tokens (viewOf ac'))(k \<mapsto>
          tokenAfter idx t addTxCount mutateHoldings (tokenOf (uacs_Contracts ac' ! m)))\<rparr>"
    using changeContract_laws [OF ac'(1-3) t(1) lim] by blast
  have "addTransfer a idx k t addTxCount mutateHoldings p s =
      (Inr j, s2\<lparr>eth_heap := (eth_heap s2)[p := ac'\<lparr>uacs_Contracts := (uacs_Contracts ac')[m := ct]\<rparr>]\<rparr>)"
    using nz f ct(1) ac'(2) by (cases i) (simp_all add: addTransfer_def Let_def s2_def m_def ac'_def index_def)
  with add have r: "r = Inr j" "s' = s2\<lparr>eth_heap := (eth_heap s2)[p := ac'\<lparr>uacs_Contracts := (uacs_Contracts ac')[m := ct]\<rparr>]\<rparr>"
    by simp_all
  have p2: "pointer s2 a = Some p" using p ptr by simp
  note st = store_record [OF memoryOk_mono [OF s2(1), of "Suc n"] p2 ct(2)]
  have "viewOf (ac'\<lparr>uacs_Contracts := (uacs_Contracts ac')[m := ct]\<rparr>) = addToken idx k t addTxCount mutateHoldings (viewAt c s a)"
    using ct(3) ac'(4,5) laws by (simp add: addToken_def)
  with r st(1) st(2) [of c] s2(2) ptr v2 show ?thesis by (simp add: otherwiseSame_def)
qed

section \<open>The transactions seen at an address\<close>

definition seenIn :: "addressesMap \<Rightarrow> (bytes \<times> bytes) set" where
  "seenIn m = {(a, b). \<exists>at. map_of m a = Some at \<and> b \<in> btxID ` set at}"

lemma appendIndexOnce_cases:
  "(appendIndexOnce b i at = None \<and> b \<notin> btxID ` set at) \<or>
   (\<exists>at'. appendIndexOnce b i at = Some at' \<and> b \<in> btxID ` set at \<and> btxID ` set at' = btxID ` set at)"
  by (induction at) auto

lemma addToAddressesMapEthereumType_laws:
  assumes "addToAddressesMapEthereumType m a b i = (m', counted)"
  shows "counted \<longleftrightarrow> (a, b) \<in> seenIn m" "seenIn m' = insert (a, b) (seenIn m)"
proof -
  define at where "at = (case map_of m a of None \<Rightarrow> [] | Some at \<Rightarrow> at)"
  have s: "(a, b) \<in> seenIn m \<longleftrightarrow> b \<in> btxID ` set at" for b by (cases "map_of m a") (auto simp: seenIn_def at_def)
  have u: "seenIn (AList.update a at' m) = {(a', b) \<in> seenIn m. a' \<noteq> a} \<union> {a} \<times> btxID ` set at'" for at'
    by (auto simp: seenIn_def update_conv' split: if_splits)
  from appendIndexOnce_cases [of b i at] assms show "counted \<longleftrightarrow> (a, b) \<in> seenIn m" "seenIn m' = insert (a, b) (seenIn m)"
    by (auto simp: addToAddressesMapEthereumType_def at_def [symmetric] s u)
qed

section \<open>One address in one transaction\<close>

type_synonym ethEvent = "bytes \<times> bytes \<times> int \<times> (bytes \<times> TokenTransfer) option \<times> bool \<times> bool"

definition countView :: "int \<Rightarrow> addrView \<Rightarrow> addrView" where
  "countView idx v =
     (if idx = internalTransferFrom \<or> idx = internalTransferTo then v\<lparr>av_InternalTxs := av_InternalTxs v + 1\<rparr>
      else v\<lparr>av_NonContractTxs := av_NonContractTxs v + 1\<rparr>)"

definition eventView :: "ethEvent \<Rightarrow> addrView \<Rightarrow> addrView" where
  "eventView e v =
     (case e of (a, b, idx, transfer, addTxCount, mutateHoldings) \<Rightarrow>
        (case transfer of
           None \<Rightarrow> if addTxCount then countView idx v else v
         | Some (k, t) \<Rightarrow> if isZeroAddress a then v else addToken idx k t addTxCount mutateHoldings v))"

definition totalView :: "bool \<Rightarrow> addrView \<Rightarrow> addrView" where
  "totalView counted v = (if counted then v else v\<lparr>av_TotalTxs := av_TotalTxs v + 1\<rparr>)"

definition runEvent :: "'db ethConf \<Rightarrow> ethEvent \<Rightarrow> (unit, 'db ethState) step" where
  "runEvent c e =
     (case e of (a, b, idx, transfer, addTxCount, mutateHoldings) \<Rightarrow>
        addToAddressesAndContractsEthereumType c a b idx transfer addTxCount mutateHoldings)"

definition eventOk :: "ethEvent \<Rightarrow> bool" where
  "eventOk e \<longleftrightarrow> (case e of (a, b, idx, transfer, _) \<Rightarrow> (case transfer of None \<Rightarrow> True | Some (k, t) \<Rightarrow> transferOk t))"

lemma runEvent_laws:
  assumes c: "uncapped c" "rowsOk n c (eth_db s)" and s: "memoryOk n s" "n + 4 < 2 ^ 31"
    and e: "e = (a, b, e')" "eventOk e" and run: "runEvent c e s = (r, s')"
  shows "r \<noteq> Inl Panic \<and> eth_db s' = eth_db s \<and> eth_rollback s' = eth_rollback s \<and> memoryOk (Suc n) s' \<and>
    (r = Inr () \<longrightarrow>
      viewAt c s' = (viewAt c s)(a := totalView ((a, b) \<in> seenIn (eth_addresses s)) (eventView e (viewAt c s a))) \<and>
      seenIn (eth_addresses s') = insert (a, b) (seenIn (eth_addresses s)))"
proof -
  obtain idx transfer cnt mut where e': "e' = (idx, transfer, cnt, mut)" by (cases e') auto
  obtain r1 s1 where b1: "blockContracts c a s = (r1, s1)" by fastforce
  note laws = blockContracts_laws [OF c s(1) b1]
  show ?thesis
  proof (cases r1)
    case (Inl err)
    with laws run b1 memoryOk_mono [of n s1 "Suc n"] show ?thesis
      by (auto simp: runEvent_def e(1) e' addToAddressesAndContractsEthereumType_def bindS_def otherwiseSame_def)
  next
    case (Inr p)
    then have p: "pointer s1 a = Some p" using laws pointer_contracts by blast
    have m1: "memoryOk n s1" and v1: "viewAt c s1 = viewAt c s" using laws by simp_all
    define r2 where "r2 = (case transfer of
         None \<Rightarrow> (Inr idx, if cnt then s1\<lparr>eth_heap := (eth_heap s1)[p := countTx idx (eth_heap s1 ! p)]\<rparr> else s1)
       | Some (contract, t) \<Rightarrow> addTransfer a idx contract t cnt mut p s1)"
    have ex: "\<exists>j s2. r2 = (Inr j, s2) \<and> memoryOk (Suc n) s2 \<and> otherwiseSame s1 s2 \<and> pointer s2 = pointer s1 \<and>
        viewAt c s2 = (viewAt c s)(a := eventView e (viewAt c s a))"
    proof (cases transfer)
      case None
      have v: "viewOf (countTx idx (eth_heap s1 ! p)) = countView idx (viewAt c s a)"
        using viewAt_pointer [OF p, of c] v1 by (simp add: countTx_def countView_def viewOf_def)
      have ok: "recordOk n (countTx idx (eth_heap s1 ! p))"
        using recordOk_heap [OF m1 p] by (simp add: recordOk_def countTx_def indexOk_def)
      from store_record(1) [OF m1 p ok] store_record(2) [OF m1 p ok, of c] None v v1 memoryOk_mono [of n _ "Suc n"] m1
      show ?thesis by (cases cnt) (simp_all add: r2_def e(1) e' eventView_def otherwiseSame_def)
    next
      case (Some kt)
      obtain k t where kt: "kt = (k, t)" by fastforce
      have t: "transferOk t" using e(2) by (simp add: eventOk_def e(1) e' Some kt)
      show ?thesis
      proof (cases "isZeroAddress a")
        case True
        with Some kt v1 memoryOk_mono [OF m1, of "Suc n"] show ?thesis
          by (simp add: r2_def addTransfer_def eventView_def e(1) e' otherwiseSame_def)
      next
        case False
        obtain r3 s3 where a: "addTransfer a idx k t cnt mut p s1 = (r3, s3)" by fastforce
        from addTransfer_laws [OF m1 p t s(2) False a, of c] a Some kt v1 False show ?thesis
          by (auto simp: r2_def eventView_def e(1) e')
      qed
    qed
    then obtain j s2 where r2: "r2 = (Inr j, s2)" and s2: "memoryOk (Suc n) s2" "otherwiseSame s1 s2" "pointer s2 = pointer s1"
      "viewAt c s2 = (viewAt c s)(a := eventView e (viewAt c s a))" by blast
    obtain m counted where ad: "addToAddressesMapEthereumType (eth_addresses s2) a b j = (m, counted)" by fastforce
    note seen = addToAddressesMapEthereumType_laws [OF ad]
    define s3 where "s3 = s2\<lparr>eth_addresses := m\<rparr>"
    have p3: "pointer s3 a = Some p" and m3: "memoryOk (Suc n) s3" and v3: "viewAt c s3 = viewAt c s2"
      using p s2 by (simp_all add: s3_def)
    define u where "u = (eth_heap s3 ! p)\<lparr>uacs_TotalTxs := uacs_TotalTxs (eth_heap s3 ! p) + 1\<rparr>"
    have run': "r = Inr ()" "s' = (if counted then s3 else s3\<lparr>eth_heap := (eth_heap s3)[p := u]\<rparr>)"
      using run b1 Inr r2 ad
      by (auto simp: runEvent_def e(1) e' addToAddressesAndContractsEthereumType_def bindS_def r2_def Let_def s3_def u_def
          split: option.splits)
    have u: "recordOk (Suc n) u" "viewOf u = totalView False (eventView e (viewAt c s a))"
      using recordOk_heap [OF m3 p3] viewAt_pointer [OF p3, of c] v3 s2(4)
      by (simp_all add: u_def recordOk_def indexOk_def viewOf_def totalView_def)
    have "seenIn (eth_addresses s2) = seenIn (eth_addresses s)" using laws s2(2) by (simp add: otherwiseSame_def)
    with run' seen store_record(1) [OF m3 p3 u(1)] store_record(2) [OF m3 p3 u(1), of c] u(2) m3 v3 s2 laws
    show ?thesis by (cases counted) (simp_all add: otherwiseSame_def s3_def totalView_def)
  qed
qed

primrec runEvents :: "'db ethConf \<Rightarrow> ethEvent list \<Rightarrow> (unit, 'db ethState) step" where
  "runEvents c [] = returnS ()"
| "runEvents c (e # es) = bindS (runEvent c e) (\<lambda>_. runEvents c es)"

definition absEvent :: "ethEvent \<Rightarrow> (bytes \<Rightarrow> addrView) \<times> (bytes \<times> bytes) set \<Rightarrow> (bytes \<Rightarrow> addrView) \<times> (bytes \<times> bytes) set" where
  "absEvent e VS =
     (case e of (a, b, _) \<Rightarrow> case VS of (V, S) \<Rightarrow>
        (V(a := totalView ((a, b) \<in> S) (eventView e (V a))), insert (a, b) S))"

lemma runEvents_laws:
  assumes "uncapped c" and "rowsOk n c (eth_db s)" and "memoryOk n s" and "n + length es + 3 < 2 ^ 31"
    and "list_all eventOk es" and "runEvents c es s = (r, s')"
  shows "r \<noteq> Inl Panic \<and> eth_db s' = eth_db s \<and> eth_rollback s' = eth_rollback s \<and> memoryOk (n + length es) s' \<and>
    (r = Inr () \<longrightarrow>
      (viewAt c s', seenIn (eth_addresses s')) = fold absEvent es (viewAt c s, seenIn (eth_addresses s)))"
  using assms
proof (induction es arbitrary: n s)
  case (Cons e es)
  obtain a b e' where e: "e = (a, b, e')" by (cases e) auto
  obtain r1 s1 where r1: "runEvent c e s = (r1, s1)" by fastforce
  have lim: "n + 4 < 2 ^ 31" and ok: "eventOk e" using Cons.prems(4,5) by simp_all
  note laws = runEvent_laws [OF Cons.prems(1-3) lim e ok r1]
  show ?case
  proof (cases r1)
    case (Inl err)
    with Cons.prems(6) r1 laws memoryOk_mono [of "Suc n" s1 "n + length (e # es)"] show ?thesis by (auto simp: bindS_def)
  next
    case (Inr x)
    with Cons.prems(6) r1 have run: "runEvents c es s1 = (r, s')" by (simp add: bindS_def)
    have rows: "rowsOk (Suc n) c (eth_db s1)" using laws rowsOk_mono [OF Cons.prems(2), of "Suc n"] by simp
    have "(viewAt c s1, seenIn (eth_addresses s1)) = absEvent e (viewAt c s, seenIn (eth_addresses s))"
      using laws Inr by (simp add: e absEvent_def)
    moreover have "memoryOk (Suc n) s1" "eth_db s1 = eth_db s" "eth_rollback s1 = eth_rollback s" using laws by simp_all
    ultimately show ?thesis using Cons.IH [OF Cons.prems(1) rows _ _ _ run] Cons.prems(4,5) by simp
  qed
qed (auto simp: returnS_def)

section \<open>A block as a list of events\<close>

text \<open>The addresses of a transaction, as far as they parse, and the events of its parts in the order of the code.\<close>

definition addrOf :: "'db ethConf \<Rightarrow> string \<Rightarrow> bytes option" where
  "addrOf c x = (case p_GetAddrDescFromAddress (eth_parser c) x of Inl _ \<Rightarrow> None | Inr a \<Rightarrow> Some a)"

definition touch :: "bytes \<Rightarrow> int \<Rightarrow> bool \<Rightarrow> bytes option \<Rightarrow> ethEvent list" where
  "touch b idx addTxCount a = (case a of None \<Rightarrow> [] | Some a \<Rightarrow> [(a, b, idx, None, addTxCount, True)])"

definition baseTo :: "'db ethConf \<Rightarrow> EthTx \<Rightarrow> bytes option" where
  "baseTo c tx =
     (case tx_Vout (etx_Tx tx) of
        [vout] \<Rightarrow> (case vout_ScriptPubKeyAddresses vout of [a] \<Rightarrow> addrOf c a | _ \<Rightarrow> None)
      | _ \<Rightarrow> None)"

definition baseFrom :: "'db ethConf \<Rightarrow> EthTx \<Rightarrow> bytes option" where
  "baseFrom c tx =
     (case tx_Vin (etx_Tx tx) of
        [vin] \<Rightarrow> (case vin_Addresses vin of [a] \<Rightarrow> addrOf c a | _ \<Rightarrow> None)
      | _ \<Rightarrow> None)"

definition baseEvents :: "'db ethConf \<Rightarrow> bytes \<Rightarrow> EthTx \<Rightarrow> ethEvent list" where
  "baseEvents c b tx =
     touch b transferTo True (baseTo c tx) @
     touch b transferFrom (orNil (baseFrom c tx) \<noteq> orNil (baseTo c tx)) (baseFrom c tx)"

definition internalTransferEvents :: "'db ethConf \<Rightarrow> bytes \<Rightarrow> EthereumInternalTransfer \<Rightarrow> ethEvent list" where
  "internalTransferEvents c b t =
     touch b internalTransferTo True (addrOf c (eit_To t)) @
     touch b internalTransferFrom (orNil (addrOf c (eit_From t)) \<noteq> orNil (addrOf c (eit_To t))) (addrOf c (eit_From t))"

definition createEvents :: "'db ethConf \<Rightarrow> bytes \<Rightarrow> EthereumInternalData \<Rightarrow> ethEvent list" where
  "createEvents c b eid =
     (if eid_Type eid = CREATE then touch b internalTransferTo True (addrOf c (eid_Contract eid)) else [])"

definition internalEvents :: "'db ethConf \<Rightarrow> bytes \<Rightarrow> EthTx \<Rightarrow> ethEvent list" where
  "internalEvents c b tx =
     (case etx_InternalData tx of
        None \<Rightarrow> []
      | Some eid \<Rightarrow> createEvents c b eid @ concat (map (internalTransferEvents c b) (eid_Transfers eid)))"

definition transferAddresses :: "'db ethConf \<Rightarrow> TokenTransfer \<Rightarrow> (bytes \<times> bytes \<times> bytes) option" where
  "transferAddresses c t = do {
     k \<leftarrow> addrOf c (tt_Contract t);
     from \<leftarrow> addrOf c (tt_From t);
     to \<leftarrow> addrOf c (tt_To t);
     Some (k, from, to)
   }"

definition transferEvents :: "'db ethConf \<Rightarrow> bytes \<Rightarrow> nat \<times> TokenTransfer \<Rightarrow> ethEvent list" where
  "transferEvents c b it =
     (case it of (i, t) \<Rightarrow> case transferAddresses c t of
        None \<Rightarrow> []
      | Some (k, from, to) \<Rightarrow>
          let mut = (\<not> isNFTSelfTransfer from to (tt_Standard t)) in
          [(to, b, int32 (int i), Some (k, t), True, mut), (from, b, NOT (int32 (int i)), Some (k, t), from \<noteq> to, mut)])"

definition transfersOf :: "'db ethConf \<Rightarrow> EthTx \<Rightarrow> TokenTransfer list" where
  "transfersOf c tx = (case ec_tokenTransfers c tx of Inl _ \<Rightarrow> [] | Inr ts \<Rightarrow> ts)"

definition tokenEvents :: "'db ethConf \<Rightarrow> bytes \<Rightarrow> EthTx \<Rightarrow> ethEvent list" where
  "tokenEvents c b tx = concat (map (transferEvents c b) (enumerate 0 (transfersOf c tx)))"

definition txEvents :: "'db ethConf \<Rightarrow> bytes \<Rightarrow> EthTx \<Rightarrow> ethEvent list" where
  "txEvents c b tx = baseEvents c b tx @ internalEvents c b tx @ tokenEvents c b tx"

definition transferContract :: "'db ethConf \<Rightarrow> TokenTransfer \<Rightarrow> ethBlockTxContract" where
  "transferContract c t =
     (case transferAddresses c t of
        None \<Rightarrow> emptyBlockTxContract
      | Some (k, from, to) \<Rightarrow>
          \<lparr>bc_from = from, bc_to = to, bc_contract = k, bc_transferStandard = tt_Standard t, bc_value = tt_Value t,
           bc_idValues = tt_MultiTokenValues t\<rparr>)"

definition internalOf :: "'db ethConf \<Rightarrow> EthereumInternalData \<Rightarrow> ethInternalData" where
  "internalOf c eid =
     (let contract = (if eid_Type eid = CREATE then addrOf c (eid_Contract eid) else None) in
      \<lparr>id_internalType = (if eid_Type eid = CREATE \<and> contract = None then CALL else eid_Type eid),
       id_contract = orNil contract,
       id_transfers = map (\<lambda>t. \<lparr>it_internalType = eit_Type t, it_from = orNil (addrOf c (eit_From t)),
         it_to = orNil (addrOf c (eit_To t)), it_value = eit_Value t\<rparr>) (eid_Transfers eid),
       id_errorMsg = eid_Error eid\<rparr>)"

definition blockTxOfTx :: "'db ethConf \<Rightarrow> bytes \<Rightarrow> EthTx \<Rightarrow> ethBlockTx" where
  "blockTxOfTx c b tx =
     \<lparr>ebt_btxID = b, ebt_from = orNil (baseFrom c tx), ebt_to = orNil (baseTo c tx),
      ebt_contracts = map (transferContract c) (transfersOf c tx),
      ebt_internalData = map_option (internalOf c) (etx_InternalData tx)\<rparr>"

lemma bindS_return [simp]: "bindS (returnS x) f = f x" "bindS m returnS = m"
  by (auto simp: bindS_def returnS_def fun_eq_iff split: prod.split sum.split)

lemma bindS_assoc [simp]: "bindS (bindS m f) g = bindS m (\<lambda>x. bindS (f x) g)"
  by (auto simp: bindS_def fun_eq_iff split: prod.split sum.split)

lemma runEvents_append [simp]: "runEvents c (es @ fs) = bindS (runEvents c es) (\<lambda>_. runEvents c fs)"
  by (induction es) simp_all

lemma runEvents_single: "addToAddressesAndContractsEthereumType c a b idx tr cnt mut = runEvents c [(a, b, idx, tr, cnt, mut)]"
proof -
  have "(\<lambda>_. returnS ()) = (returnS :: unit \<Rightarrow> _)" by (rule ext) simp
  then show ?thesis by (simp add: runEvent_def)
qed

lemma mapS_events:
  "(\<And>x. x \<in> set xs \<Longrightarrow> f x = bindS (runEvents c (E x)) (\<lambda>_. returnS (G x))) \<Longrightarrow>
   mapS f xs = bindS (runEvents c (concat (map E xs))) (\<lambda>_. returnS (map G xs))"
  by (induction xs) simp_all

lemma processBaseTxData_events:
  "processBaseTxData c (emptyBlockTx b) tx =
     bindS (runEvents c (baseEvents c b tx)) (\<lambda>_. returnS ((emptyBlockTx b)\<lparr>ebt_from := orNil (baseFrom c tx),
       ebt_to := orNil (baseTo c tx)\<rparr>))"
proof -
  define single where "single = (\<lambda>as. case as of [a] \<Rightarrow> p_GetAddrDescFromAddress (eth_parser c) a | _ \<Rightarrow> Inl ErrAddressMissing)"
  define out where "out = single (case tx_Vout (etx_Tx tx) of [vout] \<Rightarrow> vout_ScriptPubKeyAddresses vout | _ \<Rightarrow> [])"
  define inp where "inp = single (case tx_Vin (etx_Tx tx) of [vin] \<Rightarrow> vin_Addresses vin | _ \<Rightarrow> [])"
  have t: "baseTo c tx = (case out of Inl _ \<Rightarrow> None | Inr a \<Rightarrow> Some a)"
    by (auto simp: baseTo_def out_def single_def addrOf_def split: list.split)
  have f: "baseFrom c tx = (case inp of Inl _ \<Rightarrow> None | Inr a \<Rightarrow> Some a)"
    by (auto simp: baseFrom_def inp_def single_def addrOf_def split: list.split)
  show ?thesis
    unfolding processBaseTxData_def Let_def runEvents_single single_def [symmetric] out_def [symmetric] inp_def [symmetric]
      baseEvents_def t f
    by (cases out; cases inp) (simp_all add: touch_def orNil_def emptyBlockTx_def)
qed

lemma addInternal_events:
  "addInternal c b height False x idx cnt =
     bindS (runEvents c (touch b idx (cnt (orNil (addrOf c x))) (addrOf c x))) (\<lambda>_. returnS (addrOf c x))"
  by (cases "p_GetAddrDescFromAddress (eth_parser c) x")
    (simp_all add: addInternal_def addrOf_def touch_def orNil_def runEvents_single)

lemma processInternalTransfer_events:
  "processInternalTransfer c b height False t =
     bindS (runEvents c (internalTransferEvents c b t)) (\<lambda>_. returnS
       \<lparr>it_internalType = eit_Type t, it_from = orNil (addrOf c (eit_From t)), it_to = orNil (addrOf c (eit_To t)),
        it_value = eit_Value t\<rparr>)"
  by (simp add: processInternalTransfer_def addInternal_events internalTransferEvents_def)

lemma processInternalData_events:
  "processInternalData c blockTx height eid False =
     bindS (runEvents c (createEvents c (ebt_btxID blockTx) eid @
       concat (map (internalTransferEvents c (ebt_btxID blockTx)) (eid_Transfers eid))))
       (\<lambda>_. returnS (blockTx\<lparr>ebt_internalData := Some (internalOf c eid)\<rparr>))"
proof -
  note transfers = mapS_events [OF processInternalTransfer_events]
  show ?thesis
    by (simp add: processInternalData_def Let_def addInternal_events transfers createEvents_def internalOf_def)
qed

lemma processTokenTransfer_events:
  "processTokenTransfer c b it = bindS (runEvents c (transferEvents c b it)) (\<lambda>_. returnS (transferContract c (snd it)))"
proof -
  obtain i t where it: "it = (i, t)" by fastforce
  show ?thesis
    by (cases "p_GetAddrDescFromAddress (eth_parser c) (tt_Contract t)"; cases "p_GetAddrDescFromAddress (eth_parser c) (tt_From t)";
        cases "p_GetAddrDescFromAddress (eth_parser c) (tt_To t)")
      (simp_all add: it processTokenTransfer_def transferEvents_def transferContract_def transferAddresses_def addrOf_def
        runEvents_single Let_def)
qed

lemma processTx_events:
  "processTx c tx =
     (case p_PackTxid (eth_parser c) (tx_Txid (etx_Tx tx)) of
        Inl e \<Rightarrow> (\<lambda>s. (Inl e, s))
      | Inr b \<Rightarrow> bindS (runEvents c (txEvents c b tx)) (\<lambda>_. returnS (blockTxOfTx c b tx)))"
proof -
  note transfers = mapS_events [OF processTokenTransfer_events]
  have "map (transferContract c \<circ> snd) (enumerate 0 ts) = map (transferContract c) ts" for ts
    by (simp flip: map_map)
  then have contracts: "map (\<lambda>it. transferContract c (snd it)) (enumerate 0 ts) = map (transferContract c) ts" for ts
    by (simp add: comp_def)
  show ?thesis
    unfolding processTx_def processBaseTxData_events
    by (auto simp: processInternalData_events processContractTransfers_def transfers
        txEvents_def internalEvents_def tokenEvents_def transfersOf_def blockTxOfTx_def emptyBlockTx_def contracts Let_def
        split: sum.split option.split)
qed

text \<open>The transactions of a block up to the first one whose id does not pack.\<close>

fun blockEvents :: "'db ethConf \<Rightarrow> EthTx list \<Rightarrow> ethEvent list" where
  "blockEvents c [] = []"
| "blockEvents c (tx # txs) =
     (case p_PackTxid (eth_parser c) (tx_Txid (etx_Tx tx)) of
        Inl e \<Rightarrow> []
      | Inr b \<Rightarrow> txEvents c b tx @ blockEvents c txs)"

lemma processTxs_laws:
  assumes "uncapped c" and "rowsOk n c (eth_db s)" and "memoryOk n s" and "n + length (blockEvents c txs) + 3 < 2 ^ 31"
    and "list_all eventOk (blockEvents c txs)" and "\<And>x. p_PackTxid (eth_parser c) x \<noteq> Inl Panic"
    and "mapS (processTx c) txs s = (r, s')"
  shows "r \<noteq> Inl Panic \<and> memoryOk (n + length (blockEvents c txs)) s' \<and> eth_db s' = eth_db s"
  using assms
proof (induction txs arbitrary: n s r s')
  case (Cons tx txs)
  show ?case
  proof (cases "p_PackTxid (eth_parser c) (tx_Txid (etx_Tx tx))")
    case (Inl e)
    with Cons.prems(3,6,7) show ?thesis by (auto simp: processTx_events [of c tx] bindS_def)
  next
    case (Inr b)
    obtain r1 s1 where r1: "runEvents c (txEvents c b tx) s = (r1, s1)" by fastforce
    have "n + length (txEvents c b tx) + 3 < 2 ^ 31" "list_all eventOk (txEvents c b tx)"
      using Cons.prems(4,5) Inr by simp_all
    note laws = runEvents_laws [OF Cons.prems(1-3) this r1]
    show ?thesis
    proof (cases r1)
      case (Inl e)
      with Cons.prems(7) Inr r1 laws memoryOk_mono [of "n + length (txEvents c b tx)" s1] show ?thesis
        by (auto simp: processTx_events [of c tx] bindS_def)
    next
      case r: (Inr u)
      obtain r2 s2 where r2: "mapS (processTx c) txs s1 = (r2, s2)" by fastforce
      with Cons.prems(7) Inr r1 r have e: "s' = s2" "r = Inl Panic \<longrightarrow> r2 = Inl Panic"
        by (auto simp: processTx_events [of c tx] bindS_def returnS_def split: sum.splits)
      have "rowsOk (n + length (txEvents c b tx)) c (eth_db s1)"
        using laws rowsOk_mono [OF Cons.prems(2)] by simp
      with Cons.IH [OF Cons.prems(1) this _ _ _ Cons.prems(6) r2] laws Cons.prems(4,5) Inr e show ?thesis
        by (simp add: add.assoc)
    qed
  qed
qed (auto simp: returnS_def)

lemma touch_eventOk [simp]: "list_all eventOk (touch b idx cnt a)"
  by (simp add: touch_def eventOk_def split: option.split)

lemma blockEvents_ok:
  assumes "\<And>tx t. tx \<in> set txs \<Longrightarrow> t \<in> set (transfersOf c tx) \<Longrightarrow> transferOk t"
  shows "list_all eventOk (blockEvents c txs)"
  using assms
proof (induction txs)
  case (Cons tx txs)
  have tok: "list_all eventOk (transferEvents c b (i, t))" if "t \<in> set (transfersOf c tx)" for b i t
    using Cons.prems [of tx t] that by (auto simp: transferEvents_def eventOk_def Let_def split: option.split)
  have "list_all eventOk (tokenEvents c b tx)" for b
  proof -
    have "snd p \<in> set (transfersOf c tx)" if "p \<in> set (enumerate 0 (transfersOf c tx))" for p
      using that nth_mem [of "fst p" "transfersOf c tx"] by (auto simp: in_set_enumerate_eq)
    then show ?thesis using tok by (fastforce simp: tokenEvents_def list_all_iff)
  qed
  moreover have "list_all eventOk (baseEvents c b tx @ internalEvents c b tx)" for b
    by (auto simp: baseEvents_def internalEvents_def createEvents_def internalTransferEvents_def list_all_iff
        dest!: touch_eventOk [unfolded list_all_iff, rule_format] split: option.split)
  ultimately have "list_all eventOk (txEvents c b tx)" for b by (simp add: txEvents_def)
  moreover have "list_all eventOk (blockEvents c txs)" using Cons.prems by (intro Cons.IH) auto
  ultimately show ?case by (simp split: sum.split)
qed simp


section \<open>A concrete configuration\<close>

definition demoConf :: "TokenTransfer list \<Rightarrow> memdb ethConf" where
  "demoConf ts =
     \<lparr>ec_d = demoDB False False, ec_store = mem_store, ec_tokenTransfers = (\<lambda>_. Inr ts), ec_minSize = 0, ec_maxBytes = 0\<rparr>"

definition demoEth :: "memdb ethState" where
  "demoEth =
     \<lparr>eth_reg = demoRegistry, eth_is = demoState, eth_heap = [], eth_cache = [], eth_cacheBytes = 0, eth_lastStore = 0,
      eth_hot = None, eth_addresses = [], eth_contracts = [],
      eth_rollback = \<lparr>er_addresses = [], er_rows = [], er_destroyedAt = []\<rparr>\<rparr>"

lemma demoConf_simps [simp]:
  "ec_d (demoConf ts) = demoDB False False" "ec_store (demoConf ts) = mem_store" "ec_tokenTransfers (demoConf ts) tx = Inr ts"
  "eth_vlq (demoConf ts) = leb_vlq" "eth_parser (demoConf ts) = demoParser False" "ec_maxBytes (demoConf ts) = 0"
  by (simp_all add: demoConf_def eth_vlq_def eth_parser_def)

lemma demo_ok [simp]:
  "uncapped (demoConf ts)" "memoryOk n demoEth" "rowsOk n (demoConf ts) (eth_db demoEth)"
  by (simp_all add: uncapped_def memoryOk_def demoEth_def pointer_def rowsOk_def demoRegistry_def mem_store_def mem_get_def val_Data_def)

definition demoNFT :: TokenTransfer where
  "demoNFT = \<lparr>tt_Standard = 1, tt_Contract = hex_encode (replicate 20 7), tt_From = hex_encode (replicate 20 5),
     tt_To = hex_encode (replicate 20 6), tt_Value = 300, tt_MultiTokenValues = []\<rparr>"

definition demoEthTx :: "byte \<Rightarrow> EthTx" where
  "demoEthTx b =
     \<lparr>etx_Tx = demoTx b [(demoVin [] 0)\<lparr>vin_Addresses := [hex_encode (replicate 20 5)]\<rparr>]
        [(demoVout 1 [])\<lparr>vout_ScriptPubKeyAddresses := [hex_encode (replicate 20 6)]\<rparr>],
      etx_InternalData = None\<rparr>"

lemma demoParser_address [simp]:
  "p_GetAddrDescFromAddress (demoParser False) (hex_encode (replicate 20 b)) = Inr (replicate 20 b)"
  by (simp add: demoParser_def)

lemma demoEthTx_events:
  "txEvents (demoConf [demoNFT]) (replicate 32 b) (demoEthTx b) =
     [(replicate 20 6, replicate 32 b, 0, None, True, True), (replicate 20 5, replicate 32 b, - 1, None, True, True),
      (replicate 20 6, replicate 32 b, 0, Some (replicate 20 7, demoNFT), True, True),
      (replicate 20 5, replicate 32 b, - 1, Some (replicate 20 7, demoNFT), True, True)]"
  by (simp add: txEvents_def baseEvents_def baseTo_def baseFrom_def internalEvents_def tokenEvents_def transfersOf_def demoEthTx_def
      demoTx_def demoVin_def demoVout_def demoNFT_def touch_def addrOf_def transferTo_def transferFrom_def orNil_def
      transferEvents_def transferAddresses_def isNFTSelfTransfer_def Let_def int32_def not_int_def)

lemma hex_decode_no_panic: "hex_decode x \<noteq> Inl Panic"
proof (induction x rule: hex_decode.induct)
  case (3 c d cs)
  then show ?case by (cases "hex_decode cs") (auto split: option.split)
qed simp_all


end
