(* ===== verification/EthDisconnectLaws.thy ===== *)
theory EthDisconnectLaws
  imports EthDisconnect EthConnectLaws BlocksLaws
begin

text \<open>
  What a disconnection reads back of a connected block of an Ethereum-type chain, and what it undoes.
\<close>

section \<open>The row of a block\<close>

lemma length_appendAddress [simp]: "length (appendAddress a) = 20"
  by (simp add: appendAddress_def ethZeroAddress_def EthereumTypeAddressDescriptorLen_def)

lemma getAddress_append [simp]: "getAddress (appendAddress a @ rest) = Inr (appendAddress a, rest)"
  by (simp add: getAddress_def EthereumTypeAddressDescriptorLen_def)

lemma readVaruint_pack [simp]: "vlq_ok v \<Longrightarrow> readVaruint v (packVaruint v x @ rest) = Inr (x, rest)"
  by (simp add: readVaruint_def unpackVaruint_pack)

lemma readBigint_pack [simp]: "amount x \<Longrightarrow> readBigint (packBigint x @ rest) = Inr (x, rest)"
  by (simp add: readBigint_def unpackBigint_pack)

lemma readN_pack:
  "(\<And>x rest. x \<in> set xs \<Longrightarrow> f (pack x @ rest) = Inr (g x, rest)) \<Longrightarrow>
   readN f (length xs) (concat (map pack xs) @ rest) = Inr (map g xs, rest)"
  by (induction xs) simp_all

text \<open>What is read back of a transfer and of a transaction: an address that is missing comes back as the zero address.\<close>

definition storedContract :: "ethBlockTxContract \<Rightarrow> ethBlockTxContract" where
  "storedContract ct =
     \<lparr>bc_from = appendAddress (bc_from ct), bc_to = appendAddress (bc_to ct), bc_contract = appendAddress (bc_contract ct),
      bc_transferStandard = bc_transferStandard ct,
      bc_value = (if bc_transferStandard ct = MultiToken then 0 else bc_value ct),
      bc_idValues = (if bc_transferStandard ct = MultiToken then bc_idValues ct else [])\<rparr>"

definition storedBlockTx :: "ethBlockTx \<Rightarrow> ethBlockTx" where
  "storedBlockTx t =
     \<lparr>ebt_btxID = ebt_btxID t, ebt_from = appendAddress (ebt_from t), ebt_to = appendAddress (ebt_to t),
      ebt_contracts = map storedContract (ebt_contracts t), ebt_internalData = None\<rparr>"

definition blockTxContractOk :: "ethBlockTxContract \<Rightarrow> bool" where
  "blockTxContractOk ct \<longleftrightarrow>
     - (2 ^ 63) \<le> bc_transferStandard ct \<and> bc_transferStandard ct < 2 ^ 63 \<and> amount (bc_value ct) \<and>
     list_all mtvOk (bc_idValues ct) \<and> length (bc_idValues ct) < 2 ^ 64"

definition blockTxOk :: "ethBlockTx \<Rightarrow> bool" where
  "blockTxOk t \<longleftrightarrow>
     length (ebt_btxID t) = 32 \<and> length (ebt_contracts t) < 2 ^ 64 \<and> list_all blockTxContractOk (ebt_contracts t)"

lemma sint_word_of_int: "- (2 ^ 63) \<le> x \<Longrightarrow> x < 2 ^ 63 \<Longrightarrow> sint (word_of_int x :: uint64) = x"
  by (simp add: sint_sbintrunc' signed_take_bit_int_eq_self)

lemma unat_length_word: "length xs < 2 ^ 64 \<Longrightarrow> unat (of_nat (length xs) :: uint64) = length xs"
  by (simp add: unsigned_of_nat take_bit_nat_eq_self)

lemma unpackBlockTxContract_pack:
  assumes "vlq_ok v" and "blockTxContractOk ct"
  shows "unpackBlockTxContract v (packBlockTxContract v ct @ rest) = Inr (storedContract ct, rest)"
proof -
  have "readN readIdValue (length (bc_idValues ct))
      (concat (map (\<lambda>m. packBigint (mtv_Id m) @ packBigint (mtv_Value m)) (bc_idValues ct)) @ rest) =
      Inr (map (\<lambda>m. m) (bc_idValues ct), rest)"
    using assms(2) by (intro readN_pack) (auto simp: readIdValue_def blockTxContractOk_def list_all_iff mtvOk_def)
  with assms show ?thesis
    by (simp add: unpackBlockTxContract_def packBlockTxContract_def storedContract_def Let_def blockTxContractOk_def
        sint_word_of_int unat_length_word)
qed

lemma eth_unpackBlockTx_pack:
  assumes "vlq_ok v" and "blockTxOk t"
  shows "eth_unpackBlockTx v (eth_packBlockTx v t @ rest) = Inr (storedBlockTx t, rest)"
proof -
  have "readN (unpackBlockTxContract v) (length (ebt_contracts t)) (concat (map (packBlockTxContract v) (ebt_contracts t)) @ rest) =
      Inr (map storedContract (ebt_contracts t), rest)"
    using assms by (intro readN_pack) (simp add: unpackBlockTxContract_pack blockTxOk_def list_all_iff)
  with assms show ?thesis
    by (simp add: eth_unpackBlockTx_def eth_packBlockTx_def blockTxOk_def EthereumTypeTxidLen_def emptyBlockTx_def
        storedBlockTx_def unat_length_word)
qed

lemma unpackBlockTxs_pack:
  assumes "vlq_ok v" and "list_all blockTxOk ts" and "length (concat (map (eth_packBlockTx v) ts)) \<le> fuel"
  shows "unpackBlockTxs fuel v (concat (map (eth_packBlockTx v) ts)) = Inr (map storedBlockTx ts)"
  using assms(2,3)
proof (induction ts arbitrary: fuel)
  case (Cons t ts)
  then have "32 \<le> length (eth_packBlockTx v t)" by (simp add: eth_packBlockTx_def blockTxOk_def)
  with Cons.prems obtain f where f: "fuel = Suc f" "length (concat (map (eth_packBlockTx v) ts)) \<le> f"
    by (cases fuel) auto
  with Cons.IH [of f] Cons.prems \<open>32 \<le> _\<close> show ?case
    by (subst unpackBlockTxs.simps) (auto simp: eth_unpackBlockTx_pack [OF assms(1)])
qed (simp add: unpackBlockTxs.simps)

text \<open>C38: The row that connects a block to its later disconnection is read back as it was stored, up to what the format
  cannot express: an address that a transaction or a transfer does not have, such as the recipient of a contract
  creation, comes back as the zero address. Rows removed by the cleanup of old blocks do not include it.\<close>

theorem eth_block_txs_roundtrip:
  assumes "vlq_ok (eth_vlq c)" and "store_ok (ec_store c)"
    and "storeAndCleanupBlockTxsEthereumType c s block ts = Inr wb" and "s_Write (ec_store c) (eth_db s) wb = Inr db"
    and "list_all blockTxOk ts" and "0 < (word_of_int (p_KeepBlockAddresses (eth_parser c)) :: uint32)"
  shows "getBlockTxsEthereumType c (setDb db s) (block_Height block) = Inr (Some (map storedBlockTx ts))"
proof -
  obtain cl where cl: "cleanupBlockTxs (ec_d c) (eth_get c s) block = Inr cl"
    and wb: "wb = PutCF cfBlockTxs (packUint (block_Height block)) (concat (map (eth_packBlockTx (eth_vlq c)) ts)) # cl"
    using assms(3) by (auto simp: storeAndCleanupBlockTxsEthereumType_def bindR_eq_Inr)
  have "after (eth_get c s) wb cfBlockTxs (packUint (block_Height block)) =
      Inr (Some (concat (map (eth_packBlockTx (eth_vlq c)) ts)))"
    using expiredRow_self [OF assms(6), of "eth_get c s" "block_Height block"]
    by (simp add: after_def wb eth_parser_def cleanupBlockTxs_effect(1) [OF cl refl])
  with assms(2,4) have "eth_get c (setDb db s) cfBlockTxs (packUint (block_Height block)) =
      Inr (Some (concat (map (eth_packBlockTx (eth_vlq c)) ts)))"
    by (simp add: store_ok_def eth_get_def setDb_def)
  then show ?thesis
    by (simp add: getBlockTxsEthereumType_def unpackBlockTxs_pack [OF assms(1,5)])
qed

definition demoCreationTx :: ethBlockTx where
  "demoCreationTx =
     \<lparr>ebt_btxID = replicate 32 1, ebt_from = replicate 20 5, ebt_to = [],
      ebt_contracts = [\<lparr>bc_from = replicate 20 5, bc_to = replicate 20 6, bc_contract = replicate 20 7, bc_transferStandard = 1,
        bc_value = 300, bc_idValues = []\<rparr>], ebt_internalData = None\<rparr>"

theorem eth_block_txs_roundtrip_witness:
  "\<exists>wb db. storeAndCleanupBlockTxsEthereumType (demoConf []) demoEth (demoBlock 1 []) [demoCreationTx] = Inr wb \<and>
    s_Write mem_store [] wb = Inr db \<and>
    getBlockTxsEthereumType (demoConf []) (setDb db demoEth) 1 = Inr (Some [demoCreationTx\<lparr>ebt_to := replicate 20 0\<rparr>])"
proof -
  have h: "block_Height (demoBlock 1 []) = 1" by (simp add: demoBlock_def)
  obtain wb where wb: "storeAndCleanupBlockTxsEthereumType (demoConf []) demoEth (demoBlock 1 []) [demoCreationTx] = Inr wb"
    by (simp add: storeAndCleanupBlockTxsEthereumType_def cleanupBlockTxs_def Let_def h demoParser_def)
  obtain db where db: "s_Write mem_store [] wb = Inr db" by (simp add: mem_store_def)
  have "amount 300" by (simp add: amount_def)
  then have ok: "list_all blockTxOk [demoCreationTx]" by (simp add: blockTxOk_def demoCreationTx_def blockTxContractOk_def)
  have "storedBlockTx demoCreationTx = demoCreationTx\<lparr>ebt_to := replicate 20 0\<rparr>"
    by (simp add: storedBlockTx_def demoCreationTx_def storedContract_def appendAddress_def ethZeroAddress_def
        EthereumTypeAddressDescriptorLen_def MultiToken_def)
  with eth_block_txs_roundtrip [of "demoConf []" demoEth "demoBlock 1 []" "[demoCreationTx]" wb db, OF _ _ wb _ ok] wb db show ?thesis
    by (simp add: vlq_ok_leb store_ok_mem demoParser_def h demoEth_def demoRegistry_def)
qed

end
