(* ===== verification/EthRollbackLaws.thy ===== *)
theory EthRollbackLaws
  imports EthDisconnectLaws
begin

text \<open>
  Disconnecting a block of an Ethereum-type chain undoes what connecting it did to the counters and token holdings of
  every address. Both directions are lists of events at addresses; counters commute, and transfers of tokens are undone
  in the reverse of their order.
\<close>

section \<open>Undoing an event at one address\<close>

type_synonym undoEvent = "bytes \<times> bytes \<times> bool \<times> ethBlockTxContract option"

definition undoTransferOf :: "ethBlockTxContract \<Rightarrow> TokenTransfer" where
  "undoTransferOf bc =
     \<lparr>tt_Standard = bc_transferStandard bc, tt_Contract = [], tt_From = [], tt_To = [], tt_Value = bc_value bc,
      tt_MultiTokenValues = bc_idValues bc\<rparr>"

definition undoHolding :: "bytes \<Rightarrow> ethBlockTxContract \<Rightarrow> tokenView \<Rightarrow> tokenView" where
  "undoHolding a bc tv =
     (let t = undoTransferOf bc in
      if bc_from bc = bc_to bc then
        if isNFTSelfTransfer (bc_from bc) (bc_to bc) (bc_transferStandard bc) then tv
        else tokenAfter transferFrom t False True (tokenAfter transferTo t False True tv)
      else tokenAfter (if a = bc_to bc then transferFrom else transferTo) t False True tv)"

definition undoToken :: "bytes \<Rightarrow> ethBlockTxContract \<Rightarrow> (bytes \<rightharpoonup> tokenView) \<Rightarrow> bytes \<rightharpoonup> tokenView" where
  "undoToken a bc M =
     (case M (bc_contract bc) of
        None \<Rightarrow> M
      | Some tv \<Rightarrow>
          if tv_Txs tv = 0 then M
          else
            let tv = tv\<lparr>tv_Txs := tv_Txs tv - 1\<rparr> in
            M(bc_contract bc := (if tv_Txs tv = 0 then None else Some (undoHolding a bc tv))))"

definition undoView :: "undoEvent \<Rightarrow> bool \<Rightarrow> addrView \<Rightarrow> addrView" where
  "undoView d ftx v =
     (case d of (a, b, internal, btxContract) \<Rightarrow>
        let v = (if ftx then v else v\<lparr>av_TotalTxs := av_TotalTxs v - 1\<rparr>) in
        case btxContract of
          None \<Rightarrow>
            if internal then (if av_InternalTxs v = 0 then v else v\<lparr>av_InternalTxs := av_InternalTxs v - 1\<rparr>)
            else (if av_NonContractTxs v = 0 then v else v\<lparr>av_NonContractTxs := av_NonContractTxs v - 1\<rparr>)
        | Some bc \<Rightarrow> v\<lparr>av_Tokens := undoToken a bc (av_Tokens v)\<rparr>)"

lemma tokensOf_remove:
  assumes "distinct (map uc_Contract cs)" and "i < length cs" and "uc_Contract (cs ! i) = k"
  shows "tokensOf (take i cs @ drop (i + 1) cs) = (tokensOf cs)(k := None)"
proof -
  define xs ys where "xs = take i cs" and "ys = drop (Suc i) cs"
  have cs: "cs = xs @ cs ! i # ys" using assms(2) by (simp add: xs_def ys_def id_take_nth_drop [symmetric])
  have k: "k \<notin> uc_Contract ` set xs" "k \<notin> uc_Contract ` set ys" using assms(1,3) by (subst (asm) cs, auto)+
  have "tokensOf (xs @ ys) = tokensOf ys ++ tokensOf xs" "tokensOf (xs @ z # ys) = tokensOf ys ++ [uc_Contract z \<mapsto> tokenOf z] ++ tokensOf xs" for z
    by (simp_all add: tokensOf_def map_add_def fun_eq_iff split: option.split)
  moreover have "tokensOf xs k = None" "tokensOf ys k = None" using k by (simp_all add: tokensOf_None)
  moreover have "take i cs @ drop (i + 1) cs = xs @ ys" by (simp add: xs_def ys_def)
  ultimately show ?thesis
    by (subst (3) cs) (auto simp: fun_eq_iff map_add_def assms(3) split: option.split)
qed

lemma undoTransfer_laws:
  assumes ct: "holdingOk ct" and t: "transferOk (undoTransferOf bc)" and i: "int i + 2 < 2 ^ 31"
  shows "\<exists>ct'. undoTransfer a bc i ct = Some ct' \<and> holdingOk ct' \<and> uc_Contract ct' = uc_Contract ct \<and>
    tokenOf ct' = undoHolding a bc (tokenOf ct)"
proof -
  define add where "add = (\<lambda>idx ct. map_option snd (addToContract ct i idx (undoTransferOf bc) False True))"
  have step: "\<exists>ct'. add idx ct = Some ct' \<and> holdingOk ct' \<and> uc_Contract ct' = uc_Contract ct \<and>
      tokenOf ct' = tokenAfter idx (undoTransferOf bc) False True (tokenOf ct)" if "holdingOk ct" for idx ct
    using addToContract_effect [OF that t i, of idx False True] by (auto simp: add_def tokenOf_def tokenAfter_def)
  have def: "undoTransfer a bc i ct =
      (if bc_from bc = bc_to bc then
         if isNFTSelfTransfer (bc_from bc) (bc_to bc) (bc_transferStandard bc) then Some ct
         else add transferTo ct \<bind> add transferFrom
       else add (if a = bc_to bc then transferFrom else transferTo) ct)"
    by (simp add: undoTransfer_def add_def undoTransferOf_def Let_def)
  obtain c1 where c1: "add transferTo ct = Some c1" "holdingOk c1" "uc_Contract c1 = uc_Contract ct"
    "tokenOf c1 = tokenAfter transferTo (undoTransferOf bc) False True (tokenOf ct)" using step [OF ct] by blast
  show ?thesis
  proof (cases "bc_from bc = bc_to bc")
    case True
    with c1 step [OF c1(2), of transferFrom] ct show ?thesis unfolding def undoHolding_def by (auto simp: Let_def)
  next
    case False
    with step [OF ct, of "if a = bc_to bc then transferFrom else transferTo"] show ?thesis
      unfolding def undoHolding_def by (simp add: Let_def)
  qed
qed

lemma disconnectContract_laws:
  assumes ac: "recordOk n ac" and t: "transferOk (undoTransferOf bc)" and n: "n + 3 < 2 ^ 31"
  shows "\<exists>ac'. disconnectContract a bc ac = Some ac' \<and> recordOk n ac' \<and>
    viewOf ac' = (viewOf ac)\<lparr>av_Tokens := undoToken a bc (av_Tokens (viewOf ac))\<rparr>"
proof -
  let ?k = "bc_contract bc" and ?cs = "uacs_Contracts ac"
  have ix: "indexOk ac" and d: "distinct (map uc_Contract ?cs)" using ac by (simp_all add: recordOk_def indexOk_def)
  have f: "findContractIndex a ?k None ac = (findContractInAddressContracts ?k ?cs, None, None, ac)"
    by (simp add: findContractIndex_def decideIndex_def lookupContractIndex_def)
  show ?thesis
  proof (rule findContract_cases [of ?k ?cs])
    assume "findContractInAddressContracts ?k ?cs = None" "?k \<notin> uc_Contract ` set ?cs"
    with f ac show ?thesis
      by (auto simp: disconnectContract_def undoToken_def viewOf_def tokensOf_None [symmetric])
  next
    fix i assume i: "findContractInAddressContracts ?k ?cs = Some i" "i < length ?cs" "uc_Contract (?cs ! i) = ?k"
    define ct where "ct = ?cs ! i"
    have tv: "tokensOf ?cs ?k = Some (tokenOf ct)" using tokensOf_at [OF d i(2)] i(3) by (simp add: ct_def)
    have h: "holdingOk ct" using ac i(2) by (auto simp: recordOk_def list_all_length ct_def)
    have b: "int i + 2 < 2 ^ 31" using ac i(2) n by (simp add: recordOk_def)
    define ct1 where "ct1 = ct\<lparr>uc_Txs := uc_Txs ct - 1\<rparr>"
    have tv1: "tokenOf ct1 = (tokenOf ct)\<lparr>tv_Txs := uc_Txs ct - 1\<rparr>" and h1: "holdingOk ct1" "uc_Contract ct1 = ?k"
      using h i(3) by (simp_all add: ct1_def tokenOf_def idsOf_def valuesOf_def holdingOk_def ct_def)
    have txs: "tv_Txs (tokenOf ct) = uc_Txs ct" by (simp add: tokenOf_def)
    consider "uc_Txs ct = 0" | "uc_Txs ct \<noteq> 0" "uc_Txs ct - 1 = 0" | "uc_Txs ct \<noteq> 0" "uc_Txs ct - 1 \<noteq> 0" by blast
    then show ?thesis
    proof cases
      case 1
      with f i tv ac txs show ?thesis
        by (auto simp: disconnectContract_def index_def undoToken_def viewOf_def ct_def [symmetric])
    next
      case 2
      let ?ac = "markContractIndexDirty (ac\<lparr>uacs_Contracts := take i ?cs @ drop (i + 1) ?cs\<rparr>)"
      have cs: "uacs_Contracts ?ac = take i ?cs @ drop (i + 1) ?cs" "uacs_TotalTxs ?ac = uacs_TotalTxs ac"
        "uacs_NonContractTxs ?ac = uacs_NonContractTxs ac" "uacs_InternalTxs ?ac = uacs_InternalTxs ac"
        by (simp_all add: markContractIndexDirty_def)
      have "recordOk n ?ac"
        unfolding recordOk_def cs using ac indexOk_remove [OF ix, of i]
        by (auto simp: recordOk_def list_all_iff dest: in_set_takeD in_set_dropD)
      moreover have "viewOf ?ac = (viewOf ac)\<lparr>av_Tokens := undoToken a bc (av_Tokens (viewOf ac))\<rparr>"
        using tokensOf_remove [OF d i(2,3)] 2 tv txs unfolding viewOf_def cs by (simp add: undoToken_def)
      ultimately show ?thesis
        using f i 2 by (simp add: disconnectContract_def index_def ct_def [symmetric] word_neq_0_conv Let_def)
    next
      case 3
      obtain ct2 where ct2: "undoTransfer a bc i ct1 = Some ct2" "holdingOk ct2" "uc_Contract ct2 = ?k"
        "tokenOf ct2 = undoHolding a bc (tokenOf ct1)"
        using undoTransfer_laws [OF h1(1) t b, of a] h1(2) by auto
      have "recordOk n (ac\<lparr>uacs_Contracts := ?cs[i := ct2]\<rparr>)"
        using ac indexOk_update [OF ix i(2), of ct2] ct2(2,3) i(3)
        by (auto simp: recordOk_def list_all_iff dest: set_update_subset_insert [THEN subsetD])
      moreover have "tokensOf (?cs[i := ct2]) = (tokensOf ?cs)(?k \<mapsto> tokenOf ct2)"
        using tokensOf_update [OF d i(2), of ct2] ct2(3) i(3) by simp
      moreover have "disconnectContract a bc ac = Some (ac\<lparr>uacs_Contracts := ?cs[i := ct2]\<rparr>)"
        using f i 3 ct2(1) [unfolded ct1_def] by (simp add: disconnectContract_def index_def ct_def [symmetric] word_neq_0_conv Let_def)
      ultimately show ?thesis using 3 tv tv1 txs ct2(4) by (simp add: undoToken_def viewOf_def Let_def)
    qed
  qed
qed

definition undoOk :: "ethBlockTxContract option \<Rightarrow> bool" where
  "undoOk btxContract \<longleftrightarrow> (case btxContract of None \<Rightarrow> True | Some bc \<Rightarrow> transferOk (undoTransferOf bc))"

lemma disconnectRecord_laws:
  assumes "recordOk n ac" and "undoOk btxContract" and "n + 3 < 2 ^ 31"
  shows "\<exists>ac'. disconnectRecord a internal ftx btxContract ac = Some ac' \<and> recordOk n ac' \<and>
    viewOf ac' = undoView (a, b, internal, btxContract) ftx (viewOf ac)"
proof -
  define u where "u = (if ftx then ac else ac\<lparr>uacs_TotalTxs := uacs_TotalTxs ac - 1\<rparr>)"
  have u: "recordOk n u" "viewOf u = (if ftx then viewOf ac else (viewOf ac)\<lparr>av_TotalTxs := av_TotalTxs (viewOf ac) - 1\<rparr>)"
    using assms(1) by (simp_all add: u_def recordOk_def indexOk_def viewOf_def)
  show ?thesis
  proof (cases btxContract)
    case None
    define w where "w = viewOf u"
    have "undoView (a, b, internal, None) ftx (viewOf ac) =
        (if internal then (if av_InternalTxs w = 0 then w else w\<lparr>av_InternalTxs := av_InternalTxs w - 1\<rparr>)
         else (if av_NonContractTxs w = 0 then w else w\<lparr>av_NonContractTxs := av_NonContractTxs w - 1\<rparr>))"
      by (simp add: undoView_def w_def u(2) Let_def)
    moreover have "disconnectRecord a internal ftx None ac = Some (if internal
          then (if uacs_InternalTxs u = 0 then u else u\<lparr>uacs_InternalTxs := uacs_InternalTxs u - 1\<rparr>)
          else (if uacs_NonContractTxs u = 0 then u else u\<lparr>uacs_NonContractTxs := uacs_NonContractTxs u - 1\<rparr>))"
      by (simp add: disconnectRecord_def u_def [symmetric] Let_def word_neq_0_conv [symmetric])
    ultimately show ?thesis using u(1) None by (simp add: w_def recordOk_def indexOk_def viewOf_def)
  next
    case (Some bc)
    with assms(2) have "transferOk (undoTransferOf bc)" by (simp add: undoOk_def)
    from disconnectContract_laws [OF u(1) this assms(3), of a] Some u(2) show ?thesis
      by (simp add: disconnectRecord_def undoView_def u_def [symmetric] Let_def)
  qed
qed

definition seenBack :: "ethRollback \<Rightarrow> (bytes \<times> bytes) set" where
  "seenBack r = {(a, b). \<exists>mtx. map_of (er_addresses r) a = Some mtx \<and> b \<in> set mtx}"

lemma markTx_laws:
  assumes "markTx a b r = (ftx, r')"
  shows "ftx \<longleftrightarrow> (a, b) \<in> seenBack r" "seenBack r' = insert (a, b) (seenBack r)"
  using assms by (auto simp: markTx_def seenBack_def update_conv' split: option.splits if_splits)

definition absUndo :: "undoEvent \<Rightarrow> (bytes \<Rightarrow> addrView) \<times> (bytes \<times> bytes) set \<Rightarrow> (bytes \<Rightarrow> addrView) \<times> (bytes \<times> bytes) set" where
  "absUndo d VS =
     (case d of (a, b, _) \<Rightarrow> case VS of (V, S) \<Rightarrow> (V(a := undoView d ((a, b) \<in> S) (V a)), insert (a, b) S))"

text \<open>An event that meets an address without a record changes nothing, so it must not have to change anything.\<close>

definition alive :: "undoEvent \<Rightarrow> (bytes \<Rightarrow> addrView) \<times> (bytes \<times> bytes) set \<Rightarrow> bool" where
  "alive d VS =
     (case d of (a, b, _) \<Rightarrow> case VS of (V, S) \<Rightarrow> V a = emptyView \<longrightarrow> undoView d ((a, b) \<in> S) emptyView = emptyView)"

definition absState :: "'db ethConf \<Rightarrow> 'db ethState \<Rightarrow> (bytes \<Rightarrow> addrView) \<times> (bytes \<times> bytes) set" where
  "absState c s = (viewAt c s, seenBack (eth_rollback s))"

lemma disconnectAddress_laws:
  assumes c: "uncapped c" "rowsOk n c (eth_db s)" and s: "memoryOk n s" "n + 3 < 2 ^ 31" and a: "a \<noteq> []" "undoOk btx"
    and live: "alive (a, b, internal, btx) (absState c s)" and run: "disconnectAddress c b internal a btx s = (Inr (), s')"
  shows "memoryOk n s' \<and> eth_db s' = eth_db s \<and> absState c s' = absUndo (a, b, internal, btx) (absState c s)"
proof -
  obtain ftx rb where m: "markTx a b (eth_rollback s) = (ftx, rb)" by fastforce
  note seen = markTx_laws [OF m]
  define s1 where "s1 = s\<lparr>eth_rollback := rb\<rparr>"
  have s1: "memoryOk n s1" "rowsOk n c (eth_db s1)" "viewAt c s1 = viewAt c s" "eth_db s1 = eth_db s" "eth_rollback s1 = rb"
    using s c by (simp_all add: s1_def)
  define fetch where "fetch = (\<lambda>s. case map_of (eth_contracts s) a of
            Some p \<Rightarrow> (Inr (Some p), s)
          | None \<Rightarrow>
              bindS (getUnpackedAddrDescContracts c a) (\<lambda>ac s. case ac of
                  None \<Rightarrow> (Inr None, s)
                | Some p \<Rightarrow> (Inr (Some p), s\<lparr>eth_contracts := AList.update a p (eth_contracts s)\<rparr>)) s)"
  have "bindS fetch (\<lambda>ac s. case ac of
          None \<Rightarrow> (Inr (), s)
        | Some p \<Rightarrow>
            (case disconnectRecord a internal ftx btx (eth_heap s ! p) of
               None \<Rightarrow> (Inl Panic, s)
             | Some ac \<Rightarrow> (Inr (), s\<lparr>eth_heap := (eth_heap s)[p := ac]\<rparr>))) s1 = (Inr (), s')"
    using run a(1) m by (simp add: disconnectAddress_def fetch_def s1_def)
  then obtain ac s2 where f: "fetch s1 = (Inr ac, s2)" and r: "(case ac of
          None \<Rightarrow> (Inr (), s2)
        | Some p \<Rightarrow>
            (case disconnectRecord a internal ftx btx (eth_heap s2 ! p) of
               None \<Rightarrow> (Inl Panic, s2)
             | Some ac \<Rightarrow> (Inr (), s2\<lparr>eth_heap := (eth_heap s2)[p := ac]\<rparr>))) = (Inr (), s')"
    unfolding bindS_Inr by blast
  have s2: "memoryOk n s2 \<and> viewAt c s2 = viewAt c s \<and> eth_db s2 = eth_db s \<and> eth_rollback s2 = rb \<and>
      (ac = None \<longrightarrow> viewAt c s a = emptyView) \<and> (\<forall>p. ac = Some p \<longrightarrow> pointer s2 a = Some p)"
  proof (cases "map_of (eth_contracts s1) a")
    case (Some p)
    with f s1 pointer_contracts [OF Some] show ?thesis by (auto simp: fetch_def)
  next
    case None
    then have "bindS (getUnpackedAddrDescContracts c a) (\<lambda>ac s. case ac of
                  None \<Rightarrow> (Inr None, s)
                | Some p \<Rightarrow> (Inr (Some p), s\<lparr>eth_contracts := AList.update a p (eth_contracts s)\<rparr>)) s1 = (Inr ac, s2)"
      using f by (simp add: fetch_def)
    then obtain x s3 where g: "getUnpackedAddrDescContracts c a s1 = (Inr x, s3)"
      and e: "(case x of None \<Rightarrow> (Inr None, s3)
        | Some p \<Rightarrow> (Inr (Some p), s3\<lparr>eth_contracts := AList.update a p (eth_contracts s3)\<rparr>)) = (Inr ac :: nat option res, s2)"
      unfolding bindS_Inr by blast
    note laws = getUnpacked_laws [OF c(1) s1(2,1) None g]
    show ?thesis
    proof (cases x)
      case None
      with e laws s1 show ?thesis by (auto simp: otherwiseSame_def)
    next
      case (Some p)
      have p: "p < length (eth_heap s3)" "\<And>a'. a' \<noteq> a \<Longrightarrow> pointer s3 a' \<noteq> Some p"
        "map_of (eth_cache s3) a = None \<or> map_of (eth_cache s3) a = Some p" "viewOf (eth_heap s3 ! p) = viewAt c s a" "memoryOk n s3"
        using laws Some s1(3) by auto
      from enter_record(1) [OF p(5,1,2,3)] enter_record(2) [OF p(5,1,2,3), of c] p(4) e Some laws s1
      show ?thesis by (auto simp: otherwiseSame_def update_conv' intro!: pointer_contracts)
    qed
  qed
  show ?thesis
  proof (cases ac)
    case None
    with r s2 live seen show ?thesis by (auto simp: absState_def absUndo_def alive_def)
  next
    case (Some p)
    with s2 have p: "pointer s2 a = Some p" by simp
    obtain u where u: "disconnectRecord a internal ftx btx (eth_heap s2 ! p) = Some u" "recordOk n u"
      "viewOf u = undoView (a, b, internal, btx) ftx (viewAt c s a)"
      using disconnectRecord_laws [OF recordOk_heap [OF _ p] a(2) s(2)] s2 viewAt_pointer [OF p, of c] by metis
    have m2: "memoryOk n s2" using s2 by simp
    from store_record(1) [OF m2 p u(2)] store_record(2) [OF m2 p u(2), of c] r Some u s2 seen show ?thesis
      by (auto simp: absState_def absUndo_def)
  qed
qed

section \<open>A disconnected block as a list of events\<close>

fun allAlive :: "undoEvent list \<Rightarrow> (bytes \<Rightarrow> addrView) \<times> (bytes \<times> bytes) set \<Rightarrow> bool" where
  "allAlive [] VS = True"
| "allAlive (d # ds) VS = (alive d VS \<and> allAlive ds (absUndo d VS))"

lemma allAlive_append: "allAlive (ds @ es) VS \<longleftrightarrow> allAlive ds VS \<and> allAlive es (fold absUndo ds VS)"
  by (induction ds arbitrary: VS) auto

text \<open>A step that does to the view of the addresses what a list of events does, where it returns a value.\<close>

definition undoes :: "'db ethConf \<Rightarrow> nat \<Rightarrow> 'db \<Rightarrow> ('a, 'db ethState) step \<Rightarrow> undoEvent list \<Rightarrow> bool" where
  "undoes c n db m ds \<longleftrightarrow>
     (\<forall>s x s'. memoryOk n s \<longrightarrow> eth_db s = db \<longrightarrow> allAlive ds (absState c s) \<longrightarrow> m s = (Inr x, s') \<longrightarrow>
        memoryOk n s' \<and> eth_db s' = db \<and> absState c s' = fold absUndo ds (absState c s))"

lemma undoes_return [simp]: "undoes c n db (returnS x) []"
  by (auto simp: undoes_def)

lemma undoes_fail [simp]: "undoes c n db (\<lambda>s. (Inl e, s)) ds"
  by (auto simp: undoes_def)

lemma undoes_cong:
  assumes "undoes c n db m' ds" and "\<And>s. eth_db s = db \<Longrightarrow> m s = m' s"
  shows "undoes c n db m ds"
  using assms unfolding undoes_def by metis

lemma undoes_bind:
  assumes "undoes c n db m ds" and "\<And>x. undoes c n db (f x) es"
  shows "undoes c n db (bindS m f) (ds @ es)"
  using assms unfolding undoes_def allAlive_append bindS_Inr fold_append comp_def by metis

lemma undoes_mapS:
  "(\<And>x. x \<in> set xs \<Longrightarrow> undoes c n db (f x) (D x)) \<Longrightarrow> undoes c n db (mapS f xs) (concat (map D xs))"
proof (induction xs)
  case (Cons x xs)
  have "undoes c n db (bindS (mapS f xs) (\<lambda>ys. returnS (y # ys))) (concat (map D xs) @ [])" for y
    using Cons by (intro undoes_bind) simp_all
  then show ?case using Cons.prems [of x] by (auto intro!: undoes_bind)
qed simp

lemma undoes_disconnectAddress:
  assumes "uncapped c" and "rowsOk n c db" and "n + 3 < 2 ^ 31" and "a \<noteq> []" and "undoOk btx"
  shows "undoes c n db (disconnectAddress c b internal a btx) [(a, b, internal, btx)]"
  unfolding undoes_def
proof (intro allI impI)
  fix s x s'
  assume "memoryOk n s" "eth_db s = db" "allAlive [(a, b, internal, btx)] (absState c s)"
    "disconnectAddress c b internal a btx s = (Inr x, s')"
  with disconnectAddress_laws [OF assms(1), of n s a btx b internal s'] assms
  show "memoryOk n s' \<and> eth_db s' = db \<and> absState c s' = fold absUndo [(a, b, internal, btx)] (absState c s)" by simp
qed

lemma GetContractInfo_db: "rg_db (snd (GetContractInfo d st k UnknownTokenStandard r)) = rg_db r"
  by (auto simp: GetContractInfo_def loadContractInfo_def Let_def UnknownTokenStandard_def
      split: prod.splits sum.splits option.splits if_splits)

lemma undoes_registry: "undoes c n db (rollbackContractRegistryRow c a h destroyed) []"
  unfolding undoes_def
proof (intro allI impI)
  fix s x s'
  assume s: "memoryOk n s" "eth_db s = db" "rollbackContractRegistryRow c a h destroyed s = (Inr x, s')"
  obtain ci g where g: "GetContractInfo (ec_d c) (ec_store c) a UnknownTokenStandard (eth_reg s) = (ci, g)" by fastforce
  have db: "rg_db g = eth_db s" using GetContractInfo_db [of "ec_d c" "ec_store c" a "eth_reg s"] g by simp
  have rb: "seenBack (rollbackRow a h destroyed ci rb) = seenBack rb" for ci rb
    by (simp add: rollbackRow_def seenBack_def Let_def)
  obtain row s1 where f: "(case map_of (er_rows (eth_rollback s)) a of
         Some pending \<Rightarrow> (Inr pending, s)
       | None \<Rightarrow>
           (case GetContractInfo (ec_d c) (ec_store c) a UnknownTokenStandard (eth_reg s) of
              (ci, r) \<Rightarrow> (ci, s\<lparr>eth_reg := r\<rparr>))) = (Inr row, s1)"
    and r: "(case row of None \<Rightarrow> (Inr (), s1)
       | Some ci \<Rightarrow> (Inr (), s1\<lparr>eth_rollback := rollbackRow a h destroyed ci (eth_rollback s1)\<rparr>)) = (Inr x :: unit res, s')"
    using s(3) unfolding rollbackContractRegistryRow_def bindS_Inr by blast
  have s1: "s1 = s \<or> s1 = s\<lparr>eth_reg := g\<rparr>" using f g by (auto split: option.splits)
  have "memoryOk n s1" "eth_db s1 = db" "absState c s1 = absState c s"
    using s1 s(1,2) db by (auto simp: absState_def)
  with r rb show "memoryOk n s' \<and> eth_db s' = db \<and> absState c s' = fold absUndo [] (absState c s)"
    by (auto simp: absState_def split: option.splits)
qed

text \<open>The events of a transaction without token transfers, of its internal data, and of a transfer of tokens.\<close>

definition pairUndo :: "bytes \<Rightarrow> bool \<Rightarrow> ethBlockTxContract option \<Rightarrow> bytes \<Rightarrow> bytes \<Rightarrow> undoEvent list" where
  "pairUndo b internal btx from to = (from, b, internal, btx) # (if from \<noteq> to then [(to, b, internal, btx)] else [])"

definition internalUndo :: "'db ethConf \<Rightarrow> bytes \<Rightarrow> EthereumInternalData option \<Rightarrow> undoEvent list" where
  "internalUndo c b data =
     (case data of
        None \<Rightarrow> []
      | Some data \<Rightarrow>
          (if eid_Type data = CREATE then [(orNil (addrOf c (eid_Contract data)), b, True, None)] else []) @
          concat (map (\<lambda>t. pairUndo b True None (orNil (addrOf c (eit_From t))) (orNil (addrOf c (eit_To t)))) (eid_Transfers data)))"

definition tokenUndo :: "bytes \<times> ethBlockTxContract \<Rightarrow> undoEvent list" where
  "tokenUndo bct = (case bct of (b, ct) \<Rightarrow> pairUndo b False (Some ct) (bc_from ct) (bc_to ct))"

text \<open>The descriptors of an Ethereum-type parser have 20 bytes.\<close>

definition addressesOk :: "'db ethConf \<Rightarrow> bool" where
  "addressesOk c \<longleftrightarrow> (\<forall>x a. p_GetAddrDescFromAddress (eth_parser c) x = Inr a \<longrightarrow> length a = 20)"

lemma undoes_pair:
  assumes "uncapped c" and "rowsOk n c db" and "n + 3 < 2 ^ 31" and "from \<noteq> []" and "to \<noteq> []" and "undoOk btx"
    and "\<And>x. undoes c n db (f x) es"
  shows "undoes c n db (bindS (disconnectAddress c b internal from btx) (\<lambda>_.
      bindS (if from \<noteq> to then disconnectAddress c b internal to btx else returnS ()) f)) (pairUndo b internal btx from to @ es)"
proof -
  have "undoes c n db (if from \<noteq> to then disconnectAddress c b internal to btx else returnS ())
      (if from \<noteq> to then [(to, b, internal, btx)] else [])"
    using undoes_disconnectAddress [OF assms(1-3,5,6)] by simp
  from undoes_bind [OF undoes_disconnectAddress [OF assms(1-4,6)] undoes_bind [OF this assms(7)], of b internal]
  show ?thesis by (simp add: pairUndo_def)
qed

lemma undoes_internalTransfer:
  assumes "uncapped c" and "rowsOk n c db" and "n + 3 < 2 ^ 31" and "addressesOk c"
  shows "undoes c n db (disconnectInternalTransfer c b h t)
    (pairUndo b True None (orNil (addrOf c (eit_From t))) (orNil (addrOf c (eit_To t))))"
proof (cases "p_GetAddrDescFromAddress (eth_parser c) (eit_From t)")
  case src: (Inr a1)
  show ?thesis
  proof (cases "p_GetAddrDescFromAddress (eth_parser c) (eit_To t)")
    case dst: (Inr a2)
    have "a1 \<noteq> []" "a2 \<noteq> []" using src dst assms(4) unfolding addressesOk_def by fastforce+
    moreover have "undoes c n db (if eit_Type t = CREATE then rollbackContractRegistryRow c a2 h False
        else if eit_Type t = SELFDESTRUCT then rollbackContractRegistryRow c a1 h True else returnS ()) []"
      by (simp add: undoes_registry)
    ultimately have "undoes c n db (disconnectInternalTransfer c b h t) (pairUndo b True None a1 a2 @ [])"
      unfolding disconnectInternalTransfer_def src dst bindR_simps sum.case prod.case
      by (intro undoes_pair [OF assms(1-3)]) (simp_all add: undoOk_def)
    with src dst show ?thesis by (simp add: addrOf_def orNil_def)
  qed (simp add: disconnectInternalTransfer_def src)
qed (simp add: disconnectInternalTransfer_def)

definition rowData :: "'db ethConf \<Rightarrow> bytes \<Rightarrow> 'db \<Rightarrow> EthereumInternalData option res" where
  "rowData c b db =
     bindR (s_GetCF (ec_store c) db cfInternalData b) (\<lambda>val.
       let buf = val_Data val in
       if length buf = 0 then Inr None
       else bindR (of_panic (unpackEthInternalData (ec_d c) buf)) (\<lambda>data. Inr (Some data)))"

lemma undoes_internalData:
  assumes "uncapped c" and "rowsOk n c db" and "n + 3 < 2 ^ 31" and "addressesOk c" and "rowData c b db = Inr data"
  shows "undoes c n db (disconnectInternalData c b h) (internalUndo c b data)"
proof -
  define rest where "rest = (\<lambda>data :: EthereumInternalData option. case data of
       None \<Rightarrow> returnS ()
     | Some data \<Rightarrow>
         bindS (if eid_Type data = CREATE then
             (case p_GetAddrDescFromAddress (eth_parser c) (eid_Contract data) of
                Inl e \<Rightarrow> (\<lambda>s. (Inl e, s))
              | Inr contract \<Rightarrow>
                  bindS (disconnectAddress c b True contract None) (\<lambda>_.
                  rollbackContractRegistryRow c contract h False))
           else returnS ()) (\<lambda>_.
         bindS (mapS (disconnectInternalTransfer c b h) (eid_Transfers data)) (\<lambda>_. returnS ())))"
  have create: "undoes c n db (case p_GetAddrDescFromAddress (eth_parser c) x of
                Inl e \<Rightarrow> (\<lambda>s. (Inl e, s))
              | Inr contract \<Rightarrow>
                  bindS (disconnectAddress c b True contract None) (\<lambda>_.
                  rollbackContractRegistryRow c contract h False)) [(orNil (addrOf c x), b, True, None)]" for x
  proof (cases "p_GetAddrDescFromAddress (eth_parser c) x")
    case (Inr a)
    then have "a \<noteq> []" using assms(4) unfolding addressesOk_def by fastforce
    from undoes_bind [OF undoes_disconnectAddress [OF assms(1-3) this] undoes_registry, of None b True] Inr show ?thesis
      by (simp add: addrOf_def orNil_def undoOk_def)
  qed simp
  have "undoes c n db (rest data) (internalUndo c b data)"
  proof (cases data)
    case (Some d)
    let ?create = "case p_GetAddrDescFromAddress (eth_parser c) (eid_Contract d) of
        Inl e \<Rightarrow> (\<lambda>s. (Inl e, s))
      | Inr contract \<Rightarrow>
          bindS (disconnectAddress c b True contract None) (\<lambda>_.
          rollbackContractRegistryRow c contract h False)"
    let ?ts = "concat (map (\<lambda>t. pairUndo b True None (orNil (addrOf c (eit_From t))) (orNil (addrOf c (eit_To t)))) (eid_Transfers d))"
    have "undoes c n db (mapS (disconnectInternalTransfer c b h) (eid_Transfers d)) ?ts"
      by (intro undoes_mapS undoes_internalTransfer assms)
    then have tail: "undoes c n db (bindS (mapS (disconnectInternalTransfer c b h) (eid_Transfers d)) (\<lambda>_. returnS ())) (?ts @ [])"
      by (intro undoes_bind undoes_return)
    have head: "undoes c n db (if eid_Type d = CREATE then ?create else returnS ())
        (if eid_Type d = CREATE then [(orNil (addrOf c (eid_Contract d)), b, True, None)] else [])"
    proof (cases "eid_Type d = CREATE")
      case True
      with create [of "eid_Contract d"] show ?thesis by (simp only: if_True simp_thms)
    qed (simp only: if_False undoes_return)
    from undoes_bind [OF head tail] have "undoes c n db (rest (Some d)) (internalUndo c b (Some d))"
      unfolding rest_def internalUndo_def option.case by (simp only: append_Nil2)
    with Some show ?thesis by simp
  qed (simp add: rest_def internalUndo_def)
  moreover have "disconnectInternalData c b h s = rest data s" if "eth_db s = db" for s
  proof -
    have "getEthereumInternalData c b s = Inr data"
      using that assms(5) by (simp add: rowData_def getEthereumInternalData_def eth_get_def)
    then show ?thesis unfolding disconnectInternalData_def rest_def bindS_def by (simp only: prod.case sum.case)
  qed
  ultimately show ?thesis by (rule undoes_cong)
qed

definition baseUndo :: "'db ethConf \<Rightarrow> (bytes \<Rightarrow> EthereumInternalData option) \<Rightarrow> ethBlockTx \<Rightarrow> undoEvent list" where
  "baseUndo c data bt =
     pairUndo (ebt_btxID bt) False None (ebt_from bt) (ebt_to bt) @ internalUndo c (ebt_btxID bt) (data (ebt_btxID bt))"

definition blockUndo :: "'db ethConf \<Rightarrow> (bytes \<Rightarrow> EthereumInternalData option) \<Rightarrow> ethBlockTx list \<Rightarrow> undoEvent list" where
  "blockUndo c data bts =
     concat (map (baseUndo c data) bts) @
     concat (map tokenUndo (rev (concat (map (\<lambda>bt. map (Pair (ebt_btxID bt)) (ebt_contracts bt)) bts))))"

lemma undoes_block:
  assumes c: "uncapped c" "rowsOk n c db" "n + 3 < 2 ^ 31" "addressesOk c"
    and data: "\<And>bt. bt \<in> set bts \<Longrightarrow> rowData c (ebt_btxID bt) db = Inr (data (ebt_btxID bt))"
    and base: "\<And>bt. bt \<in> set bts \<Longrightarrow> ebt_from bt \<noteq> [] \<and> ebt_to bt \<noteq> []"
    and toks: "\<And>bt ct. bt \<in> set bts \<Longrightarrow> ct \<in> set (ebt_contracts bt) \<Longrightarrow> bc_from ct \<noteq> [] \<and> bc_to ct \<noteq> [] \<and> undoOk (Some ct)"
  shows "undoes c n db (\<lambda>s. bindS (mapS (disconnectBaseTx c h) bts) (\<lambda>wbs.
     bindS (mapS (disconnectTokenTransfer c)
       (rev (concat (map (\<lambda>bt. map (Pair (ebt_btxID bt)) (ebt_contracts bt)) bts)))) (\<lambda>_ s. (Inr (g wbs s), s))) s) (blockUndo c data bts)"
proof -
  let ?toks = "rev (concat (map (\<lambda>bt. map (Pair (ebt_btxID bt)) (ebt_contracts bt)) bts))"
  have "undoes c n db (disconnectBaseTx c h bt) (baseUndo c data bt)" if "bt \<in> set bts" for bt
  proof -
    have "undoes c n db (bindS (disconnectInternalData c (ebt_btxID bt) h)
        (\<lambda>_. returnS [DeleteCF cfTransactions (ebt_btxID bt), DeleteCF cfInternalData (ebt_btxID bt)]))
        (internalUndo c (ebt_btxID bt) (data (ebt_btxID bt)) @ [])"
      by (intro undoes_bind undoes_internalData c data [OF that] undoes_return)
    with base [OF that] show ?thesis
      unfolding disconnectBaseTx_def Let_def baseUndo_def by (intro undoes_pair c) (simp_all add: undoOk_def)
  qed
  then have one: "undoes c n db (mapS (disconnectBaseTx c h) bts) (concat (map (baseUndo c data) bts))" by (rule undoes_mapS)
  have "undoes c n db (disconnectTokenTransfer c bct) (tokenUndo bct)"
    if "bct \<in> set (concat (map (\<lambda>bt. map (Pair (ebt_btxID bt)) (ebt_contracts bt)) bts))" for bct
  proof -
    obtain b ct where bct: "bct = (b, ct)" by fastforce
    with that toks have ok: "bc_from ct \<noteq> []" "bc_to ct \<noteq> []" "undoOk (Some ct)" by auto
    have "undoes c n db (bindS (disconnectAddress c b False (bc_from ct) (Some ct)) (\<lambda>_.
        bindS (if bc_from ct \<noteq> bc_to ct then disconnectAddress c b False (bc_to ct) (Some ct) else returnS ()) returnS))
        (pairUndo b False (Some ct) (bc_from ct) (bc_to ct) @ [])"
      by (intro undoes_pair c ok undoes_return)
    then show ?thesis by (simp add: disconnectTokenTransfer_def tokenUndo_def bct)
  qed
  then have two: "undoes c n db (mapS (disconnectTokenTransfer c) ?toks) (concat (map tokenUndo ?toks))"
    by (intro undoes_mapS) simp
  have three: "undoes c n db (\<lambda>s. (Inr (g wbs s), s)) []" for wbs by (auto simp: undoes_def)
  from undoes_bind [OF one undoes_bind [OF two three]] show ?thesis by (simp add: blockUndo_def)
qed

end
