(* ===== verification/Spec2Isabelle.thy ===== *)
theory Spec2Isabelle
  imports BlocksLaws Amounts SyscoinParser RollbackLaws RateLimitsLaws ClientIP EthLazyLaws EthRegistryLaws EthRollbackLaws
begin

text \<open>
  \<^bold>\<open>Blockbook.\<close> Blockbook follows the node of a coin, indexes its blocks in a RocksDB database and answers requests for
  addresses, transactions and balances over REST and websocket. The development models the index of Bitcoin-type
  chains with the extension for Syscoin assets, the token holdings of Ethereum-type chains, the codecs below them, the
  state and the parsers the index depends on, and the admission of clients at the public interface.

  \<^bold>\<open>How the parts interact.\<close> The parser of a coin turns the answers of the node into blocks. \<open>ConnectBlock\<close> turns a block
  into rows of the columns txAddresses, addressBalance, addresses, blockTxs, height, assets, txAssets and blockFilter
  and writes them in one batch. A rollback reads blockTxs and txAddresses and undoes the balances. The API reads the
  same rows. The internal state is shared by the index and the server. The server admits a request by the address of
  its client before a handler runs.

  \<^bold>\<open>Theories and sources.\<close> All sources are below \<open>src/\<close>.
  \<^item> \<open>Prelude\<close>: errors as values, slices with their bounds checks, 32-bit signed integers, big-endian integers,
    hexadecimal strings. \<open>Strings\<close>: the functions of the packages strings and strconv that the sources call.
  \<^item> \<open>Codec\<close>, \<open>CodecLaws\<close>: the packing functions at the end of \<open>db/rocksdb.go\<close>. The locales \<open>codec\<close>, \<open>exact_codec\<close> and
    \<open>skipping_codec\<close> are the contract of a pair of packing functions; every codec of the index is an interpretation, and
    loops over packed elements are verified once inside the locales.
  \<^item> \<open>Store\<close>: columns, write batches and the contract of the database. \<open>Bchain\<close>: \<open>bchain/types.go\<close> and
    \<open>bchain/baseparser.go\<close>. \<open>Instances\<close>: concrete parameters for witnesses.
  \<^item> \<open>TxAddresses\<close>, \<open>AddrBalance\<close>, \<open>Blocks\<close>, each with a theory of laws: the rows of \<open>db/rocksdb.go\<close> and their readers.
  \<^item> \<open>Connect\<close>, \<open>ConnectLaws\<close>: \<open>processAddressesBitcoinType\<close>. The transactions of a block are shared between several maps
    of the code, so they live in an explicit heap. \<open>Disconnect\<close>, \<open>DisconnectLaws\<close>, \<open>RollbackLaws\<close>: \<open>ConnectBlock\<close>,
    \<open>disconnectBlock\<close> and \<open>DisconnectBlockRangeBitcoinType\<close>.
  \<^item> \<open>Assets\<close>, \<open>SyscoinParser\<close>: \<open>db/rocksdb_syscointype.go\<close> and \<open>bchain/coins/sys/syscoinparser.go\<close>.
  \<^item> \<open>Golomb\<close>: \<open>bchain/golomb.go\<close>. \<open>Amounts\<close>: amounts in \<open>bchain/baseparser.go\<close>. \<open>InternalState\<close>:
    \<open>common/internalstate.go\<close>.
  \<^item> \<open>EthContracts\<close>, \<open>EthLazy\<close>: the column addressContracts of \<open>db/rocksdb_ethereumtype.go\<close>, fully decoded and with
    numbers decoded on demand.
  \<^item> \<open>RateLimits\<close>, \<open>RateLimitsLaws\<close>: \<open>server/websocket_rate_limiter.go\<close> and \<open>server/rest_rate_limiter.go\<close>.
    \<open>Netip\<close>, \<open>NetipLaws\<close>: net/netip and the splitting of host and port. \<open>ClientIP\<close>: \<open>server/client_ip.go\<close>.

  \<^bold>\<open>What the lemmas show.\<close>
  \<^item> Rows: packing and unpacking are inverse for every row format, up to the canonical form of numbers of more than 248
    bytes; reading one output without decoding a row agrees with decoding it; keys of the address index order heights
    downwards, so that a scan delivers the newest transactions first.
  \<^item> Connection: \<open>processAddressesBitcoinType\<close> refines a ledger that credits and debits addresses; the batch of a block
    makes exactly the rows of its addresses readable; a rollback restores all balances; a rollback of a range removes
    everything or reports an error; a rollback down to height 0 never succeeds, because the counter of the loop wraps.
  \<^item> Optimisations: the index over unspent outputs finds the output that the linear search finds, and stays consistent.
  \<^item> Server: no client exceeds its limits of connections, requests or messages; blocks hold for their time; a client that
    does not come through a trusted proxy cannot choose the address it is counted under.

  \<^bold>\<open>Parameters.\<close> The library go-vlq (\<open>vlq_ok\<close>), the database (\<open>store_ok\<close>), the coder of block filters, the wire format
  of Syscoin, the NEVM back end, floating point operations, environment variables and files are arguments of the
  definitions. Where a theorem needs their documented behaviour it is a hypothesis, and a witness instantiates it.

  \<^bold>\<open>Loops and fuel.\<close> Loops over slices are structural recursions. Loops over the bytes of a row carry a counter that
  starts with the length of the row; every round consumes at least one byte of a row written by the index, so that the
  counter does not run out on such rows. Binary searches are functions with a termination proof. Where the code itself
  would not end on damaged rows, the model returns the error \<open>Panic\<close>, and the theorems are on rows that were written.

  \<^bold>\<open>Not modelled.\<close> Locks (the operations that a mutex protects are atomic steps), metrics and logging; the HTTP and
  websocket handlers, templates and API types, which format what the index returns; RPC clients, message queues and
  fiat rate downloaders, which are I/O; generated protobuf code; address formats of the coins other than what the index
  asks of a parser; the command line.
\<close>

end
